(* ===== verification/Nachos_Prelude.thy ===== *)
theory Nachos_Prelude
  imports Main "HOL-Library.Word" "HOL-Library.Signed_Division" "HOL-Library.Multiset"
begin

unbundle bit_operations_syntax

text \<open>
  What every component of the kernel model shares.

  \<^item> How C++ code ends: a call returns a value, or the whole \<^verbatim>\<open>nachos\<close> process stops
    (type \<open>stop\<close>). \<open>Aborted\<close> is a failed \<^verbatim>\<open>ASSERT\<close> (utility.h), \<open>Halted\<close> is
    \<^verbatim>\<open>Interrupt::Halt\<close>, \<open>Undefined\<close> is a step on which C++ gives no meaning to the program
    (a NULL or dangling pointer, an index past the end of an array, a division that traps),
    \<open>Diverged\<close> is a call that never returns because a loop in it does not end.
    A model function of type \<open>'a res\<close> therefore says of every call which of these happens.
  \<^item> \<open>rbind\<close> is the sequencing of two statements, \<open>arr_get\<close> and \<open>arr_set\<close> are C array
    accesses with the out-of-range case made explicit, \<open>for_each\<close> is a
    \<^verbatim>\<open>for (i = a; i < b; i++)\<close> loop whose body may stop the process.
  \<^item> Machine integers: a C \<^verbatim>\<open>int\<close> that is a value of the simulated machine is a \<open>32 word\<close>
    read with \<open>sint\<close>; sizes and indices of kernel tables are \<open>int\<close> with the code's own
    range checks; where a sum may leave the range of an \<^verbatim>\<open>int\<close> it goes through \<open>cint\<close>.
\<close>

named_theorems res_simps \<open>rewrite rules of the result type and of checked array access\<close>
named_theorems const_defs \<open>the program's preprocessor constants\<close>

subsection \<open>Results\<close>

datatype stop = Aborted | Halted | Undefined | Diverged

type_synonym 'a res = "stop + 'a"

type_synonym byte = "8 word"
type_synonym int32 = "32 word"

text \<open>The result of a loop that is a partial function.\<close>

definition returns :: "'a res option \<Rightarrow> 'a res" where
  "returns r = (case r of None \<Rightarrow> Inl Diverged | Some x \<Rightarrow> x)"

definition rbind :: "'a res \<Rightarrow> ('a \<Rightarrow> 'b res) \<Rightarrow> 'b res" where
  "rbind m f = (case m of Inl e \<Rightarrow> Inl e | Inr x \<Rightarrow> f x)"

text \<open>The macro \<^verbatim>\<open>ASSERT(condition)\<close> of utility.h: print a message and \<^verbatim>\<open>Abort()\<close>.\<close>

definition ASSERT :: "bool \<Rightarrow> unit res" where
  "ASSERT c = (if c then Inr () else Inl Aborted)"

definition arr_get :: "'a list \<Rightarrow> int \<Rightarrow> 'a res" where
  "arr_get xs i = (if 0 \<le> i \<and> i < int (length xs) then Inr (xs ! nat i) else Inl Undefined)"

definition arr_set :: "'a list \<Rightarrow> int \<Rightarrow> 'a \<Rightarrow> 'a list res" where
  "arr_set xs i v =
     (if 0 \<le> i \<and> i < int (length xs) then Inr (xs[nat i := v]) else Inl Undefined)"

text \<open>Arithmetic on a C \<^verbatim>\<open>int\<close>: a result outside its range has no meaning in C++.\<close>

definition word_range :: "int \<Rightarrow> bool" where
  "word_range n \<longleftrightarrow> - (2 ^ 31) \<le> n \<and> n < 2 ^ 31"

definition cint :: "int \<Rightarrow> int res" where
  "cint n = (if word_range n then Inr n else Inl Undefined)"

fun for_each :: "('i \<Rightarrow> 's \<Rightarrow> 's res) \<Rightarrow> 'i list \<Rightarrow> 's \<Rightarrow> 's res" where
  "for_each f [] s = Inr s"
| "for_each f (i # is) s = rbind (f i s) (\<lambda>s'. for_each f is s')"

text \<open>
  \<^verbatim>\<open>divRoundUp(n,s)\<close> of utility.h, on C integers: \<^verbatim>\<open>/\<close> and \<^verbatim>\<open>%\<close> truncate towards zero,
  which is what \<open>sdiv\<close> and \<open>smod\<close> of the signed-division library compute.
\<close>

definition divRoundDown :: "int \<Rightarrow> int \<Rightarrow> int" where
  "divRoundDown n s = n sdiv s"

definition divRoundUp :: "int \<Rightarrow> int \<Rightarrow> int" where
  "divRoundUp n s = n sdiv s + (if n smod s > 0 then 1 else 0)"

subsection \<open>Rules for results\<close>

lemma rbind_Inr [simp, res_simps]: "rbind (Inr x) f = f x"
  by (simp add: rbind_def)

lemma rbind_Inl [simp, res_simps]: "rbind (Inl e) f = Inl e"
  by (simp add: rbind_def)

lemma rbind_assoc [res_simps]: "rbind (rbind m f) g = rbind m (\<lambda>x. rbind (f x) g)"
  by (cases m) simp_all

lemma returns_Some [simp, res_simps]: "returns (Some r) = r"
  by (simp add: returns_def)

lemma rbind_eq_Inr: "rbind m f = Inr y \<longleftrightarrow> (\<exists>x. m = Inr x \<and> f x = Inr y)"
  by (cases m) simp_all

lemma rbind_eq_Inl: "rbind m f = Inl e \<longleftrightarrow> m = Inl e \<or> (\<exists>x. m = Inr x \<and> f x = Inl e)"
  by (cases m) simp_all

lemma rbind_cong [fundef_cong]:
  "m = m' \<Longrightarrow> (\<And>x. m' = Inr x \<Longrightarrow> f x = g x) \<Longrightarrow> rbind m f = rbind m' g"
  by (cases m') simp_all

lemma ASSERT_True [simp, res_simps]: "c \<Longrightarrow> ASSERT c = Inr ()"
  by (simp add: ASSERT_def)

lemma ASSERT_False [simp, res_simps]: "\<not> c \<Longrightarrow> ASSERT c = Inl Aborted"
  by (simp add: ASSERT_def)

lemma ASSERT_eq_Inr: "ASSERT c = Inr u \<longleftrightarrow> c"
  by (simp add: ASSERT_def)

lemma arr_get_ok [simp, res_simps]:
  "0 \<le> i \<Longrightarrow> i < int (length xs) \<Longrightarrow> arr_get xs i = Inr (xs ! nat i)"
  by (simp add: arr_get_def)

lemma arr_set_ok [simp, res_simps]:
  "0 \<le> i \<Longrightarrow> i < int (length xs) \<Longrightarrow> arr_set xs i v = Inr (xs[nat i := v])"
  by (simp add: arr_set_def)

lemma arr_get_out: "i < 0 \<or> int (length xs) \<le> i \<Longrightarrow> arr_get xs i = Inl Undefined"
  by (auto simp: arr_get_def)

lemma arr_get_eq_Inr: "arr_get xs i = Inr x \<longleftrightarrow> 0 \<le> i \<and> i < int (length xs) \<and> x = xs ! nat i"
  by (auto simp: arr_get_def)

lemma arr_set_eq_Inr:
  "arr_set xs i v = Inr ys \<longleftrightarrow> 0 \<le> i \<and> i < int (length xs) \<and> ys = xs[nat i := v]"
  by (auto simp: arr_set_def)

text \<open>Calls that come to an end: with a value, or with the end of the process.\<close>

definition ends :: "'a res \<Rightarrow> bool" where
  "ends r \<longleftrightarrow> r \<noteq> Inl Diverged"

lemma ends_Inr [simp, intro]: "ends (Inr x)"
  by (simp add: ends_def)

lemma ends_Inl [simp]: "ends (Inl e) \<longleftrightarrow> e \<noteq> Diverged"
  by (simp add: ends_def)

lemma cint_ok [simp]: "word_range n \<Longrightarrow> cint n = Inr n"
  by (simp add: cint_def)

lemma cint_eq_Inr: "cint n = Inr m \<longleftrightarrow> word_range n \<and> m = n"
  by (auto simp: cint_def)

lemma word_range_01 [simp]: "word_range 0" "word_range 1"
  by (simp_all add: word_range_def)

lemma ends_cint [simp, intro]: "ends (cint n)"
  by (simp add: cint_def)

lemma ends_ASSERT [simp, intro]: "ends (ASSERT c)"
  by (simp add: ASSERT_def)

lemma ends_arr_get [simp, intro]: "ends (arr_get xs i)"
  by (simp add: arr_get_def)

lemma ends_arr_set [simp, intro]: "ends (arr_set xs i v)"
  by (simp add: arr_set_def)

lemma ends_rbind [intro]: "ends m \<Longrightarrow> (\<And>x. m = Inr x \<Longrightarrow> ends (f x)) \<Longrightarrow> ends (rbind m f)"
  by (cases m) simp_all

subsection \<open>Loops\<close>

lemma for_each_append: "for_each f (is @ js) s = rbind (for_each f is s) (for_each f js)"
proof (induction "is" arbitrary: s)
  case (Cons i "is")
  then show ?case by (cases "f i s") simp_all
qed simp

lemma for_each_cong [fundef_cong]:
  "is = js \<Longrightarrow> s = t \<Longrightarrow> (\<And>i u. i \<in> set js \<Longrightarrow> f i u = g i u) \<Longrightarrow> for_each f is s = for_each g js t"
  by (induction js arbitrary: "is" s t) (auto intro!: rbind_cong)

text \<open>
  The loop rule: an invariant indexed by the number of iterations done, kept by every
  iteration, holds of the state the loop ends in, and the loop does end.
\<close>

lemma for_each_upt_inv:
  assumes "I 0 s"
    and step: "\<And>i u. i < n \<Longrightarrow> I i u \<Longrightarrow> \<exists>u'. f i u = Inr u' \<and> I (Suc i) u'"
  shows "\<exists>s'. for_each f [0..<n] s = Inr s' \<and> I n s'"
  using step
proof (induction n)
  case 0
  with \<open>I 0 s\<close> show ?case by simp
next
  case (Suc n)
  then obtain t where t: "for_each f [0..<n] s = Inr t" "I n t"
    by (metis less_SucI)
  from Suc.prems [of n t] t(2) obtain t' where "f n t = Inr t'" "I (Suc n) t'"
    by auto
  with t(1) show ?case by (simp add: for_each_append)
qed

lemma for_each_Inr_inv:
  assumes "for_each f is s = Inr s'" and "I s"
    and "\<And>i u u'. i \<in> set is \<Longrightarrow> I u \<Longrightarrow> f i u = Inr u' \<Longrightarrow> I u'"
  shows "I s'"
  using assms by (induction "is" arbitrary: s) (auto simp: rbind_eq_Inr)

lemma ends_for_each: "(\<And>i u. i \<in> set is \<Longrightarrow> ends (f i u)) \<Longrightarrow> ends (for_each f is s)"
  by (induction "is" arbitrary: s) (auto intro!: ends_rbind)

subsection \<open>Rounding\<close>

lemma sdiv_nonneg [simp]: "0 \<le> n \<Longrightarrow> 0 < s \<Longrightarrow> n sdiv s = n div (s :: int)"
  by (simp add: signed_divide_int_def sgn_if)

lemma smod_nonneg [simp]: "0 \<le> n \<Longrightarrow> 0 < s \<Longrightarrow> n smod s = n mod (s :: int)"
  by (cases "n = 0") (simp_all add: signed_modulo_int_def sgn_if)

lemma divRoundUp_nonneg: "0 \<le> n \<Longrightarrow> 0 < s \<Longrightarrow> 0 \<le> divRoundUp n s"
  by (simp add: divRoundUp_def pos_imp_zdiv_nonneg_iff)

text \<open>Enough blocks of size \<open>s\<close> for \<open>n\<close> items, and not one block too many.\<close>

lemma divRoundUp_upper: "0 \<le> n \<Longrightarrow> 0 < s \<Longrightarrow> n \<le> divRoundUp n s * s"
proof -
  assume n: "0 \<le> n" and s: "0 < s"
  define m where "m = n mod s"
  have "n div s * s = n - m" by (simp add: m_def minus_mod_eq_div_mult)
  moreover have "m < s" using s by (simp add: m_def)
  ultimately show ?thesis using n s by (simp add: divRoundUp_def distrib_right flip: m_def)
qed

lemma divRoundUp_lower: "0 \<le> n \<Longrightarrow> 0 < s \<Longrightarrow> divRoundUp n s * s < n + s"
proof -
  assume n: "0 \<le> n" and s: "0 < s"
  define m where "m = n mod s"
  have "n div s * s = n - m" by (simp add: m_def minus_mod_eq_div_mult)
  moreover have "0 \<le> m" using s by (simp add: m_def)
  ultimately show ?thesis using n s by (simp add: divRoundUp_def distrib_right flip: m_def)
qed

lemma div_less_divRoundUp: "0 \<le> i \<Longrightarrow> i < n \<Longrightarrow> 0 < s \<Longrightarrow> i div s < divRoundUp n s"
proof -
  assume i: "0 \<le> i" "i < n" and s: "0 < s"
  then have "i < divRoundUp n s * s" using divRoundUp_upper [of n s] by simp
  moreover have "i div s * s \<le> i" using s by (simp add: minus_mod_eq_div_mult [symmetric])
  ultimately have "i div s * s < divRoundUp n s * s" by simp
  then show ?thesis using s by (simp add: mult_less_cancel_right)
qed

end
