(* ===== verification/Machine_Memory.thy ===== *)
theory Machine_Memory
  imports Nachos_Prelude
begin

text \<open>
  The state of the simulated MIPS machine and its memory management unit: machine/machine.h,
  machine/machine.cc, machine/translate.h and machine/translate.cc, up to the trap into the
  kernel. The record \<open>machine\<close> is extended by the theories of the components that build on it
  (interrupt state, kernel state), so every operation here works on any such extension.

  Registers are a C array of \<^verbatim>\<open>NumTotalRegs\<close> integers. Main memory is an array of
  \<^verbatim>\<open>MemorySize\<close> bytes, read and written through \<open>mem_get\<close> and \<open>mem_set\<close>, which make an access
  outside it \<open>Undefined\<close>. The page tables and the TLB are shared arrays of
  \<^verbatim>\<open>TranslationEntry\<close> (an address space and the machine point to the same array), so they live
  in a store \<open>tables\<close> and \<^verbatim>\<open>tlb\<close> and \<^verbatim>\<open>pageTable\<close> are pointers into it.

  The code is configured for a little-endian host (\<^verbatim>\<open>HOST_i386\<close> in Makefile.dep); the byte
  swapping routines are modelled for both settings of \<^verbatim>\<open>HOST_IS_BIG_ENDIAN\<close>.
\<close>

unbundle bit_operations_syntax

subsection \<open>Constants and data\<close>

definition SectorSize :: int where [const_defs]: "SectorSize = 128"
definition PageSize :: int where [const_defs]: "PageSize = SectorSize"
definition NumPhysPages :: int where [const_defs]: "NumPhysPages = 128"
definition MemorySize :: int where [const_defs]: "MemorySize = NumPhysPages * PageSize"
definition TLBSize :: nat where [const_defs]: "TLBSize = 4"

abbreviation (input) StackReg :: int where "StackReg \<equiv> 29"
abbreviation (input) RetAddrReg :: int where "RetAddrReg \<equiv> 31"
abbreviation (input) HiReg :: int where "HiReg \<equiv> 32"
abbreviation (input) LoReg :: int where "LoReg \<equiv> 33"
abbreviation (input) PCReg :: int where "PCReg \<equiv> 34"
abbreviation (input) NextPCReg :: int where "NextPCReg \<equiv> 35"
abbreviation (input) PrevPCReg :: int where "PrevPCReg \<equiv> 36"
abbreviation (input) LoadReg :: int where "LoadReg \<equiv> 37"
abbreviation (input) LoadValueReg :: int where "LoadValueReg \<equiv> 38"
abbreviation (input) BadVAddrReg :: int where "BadVAddrReg \<equiv> 39"

definition NumTotalRegs :: nat where [const_defs]: "NumTotalRegs = 40"

datatype ExceptionType =
    NoException | SyscallException | PageFaultException | ReadOnlyException
  | BusErrorException | AddressErrorException | OverflowException | IllegalInstrException
  | NumExceptionTypes

record TranslationEntry =
  virtualPage :: int32
  physicalPage :: int32
  valid :: bool
  readOnly :: bool
  te_use :: bool
  dirty :: bool

record machine =
  registers :: "int32 list"
  mainMemory :: "nat \<Rightarrow> byte"
  tables :: "nat \<rightharpoonup> TranslationEntry list"
  tlb :: "nat option"
  pageTable :: "nat option"
  pageTableSize :: int32
  singleStep :: bool
  runUntilTime :: int

subsection \<open>Registers\<close>

definition ReadRegister :: "int \<Rightarrow> 'a machine_scheme \<Rightarrow> int32 res" where
  "ReadRegister num m =
     rbind (ASSERT (num \<ge> 0 \<and> num < int NumTotalRegs)) (\<lambda>_. arr_get (registers m) num)"

definition WriteRegister :: "int \<Rightarrow> int32 \<Rightarrow> 'a machine_scheme \<Rightarrow> 'a machine_scheme res" where
  "WriteRegister num v m =
     rbind (ASSERT (num \<ge> 0 \<and> num < int NumTotalRegs)) (\<lambda>_.
     rbind (arr_set (registers m) num v) (\<lambda>rs. Inr (m\<lparr>registers := rs\<rparr>)))"

text \<open>\<^verbatim>\<open>registers[i]\<close> and \<^verbatim>\<open>registers[i] = v\<close>, the accesses of the simulator itself.\<close>

definition reg :: "'a machine_scheme \<Rightarrow> int \<Rightarrow> int32 res" where
  "reg m i = arr_get (registers m) i"

definition set_reg :: "int \<Rightarrow> int32 \<Rightarrow> 'a machine_scheme \<Rightarrow> 'a machine_scheme res" where
  "set_reg i v m = rbind (arr_set (registers m) i v) (\<lambda>rs. Inr (m\<lparr>registers := rs\<rparr>))"

text \<open>\<^verbatim>\<open>Machine::DelayedLoad\<close>: apply the load in flight, record the next one, keep R0 zero.\<close>

definition DelayedLoad :: "int32 \<Rightarrow> int32 \<Rightarrow> 'a machine_scheme \<Rightarrow> 'a machine_scheme res" where
  "DelayedLoad nextReg nextValue m =
     rbind (reg m LoadReg) (\<lambda>r.
     rbind (reg m LoadValueReg) (\<lambda>v.
     rbind (set_reg (sint r) v m) (\<lambda>m1.
     rbind (set_reg LoadReg nextReg m1) (\<lambda>m2.
     rbind (set_reg LoadValueReg nextValue m2) (\<lambda>m3.
     set_reg 0 0 m3)))))"

subsection \<open>Byte order\<close>

definition WordToHost :: "bool \<Rightarrow> int32 \<Rightarrow> int32" where
  "WordToHost HOST_IS_BIG_ENDIAN word =
     (if HOST_IS_BIG_ENDIAN
      then (drop_bit 24 word AND 0x000000ff) OR (drop_bit 8 word AND 0x0000ff00) OR
           (push_bit 8 word AND 0x00ff0000) OR (push_bit 24 word AND 0xff000000)
      else word)"

definition ShortToHost :: "bool \<Rightarrow> 16 word \<Rightarrow> 16 word" where
  "ShortToHost HOST_IS_BIG_ENDIAN shortword =
     (if HOST_IS_BIG_ENDIAN
      then (push_bit 8 shortword AND 0xff00) OR (drop_bit 8 shortword AND 0x00ff)
      else shortword)"

definition WordToMachine :: "bool \<Rightarrow> int32 \<Rightarrow> int32" where
  "WordToMachine big word = WordToHost big word"

definition ShortToMachine :: "bool \<Rightarrow> 16 word \<Rightarrow> 16 word" where
  "ShortToMachine big shortword = ShortToHost big shortword"

text \<open>
  What \<^verbatim>\<open>*(unsigned int *) p\<close> and \<^verbatim>\<open>*(unsigned short *) p\<close> load and store on a host of
  either byte order.
\<close>

definition host_load32 :: "bool \<Rightarrow> byte list \<Rightarrow> int32" where
  "host_load32 big bs =
     (let b = (\<lambda>i. ucast (bs ! i)) in
      if big then push_bit 24 (b 0) OR push_bit 16 (b 1) OR push_bit 8 (b 2) OR b 3
      else b 0 OR push_bit 8 (b 1) OR push_bit 16 (b 2) OR push_bit 24 (b 3))"

definition host_store32 :: "bool \<Rightarrow> int32 \<Rightarrow> byte list" where
  "host_store32 big w =
     (let bs = [ucast w, ucast (drop_bit 8 w), ucast (drop_bit 16 w), ucast (drop_bit 24 w)]
      in if big then rev bs else bs)"

definition host_load16 :: "bool \<Rightarrow> byte list \<Rightarrow> 16 word" where
  "host_load16 big bs =
     (if big then push_bit 8 (ucast (bs ! 0)) OR ucast (bs ! 1)
      else ucast (bs ! 0) OR push_bit 8 (ucast (bs ! 1)))"

definition host_store16 :: "bool \<Rightarrow> 16 word \<Rightarrow> byte list" where
  "host_store16 big w = (let bs = [ucast w, ucast (drop_bit 8 w)] in if big then rev bs else bs)"

text \<open>Whether the macro is defined, and the byte order of the host, which \<^verbatim>\<open>CheckEndian\<close> compares. The model is that of a
  build for a little-endian host; \<open>host_big_endian\<close> occurs in that check only, the code behind it reads and writes integers in the order
  of the macro.\<close>

definition HOST_IS_BIG_ENDIAN :: bool where [const_defs]: "HOST_IS_BIG_ENDIAN = False"
definition host_big_endian :: bool where [const_defs]: "host_big_endian = False"

definition CheckEndian :: "bool \<Rightarrow> bool \<Rightarrow> unit res" where
  "CheckEndian macro host =
     ASSERT (host_load32 host [1, 2, 3, 4] = (if macro then 0x01020304 else 0x04030201))"

subsection \<open>Construction\<close>

text \<open>
  \<^verbatim>\<open>Machine::Machine(debug)\<close>. With \<^verbatim>\<open>USE_TLB\<close> the TLB array is allocated (at address \<open>a\<close>,
  with contents \<open>fresh\<close> apart from the valid bits); \<^verbatim>\<open>pageTableSize\<close> and \<^verbatim>\<open>runUntilTime\<close> are
  not initialised by the constructor.
\<close>

definition Machine_new ::
    "bool \<Rightarrow> nat \<Rightarrow> (nat \<Rightarrow> TranslationEntry) \<Rightarrow> int32 \<Rightarrow> int \<Rightarrow> bool \<Rightarrow> machine res" where
  "Machine_new USE_TLB a fresh pts rut debug =
     rbind (CheckEndian HOST_IS_BIG_ENDIAN host_big_endian) (\<lambda>_.
     Inr \<lparr>registers = replicate NumTotalRegs 0, mainMemory = (\<lambda>_. 0),
          tables = (if USE_TLB then [a \<mapsto> map (\<lambda>i. (fresh i)\<lparr>valid := False\<rparr>) [0..<TLBSize]]
                    else Map.empty),
          tlb = (if USE_TLB then Some a else None), pageTable = None, pageTableSize = pts,
          singleStep = debug, runUntilTime = rut\<rparr>)"

subsection \<open>Address translation\<close>

text \<open>The search of the TLB: the index of the first valid entry for the page.\<close>

fun tlb_search :: "TranslationEntry list \<Rightarrow> int32 \<Rightarrow> nat list \<Rightarrow> nat option res" where
  "tlb_search es vpn [] = Inr None"
| "tlb_search es vpn (i # is) =
     rbind (arr_get es (int i)) (\<lambda>e.
     if valid e \<and> virtualPage e = vpn then Inr (Some i) else tlb_search es vpn is)"

text \<open>
  The entry that translates a page, as the array that holds it and its index there, or the
  exception of a page without translation.
\<close>

definition table_at :: "'a machine_scheme \<Rightarrow> nat option \<Rightarrow> TranslationEntry list res" where
  "table_at m p = (case p of None \<Rightarrow> Inl Undefined
     | Some a \<Rightarrow> (case tables m a of None \<Rightarrow> Inl Undefined | Some es \<Rightarrow> Inr es))"

definition find_entry :: "int32 \<Rightarrow> 'a machine_scheme \<Rightarrow> (ExceptionType + nat \<times> nat) res" where
  "find_entry vpn m =
     (case tlb m of
        None \<Rightarrow>
          if vpn \<ge> pageTableSize m then Inr (Inl AddressErrorException)
          else rbind (table_at m (pageTable m)) (\<lambda>es.
               rbind (arr_get es (uint vpn)) (\<lambda>e.
               if \<not> valid e then Inr (Inl PageFaultException)
               else Inr (Inr (the (pageTable m), unat vpn))))
      | Some a \<Rightarrow>
          rbind (table_at m (tlb m)) (\<lambda>es.
          rbind (tlb_search es vpn [0..<TLBSize]) (\<lambda>r.
          case r of None \<Rightarrow> Inr (Inl PageFaultException) | Some i \<Rightarrow> Inr (Inr (a, i)))))"

definition Translate ::
    "int32 \<Rightarrow> int \<Rightarrow> bool \<Rightarrow> 'a machine_scheme \<Rightarrow> ((ExceptionType + int32) \<times> 'a machine_scheme) res" where
  "Translate virtAddr sz writing m =
     (if (sz = 4 \<and> virtAddr AND 0x3 \<noteq> 0) \<or> (sz = 2 \<and> virtAddr AND 0x1 \<noteq> 0)
      then Inr (Inl AddressErrorException, m)
      else
        rbind (ASSERT (tlb m = None \<or> pageTable m = None)) (\<lambda>_.
        rbind (ASSERT (tlb m \<noteq> None \<or> pageTable m \<noteq> None)) (\<lambda>_.
        let vpn = virtAddr div of_int PageSize; offset = virtAddr mod of_int PageSize in
        rbind (find_entry vpn m) (\<lambda>r. case r of
            Inl e \<Rightarrow> Inr (Inl e, m)
          | Inr (a, i) \<Rightarrow>
              rbind (table_at m (Some a)) (\<lambda>es.
              rbind (arr_get es (int i)) (\<lambda>entry.
              if readOnly entry \<and> writing then Inr (Inl ReadOnlyException, m)
              else let pageFrame = physicalPage entry in
              if pageFrame \<ge> of_int NumPhysPages then Inr (Inl BusErrorException, m)
              else let entry' = entry\<lparr>te_use := True, dirty := (dirty entry \<or> writing)\<rparr>;
                       physAddr = pageFrame * of_int PageSize + offset in
              rbind (ASSERT (sint physAddr \<ge> 0 \<and> sint physAddr + sz \<le> MemorySize)) (\<lambda>_.
              Inr (Inr physAddr, m\<lparr>tables := (tables m)(a \<mapsto> es[i := entry'])\<rparr>))))))))"

subsection \<open>Main memory\<close>

definition mem_get :: "(nat \<Rightarrow> byte) \<Rightarrow> int32 \<Rightarrow> nat \<Rightarrow> byte list res" where
  "mem_get mem pa n =
     (if sint pa \<ge> 0 \<and> sint pa + int n \<le> MemorySize
      then Inr (map (\<lambda>i. mem (unat pa + i)) [0..<n]) else Inl Undefined)"

definition mem_set :: "(nat \<Rightarrow> byte) \<Rightarrow> int32 \<Rightarrow> byte list \<Rightarrow> (nat \<Rightarrow> byte) res" where
  "mem_set mem pa bs =
     (if sint pa \<ge> 0 \<and> sint pa + int (length bs) \<le> MemorySize
      then Inr (\<lambda>j. if unat pa \<le> j \<and> j < unat pa + length bs then bs ! (j - unat pa) else mem j)
      else Inl Undefined)"

text \<open>
  The \<^verbatim>\<open>switch (size)\<close> of \<^verbatim>\<open>ReadMem\<close> and of \<^verbatim>\<open>WriteMem\<close>. Memory is an array of (signed) \<^verbatim>\<open>char\<close>,
  so a byte is sign-extended when it is assigned to an \<^verbatim>\<open>int\<close>; the halfword goes through an
  \<^verbatim>\<open>unsigned short\<close> and is zero-extended.
\<close>

definition load_phys :: "bool \<Rightarrow> (nat \<Rightarrow> byte) \<Rightarrow> int32 \<Rightarrow> int \<Rightarrow> int32 res" where
  "load_phys big mem pa sz =
     (if sz = 1 then rbind (mem_get mem pa 1) (\<lambda>bs. Inr (scast (bs ! 0)))
      else if sz = 2 then rbind (mem_get mem pa 2) (\<lambda>bs. Inr (ucast (ShortToHost big (host_load16 big bs))))
      else if sz = 4 then rbind (mem_get mem pa 4) (\<lambda>bs. Inr (WordToHost big (host_load32 big bs)))
      else Inl Aborted)"

definition store_phys :: "bool \<Rightarrow> (nat \<Rightarrow> byte) \<Rightarrow> int32 \<Rightarrow> int \<Rightarrow> int32 \<Rightarrow> (nat \<Rightarrow> byte) res" where
  "store_phys big mem pa sz v =
     (if sz = 1 then mem_set mem pa [ucast (v AND 0xff)]
      else if sz = 2 then mem_set mem pa (host_store16 big (ShortToMachine big (ucast (v AND 0xffff))))
      else if sz = 4 then mem_set mem pa (host_store32 big (WordToMachine big v))
      else Inl Aborted)"

subsection \<open>Byte order does not matter\<close>

text \<open>The byte masks of the swapping routines, in terms the bit-wise rewrite rules know.\<close>

lemma byte_masks32:
  "(0x000000ff :: int32) = mask 8" "(0x0000ff00 :: int32) = push_bit 8 (mask 8)"
  "(0x00ff0000 :: int32) = push_bit 16 (mask 8)" "(0xff000000 :: int32) = push_bit 24 (mask 8)"
  by (simp_all add: mask_eq_exp_minus_1 push_bit_eq_mult)

lemma byte_masks16:
  "(0x00ff :: 16 word) = mask 8" "(0xff00 :: 16 word) = push_bit 8 (mask 8)"
  by (simp_all add: mask_eq_exp_minus_1 push_bit_eq_mult)

lemma bit_byte_lt: "bit (b :: byte) n \<Longrightarrow> n < 8"
  using bit_imp_le_length [of b n] by simp

lemma bit_WordToHost_True:
  "bit (WordToHost True w) n \<longleftrightarrow>
     (if n < 8 then bit w (n + 24) else if n < 16 then bit w (n + 8)
      else if n < 24 then bit w (n - 8) else n < 32 \<and> bit w (n - 24))"
  unfolding WordToHost_def byte_masks32
  by (auto simp: bit_simps ac_simps)

lemma bit_ShortToHost_True:
  "bit (ShortToHost True w) n \<longleftrightarrow> (if n < 8 then bit w (n + 8) else n < 16 \<and> bit w (n - 8))"
  unfolding ShortToHost_def byte_masks16
  by (auto simp: bit_simps ac_simps)

lemma byte_of_bit:
  fixes n :: nat
  obtains k where "k < 8" "n = k" | k where "k < 8" "n = 8 + k" | k where "k < 8" "n = 16 + k"
    | k where "k < 8" "n = 24 + k" | "32 \<le> n"
proof -
  consider "n < 8" | "8 \<le> n" "n < 16" | "16 \<le> n" "n < 24" | "24 \<le> n" "n < 32" | "32 \<le> n" by linarith
  then show thesis
    by cases (use that in \<open>force dest: le_Suc_ex simp: le_iff_add\<close>)+
qed

lemma half_of_bit:
  fixes n :: nat
  obtains k where "k < 8" "n = k" | k where "k < 8" "n = 8 + k" | "16 \<le> n"
  by (cases n rule: byte_of_bit) (use that in auto)

text \<open>The byte that holds bit \<open>n\<close> of a loaded value.\<close>

lemma bit_host_load32:
  "bit (host_load32 big bs) n \<longleftrightarrow>
     (if n < 8 then bit (bs ! (if big then 3 else 0)) n
      else if n < 16 then bit (bs ! (if big then 2 else 1)) (n - 8)
      else if n < 24 then bit (bs ! (if big then 1 else 2)) (n - 16)
      else bit (bs ! (if big then 0 else 3)) (n - 24))"
proof -
  have byte: "\<not> bit (b :: byte) k" if "8 \<le> k" for b k using bit_byte_lt [of b k] that by auto
  show ?thesis
    by (cases n rule: byte_of_bit) (simp_all add: host_load32_def Let_def bit_simps byte)
qed

lemma bit_host_load16:
  "bit (host_load16 big bs) n \<longleftrightarrow>
     (if n < 8 then bit (bs ! (if big then 1 else 0)) n else bit (bs ! (if big then 0 else 1)) (n - 8))"
proof -
  have byte: "\<not> bit (b :: byte) k" if "8 \<le> k" for b k using bit_byte_lt [of b k] that by auto
  show ?thesis
    by (cases n rule: half_of_bit) (simp_all add: host_load16_def Let_def bit_simps byte)
qed

lemma WordToHost_load [simp]: "WordToHost big (host_load32 big bs) = host_load32 False bs"
proof (cases big)
  case True
  show ?thesis
  proof (rule bit_word_eqI)
    fix n assume "n < LENGTH(32)"
    then have n: "n < 32" by simp
    show "bit (WordToHost big (host_load32 big bs)) n = bit (host_load32 False bs) n"
      using n True by (cases n rule: byte_of_bit) (simp_all add: bit_WordToHost_True bit_host_load32)
  qed
qed (simp add: WordToHost_def)

lemma ShortToHost_load [simp]: "ShortToHost big (host_load16 big bs) = host_load16 False bs"
proof (cases big)
  case True
  show ?thesis
  proof (rule bit_word_eqI)
    fix n assume "n < LENGTH(16)"
    then have n: "n < 16" by simp
    show "bit (ShortToHost big (host_load16 big bs)) n = bit (host_load16 False bs) n"
      using n True by (cases n rule: half_of_bit) (simp_all add: bit_ShortToHost_True bit_host_load16)
  qed
qed (simp add: ShortToHost_def)

lemma host_store_load32: "host_load32 big (host_store32 big w) = w"
proof (rule bit_word_eqI)
  fix n assume "n < LENGTH(32)"
  then have n: "n < 32" by simp
  show "bit (host_load32 big (host_store32 big w)) n = bit w n"
    using n by (cases n rule: byte_of_bit) (simp_all add: bit_host_load32 host_store32_def Let_def bit_simps)
qed

lemma host_store_load16: "host_load16 big (host_store16 big w) = w"
proof (rule bit_word_eqI)
  fix n assume "n < LENGTH(16)"
  then have n: "n < 16" by simp
  show "bit (host_load16 big (host_store16 big w)) n = bit w n"
    using n by (cases n rule: half_of_bit) (simp_all add: bit_host_load16 host_store16_def Let_def bit_simps)
qed

lemma WordToHost_involution: "WordToHost big (WordToHost big w) = w"
proof -
  have "WordToHost big (host_load32 big (host_store32 False w)) = w"
    using host_store_load32 [of False w] by simp
  moreover have "WordToHost big w = host_load32 big (host_store32 False w)"
  proof (cases big)
    case True
    show ?thesis
    proof (rule bit_word_eqI)
      fix n assume "n < LENGTH(32)"
      then have n: "n < 32" by simp
      show "bit (WordToHost big w) n = bit (host_load32 big (host_store32 False w)) n"
        using n True
        by (cases n rule: byte_of_bit) (simp_all add: bit_WordToHost_True bit_host_load32 host_store32_def Let_def bit_simps ac_simps)
    qed
  qed (simp add: WordToHost_def host_store_load32)
  ultimately show ?thesis by simp
qed

lemma store_WordToMachine [simp]: "host_store32 big (WordToMachine big w) = host_store32 False w"
proof (cases big)
  case True
  have "ucast (drop_bit k (WordToHost True w)) = (ucast (drop_bit (24 - k) w) :: byte)"
    if "k \<in> {0, 8, 16, 24}" for k
  proof (rule bit_word_eqI)
    fix n assume "n < LENGTH(8)"
    then show "bit (ucast (drop_bit k (WordToHost True w)) :: byte) n =
        bit (ucast (drop_bit (24 - k) w) :: byte) n"
      using that by (auto simp: bit_simps bit_WordToHost_True ac_simps)
  qed
  from this [of 0] this [of 8] this [of 16] this [of 24] True show ?thesis
    by (simp add: WordToMachine_def host_store32_def Let_def)
qed (simp add: WordToMachine_def WordToHost_def)

lemma store_ShortToMachine [simp]: "host_store16 big (ShortToMachine big w) = host_store16 False w"
proof (cases big)
  case True
  have "ucast (drop_bit k (ShortToHost True w)) = (ucast (drop_bit (8 - k) w) :: byte)"
    if "k \<in> {0, 8}" for k
  proof (rule bit_word_eqI)
    fix n assume "n < LENGTH(8)"
    then show "bit (ucast (drop_bit k (ShortToHost True w)) :: byte) n =
        bit (ucast (drop_bit (8 - k) w) :: byte) n"
      using that by (auto simp: bit_simps bit_ShortToHost_True ac_simps)
  qed
  from this [of 0] this [of 8] True show ?thesis
    by (simp add: ShortToMachine_def host_store16_def Let_def)
qed (simp add: ShortToMachine_def ShortToHost_def)

subsection \<open>What translation computes\<close>

text \<open>
  A machine whose MMU is set up: exactly one of TLB and page table, and the array behind it long
  enough for the accesses the hardware makes.
\<close>

definition mmu_ok :: "'a machine_scheme \<Rightarrow> bool" where
  "mmu_ok m =
     (case (tlb m, pageTable m) of
        (None, Some a) \<Rightarrow>
          (case tables m a of None \<Rightarrow> False | Some es \<Rightarrow> unat (pageTableSize m) \<le> length es)
      | (Some a, None) \<Rightarrow> (case tables m a of None \<Rightarrow> False | Some es \<Rightarrow> length es = TLBSize)
      | _ \<Rightarrow> False)"

text \<open>The entry that maps a page: its array, its index and its value.\<close>

definition page_entry :: "'a machine_scheme \<Rightarrow> nat \<Rightarrow> (nat \<times> nat \<times> TranslationEntry) option" where
  "page_entry m vpn =
     (case (tlb m, pageTable m) of
        (None, Some a) \<Rightarrow>
          (let es = the (tables m a) in
           if vpn < unat (pageTableSize m) \<and> valid (es ! vpn) then Some (a, vpn, es ! vpn) else None)
      | (Some a, None) \<Rightarrow>
          (let es = the (tables m a) in
           map_option (\<lambda>i. (a, i, es ! i))
             (find (\<lambda>i. valid (es ! i) \<and> unat (virtualPage (es ! i)) = vpn) [0..<TLBSize]))
      | _ \<Rightarrow> None)"

text \<open>The exception of an access to a page with no entry.\<close>

definition page_exception :: "'a machine_scheme \<Rightarrow> nat \<Rightarrow> ExceptionType" where
  "page_exception m vpn =
     (if tlb m = None \<and> unat (pageTableSize m) \<le> vpn then AddressErrorException
      else PageFaultException)"

definition aligned :: "int32 \<Rightarrow> int \<Rightarrow> bool" where
  "aligned va sz \<longleftrightarrow> uint va mod sz = 0"

lemma and_3_mod: "(va :: int32) AND 3 = 0 \<longleftrightarrow> uint va mod 4 = 0"
proof -
  have "va AND 3 = take_bit 2 va" by (simp add: take_bit_eq_mask mask_eq_exp_minus_1)
  then have "va AND 3 = va mod 4" by (simp add: take_bit_eq_mod)
  then show ?thesis by (simp add: word_uint_eq_iff uint_mod_distrib)
qed

lemma and_1_mod: "(va :: int32) AND 1 = 0 \<longleftrightarrow> uint va mod 2 = 0"
proof -
  have "va AND 1 = va mod 2" by (simp add: and_one_eq)
  then show ?thesis by (simp add: word_uint_eq_iff uint_mod_distrib)
qed

lemma misaligned_iff:
  assumes "sz \<in> {1, 2, 4}"
  shows "((sz = 4 \<and> va AND 0x3 \<noteq> 0) \<or> (sz = 2 \<and> va AND 0x1 \<noteq> 0)) \<longleftrightarrow> \<not> aligned va sz"
  using assms by (auto simp: aligned_def and_3_mod and_1_mod)

lemma tlb_search_find:
  "set is \<subseteq> {..<length es} \<Longrightarrow>
   tlb_search es vpn is =
     Inr (find (\<lambda>i. valid (es ! i) \<and> unat (virtualPage (es ! i)) = unat vpn) is)"
  by (induction "is") (auto simp: word_unat_eq_iff)

text \<open>The two set-ups of the MMU, with the array each uses.\<close>

lemma mmu_ok_cases:
  assumes "mmu_ok m"
  obtains (table) a es where "tlb m = None" "pageTable m = Some a" "tables m a = Some es"
      "unat (pageTableSize m) \<le> length es"
    | (tlb) a es where "tlb m = Some a" "pageTable m = None" "tables m a = Some es"
      "length es = TLBSize"
  using assms by (auto simp: mmu_ok_def split: option.splits)

lemma find_entry_correct:
  assumes "mmu_ok m"
  shows "find_entry vpn m =
    Inr (case page_entry m (unat vpn) of None \<Rightarrow> Inl (page_exception m (unat vpn))
         | Some (a, i, e) \<Rightarrow> Inr (a, i))"
  using assms
proof (cases m rule: mmu_ok_cases)
  case (table a es)
  have get: "arr_get es (uint vpn) = Inr (es ! unat vpn)" if "unat vpn < unat (pageTableSize m)"
    using that table(4) by (simp add: arr_get_def nat_uint_eq) (metis int_ops(1) le_trans
      of_nat_less_iff order_less_le_trans uint_nat)
  show ?thesis
  proof (cases "unat vpn < unat (pageTableSize m)")
    case True
    then have "\<not> pageTableSize m \<le> vpn" by (simp add: word_le_nat_alt)
    with True table get [OF True] show ?thesis
      by (simp add: find_entry_def page_entry_def page_exception_def table_at_def)
  next
    case False
    then have "pageTableSize m \<le> vpn" by (simp add: word_le_nat_alt)
    with False table show ?thesis
      by (simp add: find_entry_def page_entry_def page_exception_def)
  qed
next
  case (tlb a es)
  have "tlb_search es vpn [0..<TLBSize] =
      Inr (find (\<lambda>i. valid (es ! i) \<and> unat (virtualPage (es ! i)) = unat vpn) [0..<TLBSize])"
    by (rule tlb_search_find) (auto simp: tlb(4))
  with tlb show ?thesis
    by (simp add: find_entry_def page_entry_def page_exception_def table_at_def Let_def
        split: option.split)
qed

lemma page_entry_in_table:
  assumes "mmu_ok m" and "page_entry m vpn = Some (a, i, e)"
  shows "\<exists>es. tables m a = Some es \<and> i < length es \<and> es ! i = e \<and> valid e"
  using assms
  by (auto simp: mmu_ok_def page_entry_def Let_def find_Some_iff split: option.splits if_splits)

lemma div_page: "unat ((va :: int32) div of_int PageSize) = unat va div 128"
  and mod_page: "unat ((va :: int32) mod of_int PageSize) = unat va mod 128"
  by (simp_all add: const_defs unat_div_distrib unat_mod_distrib)

text \<open>The physical address of an offset in a frame of main memory.\<close>

lemma phys_addr:
  fixes va frame :: int32
  assumes "frame < of_int NumPhysPages"
  shows "unat (frame * of_int PageSize + va mod of_int PageSize) = unat frame * 128 + unat va mod 128"
proof -
  have f: "unat frame < 128" using assms by (simp add: const_defs word_less_nat_alt)
  have "unat va mod 128 < 128" by simp
  with f have le: "unat frame * 128 + unat va mod 128 < 2 ^ 32" by simp
  have m: "unat (frame * of_int PageSize) = unat frame * 128"
    using f by (simp add: const_defs unat_word_ariths)
  show ?thesis
    using le by (simp add: unat_word_ariths(1) m mod_page)
qed

lemma sint_small:
  fixes w :: int32
  assumes "unat w < 2 ^ 31"
  shows "sint w = int (unat w)"
proof -
  have "uint w < 2 ^ 31" using assms by (simp add: nat_less_iff flip: nat_uint_eq)
  then show ?thesis 
    using signed_take_bit_int_eq_self [of 31 "uint w"] uint_ge_0 [of w] by (simp add: sint_uint)
qed

lemma unat_of_nat_small: "n < 2 ^ 32 \<Longrightarrow> unat (of_nat n :: int32) = n"
  by (simp add: unsigned_of_nat take_bit_nat_eq_self)

lemma in_memory:
  assumes "unat pa + nat sz \<le> 128 * 128" and "0 \<le> sz"
  shows "sint (pa :: int32) \<ge> 0 \<and> sint pa + sz \<le> MemorySize"
proof -
  have "sint pa = int (unat pa)" by (rule sint_small) (use assms(1) in simp)
  moreover have "int (unat pa) + sz \<le> 16384" using assms by linarith
  ultimately show ?thesis by (simp add: const_defs)
qed

lemma aligned_in_page:
  assumes "sz \<in> {1, 2, 4}" and "aligned va sz"
  shows "unat va mod 128 + nat sz \<le> 128"
proof -
  have "unat va mod nat sz = 0"
  proof -
    have "int (unat va mod nat sz) = uint va mod sz" using assms(1) by (auto simp: zmod_int)
    with assms(2) show ?thesis by (simp add: aligned_def)
  qed
  moreover have "nat sz dvd 128" "0 < nat sz" using assms(1) by (auto simp: nat_dvd_iff)
  ultimately have "unat va mod 128 mod nat sz = 0" by (simp add: mod_mod_cancel)
  then obtain k where k: "unat va mod 128 = nat sz * k" by (auto elim: dvdE)
  from \<open>nat sz dvd 128\<close> obtain l where l: "128 = nat sz * l" by (elim dvdE)
  have "unat va mod 128 < 128" by simp
  then have "nat sz * k < nat sz * l" unfolding k by (simp flip: l)
  then have "Suc k \<le> l" using \<open>0 < nat sz\<close> by simp
  then have "nat sz * Suc k \<le> nat sz * l" by (rule mult_le_mono2)
  then show ?thesis by (simp add: k flip: l)
qed

definition touch :: "nat \<Rightarrow> nat \<Rightarrow> bool \<Rightarrow> 'a machine_scheme \<Rightarrow> 'a machine_scheme" where
  "touch a i writing m =
     m\<lparr>tables := (tables m)(a \<mapsto> (let es = the (tables m a); e = es ! i in
          es[i := e\<lparr>te_use := True, dirty := (dirty e \<or> writing)\<rparr>]))\<rparr>"

lemma Translate_eq:
  assumes ok: "mmu_ok m" and sz: "sz \<in> {1, 2, 4}"
  shows "Translate va sz writing m = Inr
    (if \<not> aligned va sz then (Inl AddressErrorException, m)
     else case page_entry m (unat va div 128) of
         None \<Rightarrow> (Inl (page_exception m (unat va div 128)), m)
       | Some (a, i, e) \<Rightarrow>
           if readOnly e \<and> writing then (Inl ReadOnlyException, m)
           else if physicalPage e \<ge> of_int NumPhysPages then (Inl BusErrorException, m)
           else (Inr (of_nat (unat (physicalPage e) * 128 + unat va mod 128)), touch a i writing m))"
proof (cases "aligned va sz")
  case False
  then show ?thesis using misaligned_iff [OF sz, of va] by (simp add: Translate_def)
next
  case True
  have one: "tlb m = None \<or> pageTable m = None" "tlb m \<noteq> None \<or> pageTable m \<noteq> None"
    using ok by (auto simp: mmu_ok_def split: option.splits)
  have nomis: "((sz = 4 \<and> va AND 0x3 \<noteq> 0) \<or> (sz = 2 \<and> va AND 0x1 \<noteq> 0)) = False"
    using misaligned_iff [OF sz, of va] True by simp
  show ?thesis
  proof (cases "page_entry m (unat va div 128)")
    case None
    with True one show ?thesis
      unfolding Translate_def nomis by (simp add: Let_def find_entry_correct [OF ok] div_page)
  next
    case (Some p)
    obtain a i e where p: "p = (a, i, e)" by (cases p)
    from page_entry_in_table [OF ok Some [unfolded p]] obtain es where
      es: "tables m a = Some es" "i < length es" "es ! i = e" by blast
    let ?pa = "physicalPage e * of_int PageSize + va mod of_int PageSize"
    have fit: "sint ?pa \<ge> 0 \<and> sint ?pa + sz \<le> MemorySize"
        "?pa = of_nat (unat (physicalPage e) * 128 + unat va mod 128)"
      if "\<not> physicalPage e \<ge> of_int NumPhysPages"
    proof -
      from that have f: "physicalPage e < of_int NumPhysPages" by simp
      then have "unat (physicalPage e) < 128" by (simp add: const_defs word_less_nat_alt)
      with aligned_in_page [OF sz True] have "unat ?pa + nat sz \<le> 128 * 128"
        unfolding phys_addr [OF f] by linarith
      then show "sint ?pa \<ge> 0 \<and> sint ?pa + sz \<le> MemorySize"
        by (rule in_memory) (use sz in auto)
      show "?pa = of_nat (unat (physicalPage e) * 128 + unat va mod 128)"
        using phys_addr [OF f, of va] by (metis of_nat_unat unsigned_word_eqI ucast_id)
    qed
    from True one Some p es show ?thesis
      using fit unfolding Translate_def nomis
      by (simp add: Let_def find_entry_correct [OF ok] div_page table_at_def touch_def)
  qed
qed

text \<open>
  The little-endian meaning of the bytes of an access: the bytes a store of \<open>v\<close> leaves behind and
  the value a load makes of them. A one-byte load sign-extends, a two-byte load zero-extends.
\<close>

definition le_bytes :: "nat \<Rightarrow> int32 \<Rightarrow> byte list" where
  "le_bytes n v = map (\<lambda>i. ucast (drop_bit (8 * i) v)) [0..<n]"

definition le_value :: "byte list \<Rightarrow> int32" where
  "le_value bs =
     (if length bs = 1 then scast (bs ! 0)
      else if length bs = 2 then ucast (bs ! 0) OR push_bit 8 (ucast (bs ! 1))
      else ucast (bs ! 0) OR push_bit 8 (ucast (bs ! 1)) OR push_bit 16 (ucast (bs ! 2)) OR
           push_bit 24 (ucast (bs ! 3)))"

lemma length_le_bytes [simp]: "length (le_bytes n v) = n"
  by (simp add: le_bytes_def)

lemma le_bytes_4: "host_store32 False v = le_bytes 4 v"
  by (simp add: host_store32_def le_bytes_def Let_def upt_rec numeral_eq_Suc)

lemma ucast_and_mask: "ucast ((v :: int32) AND 0xff) = (ucast v :: byte)"
  "ucast ((v :: int32) AND 0xffff) = (ucast v :: 16 word)"
proof -
  have m: "(0xff :: int32) = mask 8" "(0xffff :: int32) = mask 16"
    by (simp_all add: mask_eq_exp_minus_1)
  show "ucast (v AND 0xff) = (ucast v :: byte)" "ucast (v AND 0xffff) = (ucast v :: 16 word)"
    unfolding m by (rule bit_word_eqI; simp add: bit_simps)+
qed

lemma le_bytes_2: "host_store16 False (ucast (v AND 0xffff)) = le_bytes 2 v"
proof -
  have "ucast (drop_bit 8 (ucast v :: 16 word)) = (ucast (drop_bit 8 v) :: byte)"
    by (rule bit_word_eqI) (simp add: bit_simps)
  moreover have "ucast (ucast v :: 16 word) = (ucast v :: byte)"
    by (rule bit_word_eqI) (simp add: bit_simps)
  ultimately show ?thesis
    by (simp add: host_store16_def le_bytes_def Let_def upt_rec numeral_eq_Suc
        ucast_and_mask [unfolded numeral_eq_Suc])
qed

lemma le_value_4: "length bs = 4 \<Longrightarrow> le_value bs = host_load32 False bs"
  by (simp add: le_value_def host_load32_def Let_def)

lemma ucast_host_load16:
  "ucast (host_load16 False bs) = (ucast (bs ! 0) OR push_bit 8 (ucast (bs ! 1)) :: int32)"
  by (rule bit_word_eqI) (auto simp: host_load16_def bit_simps dest: bit_byte_lt)

lemma load_phys_eq:
  assumes "sz \<in> {1, 2, 4}" and "unat pa + nat sz \<le> 128 * 128"
  shows "load_phys big mem pa sz = Inr (le_value (map (\<lambda>i. mem (unat pa + i)) [0..<nat sz]))"
proof -
  have "mem_get mem pa (nat sz) = Inr (map (\<lambda>i. mem (unat pa + i)) [0..<nat sz])"
    using in_memory [of pa sz] assms by (auto simp: mem_get_def)
  with assms(1) show ?thesis
    by (auto simp: load_phys_def le_value_4 ucast_host_load16) (simp_all add: le_value_def)
qed

lemma store_phys_eq:
  assumes "sz \<in> {1, 2, 4}" and "unat pa + nat sz \<le> 128 * 128"
  shows "store_phys big mem pa sz v =
    Inr (\<lambda>j. if unat pa \<le> j \<and> j < unat pa + nat sz then le_bytes (nat sz) v ! (j - unat pa) else mem j)"
proof -
  have "mem_set mem pa (le_bytes (nat sz) v) =
      Inr (\<lambda>j. if unat pa \<le> j \<and> j < unat pa + nat sz then le_bytes (nat sz) v ! (j - unat pa) else mem j)"
    using in_memory [of pa sz] assms by (auto simp: mem_set_def)
  moreover have "store_phys big mem pa sz v = mem_set mem pa (le_bytes (nat sz) v)"
    using assms(1)
    by (auto simp: store_phys_def le_bytes_4 le_bytes_2)
      (simp_all add: le_bytes_def ucast_and_mask)
  ultimately show ?thesis by simp
qed

lemma le_value_le_bytes:
  "le_value (le_bytes 1 v) = scast (ucast v :: byte)"
  "le_value (le_bytes 2 v) = ucast (ucast v :: 16 word)"
  "le_value (le_bytes 4 v) = v"
proof -
  show "le_value (le_bytes 1 v) = scast (ucast v :: byte)"
    by (simp add: le_value_def le_bytes_def)
  have "host_load16 False (host_store16 False (ucast (v AND 0xffff))) = ucast v"
    by (simp add: host_store_load16 ucast_and_mask)
  then show "le_value (le_bytes 2 v) = ucast (ucast v :: 16 word)"
    using ucast_host_load16 [of "le_bytes 2 v"] by (simp add: le_bytes_2 le_value_def)
  have "host_load32 False (host_store32 False v) = v" by (rule host_store_load32)
  then show "le_value (le_bytes 4 v) = v"
    by (simp add: le_bytes_4 le_value_4)
qed

text \<open>Setting the use and dirty bits moves no page.\<close>

definition touched :: "bool \<Rightarrow> TranslationEntry \<Rightarrow> TranslationEntry" where
  "touched writing e = e\<lparr>te_use := True, dirty := (dirty e \<or> writing)\<rparr>"

lemma touched_simps [simp]:
  "valid (touched w e) = valid e" "virtualPage (touched w e) = virtualPage e"
  "physicalPage (touched w e) = physicalPage e" "readOnly (touched w e) = readOnly e"
  by (simp_all add: touched_def)

lemma touch_simps [simp]:
  "tlb (touch a i w m) = tlb m" "pageTable (touch a i w m) = pageTable m"
  "pageTableSize (touch a i w m) = pageTableSize m" "registers (touch a i w m) = registers m"
  "mainMemory (touch a i w m) = mainMemory m"
  by (simp_all add: touch_def)

lemma touch_nth:
  "i < length es \<Longrightarrow> valid (es[i := touched w (es ! i)] ! j) = valid (es ! j) \<and>
   virtualPage (es[i := touched w (es ! i)] ! j) = virtualPage (es ! j)"
  by (cases "i = j") simp_all

lemma mmu_ok_touch: "mmu_ok m \<Longrightarrow> tables m a \<noteq> None \<Longrightarrow> mmu_ok (touch a i w m)"
  by (auto simp: mmu_ok_def touch_def Let_def split: option.splits)

lemma page_entry_touch:
  assumes ok: "mmu_ok m" and p: "page_entry m vpn = Some (a, i, e)"
  shows "page_entry (touch a i w m) vpn' =
    map_option (\<lambda>(a', i', e'). (a', i', if i' = i then touched w e' else e')) (page_entry m vpn')"
  using ok
proof (cases m rule: mmu_ok_cases)
  case (table b es)
  with p have "a = b" "i = vpn" "vpn < length es"
    by (auto simp: page_entry_def Let_def split: if_splits)
  with table show ?thesis
    by (cases "vpn' = vpn") (auto simp: page_entry_def Let_def touch_def touched_def [symmetric])
next
  case (tlb b es)
  from page_entry_in_table [OF ok p] tlb p have i: "a = b" "i < length es"
    by (auto simp: page_entry_def Let_def)
  let ?es = "es[i := touched w (es ! i)]"
  have f: "find (\<lambda>j. valid (?es ! j) \<and> unat (virtualPage (?es ! j)) = vpn') [0..<TLBSize] =
      find (\<lambda>j. valid (es ! j) \<and> unat (virtualPage (es ! j)) = vpn') [0..<TLBSize]"
    by (rule find_cong) (simp_all add: touch_nth [OF i(2)])
  with tlb i show ?thesis
    by (cases "find (\<lambda>j. valid (es ! j) \<and> unat (virtualPage (es ! j)) = vpn') [0..<TLBSize]")
      (simp_all add: page_entry_def Let_def touch_def touched_def [symmetric])
qed

subsection \<open>Properties\<close>

text \<open>C37. Simulated memory is little-endian whatever the host is: with the byte-swapping routines
  compiled in (big-endian host) or out, the start-up check \<^verbatim>\<open>CheckEndian\<close> passes exactly on a host of that byte order, loads return the same
  values and stores leave the same bytes in memory, and conversion to the machine's format and
  back is the identity.\<close>

theorem memory_byte_order_independent:
  "CheckEndian big host = (if host = big then Inr () else Inl Aborted) \<and>
   load_phys big mem pa sz = load_phys (\<not> big) mem pa sz \<and>
   store_phys big mem pa sz v = store_phys (\<not> big) mem pa sz v \<and>
   WordToHost big (WordToMachine big v) = v"
proof -
  have "CheckEndian big host = (if host = big then Inr () else Inl Aborted)"
    by (cases big; cases host) (simp_all add: CheckEndian_def host_load32_def Let_def ASSERT_def)
  moreover have "WordToHost big (WordToMachine big v) = v"
    by (simp add: WordToMachine_def WordToHost_involution)
  ultimately show ?thesis by (simp add: load_phys_def store_phys_def)
qed

text \<open>C18. \<^verbatim>\<open>Machine::Translate\<close> on a machine with either a page table or a TLB never aborts and
  never reads outside the table. A misaligned address, a page out of range or without a valid
  entry, a write to a read-only page and a frame number outside main memory each give their
  exception, in this order, and change nothing. Otherwise the access lies inside main memory, in
  the frame of the page and at the same offset, the entry's use bit is set, its dirty bit is set
  when writing, every page keeps its frame and its protection, and the MMU stays well-formed.\<close>

theorem Translate_correct:
  assumes ok: "mmu_ok m" and sz: "sz \<in> {1, 2, 4}"
  shows "case Translate va sz writing m of
      Inl _ \<Rightarrow> False
    | Inr (Inl exn, m') \<Rightarrow> m' = m \<and>
        (if \<not> aligned va sz then exn = AddressErrorException
         else case page_entry m (unat va div 128) of
             None \<Rightarrow> exn = page_exception m (unat va div 128)
           | Some (a, i, e) \<Rightarrow>
               if readOnly e \<and> writing then exn = ReadOnlyException
               else exn = BusErrorException \<and> 128 \<le> unat (physicalPage e))
    | Inr (Inr pa, m') \<Rightarrow>
        aligned va sz \<and> mmu_ok m' \<and> mainMemory m' = mainMemory m \<and> registers m' = registers m \<and>
        (\<exists>a i e. page_entry m (unat va div 128) = Some (a, i, e) \<and> \<not> (readOnly e \<and> writing) \<and>
           page_entry m' (unat va div 128) = Some (a, i, e\<lparr>te_use := True, dirty := (dirty e \<or> writing)\<rparr>) \<and>
           unat pa = unat (physicalPage e) * 128 + unat va mod 128 \<and>
           int (unat pa) + sz \<le> MemorySize) \<and>
        (\<forall>vpn. map_option (\<lambda>(a, i, e). (physicalPage e, readOnly e)) (page_entry m' vpn) =
               map_option (\<lambda>(a, i, e). (physicalPage e, readOnly e)) (page_entry m vpn))"
proof (cases "aligned va sz")
  case False
  then show ?thesis by (simp add: Translate_eq [OF assms])
next
  case al: True
  show ?thesis
  proof (cases "page_entry m (unat va div 128)")
    case None
    with al show ?thesis by (simp add: Translate_eq [OF assms])
  next
    case (Some p)
    obtain a i e where p: "p = (a, i, e)" by (cases p)
    note entry = Some [unfolded p]
    show ?thesis
    proof (cases "(readOnly e \<and> writing) \<or> physicalPage e \<ge> of_int NumPhysPages")
      case True
      then show ?thesis using al entry by (auto simp: Translate_eq [OF assms] const_defs word_le_nat_alt)
    next
      case False
      then have f: "unat (physicalPage e) < 128"
        by (simp add: const_defs word_le_nat_alt)
      have bound: "unat (physicalPage e) * 128 + unat va mod 128 + nat sz \<le> 128 * 128"
        using aligned_in_page [OF sz al] f by linarith
      then have "int (unat (physicalPage e) * 128 + unat va mod 128) + sz \<le> MemorySize"
        using sz by (auto simp only: const_defs insert_iff empty_iff)
      moreover from bound have
        "unat (of_nat (unat (physicalPage e) * 128 + unat va mod 128) :: int32) =
           unat (physicalPage e) * 128 + unat va mod 128"
        by (intro unat_of_nat_small) simp
      moreover have "mmu_ok (touch a i writing m)"
        using page_entry_in_table [OF ok entry] by (auto intro: mmu_ok_touch [OF ok])
      moreover have "map_option (\<lambda>(a, i, e). (physicalPage e, readOnly e)) (page_entry (touch a i writing m) vpn) =
          map_option (\<lambda>(a, i, e). (physicalPage e, readOnly e)) (page_entry m vpn)" for vpn
        by (cases "page_entry m vpn") (auto simp: page_entry_touch [OF ok entry] split: if_splits)
      ultimately show ?thesis
        using False al entry
        by (auto simp: Translate_eq [OF assms] page_entry_touch [OF ok entry, of _ "unat va div 128"] touched_def
            simp del: of_nat_add of_nat_mult of_nat_unat)
    qed
  qed
qed

text \<open>A machine with a page table of two pages, the second one read-only, in frames 5 and 3.\<close>

definition two_page_machine :: machine where
  "two_page_machine =
     \<lparr>registers = replicate NumTotalRegs 0, mainMemory = (\<lambda>_. 0),
      tables = [7 \<mapsto> [\<lparr>virtualPage = 0, physicalPage = 5, valid = True, readOnly = False, te_use = False, dirty = False\<rparr>,
                     \<lparr>virtualPage = 1, physicalPage = 3, valid = True, readOnly = True, te_use = False, dirty = False\<rparr>]],
      tlb = None, pageTable = Some 7, pageTableSize = 2, singleStep = False, runUntilTime = 0\<rparr>"

theorem Translate_correct_witness:
  "mmu_ok two_page_machine \<and> (4 :: int) \<in> {1, 2, 4} \<and>
   (case Translate 132 4 False two_page_machine of Inr (Inr pa, m') \<Rightarrow> pa = 388 | _ \<Rightarrow> False) \<and>
   (case Translate 132 4 True two_page_machine of Inr (Inl exn, m') \<Rightarrow> exn = ReadOnlyException | _ \<Rightarrow> False)"
proof -
  have ok: "mmu_ok two_page_machine" "(4 :: int) \<in> {1, 2, 4}"
    by (simp_all add: mmu_ok_def two_page_machine_def)
  have e: "page_entry two_page_machine (Suc 0) =
      Some (7, 1, \<lparr>virtualPage = 1, physicalPage = 3, valid = True, readOnly = True, te_use = False, dirty = False\<rparr>)"
    by (simp add: page_entry_def two_page_machine_def)
  note T = Translate_correct [OF ok, of 132]
  have "case Translate 132 4 True two_page_machine of Inr (Inl exn, m') \<Rightarrow> exn = ReadOnlyException | _ \<Rightarrow> False"
    using T [of True] e by (auto simp: aligned_def split: sum.splits)
  moreover have "case Translate 132 4 False two_page_machine of Inr (Inr pa, m') \<Rightarrow> pa = 388 | _ \<Rightarrow> False"
    by (simp add: Translate_eq [OF ok] e aligned_def const_defs)
  ultimately show ?thesis using ok by simp
qed

end
