(* ===== verification/Linked_List.thy ===== *)
theory Linked_List
  imports Nachos_Prelude
begin

text \<open>
  The class \<^verbatim>\<open>List\<close> (threads/list.h, threads/list.cc): the singly linked list, with a \<^verbatim>\<open>first\<close>
  and a \<^verbatim>\<open>last\<close> pointer, behind the ready list, the semaphore queues, the pending interrupts
  and the mailboxes. The list elements live in an explicit heap, a map from addresses to
  \<^verbatim>\<open>ListElement\<close> objects; a pointer is an address or NULL (\<open>None\<close>), following a NULL or a
  dangling pointer is \<open>Undefined\<close>. An item is a \<^verbatim>\<open>void *\<close>, so it may be NULL too. The
  address that \<^verbatim>\<open>new ListElement\<close> returns is an argument of the operations that allocate,
  with the hypothesis that it is not in use.

  The loops that walk the list may not end on a cyclic heap, so they are partial functions
  (\<open>None\<close> is a loop that never ends); that they do end is part of what is proved. The
  relation \<open>list_at\<close> ties a heap list to the sequence of its elements, and every operation is
  shown to compute the expected operation on sequences. The locale \<open>fifo_queue\<close> is what the
  scheduler, the semaphores and the mailboxes rely on.
\<close>

subsection \<open>The classes\<close>

record 'a list_element =
  le_next :: "nat option"
  le_key :: int
  le_item :: "'a option"

type_synonym 'a cells = "nat \<rightharpoonup> 'a list_element"

record nlist =
  l_first :: "nat option"
  l_last :: "nat option"

definition ListElement_new :: "'a option \<Rightarrow> int \<Rightarrow> 'a list_element" where
  "ListElement_new itemPtr sortKey = \<lparr>le_next = None, le_key = sortKey, le_item = itemPtr\<rparr>"

definition List_new :: nlist where
  "List_new = \<lparr>l_first = None, l_last = None\<rparr>"

text \<open>Pointer dereference, and the assignment \<^verbatim>\<open>p->next = q\<close>.\<close>

definition deref :: "'a cells \<Rightarrow> nat option \<Rightarrow> 'a list_element res" where
  "deref h p = (case p of None \<Rightarrow> Inl Undefined
                | Some a \<Rightarrow> (case h a of None \<Rightarrow> Inl Undefined | Some e \<Rightarrow> Inr e))"

definition set_next :: "'a cells \<Rightarrow> nat option \<Rightarrow> nat option \<Rightarrow> 'a cells res" where
  "set_next h p q = (case p of None \<Rightarrow> Inl Undefined
                | Some a \<Rightarrow> (case h a of None \<Rightarrow> Inl Undefined
                            | Some e \<Rightarrow> Inr (h(a \<mapsto> e\<lparr>le_next := q\<rparr>))))"

definition List_IsEmpty :: "nlist \<Rightarrow> bool" where
  "List_IsEmpty l \<longleftrightarrow> l_first l = None"

definition List_Append :: "nat \<Rightarrow> 'a option \<Rightarrow> 'a cells \<times> nlist \<Rightarrow> ('a cells \<times> nlist) res" where
  "List_Append a it = (\<lambda>(h0, l).
     let h = h0(a \<mapsto> ListElement_new it 0) in
     if List_IsEmpty l then Inr (h, \<lparr>l_first = Some a, l_last = Some a\<rparr>)
     else rbind (set_next h (l_last l) (Some a)) (\<lambda>h'.
          Inr (h', l\<lparr>l_last := Some a\<rparr>)))"

definition List_Prepend :: "nat \<Rightarrow> 'a option \<Rightarrow> 'a cells \<times> nlist \<Rightarrow> ('a cells \<times> nlist) res" where
  "List_Prepend a it = (\<lambda>(h0, l).
     let h = h0(a \<mapsto> ListElement_new it 0) in
     if List_IsEmpty l then Inr (h, \<lparr>l_first = Some a, l_last = Some a\<rparr>)
     else rbind (set_next h (Some a) (l_first l)) (\<lambda>h'.
          Inr (h', l\<lparr>l_first := Some a\<rparr>)))"

text \<open>
  \<^verbatim>\<open>SortedRemove(int *keyPtr)\<close>: the removed item (NULL for an empty list) and the key stored
  through \<^verbatim>\<open>keyPtr\<close> (\<open>None\<close> when nothing is stored); the element is deleted.
\<close>

definition List_SortedRemove ::
    "'a cells \<times> nlist \<Rightarrow> ('a option \<times> int option \<times> ('a cells \<times> nlist)) res" where
  "List_SortedRemove = (\<lambda>(h, l).
     if List_IsEmpty l then Inr (None, None, (h, l))
     else rbind (deref h (l_first l)) (\<lambda>element.
       let l' = (if l_first l = l_last l then \<lparr>l_first = None, l_last = None\<rparr>
                 else l\<lparr>l_first := le_next element\<rparr>) in
       Inr (le_item element, Some (le_key element), (h(the (l_first l) := None), l'))))"

definition List_Remove :: "'a cells \<times> nlist \<Rightarrow> ('a option \<times> ('a cells \<times> nlist)) res" where
  "List_Remove s = rbind (List_SortedRemove s) (\<lambda>(it, _, s'). Inr (it, s'))"

text \<open>
  The search loop of \<^verbatim>\<open>SortedInsert\<close>: \<open>True\<close> when it inserted the element at address \<open>a\<close> and
  returned, \<open>False\<close> when it ran to the last element.
\<close>

partial_function (option) insert_loop ::
    "'a cells \<Rightarrow> nat option \<Rightarrow> int \<Rightarrow> nat \<Rightarrow> ('a cells \<times> bool) res option" where
  "insert_loop h ptr sortKey a =
     (case deref h ptr of Inl e \<Rightarrow> Some (Inl e)
      | Inr cur \<Rightarrow>
          (if le_next cur = None then Some (Inr (h, False))
           else case deref h (le_next cur) of Inl e \<Rightarrow> Some (Inl e)
                | Inr nxt \<Rightarrow>
                    if sortKey < le_key nxt
                    then Some (rbind (set_next h (Some a) (le_next cur)) (\<lambda>h1.
                               rbind (set_next h1 ptr (Some a)) (\<lambda>h2. Inr (h2, True))))
                    else insert_loop h (le_next cur) sortKey a))"

definition List_SortedInsert ::
    "nat \<Rightarrow> 'a option \<Rightarrow> int \<Rightarrow> 'a cells \<times> nlist \<Rightarrow> ('a cells \<times> nlist) res option" where
  "List_SortedInsert a it sortKey = (\<lambda>(h0, l).
     let h = h0(a \<mapsto> ListElement_new it sortKey) in
     if List_IsEmpty l then Some (Inr (h, \<lparr>l_first = Some a, l_last = Some a\<rparr>))
     else case deref h (l_first l) of Inl e \<Rightarrow> Some (Inl e)
       | Inr fst_elem \<Rightarrow>
          if sortKey < le_key fst_elem
          then Some (rbind (set_next h (Some a) (l_first l)) (\<lambda>h'. Inr (h', l\<lparr>l_first := Some a\<rparr>)))
          else (case insert_loop h (l_first l) sortKey a of None \<Rightarrow> None
            | Some (Inl e) \<Rightarrow> Some (Inl e)
            | Some (Inr (h', True)) \<Rightarrow> Some (Inr (h', l))
            | Some (Inr (h', False)) \<Rightarrow>
                Some (rbind (set_next h' (l_last l) (Some a)) (\<lambda>h''.
                      Inr (h'', l\<lparr>l_last := Some a\<rparr>)))))"

text \<open>\<^verbatim>\<open>Mapcar(func)\<close>: the items \<open>func\<close> is called on, in order.\<close>

partial_function (option) mapcar_loop :: "'a cells \<Rightarrow> nat option \<Rightarrow> 'a option list res option" where
  "mapcar_loop h ptr =
     (if ptr = None then Some (Inr [])
      else case deref h ptr of Inl e \<Rightarrow> Some (Inl e)
       | Inr cur \<Rightarrow> Option.bind (mapcar_loop h (le_next cur))
            (\<lambda>r. Some (rbind r (\<lambda>its. Inr (le_item cur # its)))))"

definition List_Mapcar :: "'a cells \<times> nlist \<Rightarrow> 'a option list res option" where
  "List_Mapcar = (\<lambda>(h, l). mapcar_loop h (l_first l))"

text \<open>The destructor: remove items until \<^verbatim>\<open>Remove()\<close> returns NULL.\<close>

partial_function (option) List_delete :: "'a cells \<times> nlist \<Rightarrow> ('a cells \<times> nlist) res option" where
  "List_delete s =
     (case List_Remove s of Inl e \<Rightarrow> Some (Inl e)
      | Inr (it, s') \<Rightarrow> if it \<noteq> None then List_delete s' else Some (Inr s'))"

subsection \<open>Heap lists and the sequences they represent\<close>

text \<open>An abstract element: address, key and item.\<close>

type_synonym 'a node = "nat \<times> int \<times> 'a option"

abbreviation node_key :: "'a node \<Rightarrow> int" where "node_key n \<equiv> fst (snd n)"
abbreviation node_item :: "'a node \<Rightarrow> 'a option" where "node_item n \<equiv> snd (snd n)"

fun lpath :: "'a cells \<Rightarrow> nat option \<Rightarrow> 'a node list \<Rightarrow> nat option \<Rightarrow> bool" where
  "lpath h p [] q \<longleftrightarrow> p = q"
| "lpath h p ((a, k, it) # ns) q \<longleftrightarrow>
     p = Some a \<and> (\<exists>n. h a = Some \<lparr>le_next = n, le_key = k, le_item = it\<rparr> \<and> lpath h n ns q)"

definition list_at :: "'a cells \<times> nlist \<Rightarrow> 'a node list \<Rightarrow> bool" where
  "list_at = (\<lambda>(h, l) ns. lpath h (l_first l) ns None \<and> distinct (map fst ns) \<and>
     l_last l = (if ns = [] then None else Some (fst (last ns))))"

text \<open>Insertion into a sequence sorted by key, after the elements with an equal key.\<close>

fun ins_sorted :: "'a node \<Rightarrow> 'a node list \<Rightarrow> 'a node list" where
  "ins_sorted x [] = [x]"
| "ins_sorted x (y # ys) = (if node_key x < node_key y then x # y # ys else y # ins_sorted x ys)"

subsection \<open>The contract of a queue\<close>

locale fifo_queue =
  fixes repr :: "'s \<Rightarrow> 'a list \<Rightarrow> bool"
    and avail :: "'s \<Rightarrow> nat \<Rightarrow> bool"
    and append :: "nat \<Rightarrow> 'a \<Rightarrow> 's \<Rightarrow> 's res"
    and remove :: "'s \<Rightarrow> ('a option \<times> 's) res"
  assumes append_law: "repr s xs \<Longrightarrow> avail s a \<Longrightarrow> \<exists>s'. append a x s = Inr s' \<and> repr s' (xs @ [x])"
    and remove_law: "repr s (x # xs) \<Longrightarrow> \<exists>s'. remove s = Inr (Some x, s') \<and> repr s' xs"
    and remove_empty: "repr s [] \<Longrightarrow> remove s = Inr (None, s)"
begin

text \<open>Removing as often as there are items returns the items in the order they were appended.\<close>

lemma drain_in_order:
  "repr s (xs @ ys) \<Longrightarrow>
     \<exists>s'. for_each (\<lambda>_ (out, s). rbind (remove s) (\<lambda>(x, s'). Inr (out @ [x], s')))
            [0..<length xs] ([], s) = Inr (map Some xs, s') \<and> repr s' ys"
proof (induction xs arbitrary: ys rule: rev_induct)
  case (snoc x xs)
  then obtain t where "for_each (\<lambda>_ (out, s). rbind (remove s) (\<lambda>(x, s'). Inr (out @ [x], s')))
            [0..<length xs] ([], s) = Inr (map Some xs, t)" "repr t (x # ys)"
    by (metis append.assoc append_Cons append_Nil)
  moreover from this(2) remove_law obtain u where "remove t = Inr (Some x, u)" "repr u ys"
    by blast
  ultimately show ?case by (simp add: for_each_append)
qed simp

end

subsection \<open>Paths\<close>

lemma lpath_append: "lpath h p (ms @ ns) q \<longleftrightarrow> (\<exists>r. lpath h p ms r \<and> lpath h r ns q)"
  by (induction ms arbitrary: p) fastforce+

lemma lpath_upd: "a \<notin> fst ` set ns \<Longrightarrow> lpath (h(a := c)) p ns q = lpath h p ns q"
  by (induction ns arbitrary: p) (auto split: prod.splits)

lemma lpath_dom: "lpath h p ns q \<Longrightarrow> n \<in> set ns \<Longrightarrow> fst n \<in> dom h"
  by (induction ns arbitrary: p) fastforce+

lemma lpath_alloc: "h a = None \<Longrightarrow> lpath h p ns q \<Longrightarrow> lpath (h(a := c)) p ns q"
  using lpath_dom [of h p ns q] by (subst lpath_upd) force+

lemma lpath_last:
  assumes "lpath h p ns q" "ns \<noteq> []"
  shows "h (fst (last ns)) = Some \<lparr>le_next = q, le_key = node_key (last ns), le_item = node_item (last ns)\<rparr>"
  using assms by (induction ns arbitrary: p) auto

text \<open>Redirecting the last pointer of a path.\<close>

lemma lpath_set_last:
  assumes "lpath h p ns q" "ns \<noteq> []" "distinct (map fst ns)" "h (fst (last ns)) = Some e"
  shows "lpath (h(fst (last ns) \<mapsto> e\<lparr>le_next := r\<rparr>)) p ns r"
proof -
  obtain ms n where ns: "ns = ms @ [n]" using assms(2) by (metis rev_exhaust)
  with assms(3) have "fst n \<notin> fst ` set ms" by auto
  with assms ns show ?thesis
    by (cases n) (auto simp: lpath_append lpath_upd)
qed

lemma list_at_first: "list_at (h, l) ns \<Longrightarrow> l_first l = (case ns of [] \<Rightarrow> None | n # _ \<Rightarrow> Some (fst n))"
  by (cases ns) (auto simp: list_at_def)

lemma IsEmpty_list_at: "list_at (h, l) ns \<Longrightarrow> List_IsEmpty l \<longleftrightarrow> ns = []"
  by (auto simp: List_IsEmpty_def list_at_first split: list.splits)

lemma list_at_fresh: "list_at (h, l) ns \<Longrightarrow> h a = None \<Longrightarrow> a \<notin> fst ` set ns"
  using lpath_dom by (fastforce simp: list_at_def)

text \<open>Linking a fresh element behind the last one.\<close>

lemma link_at_end:
  assumes "list_at (h0, l) ns" "h0 a = None" "ns \<noteq> []"
  shows "\<exists>h'. set_next (h0(a \<mapsto> \<lparr>le_next = None, le_key = k, le_item = it\<rparr>)) (l_last l) (Some a) = Inr h' \<and>
           list_at (h', l\<lparr>l_last := Some a\<rparr>) (ns @ [(a, k, it)])"
proof -
  let ?h = "h0(a \<mapsto> \<lparr>le_next = None, le_key = k, le_item = it\<rparr>)"
  let ?p = "fst (last ns)"
  have a: "a \<notin> fst ` set ns" using assms list_at_fresh by blast
  then have pa: "?p \<noteq> a" using assms(3) by (metis image_eqI last_in_set)
  have path: "lpath ?h (l_first l) ns None" and dist: "distinct (map fst ns)" and last: "l_last l = Some ?p"
    using assms a by (auto simp: list_at_def lpath_upd)
  obtain e where e: "?h ?p = Some e" using lpath_last [OF path assms(3)] by blast
  have "lpath (?h(?p \<mapsto> e\<lparr>le_next := Some a\<rparr>)) (l_first l) ns (Some a)"
    using lpath_set_last [OF path assms(3) dist e] .
  then have "list_at (?h(?p \<mapsto> e\<lparr>le_next := Some a\<rparr>), l\<lparr>l_last := Some a\<rparr>) (ns @ [(a, k, it)])"
    using a dist pa by (auto simp: list_at_def lpath_append)
  moreover have "set_next ?h (l_last l) (Some a) = Inr (?h(?p \<mapsto> e\<lparr>le_next := Some a\<rparr>))"
    using e last by (simp add: set_next_def)
  ultimately show ?thesis by blast
qed

text \<open>Linking a fresh element in front of the first one.\<close>

lemma link_at_front:
  assumes "list_at (h0, l) ns" "h0 a = None" "ns \<noteq> []"
  shows "\<exists>h'. set_next (h0(a \<mapsto> \<lparr>le_next = None, le_key = k, le_item = it\<rparr>)) (Some a) (l_first l) = Inr h' \<and>
           list_at (h', l\<lparr>l_first := Some a\<rparr>) ((a, k, it) # ns)"
  using assms list_at_fresh [OF assms(1,2)] by (auto simp: set_next_def list_at_def lpath_upd)

lemma List_Append_ok:
  assumes "list_at (h, l) ns" "h a = None"
  shows "\<exists>s'. List_Append a it (h, l) = Inr s' \<and> list_at s' (ns @ [(a, 0, it)])"
proof (cases "ns = []")
  case True
  with assms show ?thesis
    by (simp add: List_Append_def IsEmpty_list_at ListElement_new_def) (simp add: list_at_def)
next
  case False
  with link_at_end [OF assms, of 0 it] assms show ?thesis
    by (auto simp: List_Append_def IsEmpty_list_at ListElement_new_def)
qed

lemma List_Prepend_ok:
  assumes "list_at (h, l) ns" "h a = None"
  shows "\<exists>s'. List_Prepend a it (h, l) = Inr s' \<and> list_at s' ((a, 0, it) # ns)"
proof (cases "ns = []")
  case True
  with assms show ?thesis
    by (simp add: List_Prepend_def IsEmpty_list_at ListElement_new_def) (simp add: list_at_def)
next
  case False
  with link_at_front [OF assms, of 0 it] assms show ?thesis
    by (auto simp: List_Prepend_def IsEmpty_list_at ListElement_new_def)
qed

lemma List_SortedRemove_empty: "list_at (h, l) [] \<Longrightarrow> List_SortedRemove (h, l) = Inr (None, None, (h, l))"
  by (simp add: List_SortedRemove_def IsEmpty_list_at)

lemma List_SortedRemove_ok:
  assumes "list_at (h, l) ((a, k, it) # ns)"
  shows "\<exists>s'. List_SortedRemove (h, l) = Inr (it, Some k, s') \<and> list_at s' ns \<and> fst s' = h(a := None)"
proof -
  from assms obtain n where e: "h a = Some \<lparr>le_next = n, le_key = k, le_item = it\<rparr>" and p: "lpath h n ns None"
    and f: "l_first l = Some a" and a: "a \<notin> fst ` set ns" "distinct (map fst ns)"
    by (auto simp: list_at_def)
  have "l_first l = l_last l \<longleftrightarrow> ns = []"
    using assms f a by (auto simp: list_at_def)
  with assms e p f a show ?thesis
    by (auto simp: List_SortedRemove_def List_IsEmpty_def deref_def list_at_def lpath_upd)
qed

subsection \<open>Sorted insertion\<close>

text \<open>The loop, started at the element before which the key is not smaller.\<close>

lemma insert_loop_ok:
  assumes "lpath h ptr ((b, kb, ib) # ns) None" "distinct (b # map fst ns)" "a \<notin> insert b (fst ` set ns)"
    and "h a = Some \<lparr>le_next = None, le_key = k, le_item = it\<rparr>"
  shows "(list_all (\<lambda>n. node_key n \<le> k) ns \<longrightarrow> insert_loop h ptr k a = Some (Inr (h, False))) \<and>
         (\<not> list_all (\<lambda>n. node_key n \<le> k) ns \<longrightarrow>
           (\<exists>h'. insert_loop h ptr k a = Some (Inr (h', True)) \<and>
             lpath h' ptr ((b, kb, ib) # ins_sorted (a, k, it) ns) None \<and>
             (\<forall>x. x \<notin> insert a (insert b (fst ` set ns)) \<longrightarrow> h' x = h x)))"
  using assms
proof (induction ns arbitrary: ptr b kb ib)
  case Nil
  then show ?case by (auto simp: insert_loop.simps deref_def)
next
  case (Cons n ns)
  obtain c kc ic where n: "n = (c, kc, ic)" by (cases n) auto
  from Cons.prems n obtain q where ptr: "ptr = Some b"
    and hb: "h b = Some \<lparr>le_next = Some c, le_key = kb, le_item = ib\<rparr>"
    and hc: "h c = Some \<lparr>le_next = q, le_key = kc, le_item = ic\<rparr>" and rest: "lpath h q ns None"
    by auto
  have c: "c \<noteq> a" "b \<noteq> a" "b \<noteq> c" and notin: "b \<notin> fst ` set ns" "a \<notin> fst ` set ns" "c \<notin> fst ` set ns"
    using Cons.prems n by auto
  show ?case
  proof (cases "k < kc")
    case True
    then show ?thesis using ptr hb hc rest c notin Cons.prems(4) n
      by (auto simp: insert_loop.simps deref_def set_next_def lpath_upd)
  next
    case False
    have step: "insert_loop h ptr k a = insert_loop h (Some c) k a"
      using False ptr hb hc by (subst insert_loop.simps) (simp add: deref_def)
    have "lpath h (Some c) ((c, kc, ic) # ns) None" using hc rest by auto
    note IH = Cons.IH [OF this _ _ Cons.prems(4)]
    have pre: "distinct (c # map fst ns)" "a \<notin> insert c (fst ` set ns)"
      using Cons.prems n by auto
    show ?thesis 
    proof (cases "list_all (\<lambda>n. node_key n \<le> k) ns")
      case True
      then show ?thesis using IH [OF pre] step False n by simp
    next
      case bigger: False
      then obtain h' where h': "insert_loop h (Some c) k a = Some (Inr (h', True))"
        "lpath h' (Some c) ((c, kc, ic) # ins_sorted (a, k, it) ns) None"
        "\<And>x. x \<notin> insert a (insert c (fst ` set ns)) \<Longrightarrow> h' x = h x"
        using IH [OF pre] by blast
      then have "h' b = Some \<lparr>le_next = Some c, le_key = kb, le_item = ib\<rparr>"
        using hb c notin by simp
      with h' step bigger False n ptr show ?thesis by auto
    qed
  qed
qed

lemma ins_sorted_all_le: "list_all (\<lambda>n. node_key n \<le> node_key x) ns \<Longrightarrow> ins_sorted x ns = ns @ [x]"
  by (induction ns) auto

lemma set_ins_sorted: "set (ins_sorted x ns) = insert x (set ns)"
  by (induction ns) auto

lemma ins_sorted_nonempty: "ins_sorted x ns \<noteq> []"
  by (cases ns) simp_all

lemma mset_ins_sorted: "mset (ins_sorted x ns) = add_mset x (mset ns)"
  by (induction ns) auto

lemma distinct_ins_sorted:
  "distinct (map fst (ins_sorted x ns)) \<longleftrightarrow> fst x \<notin> fst ` set ns \<and> distinct (map fst ns)"
  by (induction ns) (auto simp: set_ins_sorted)

lemma last_ins_sorted:
  "\<not> list_all (\<lambda>n. node_key n \<le> node_key x) ns \<Longrightarrow> last (ins_sorted x ns) = last ns"
  by (induction ns) (auto split: if_splits simp: neq_Nil_conv elim!: ins_sorted.elims)

lemma sorted_ins_sorted: "sorted (map node_key ns) \<Longrightarrow> sorted (map node_key (ins_sorted x ns))"
  by (induction ns) (auto simp: set_ins_sorted)

lemma List_SortedInsert_ok:
  assumes at: "list_at (h, l) ns" and fresh: "h a = None"
  shows "\<exists>s'. List_SortedInsert a it k (h, l) = Some (Inr s') \<and> list_at s' (ins_sorted (a, k, it) ns)"
proof (cases ns)
  case Nil
  with at show ?thesis
    by (simp add: List_SortedInsert_def IsEmpty_list_at ListElement_new_def) (simp add: list_at_def)
next
  case (Cons n ms)
  obtain b kb ib where n: "n = (b, kb, ib)" by (cases n) auto
  let ?h = "h(a \<mapsto> \<lparr>le_next = None, le_key = k, le_item = it\<rparr>)"
  have ne: "ns \<noteq> []" and nempty: "\<not> List_IsEmpty l"
    using Cons at IsEmpty_list_at by auto
  have a: "a \<notin> insert b (fst ` set ms)" using list_at_fresh [OF at fresh] Cons n by auto
  have dist: "distinct (b # map fst ms)" and last: "l_last l = Some (fst (last ns))"
    using at Cons n by (auto simp: list_at_def)
  have path: "lpath ?h (l_first l) ((b, kb, ib) # ms) None"
    using at fresh Cons n by (auto simp: list_at_def intro!: lpath_alloc simp del: lpath.simps)
  then have d: "\<exists>q. deref ?h (l_first l) = Inr \<lparr>le_next = q, le_key = kb, le_item = ib\<rparr>"
    by (auto simp: deref_def)
  show ?thesis
  proof (cases "k < kb")
    case True
    then show ?thesis using link_at_front [OF at fresh ne, of k it] d nempty Cons n
      by (auto simp: List_SortedInsert_def ListElement_new_def)
  next
    case False
    note loop = insert_loop_ok [OF path dist a, of k it]
    show ?thesis
    proof (cases "list_all (\<lambda>n. node_key n \<le> k) ms")
      case True
      then have "ins_sorted (a, k, it) ns = ns @ [(a, k, it)]"
        using False Cons n by (auto simp: ins_sorted_all_le)
      then show ?thesis using link_at_end [OF at fresh ne, of k it] loop True False d nempty
        by (auto simp: List_SortedInsert_def ListElement_new_def)
    next
      case bigger: False
      then obtain h' where h': "insert_loop ?h (l_first l) k a = Some (Inr (h', True))"
        "lpath h' (l_first l) ((b, kb, ib) # ins_sorted (a, k, it) ms) None"
        using loop by auto
      have "ms \<noteq> []" using bigger by auto
      with bigger have "last (ins_sorted (a, k, it) ms) = last ms" "ins_sorted (a, k, it) ms \<noteq> []"
        by (simp_all add: last_ins_sorted) (metis ins_sorted_nonempty)
      then have "list_at (h', l) (ins_sorted (a, k, it) ns)"
        using h'(2) False last dist a Cons n \<open>ms \<noteq> []\<close>
        by (auto simp: list_at_def distinct_ins_sorted set_ins_sorted)
      then show ?thesis using h'(1) False d nempty
        by (auto simp: List_SortedInsert_def ListElement_new_def)
    qed
  qed
qed

lemma List_Mapcar_ok:
  assumes "lpath h p ns None"
  shows "mapcar_loop h p = Some (Inr (map node_item ns))"
  using assms
proof (induction ns arbitrary: p)
  case Nil
  then show ?case by (simp add: mapcar_loop.simps)
next
  case (Cons n ns)
  then obtain a k it q where "n = (a, k, it)" and p: "p = Some a"
    and "h a = Some \<lparr>le_next = q, le_key = k, le_item = it\<rparr>" "lpath h q ns None"
    by (cases n) auto
  with Cons.IH show ?case by (simp add: mapcar_loop.simps [of h "Some a"] deref_def)
qed

text \<open>The destructor frees exactly the elements in front of the first NULL item, and that item.\<close>

lemma List_Remove_ok:
  assumes "list_at s (n # ns)"
  shows "\<exists>s'. List_Remove s = Inr (node_item n, s') \<and> list_at s' ns \<and> fst s' = (fst s)(fst n := None)"
  using List_SortedRemove_ok [of "fst s" "snd s" "fst n" "node_key n" "node_item n" ns] assms
  by (cases s) (auto simp: List_Remove_def)

lemma List_Remove_empty: "list_at s [] \<Longrightarrow> List_Remove s = Inr (None, s)"
  by (cases s) (simp add: List_Remove_def List_SortedRemove_empty)

lemma List_delete_ok:
  assumes "list_at s ns" "None \<notin> node_item ` set ns"
  shows "\<exists>s'. List_delete s = Some (Inr s') \<and> list_at s' [] \<and> fst s' = (fst s) |` (- (fst ` set ns))"
  using assms
proof (induction ns arbitrary: s)
  case Nil
  then show ?case using List_Remove_empty [of s] by (auto simp: List_delete.simps [of s])
next
  case (Cons n ns)
  from List_Remove_ok [OF Cons.prems(1)] obtain t where t: "List_Remove s = Inr (node_item n, t)"
    "list_at t ns" "fst t = (fst s)(fst n := None)" by blast
  moreover have "(fst s)(fst n := None) |` (- fst ` set ns) = fst s |` (- fst ` set (n # ns))"
    by (auto simp: restrict_map_def fun_eq_iff)
  moreover obtain s' where s': "List_delete t = Some (Inr s')" "list_at s' []"
      "fst s' = fst t |` (- fst ` set ns)"
    using Cons.IH [OF t(2)] Cons.prems(2) by auto
  moreover have "List_delete s = List_delete t"
    using t(1) Cons.prems(2) by (auto simp: List_delete.simps [of s])
  ultimately show ?case by (intro exI [of _ s']) simp
qed

text \<open>The heap list is a queue of non-NULL items.\<close>

definition queue_at :: "'a cells \<times> nlist \<Rightarrow> 'a list \<Rightarrow> bool" where
  "queue_at s xs \<longleftrightarrow> (\<exists>ns. list_at s ns \<and> map node_item ns = map Some xs)"

interpretation nq: fifo_queue queue_at "\<lambda>s a. fst s a = None" "\<lambda>a x. List_Append a (Some x)" List_Remove
proof unfold_locales
  fix s :: "'a cells \<times> nlist" and xs a x
  assume "queue_at s xs" "fst s a = None"
  then show "\<exists>s'. List_Append a (Some x) s = Inr s' \<and> queue_at s' (xs @ [x])"
    using List_Append_ok [of "fst s" "snd s" _ a "Some x"] by (cases s) (fastforce simp: queue_at_def)
next
  fix s :: "'a cells \<times> nlist" and x xs
  assume "queue_at s (x # xs)"
  then show "\<exists>s'. List_Remove s = Inr (Some x, s') \<and> queue_at s' xs"
    using List_Remove_ok [of s] by (fastforce simp: queue_at_def map_eq_Cons_conv)
next
  fix s :: "'a cells \<times> nlist"
  assume "queue_at s []"
  then show "List_Remove s = Inr (None, s)"
    by (auto simp: queue_at_def List_Remove_empty)
qed

lemma ins_sorted_split:
  "ins_sorted x ns = takeWhile (\<lambda>n. node_key n \<le> node_key x) ns @ x # dropWhile (\<lambda>n. node_key n \<le> node_key x) ns"
  by (induction ns) auto

lemma sorted_dropWhile_gt:
  "sorted (map node_key ns) \<Longrightarrow> n \<in> set (dropWhile (\<lambda>n. node_key n \<le> k) ns) \<Longrightarrow> k < node_key n"
  by (induction ns) (auto split: if_splits)

subsection \<open>Properties\<close>

text \<open>
  C32. \<open>SortedInsert\<close> on a well-formed heap list always ends; on a list sorted by key the new
  element lands after every element with a smaller or equal key and before every element with
  a larger one (so equal keys stay in arrival order), nothing else moves, and \<open>first\<close> and
  \<open>last\<close> again describe the list.
\<close>

theorem SortedInsert_stable_sorted:
  assumes "list_at (h, l) ns" and "h a = None" and "sorted (map node_key ns)"
  shows "\<exists>s' ms1 ms2. List_SortedInsert a it k (h, l) = Some (Inr s') \<and> ns = ms1 @ ms2 \<and>
           list_at s' (ms1 @ (a, k, it) # ms2) \<and>
           (\<forall>n \<in> set ms1. node_key n \<le> k) \<and> (\<forall>n \<in> set ms2. k < node_key n)"
proof -
  let ?P = "\<lambda>n :: 'a node. node_key n \<le> k"
  obtain s' where "List_SortedInsert a it k (h, l) = Some (Inr s')"
    "list_at s' (takeWhile ?P ns @ (a, k, it) # dropWhile ?P ns)"
    using List_SortedInsert_ok [OF assms(1,2), of it k] by (auto simp: ins_sorted_split)
  then show ?thesis
    using sorted_dropWhile_gt [OF assms(3)]
    by (intro exI [of _ s'] exI [of _ "takeWhile ?P ns"] exI [of _ "dropWhile ?P ns"])
      (auto dest: set_takeWhileD)
qed

theorem SortedInsert_stable_sorted_witness:
  "\<exists>s' ms1 ms2. List_SortedInsert 7 (Some ()) 3
      ([5 \<mapsto> \<lparr>le_next = Some 6, le_key = 3, le_item = Some ()\<rparr>, 6 \<mapsto> \<lparr>le_next = None, le_key = 4, le_item = Some ()\<rparr>],
       \<lparr>l_first = Some 5, l_last = Some 6\<rparr>) = Some (Inr s') \<and>
     [(5, 3, Some ()), (6, 4, Some ())] = ms1 @ ms2 \<and> list_at s' (ms1 @ (7, 3, Some ()) # ms2)"
proof -
  let ?h = "[5 \<mapsto> \<lparr>le_next = Some 6, le_key = 3, le_item = Some ()\<rparr>, 6 \<mapsto> \<lparr>le_next = None, le_key = 4, le_item = Some ()\<rparr>]"
  let ?ns = "[(5, 3, Some ()), (6, 4, Some ())]"
  have "list_at (?h, \<lparr>l_first = Some 5, l_last = Some 6\<rparr>) ?ns" by (simp add: list_at_def)
  moreover have "?h (7 :: nat) = None" and "sorted (map node_key ?ns)" by simp_all
  ultimately show ?thesis
    using SortedInsert_stable_sorted [of ?h "\<lparr>l_first = Some 5, l_last = Some 6\<rparr>" ?ns 7 "Some ()" 3] by blast
qed

text \<open>
  C33. The list is a first-in first-out queue: \<open>Append\<close> puts the item behind all others and
  \<open>Prepend\<close> before all others; \<open>Remove\<close> of an empty list returns NULL and changes nothing, of
  a non-empty one returns the first item, deletes its element and leaves the rest; \<open>Mapcar\<close>
  visits the items in order and ends.
\<close>

theorem List_is_fifo:
  assumes "list_at (h, l) ns" and "h a = None"
  shows "(\<exists>s'. List_Append a it (h, l) = Inr s' \<and> list_at s' (ns @ [(a, 0, it)])) \<and>
         (\<exists>s'. List_Prepend a it (h, l) = Inr s' \<and> list_at s' ((a, 0, it) # ns)) \<and>
         List_Mapcar (h, l) = Some (Inr (map node_item ns)) \<and>
         (case ns of [] \<Rightarrow> List_Remove (h, l) = Inr (None, (h, l))
          | n # ms \<Rightarrow> \<exists>s'. List_Remove (h, l) = Inr (node_item n, s') \<and> list_at s' ms \<and>
                             fst s' = h(fst n := None))"
proof -
  have "lpath h (l_first l) ns None" using assms(1) by (simp add: list_at_def)
  then have "List_Mapcar (h, l) = Some (Inr (map node_item ns))"
    by (simp add: List_Mapcar_def List_Mapcar_ok)
  moreover have "case ns of [] \<Rightarrow> List_Remove (h, l) = Inr (None, (h, l))
      | n # ms \<Rightarrow> \<exists>s'. List_Remove (h, l) = Inr (node_item n, s') \<and> list_at s' ms \<and> fst s' = h(fst n := None)"
    using assms(1) List_Remove_ok [of "(h, l)"] List_Remove_empty [of "(h, l)"] by (cases ns) auto
  ultimately show ?thesis
    using List_Append_ok [OF assms] List_Prepend_ok [OF assms] by blast
qed

theorem List_is_fifo_witness:
  "list_at (Map.empty :: nat cells, List_new) [] \<and>
   (\<exists>s'. List_Append 1 (Some (42 :: nat)) (Map.empty, List_new) = Inr s' \<and> list_at s' [(1, 0, Some 42)])"
proof -
  have "list_at (Map.empty :: nat cells, List_new) []" by (simp add: list_at_def List_new_def)
  with List_is_fifo [of Map.empty List_new "[]" 1 "Some (42 :: nat)"] show ?thesis by simp
qed

text \<open>
  Destroying a list whose items are not NULL ends and frees every element of the list and
  no other element.
\<close>

theorem List_delete_frees_all:
  assumes "list_at s ns" and "None \<notin> node_item ` set ns"
  shows "\<exists>s'. List_delete s = Some (Inr s') \<and> list_at s' [] \<and> fst s' = (fst s) |` (- (fst ` set ns))"
  using assms by (rule List_delete_ok)

theorem List_delete_frees_all_witness:
  "\<exists>s'. List_delete ([5 \<mapsto> \<lparr>le_next = None, le_key = 3, le_item = Some ()\<rparr>], \<lparr>l_first = Some 5, l_last = Some 5\<rparr>)
      = Some (Inr s') \<and> list_at s' []"
  using List_delete_frees_all [of "([5 \<mapsto> \<lparr>le_next = None, le_key = 3, le_item = Some ()\<rparr>],
      \<lparr>l_first = Some 5, l_last = Some 5\<rparr>)" "[(5, 3, Some ())]"]
  by (auto simp: list_at_def)

end
