(* ===== verification/Interrupt.thy ===== *)
theory Interrupt
  imports Machine_Memory Linked_List
begin

text \<open>
  The interrupt hardware and the clock: machine/interrupt.h, machine/interrupt.cc, machine/stats.h
  and machine/stats.cc. The record \<open>hardware\<close> extends the machine by the statistics and the fields
  of class \<^verbatim>\<open>Interrupt\<close>.

  The list \<^verbatim>\<open>pending\<close> is kept as the sequence of (key, item) pairs that the linked list of
  threads/list.cc represents; \<open>kinsert\<close> is what \<^verbatim>\<open>SortedInsert\<close> does to that sequence
  (\<open>SortedInsert_kinsert\<close> below). A handler is a function pointer and its argument: the model names
  the functions the devices register, and the operations that call through the pointer take the
  meaning of a handler as an argument, \<open>call\<close>. \<^verbatim>\<open>currentThread->Yield()\<close> is the argument \<open>yield\<close>.

  The loops \<^verbatim>\<open>while (CheckIfDue(FALSE))\<close> end only if handlers do not schedule overdue interrupts, so
  they are partial functions; the locale \<open>interrupt_handlers\<close> states what a handler keeps, and
  termination and the order of delivery are proved from it. Ticks are unbounded integers: the
  counters of the C++ code are assumed not to overflow.
\<close>

subsection \<open>Data\<close>

datatype IntStatus = IntOff | IntOn
datatype MachineStatus = IdleMode | SystemMode | UserMode
datatype IntType = TimerInt | DiskInt | ConsoleWriteInt | ConsoleReadInt | NetworkSendInt | NetworkRecvInt

datatype int_handler =
    TimerHandler | DiskDone | ConsoleReadPoll | ConsoleWriteDone | NetworkReadPoll | NetworkSendDone

record Statistics =
  totalTicks :: int
  idleTicks :: int
  systemTicks :: int
  userTicks :: int
  numDiskReads :: int
  numDiskWrites :: int
  numConsoleCharsRead :: int
  numConsoleCharsWritten :: int
  numPageFaults :: int
  numPacketsSent :: int
  numPacketsRecvd :: int

definition Statistics_new :: Statistics where
  "Statistics_new = \<lparr>totalTicks = 0, idleTicks = 0, systemTicks = 0, userTicks = 0,
     numDiskReads = 0, numDiskWrites = 0, numConsoleCharsRead = 0, numConsoleCharsWritten = 0,
     numPageFaults = 0, numPacketsSent = 0, numPacketsRecvd = 0\<rparr>"

definition UserTick :: int where [const_defs]: "UserTick = 1"
definition SystemTick :: int where [const_defs]: "SystemTick = 10"
definition RotationTime :: int where [const_defs]: "RotationTime = 500"
definition SeekTime :: int where [const_defs]: "SeekTime = 500"
definition ConsoleTime :: int where [const_defs]: "ConsoleTime = 100"
definition NetworkTime :: int where [const_defs]: "NetworkTime = 100"
definition TimerTicks :: int where [const_defs]: "TimerTicks = 100"

record PendingInterrupt =
  pi_handler :: int_handler
  pi_arg :: int
  pi_when :: int
  pi_type :: IntType

definition PendingInterrupt_new :: "int_handler \<Rightarrow> int \<Rightarrow> int \<Rightarrow> IntType \<Rightarrow> PendingInterrupt" where
  "PendingInterrupt_new func param time kind =
     \<lparr>pi_handler = func, pi_arg = param, pi_when = time, pi_type = kind\<rparr>"

record hardware = machine +
  stats :: Statistics
  level :: IntStatus
  pending :: "(int \<times> PendingInterrupt) list"
  inHandler :: bool
  yieldOnReturn :: bool
  status :: MachineStatus

text \<open>The fields that the constructor \<^verbatim>\<open>Interrupt::Interrupt\<close> sets.\<close>

definition Interrupt_new :: "'a hardware_scheme \<Rightarrow> 'a hardware_scheme" where
  "Interrupt_new s = s\<lparr>level := IntOff, pending := [], inHandler := False, yieldOnReturn := False,
     status := SystemMode\<rparr>"

subsection \<open>The sorted list of pending interrupts\<close>

fun kinsert :: "int \<times> 'a \<Rightarrow> (int \<times> 'a) list \<Rightarrow> (int \<times> 'a) list" where
  "kinsert x [] = [x]"
| "kinsert x (y # ys) = (if fst x < fst y then x # y # ys else y # kinsert x ys)"

subsection \<open>Operations\<close>

definition now :: "'a hardware_scheme \<Rightarrow> int" where
  "now s = totalTicks (stats s)"

definition ChangeLevel :: "IntStatus \<Rightarrow> IntStatus \<Rightarrow> 'a hardware_scheme \<Rightarrow> 'a hardware_scheme" where
  "ChangeLevel old new s = s\<lparr>level := new\<rparr>"

definition Schedule ::
    "int_handler \<Rightarrow> int \<Rightarrow> int \<Rightarrow> IntType \<Rightarrow> 'a hardware_scheme \<Rightarrow> 'a hardware_scheme res" where
  "Schedule handler arg fromNow type s =
     (let when = totalTicks (stats s) + fromNow;
          toOccur = PendingInterrupt_new handler arg when type in
      rbind (ASSERT (fromNow > 0)) (\<lambda>_.
      Inr (s\<lparr>pending := kinsert (when, toOccur) (pending s)\<rparr>)))"

definition CheckIfDue ::
    "(int_handler \<Rightarrow> int \<Rightarrow> 'a hardware_scheme \<Rightarrow> 'a hardware_scheme res) \<Rightarrow> bool \<Rightarrow>
     'a hardware_scheme \<Rightarrow> (bool \<times> 'a hardware_scheme) res" where
  "CheckIfDue call advanceClock s0 =
     (let old = status s0 in
      rbind (ASSERT (level s0 = IntOff)) (\<lambda>_.
      case pending s0 of
        [] \<Rightarrow> Inr (False, s0)
      | (when, toOccur) # rest \<Rightarrow>
          (let s = s0\<lparr>pending := rest\<rparr> in
           if \<not> advanceClock \<and> when > totalTicks (stats s)
           then Inr (False, s\<lparr>pending := kinsert (when, toOccur) rest\<rparr>)
           else
             let s1 = (if advanceClock \<and> when > totalTicks (stats s)
                       then s\<lparr>stats := (stats s)\<lparr>idleTicks := idleTicks (stats s) + (when - totalTicks (stats s)),
                                                 totalTicks := when\<rparr>\<rparr>
                       else s) in
             if status s1 = IdleMode \<and> pi_type toOccur = TimerInt \<and> pending s1 = []
             then Inr (False, s1\<lparr>pending := kinsert (when, toOccur) (pending s1)\<rparr>)
             else
               rbind (DelayedLoad 0 0 s1) (\<lambda>s2.
               rbind (call (pi_handler toOccur) (pi_arg toOccur) (s2\<lparr>inHandler := True, status := SystemMode\<rparr>)) (\<lambda>s3.
               Inr (True, s3\<lparr>status := old, inHandler := False\<rparr>))))))"

partial_function (option) due_loop ::
    "(int_handler \<Rightarrow> int \<Rightarrow> 'a hardware_scheme \<Rightarrow> 'a hardware_scheme res) \<Rightarrow>
     'a hardware_scheme \<Rightarrow> 'a hardware_scheme res option" where
  "due_loop call s =
     (case CheckIfDue call False s of
        Inl e \<Rightarrow> Some (Inl e)
      | Inr (fired, s') \<Rightarrow> if fired then due_loop call s' else Some (Inr s'))"

text \<open>\<^verbatim>\<open>OneTick\<close>: up to the end of the loop, and the rest, which may give up the processor.\<close>

definition tick_clock :: "'a hardware_scheme \<Rightarrow> 'a hardware_scheme" where
  "tick_clock s =
     (let st = stats s in
      if status s = SystemMode
      then s\<lparr>stats := st\<lparr>totalTicks := totalTicks st + SystemTick, systemTicks := systemTicks st + SystemTick\<rparr>\<rparr>
      else s\<lparr>stats := st\<lparr>totalTicks := totalTicks st + UserTick, userTicks := userTicks st + UserTick\<rparr>\<rparr>)"

definition OneTick ::
    "(int_handler \<Rightarrow> int \<Rightarrow> 'a hardware_scheme \<Rightarrow> 'a hardware_scheme res) \<Rightarrow>
     ('a hardware_scheme \<Rightarrow> 'a hardware_scheme res) \<Rightarrow>
     'a hardware_scheme \<Rightarrow> 'a hardware_scheme res" where
  "OneTick call yield s =
     (let old = status s in
      rbind (returns (due_loop call (ChangeLevel IntOn IntOff (tick_clock s)))) (\<lambda>s1.
      let s2 = ChangeLevel IntOff IntOn s1 in
      if yieldOnReturn s2
      then rbind (yield (s2\<lparr>yieldOnReturn := False, status := SystemMode\<rparr>)) (\<lambda>s3.
           Inr (s3\<lparr>status := old\<rparr>))
      else Inr s2))"

text \<open>\<^verbatim>\<open>SetLevel\<close>, with \<^verbatim>\<open>OneTick\<close> as the argument \<open>oneTick\<close>.\<close>

definition SetLevel ::
    "('a hardware_scheme \<Rightarrow> 'a hardware_scheme res) \<Rightarrow> IntStatus \<Rightarrow>
     'a hardware_scheme \<Rightarrow> (IntStatus \<times> 'a hardware_scheme) res" where
  "SetLevel oneTick new s =
     (let old = level s in
      rbind (ASSERT (new = IntOff \<or> \<not> inHandler s)) (\<lambda>_.
      let s1 = ChangeLevel old new s in
      if new = IntOn \<and> old = IntOff
      then rbind (oneTick s1) (\<lambda>s2. Inr (old, s2))
      else Inr (old, s1)))"

definition Enable ::
    "('a hardware_scheme \<Rightarrow> 'a hardware_scheme res) \<Rightarrow> 'a hardware_scheme \<Rightarrow> 'a hardware_scheme res" where
  "Enable oneTick s = rbind (SetLevel oneTick IntOn s) (\<lambda>(old, s'). Inr s')"

definition YieldOnReturn :: "'a hardware_scheme \<Rightarrow> 'a hardware_scheme res" where
  "YieldOnReturn s = rbind (ASSERT (inHandler s)) (\<lambda>_. Inr (s\<lparr>yieldOnReturn := True\<rparr>))"

text \<open>\<^verbatim>\<open>Halt\<close> prints the statistics and calls \<^verbatim>\<open>Cleanup\<close>, which exits the process.\<close>

definition Halt :: "'a hardware_scheme \<Rightarrow> 'b res" where
  "Halt s = Inl Halted"

definition Idle ::
    "(int_handler \<Rightarrow> int \<Rightarrow> 'a hardware_scheme \<Rightarrow> 'a hardware_scheme res) \<Rightarrow>
     'a hardware_scheme \<Rightarrow> 'a hardware_scheme res" where
  "Idle call s =
     rbind (CheckIfDue call True (s\<lparr>status := IdleMode\<rparr>)) (\<lambda>(fired, s1).
     if fired
     then rbind (returns (due_loop call s1)) (\<lambda>s2.
          Inr (s2\<lparr>yieldOnReturn := False, status := SystemMode\<rparr>))
     else Halt s1)"

text \<open>\<^verbatim>\<open>DumpState\<close>: the lines it prints, as the time, the level and the pending interrupts in order.\<close>

definition DumpState :: "'a hardware_scheme \<Rightarrow> int \<times> IntStatus \<times> (IntType \<times> int) list" where
  "DumpState s = (totalTicks (stats s), level s, map (\<lambda>(k, p). (pi_type p, pi_when p)) (pending s))"

subsection \<open>Sorted insertion\<close>

lemma set_kinsert [simp]: "set (kinsert x ps) = insert x (set ps)"
  by (induction ps) auto

lemma mset_kinsert: "mset (kinsert x ps) = add_mset x (mset ps)"
  by (induction ps) auto

lemma sorted_kinsert: "sorted (map fst ps) \<Longrightarrow> sorted (map fst (kinsert x ps))"
  by (induction ps) (auto simp: less_imp_le)

lemma kinsert_front: "list_all (\<lambda>y. fst x < fst y) ps \<Longrightarrow> kinsert x ps = x # ps"
  by (cases ps) auto

text \<open>Insertion of a later key does not disturb the elements that are due.\<close>

lemma takeWhile_kinsert:
  "t < fst x \<Longrightarrow> takeWhile (\<lambda>y. fst y \<le> t) (kinsert x ps) = takeWhile (\<lambda>y. fst y \<le> t) ps"
  by (induction ps) auto

lemma takeWhile_kinserts:
  "\<forall>x \<in> set new. t < fst x \<Longrightarrow>
   takeWhile (\<lambda>y. fst y \<le> t) (foldl (\<lambda>ps x. kinsert x ps) ps new) = takeWhile (\<lambda>y. fst y \<le> t) ps"
  by (induction new arbitrary: ps) (auto simp: takeWhile_kinsert)

lemma sorted_kinserts:
  "sorted (map fst ps) \<Longrightarrow> sorted (map fst (foldl (\<lambda>ps x. kinsert x ps) ps new))"
  by (induction new arbitrary: ps) (auto simp: sorted_kinsert)

lemma sorted_none_due:
  "sorted (map fst ps) \<Longrightarrow> takeWhile (\<lambda>y. fst y \<le> t) ps = [] \<Longrightarrow> \<forall>x \<in> set ps. t < fst x"
  by (cases ps) (auto split: if_splits)

text \<open>The linked list of threads/list.cc represents the sequence before and after \<^verbatim>\<open>SortedInsert\<close>.\<close>

definition keyed :: "'a node list \<Rightarrow> (int \<times> 'a) list \<Rightarrow> bool" where
  "keyed ns ps \<longleftrightarrow> map snd ns = map (\<lambda>(k, x). (k, Some x)) ps"

lemma keyed_ins_sorted:
  "keyed ns ps \<Longrightarrow> keyed (ins_sorted (a, k, Some x) ns) (kinsert (k, x) ps)"
  by (induction ns arbitrary: ps) (auto simp: keyed_def Cons_eq_map_conv)

lemma SortedInsert_kinsert:
  assumes "list_at (h, l) ns" and "h a = None" and "keyed ns ps"
  shows "\<exists>s' ns'. List_SortedInsert a (Some x) k (h, l) = Some (Inr s') \<and> list_at s' ns' \<and>
    keyed ns' (kinsert (k, x) ps)"
  using List_SortedInsert_ok [OF assms(1,2), of "Some x" k] keyed_ins_sorted [OF assms(3)] by blast

subsection \<open>The contract of an interrupt handler\<close>

text \<open>The part of \<^verbatim>\<open>CheckIfDue\<close> that runs the handler of the interrupt it has removed.\<close>

definition fire ::
    "(int_handler \<Rightarrow> int \<Rightarrow> 'a hardware_scheme \<Rightarrow> 'a hardware_scheme res) \<Rightarrow> PendingInterrupt \<Rightarrow>
     'a hardware_scheme \<Rightarrow> 'a hardware_scheme res" where
  "fire call p s =
     rbind (DelayedLoad 0 0 (s\<lparr>pending := tl (pending s)\<rparr>)) (\<lambda>s2.
     rbind (call (pi_handler p) (pi_arg p) (s2\<lparr>inHandler := True, status := SystemMode\<rparr>)) (\<lambda>s3.
     Inr (s3\<lparr>status := status s, inHandler := False\<rparr>)))"

definition due :: "'a hardware_scheme \<Rightarrow> (int \<times> PendingInterrupt) list" where
  "due s = takeWhile (\<lambda>x. fst x \<le> now s) (pending s)"

text \<open>Only the idle loop declines to run an interrupt: the last one, when it is the timer's.\<close>

definition only_timer :: "'a hardware_scheme \<Rightarrow> bool" where
  "only_timer s \<longleftrightarrow> status s = IdleMode \<and> (case pending s of [(w, p)] \<Rightarrow> pi_type p = TimerInt | _ \<Rightarrow> False)"

lemma only_timer_iff: "only_timer s \<longleftrightarrow> status s = IdleMode \<and> (\<exists>w p. pending s = [(w, p)] \<and> pi_type p = TimerInt)"
  by (auto simp: only_timer_def split: list.splits)

definition fire_idle ::
    "(int_handler \<Rightarrow> int \<Rightarrow> 'a hardware_scheme \<Rightarrow> 'a hardware_scheme res) \<Rightarrow> int \<times> PendingInterrupt \<Rightarrow>
     'a hardware_scheme \<Rightarrow> 'a hardware_scheme res" where
  "fire_idle call x s = (if only_timer s then Inr s else fire call (snd x) s)"

lemma CheckIfDue_due:
  assumes "level s = IntOff" and "pending s = (w, p) # ps" and "w \<le> now s" and "\<not> only_timer s"
  shows "CheckIfDue call adv s = rbind (fire call p s) (\<lambda>s'. Inr (True, s'))"
  using assms by (auto simp: CheckIfDue_def Let_def fire_def now_def only_timer_iff res_simps)

text \<open>
  When nothing is to be run, \<^verbatim>\<open>CheckIfDue\<close> has removed the first interrupt and inserts it again,
  which puts it behind the interrupts scheduled for the same time.
\<close>

definition put_back :: "'a hardware_scheme \<Rightarrow> 'a hardware_scheme" where
  "put_back s = s\<lparr>pending := (case pending s of [] \<Rightarrow> [] | x # ps \<Rightarrow> kinsert x ps)\<rparr>"

lemma put_back_simps [simp]:
  "level (put_back s) = level s" "stats (put_back s) = stats s" "status (put_back s) = status s"
  "now (put_back s) = now s" "mset (pending (put_back s)) = mset (pending s)"
  "sorted (map fst (pending s)) \<Longrightarrow> sorted (map fst (pending (put_back s)))"
  by (auto simp: put_back_def now_def mset_kinsert sorted_kinsert split: list.split)

lemma CheckIfDue_stop:
  assumes "level s = IntOff" and "due s = [] \<or> only_timer s"
  shows "CheckIfDue call False s = Inr (False, put_back s)"
proof (cases "pending s")
  case Nil
  then show ?thesis using assms by (simp add: CheckIfDue_def put_back_def)
next
  case (Cons x ps)
  obtain w p where x: "x = (w, p)" by (cases x)
  show ?thesis
  proof (cases "w \<le> now s")
    case True
    with assms(2) Cons x have "only_timer s" by (auto simp: due_def)
    with True assms(1) Cons x show ?thesis
      by (auto simp: CheckIfDue_def Let_def only_timer_iff now_def put_back_def)
  next
    case False
    with assms(1) Cons x show ?thesis
      by (simp add: CheckIfDue_def Let_def now_def put_back_def)
  qed
qed

lemma DelayedLoad_hardware:
  assumes "DelayedLoad r v s = Inr s'"
  shows "level s' = level s \<and> stats s' = stats s \<and> pending s' = pending s \<and> status s' = status s \<and>
    inHandler s' = inHandler s \<and> yieldOnReturn s' = yieldOnReturn s"
  using assms by (auto simp: DelayedLoad_def set_reg_def rbind_eq_Inr)

lemma DelayedLoad_ends: "ends (DelayedLoad r v s)"
  by (auto simp: DelayedLoad_def reg_def set_reg_def intro!: ends_rbind)

locale interrupt_handlers =
  fixes call :: "int_handler \<Rightarrow> int \<Rightarrow> 'a hardware_scheme \<Rightarrow> 'a hardware_scheme res"
  assumes handler_law:
    "level s = IntOff \<Longrightarrow> inHandler s \<Longrightarrow> call h a s = Inr s' \<Longrightarrow>
     level s' = IntOff \<and> now s' = now s \<and>
     (\<exists>new. pending s' = foldl (\<lambda>ps x. kinsert x ps) (pending s) new \<and> (\<forall>x \<in> set new. now s < fst x))"
    and handler_ends: "level s = IntOff \<Longrightarrow> ends (call h a s)"
begin

lemma fire_ends:
  assumes "level s = IntOff"
  shows "ends (fire call p s)"
proof -
  have "level s2 = IntOff" if "DelayedLoad 0 0 (s\<lparr>pending := tl (pending s)\<rparr>) = Inr s2" for s2
    using DelayedLoad_hardware [OF that] assms by simp
  then show ?thesis unfolding fire_def by (intro ends_rbind DelayedLoad_ends handler_ends) auto
qed

text \<open>Running one interrupt takes it off the list of due interrupts and adds none.\<close>

lemma fire_due:
  assumes "level s = IntOff" and "sorted (map fst (pending s))" and "due s = x # xs"
    and "fire call p s = Inr s'"
  shows "level s' = IntOff \<and> now s' = now s \<and> status s' = status s \<and> inHandler s' = False \<and>
    sorted (map fst (pending s')) \<and> due s' = xs"
proof -
  from assms(4) obtain s2 s3 where s2: "DelayedLoad 0 0 (s\<lparr>pending := tl (pending s)\<rparr>) = Inr s2"
    and s3: "call (pi_handler p) (pi_arg p) (s2\<lparr>inHandler := True, status := SystemMode\<rparr>) = Inr s3"
    and s': "s' = s3\<lparr>status := status s, inHandler := False\<rparr>"
    by (auto simp: fire_def rbind_eq_Inr)
  note d = DelayedLoad_hardware [OF s2]
  obtain new where n: "level s3 = IntOff" "now s3 = now s"
    "pending s3 = foldl (\<lambda>ps x. kinsert x ps) (tl (pending s)) new" "\<forall>x \<in> set new. now s < fst x"
    using handler_law [OF _ _ s3] d assms(1) by (auto simp: now_def)
  from assms(3) obtain ps where ps: "pending s = x # ps" "xs = takeWhile (\<lambda>x. fst x \<le> now s) ps"
    by (cases "pending s") (auto simp: due_def split: if_splits)
  then have "sorted (map fst ps)" using assms(2) by simp
  with n ps show ?thesis
    by (auto simp: s' due_def now_def takeWhile_kinserts intro!: sorted_kinserts)
qed

text \<open>The due interrupts run in the order of their times, each once; the idle loop leaves the timer's when it is the only one left.\<close>

lemma due_loop_idle_eq:
  assumes "level s = IntOff" and "sorted (map fst (pending s))"
  shows "due_loop call s = Some (rbind (for_each (fire_idle call) (due s) s) (\<lambda>s'. Inr (put_back s')))"
  using assms
proof (induction "due s" arbitrary: s)
  case Nil
  then show ?case
    by (simp add: due_loop.simps [of call s] CheckIfDue_stop flip: Nil.hyps)
next
  case (Cons x xs)
  obtain w p where x: "x = (w, p)" by (cases x)
  from Cons.hyps(2) x obtain ps where p: "pending s = (w, p) # ps" "w \<le> now s"
    by (cases "pending s") (auto simp: due_def split: if_splits)
  show ?case
  proof (cases "only_timer s")
    case True
    with p Cons.hyps(2) have "due s = [x]" by (auto simp: only_timer_iff due_def x)
    with True Cons.prems show ?thesis by (simp add: due_loop.simps [of call s] CheckIfDue_stop fire_idle_def)
  next
    case False
    then have c: "CheckIfDue call False s = rbind (fire call p s) (\<lambda>s'. Inr (True, s'))"
      using Cons.prems p by (intro CheckIfDue_due) auto
    show ?thesis
    proof (cases "fire call p s")
      case (Inl e)
      then show ?thesis using x c False by (simp add: due_loop.simps [of call s] fire_idle_def flip: Cons.hyps(2))
    next
      case (Inr s1)
      from fire_due [OF Cons.prems Cons.hyps(2) [symmetric] Inr] Cons.hyps(1) [of s1] Inr c x False
      show ?thesis by (simp add: due_loop.simps [of call s] fire_idle_def flip: Cons.hyps(2))
    qed
  qed
qed

lemma fire_idle_all:
  assumes "level s = IntOff" and "sorted (map fst (pending s))"
  shows "case for_each (fire_idle call) (due s) s of
      Inl e \<Rightarrow> e \<noteq> Diverged
    | Inr s' \<Rightarrow> level s' = IntOff \<and> now s' = now s \<and> status s' = status s \<and> sorted (map fst (pending s')) \<and> (due s' = [] \<or> only_timer s')"
  using assms
proof (induction "due s" arbitrary: s)
  case Nil
  then show ?case by (simp flip: Nil.hyps)
next
  case (Cons x xs)
  show ?case
  proof (cases "only_timer s")
    case True
    with Cons.hyps(2) have "due s = [x]" by (auto simp: only_timer_iff due_def split: if_splits)
    with True Cons.prems show ?thesis by (simp add: fire_idle_def)
  next
    case False
    show ?thesis
    proof (cases "fire call (snd x) s")
      case (Inl e)
      with fire_ends [OF Cons.prems(1), of "snd x"] False show ?thesis by (simp add: fire_idle_def flip: Cons.hyps(2))
    next
      case (Inr s1)
      from fire_due [OF Cons.prems Cons.hyps(2) [symmetric] Inr] Cons.hyps(1) [of s1] Inr False
      show ?thesis by (simp add: fire_idle_def flip: Cons.hyps(2) split: sum.splits)
    qed
  qed
qed

text \<open>Outside the idle loop none is left.\<close>

lemma fire_idle_busy:
  assumes "level s = IntOff" and "sorted (map fst (pending s))" and "status s \<noteq> IdleMode"
  shows "for_each (fire_idle call) (due s) s = for_each (\<lambda>x. fire call (snd x)) (due s) s"
  using assms
proof (induction "due s" arbitrary: s)
  case Nil
  then show ?case by (simp flip: Nil.hyps)
next
  case (Cons x xs)
  then have f: "fire_idle call x s = fire call (snd x) s" by (simp add: fire_idle_def only_timer_iff)
  show ?case
  proof (cases "fire call (snd x) s")
    case (Inl e)
    then show ?thesis using f by (simp flip: Cons.hyps(2))
  next
    case (Inr s1)
    from fire_due [OF Cons.prems(1,2) Cons.hyps(2) [symmetric] Inr] Cons.hyps(1) [of s1] Cons.prems(3) Inr f
    show ?thesis by (simp flip: Cons.hyps(2))
  qed
qed

lemma due_loop_eq:
  assumes "level s = IntOff" and "sorted (map fst (pending s))" and "status s \<noteq> IdleMode"
  shows "due_loop call s = Some (rbind (for_each (\<lambda>x. fire call (snd x)) (due s) s) (\<lambda>s'. Inr (put_back s')))"
  using due_loop_idle_eq [OF assms(1,2)] fire_idle_busy [OF assms] by simp

lemma fire_all:
  assumes "level s = IntOff" and "sorted (map fst (pending s))"
    and "for_each (\<lambda>x. fire call (snd x)) (due s) s = Inr s'"
  shows "level s' = IntOff \<and> now s' = now s \<and> status s' = status s \<and> sorted (map fst (pending s')) \<and> due s' = []"
  using assms
proof (induction "due s" arbitrary: s)
  case Nil
  then have "due s = []" by simp
  with Nil.prems show ?case by auto
next
  case (Cons x xs)
  from Cons.prems(3) Cons.hyps(2) [symmetric] obtain s1 where s1: "fire call (snd x) s = Inr s1"
    "for_each (\<lambda>x. fire call (snd x)) xs s1 = Inr s'" by (auto simp: rbind_eq_Inr)
  from fire_due [OF Cons.prems(1,2) Cons.hyps(2) [symmetric] s1(1)] Cons.hyps(1) [of s1] s1(2)
  show ?case by auto
qed

text \<open>One tick of the clock, when no handler asks for a context switch.\<close>

lemma OneTick_eq:
  assumes "sorted (map fst (pending s))" and "status s \<noteq> IdleMode"
  defines "s0 \<equiv> (tick_clock s)\<lparr>level := IntOff\<rparr>"
  shows "OneTick call yield s =
    rbind (for_each (\<lambda>x. fire call (snd x)) (due s0) s0) (\<lambda>s1.
      let s2 = (put_back s1)\<lparr>level := IntOn\<rparr> in
      if yieldOnReturn s2
      then rbind (yield (s2\<lparr>yieldOnReturn := False, status := SystemMode\<rparr>)) (\<lambda>s3. Inr (s3\<lparr>status := status s\<rparr>))
      else Inr s2)"
proof -
  have "level s0 = IntOff" "pending s0 = pending s" "status s0 = status s"
    by (simp_all add: s0_def tick_clock_def Let_def)
  then have "due_loop call s0 =
      Some (rbind (for_each (\<lambda>x. fire call (snd x)) (due s0) s0) (\<lambda>s'. Inr (put_back s')))"
    using assms(1,2) by (intro due_loop_eq) auto
  then show ?thesis
    by (simp add: OneTick_def ChangeLevel_def Let_def rbind_assoc flip: s0_def)
qed

end

text \<open>\<^verbatim>\<open>Idle\<close> before its loop: the first interrupt runs at its time, or there is nothing left to do.\<close>

definition skip_to :: "int \<Rightarrow> 'a hardware_scheme \<Rightarrow> 'a hardware_scheme" where
  "skip_to w s =
     (if w > now s
      then s\<lparr>stats := (stats s)\<lparr>idleTicks := idleTicks (stats s) + (w - now s), totalTicks := w\<rparr>\<rparr>
      else s)"

lemma hardware_update_order: "s\<lparr>pending := ps, stats := t\<rparr> = s\<lparr>stats := t, pending := ps\<rparr>"
  for s :: "'a hardware_scheme"
  by simp

lemma CheckIfDue_advance:
  assumes "level s = IntOff" and "status s = IdleMode" and "pending s = (w, p) # ps"
  shows "CheckIfDue call True s =
    (if ps = [] \<and> pi_type p = TimerInt then Inr (False, skip_to w s)
     else rbind (fire call p (skip_to w s)) (\<lambda>s'. Inr (True, s')))"
  using assms
  by (cases "w > now s")
    (auto simp: CheckIfDue_def Let_def skip_to_def now_def fire_def rbind_assoc hardware_update_order)

end
