(* ===== verification/Threads.thy ===== *)
theory Threads
  imports Interrupt
begin

text \<open>
  Threads, the scheduler and semaphores: threads/thread.h, threads/thread.cc,
  threads/scheduler.h, threads/scheduler.cc, threads/synch.h and threads/synch.cc, with the
  two operations of userprog/addrspace.cc that a context switch calls.

  The record \<open>kernel\<close> extends the hardware by the thread objects (a store indexed by the pointer),
  the global variables of threads/system.cc that concern threads, and the semaphores. The ready
  list and the waiting queues are the sequences their linked lists represent (\<open>List_is_fifo\<close>).

  A method of a thread is modelled from the point of view of the thread that calls it. The
  assembly routine \<^verbatim>\<open>SWITCH(oldThread, newThread)\<close> (switch.s) is an argument: a call of it
  returns when \<open>oldThread\<close> is dispatched again. What the other threads do meanwhile is the subject
  of the theory \<open>Thread_Steps\<close>, which interleaves the same pieces for all threads. The handlers
  of pending interrupts (\<open>call\<close>) and the clock tick that follows the enabling of interrupts
  (\<open>oneTick\<close>) are arguments too.
\<close>

subsection \<open>Data\<close>

datatype ThreadStatus = JUST_CREATED | RUNNING | READY | BLOCKED

text \<open>The functions that are forked.\<close>

datatype kfunc = SimpleThread | init_func | PostalHelper

text \<open>What the saved registers and the stack of a thread say it does when it gets the processor.\<close>

datatype switch_point =
    Executing | Fresh kfunc int | InYield | InP nat | Finishing

record addrspace =
  as_pageTable :: nat
  as_numPages :: int32

record thread =
  th_name :: string
  th_status :: ThreadStatus
  th_stack :: "int32 option"
  userRegisters :: "int32 list"
  th_space :: "nat option"
  th_point :: switch_point

record semaphore =
  sem_name :: string
  sem_value :: int
  sem_queue :: "nat list"

record kernel = hardware +
  threads :: "nat \<rightharpoonup> thread"
  currentThread :: nat
  threadToBeDestroyed :: "nat option"
  readyList :: "nat list"
  semaphores :: "nat \<rightharpoonup> semaphore"
  spaces :: "nat \<rightharpoonup> addrspace"

definition thread_at :: "nat \<Rightarrow> 'a kernel_scheme \<Rightarrow> thread res" where
  "thread_at t s = (case threads s t of None \<Rightarrow> Inl Undefined | Some th \<Rightarrow> Inr th)"

definition put_thread :: "nat \<Rightarrow> thread \<Rightarrow> 'a kernel_scheme \<Rightarrow> 'a kernel_scheme" where
  "put_thread t th s = s\<lparr>threads := (threads s)(t \<mapsto> th)\<rparr>"

definition sem_at :: "nat \<Rightarrow> 'a kernel_scheme \<Rightarrow> semaphore res" where
  "sem_at sm s = (case semaphores s sm of None \<Rightarrow> Inl Undefined | Some x \<Rightarrow> Inr x)"

definition put_sem :: "nat \<Rightarrow> semaphore \<Rightarrow> 'a kernel_scheme \<Rightarrow> 'a kernel_scheme" where
  "put_sem sm x s = s\<lparr>semaphores := (semaphores s)(sm \<mapsto> x)\<rparr>"

subsection \<open>Thread objects\<close>

definition STACK_FENCEPOST :: int32 where [const_defs]: "STACK_FENCEPOST = 0xdeadbeef"

text \<open>\<open>regs\<close> is what the uninitialised array \<^verbatim>\<open>userRegisters\<close> contains.\<close>

definition Thread_new :: "string \<Rightarrow> int32 list \<Rightarrow> thread" where
  "Thread_new threadName regs =
     \<lparr>th_name = threadName, th_status = JUST_CREATED, th_stack = None, userRegisters = regs,
      th_space = None, th_point = Executing\<rparr>"

definition Thread_delete :: "nat \<Rightarrow> 'a kernel_scheme \<Rightarrow> 'a kernel_scheme res" where
  "Thread_delete t s =
     rbind (thread_at t s) (\<lambda>_.
     rbind (ASSERT (t \<noteq> currentThread s)) (\<lambda>_.
     Inr (s\<lparr>threads := (threads s)(t := None)\<rparr>)))"

definition setStatus :: "ThreadStatus \<Rightarrow> nat \<Rightarrow> 'a kernel_scheme \<Rightarrow> 'a kernel_scheme res" where
  "setStatus st t s = rbind (thread_at t s) (\<lambda>th. Inr (put_thread t (th\<lparr>th_status := st\<rparr>) s))"

text \<open>The bottom word of the new stack is the fence post; its saved registers make the first
  \<^verbatim>\<open>SWITCH\<close> to the thread run \<^verbatim>\<open>ThreadRoot\<close>: enable interrupts, \<open>func arg\<close>, \<^verbatim>\<open>ThreadFinish\<close>.\<close>

definition StackAllocate :: "kfunc \<Rightarrow> int \<Rightarrow> nat \<Rightarrow> 'a kernel_scheme \<Rightarrow> 'a kernel_scheme res" where
  "StackAllocate func arg t s =
     rbind (thread_at t s) (\<lambda>th.
     Inr (put_thread t (th\<lparr>th_stack := Some STACK_FENCEPOST, th_point := Fresh func arg\<rparr>) s))"

definition CheckOverflow :: "nat \<Rightarrow> 'a kernel_scheme \<Rightarrow> unit res" where
  "CheckOverflow t s =
     rbind (thread_at t s) (\<lambda>th.
     case th_stack th of None \<Rightarrow> Inr () | Some w \<Rightarrow> ASSERT (w = STACK_FENCEPOST))"

definition SaveUserState :: "nat \<Rightarrow> 'a kernel_scheme \<Rightarrow> 'a kernel_scheme res" where
  "SaveUserState t s =
     rbind (thread_at t s) (\<lambda>th0.
     rbind (for_each (\<lambda>i th.
         rbind (ReadRegister (int i) s) (\<lambda>v.
         rbind (arr_set (userRegisters th) (int i) v) (\<lambda>rs. Inr (th\<lparr>userRegisters := rs\<rparr>))))
       [0..<NumTotalRegs] th0) (\<lambda>th.
     Inr (put_thread t th s)))"

definition RestoreUserState :: "nat \<Rightarrow> 'a kernel_scheme \<Rightarrow> 'a kernel_scheme res" where
  "RestoreUserState t s =
     rbind (thread_at t s) (\<lambda>th.
     for_each (\<lambda>i m.
         rbind (arr_get (userRegisters th) (int i)) (\<lambda>v. WriteRegister (int i) v m))
       [0..<NumTotalRegs] s)"

definition SaveState :: "nat \<Rightarrow> 'a kernel_scheme \<Rightarrow> 'a kernel_scheme res" where
  "SaveState sp s = (case spaces s sp of None \<Rightarrow> Inl Undefined | Some _ \<Rightarrow> Inr s)"

definition RestoreState :: "nat \<Rightarrow> 'a kernel_scheme \<Rightarrow> 'a kernel_scheme res" where
  "RestoreState sp s =
     (case spaces s sp of None \<Rightarrow> Inl Undefined
      | Some as \<Rightarrow> Inr (s\<lparr>pageTable := Some (as_pageTable as), pageTableSize := as_numPages as\<rparr>))"

subsection \<open>The scheduler\<close>

definition ReadyToRun :: "nat \<Rightarrow> 'a kernel_scheme \<Rightarrow> 'a kernel_scheme res" where
  "ReadyToRun t s = rbind (setStatus READY t s) (\<lambda>s1. Inr (s1\<lparr>readyList := readyList s1 @ [t]\<rparr>))"

definition FindNextToRun :: "'a kernel_scheme \<Rightarrow> nat option \<times> 'a kernel_scheme" where
  "FindNextToRun s =
     (case readyList s of [] \<Rightarrow> (None, s) | t # ts \<Rightarrow> (Some t, s\<lparr>readyList := ts\<rparr>))"

text \<open>\<^verbatim>\<open>Scheduler::Run\<close> before and after the call of \<^verbatim>\<open>SWITCH\<close>, and the whole method.\<close>

definition Run_before :: "nat \<Rightarrow> 'a kernel_scheme \<Rightarrow> 'a kernel_scheme res" where
  "Run_before nextThread s =
     (let oldThread = currentThread s in
      rbind (thread_at oldThread s) (\<lambda>th.
      rbind (case th_space th of
               None \<Rightarrow> Inr s
             | Some sp \<Rightarrow> rbind (SaveUserState oldThread s) (SaveState sp)) (\<lambda>s1.
      rbind (CheckOverflow oldThread s1) (\<lambda>_.
      setStatus RUNNING nextThread (s1\<lparr>currentThread := nextThread\<rparr>)))))"

definition Run_after :: "'a kernel_scheme \<Rightarrow> 'a kernel_scheme res" where
  "Run_after s =
     rbind (case threadToBeDestroyed s of
              None \<Rightarrow> Inr s
            | Some t \<Rightarrow> rbind (Thread_delete t s) (\<lambda>s1. Inr (s1\<lparr>threadToBeDestroyed := None\<rparr>))) (\<lambda>s1.
     rbind (thread_at (currentThread s1) s1) (\<lambda>th.
     case th_space th of
       None \<Rightarrow> Inr s1
     | Some sp \<Rightarrow> rbind (RestoreUserState (currentThread s1) s1) (RestoreState sp)))"

type_synonym 's switch = "nat \<Rightarrow> nat \<Rightarrow> 's \<Rightarrow> 's res"
type_synonym 's handlers = "int_handler \<Rightarrow> int \<Rightarrow> 's \<Rightarrow> 's res"

definition Scheduler_Run :: "'a kernel_scheme switch \<Rightarrow> nat \<Rightarrow> 'a kernel_scheme \<Rightarrow> 'a kernel_scheme res" where
  "Scheduler_Run SWITCH nextThread s =
     rbind (Run_before nextThread s) (\<lambda>s1.
     rbind (SWITCH (currentThread s) nextThread s1) Run_after)"

subsection \<open>Giving up the processor\<close>

partial_function (option) sleep_loop ::
    "('a kernel_scheme \<Rightarrow> 'a kernel_scheme res) \<Rightarrow> 'a kernel_scheme \<Rightarrow> (nat \<times> 'a kernel_scheme) res option" where
  "sleep_loop idle s =
     (case FindNextToRun s of
        (Some t, s1) \<Rightarrow> Some (Inr (t, s1))
      | (None, s1) \<Rightarrow> (case idle s1 of Inl e \<Rightarrow> Some (Inl e) | Inr s2 \<Rightarrow> sleep_loop idle s2))"

definition Thread_Sleep ::
    "'a kernel_scheme switch \<Rightarrow> 'a kernel_scheme handlers \<Rightarrow> nat \<Rightarrow> 'a kernel_scheme \<Rightarrow> 'a kernel_scheme res" where
  "Thread_Sleep SWITCH call this s =
     rbind (ASSERT (this = currentThread s)) (\<lambda>_.
     rbind (ASSERT (level s = IntOff)) (\<lambda>_.
     rbind (setStatus BLOCKED this s) (\<lambda>s1.
     rbind (returns (sleep_loop (Idle call) s1)) (\<lambda>(nextThread, s2).
     Scheduler_Run SWITCH nextThread s2))))"

definition Thread_Yield ::
    "'a kernel_scheme switch \<Rightarrow> ('a kernel_scheme \<Rightarrow> 'a kernel_scheme res) \<Rightarrow> nat \<Rightarrow>
     'a kernel_scheme \<Rightarrow> 'a kernel_scheme res" where
  "Thread_Yield SWITCH oneTick this s =
     rbind (SetLevel oneTick IntOff s) (\<lambda>(oldLevel, s1).
     rbind (ASSERT (this = currentThread s1)) (\<lambda>_.
     case FindNextToRun s1 of
       (None, s2) \<Rightarrow> rbind (SetLevel oneTick oldLevel s2) (\<lambda>(_, s3). Inr s3)
     | (Some nextThread, s2) \<Rightarrow>
         rbind (ReadyToRun this s2) (\<lambda>s3.
         rbind (Scheduler_Run SWITCH nextThread s3) (\<lambda>s4.
         rbind (SetLevel oneTick oldLevel s4) (\<lambda>(_, s5). Inr s5)))))"

definition Thread_Finish ::
    "'a kernel_scheme switch \<Rightarrow> 'a kernel_scheme handlers \<Rightarrow> ('a kernel_scheme \<Rightarrow> 'a kernel_scheme res) \<Rightarrow> nat \<Rightarrow>
     'a kernel_scheme \<Rightarrow> 'a kernel_scheme res" where
  "Thread_Finish SWITCH call oneTick this s =
     rbind (SetLevel oneTick IntOff s) (\<lambda>(_, s1).
     rbind (ASSERT (this = currentThread s1)) (\<lambda>_.
     Thread_Sleep SWITCH call this (s1\<lparr>threadToBeDestroyed := Some (currentThread s1)\<rparr>)))"

definition Thread_Fork ::
    "('a kernel_scheme \<Rightarrow> 'a kernel_scheme res) \<Rightarrow> kfunc \<Rightarrow> int \<Rightarrow> nat \<Rightarrow> 'a kernel_scheme \<Rightarrow> 'a kernel_scheme res" where
  "Thread_Fork oneTick func arg this s =
     rbind (StackAllocate func arg this s) (\<lambda>s1.
     rbind (SetLevel oneTick IntOff s1) (\<lambda>(oldLevel, s2).
     rbind (ReadyToRun this s2) (\<lambda>s3.
     rbind (SetLevel oneTick oldLevel s3) (\<lambda>(_, s4). Inr s4))))"

subsection \<open>Semaphores\<close>

definition Semaphore_new :: "string \<Rightarrow> int \<Rightarrow> semaphore" where
  "Semaphore_new debugName initialValue =
     \<lparr>sem_name = debugName, sem_value = initialValue, sem_queue = []\<rparr>"

definition Semaphore_delete :: "nat \<Rightarrow> 'a kernel_scheme \<Rightarrow> 'a kernel_scheme res" where
  "Semaphore_delete sm s =
     rbind (sem_at sm s) (\<lambda>_. Inr (s\<lparr>semaphores := (semaphores s)(sm := None)\<rparr>))"

text \<open>\<^verbatim>\<open>queue->Append(currentThread)\<close>, and the body of \<^verbatim>\<open>V\<close> with interrupts off.\<close>

definition sem_enqueue :: "nat \<Rightarrow> 'a kernel_scheme \<Rightarrow> 'a kernel_scheme res" where
  "sem_enqueue sm s =
     rbind (sem_at sm s) (\<lambda>x. Inr (put_sem sm (x\<lparr>sem_queue := sem_queue x @ [currentThread s]\<rparr>) s))"

definition sem_decrement :: "nat \<Rightarrow> 'a kernel_scheme \<Rightarrow> 'a kernel_scheme res" where
  "sem_decrement sm s =
     rbind (sem_at sm s) (\<lambda>x. Inr (put_sem sm (x\<lparr>sem_value := sem_value x - 1\<rparr>) s))"

definition V_section :: "nat \<Rightarrow> 'a kernel_scheme \<Rightarrow> 'a kernel_scheme res" where
  "V_section sm s =
     rbind (sem_at sm s) (\<lambda>x.
     rbind (case sem_queue x of
              [] \<Rightarrow> Inr s
            | t # ts \<Rightarrow> ReadyToRun t (put_sem sm (x\<lparr>sem_queue := ts\<rparr>) s)) (\<lambda>s1.
     rbind (sem_at sm s1) (\<lambda>y.
     rbind (cint (sem_value y + 1)) (\<lambda>v.
     Inr (put_sem sm (y\<lparr>sem_value := v\<rparr>) s1)))))"

partial_function (option) P_loop ::
    "('a kernel_scheme \<Rightarrow> 'a kernel_scheme res) \<Rightarrow> nat \<Rightarrow> 'a kernel_scheme \<Rightarrow> 'a kernel_scheme res option" where
  "P_loop sleep sm s =
     (case sem_at sm s of
        Inl e \<Rightarrow> Some (Inl e)
      | Inr x \<Rightarrow>
          if sem_value x = 0
          then (case rbind (sem_enqueue sm s) sleep of
                  Inl e \<Rightarrow> Some (Inl e)
                | Inr s1 \<Rightarrow> P_loop sleep sm s1)
          else Some (Inr s))"

definition Semaphore_P ::
    "'a kernel_scheme switch \<Rightarrow> 'a kernel_scheme handlers \<Rightarrow> ('a kernel_scheme \<Rightarrow> 'a kernel_scheme res) \<Rightarrow> nat \<Rightarrow>
     'a kernel_scheme \<Rightarrow> 'a kernel_scheme res" where
  "Semaphore_P SWITCH call oneTick sm s =
     rbind (SetLevel oneTick IntOff s) (\<lambda>(oldLevel, s1).
     rbind (returns (P_loop (\<lambda>s. Thread_Sleep SWITCH call (currentThread s) s) sm s1)) (\<lambda>s2.
     rbind (sem_decrement sm s2) (\<lambda>s3.
     rbind (SetLevel oneTick oldLevel s3) (\<lambda>(_, s4). Inr s4))))"

definition Semaphore_V ::
    "('a kernel_scheme \<Rightarrow> 'a kernel_scheme res) \<Rightarrow> nat \<Rightarrow> 'a kernel_scheme \<Rightarrow> 'a kernel_scheme res" where
  "Semaphore_V oneTick sm s =
     rbind (SetLevel oneTick IntOff s) (\<lambda>(oldLevel, s1).
     rbind (V_section sm s1) (\<lambda>s2.
     rbind (SetLevel oneTick oldLevel s2) (\<lambda>(_, s3). Inr s3)))"

text \<open>Locks and conditions are dummies in this code: only \<^verbatim>\<open>Condition::Wait\<close> does anything.\<close>

definition Lock_Acquire :: "'a kernel_scheme \<Rightarrow> 'a kernel_scheme" where "Lock_Acquire s = s"
definition Lock_Release :: "'a kernel_scheme \<Rightarrow> 'a kernel_scheme" where "Lock_Release s = s"
definition Condition_Wait :: "'a kernel_scheme \<Rightarrow> 'a kernel_scheme res" where "Condition_Wait s = Inl Aborted"
definition Condition_Signal :: "'a kernel_scheme \<Rightarrow> 'a kernel_scheme" where "Condition_Signal s = s"
definition Condition_Broadcast :: "'a kernel_scheme \<Rightarrow> 'a kernel_scheme" where "Condition_Broadcast s = s"

subsection \<open>Saving and restoring user registers\<close>

lemma copy_step:
  "k < length xs \<Longrightarrow> length ys = length xs \<Longrightarrow>
   (take k xs @ drop k ys)[k := xs ! k] = take (Suc k) xs @ drop (Suc k) ys"
  by (simp add: list_update_append take_Suc_conv_app_nth flip: Cons_nth_drop_Suc)

lemma SaveUserState_eq:
  assumes "threads s t = Some th" and "length (userRegisters th) = NumTotalRegs"
    and "length (registers s) = NumTotalRegs"
  shows "SaveUserState t s = Inr (put_thread t (th\<lparr>userRegisters := registers s\<rparr>) s)"
proof -
  let ?I = "\<lambda>k u. u = th\<lparr>userRegisters := take k (registers s) @ drop k (userRegisters th)\<rparr>"
  let ?f = "\<lambda>i th. rbind (ReadRegister (int i) s) (\<lambda>v.
      rbind (arr_set (userRegisters th) (int i) v) (\<lambda>rs. Inr (th\<lparr>userRegisters := rs\<rparr>)))"
  have "\<exists>th'. for_each ?f [0..<NumTotalRegs] th = Inr th' \<and> ?I NumTotalRegs th'"
  proof (rule for_each_upt_inv)
    fix i u assume "i < NumTotalRegs" "?I i u"
    then show "\<exists>u'. ?f i u = Inr u' \<and> ?I (Suc i) u'"
      using assms copy_step [of i "registers s" "userRegisters th"] by (simp add: ReadRegister_def)
  qed simp
  then show ?thesis using assms by (auto simp: SaveUserState_def thread_at_def)
qed

lemma RestoreUserState_eq:
  assumes "threads s t = Some th" and "length (userRegisters th) = NumTotalRegs"
    and "length (registers s) = NumTotalRegs"
  shows "RestoreUserState t s = Inr (s\<lparr>registers := userRegisters th\<rparr>)"
proof -
  let ?I = "\<lambda>k u. u = s\<lparr>registers := take k (userRegisters th) @ drop k (registers s)\<rparr>"
  let ?f = "\<lambda>i m. rbind (arr_get (userRegisters th) (int i)) (\<lambda>v. WriteRegister (int i) v m)"
  have "\<exists>s'. for_each ?f [0..<NumTotalRegs] s = Inr s' \<and> ?I NumTotalRegs s'"
  proof (rule for_each_upt_inv)
    fix i u assume "i < NumTotalRegs" "?I i u"
    then show "\<exists>u'. ?f i u = Inr u' \<and> ?I (Suc i) u'"
      using assms copy_step [of i "userRegisters th" "registers s"] by (simp add: WriteRegister_def)
  qed simp
  then show ?thesis using assms by (auto simp: RestoreUserState_def thread_at_def)
qed

subsection \<open>What the operations keep\<close>

lemma thread_at_eq_Inr: "thread_at t s = Inr th \<longleftrightarrow> threads s t = Some th"
  by (simp add: thread_at_def split: option.split)

lemma sem_at_eq_Inr: "sem_at sm s = Inr x \<longleftrightarrow> semaphores s sm = Some x"
  by (simp add: sem_at_def split: option.split)

lemma put_thread_simps [simp]:
  "threads (put_thread t th s) = (threads s)(t \<mapsto> th)" "currentThread (put_thread t th s) = currentThread s"
  "threadToBeDestroyed (put_thread t th s) = threadToBeDestroyed s"
  "readyList (put_thread t th s) = readyList s" "semaphores (put_thread t th s) = semaphores s"
  "spaces (put_thread t th s) = spaces s" "registers (put_thread t th s) = registers s"
  "level (put_thread t th s) = level s" "pending (put_thread t th s) = pending s"
  "stats (put_thread t th s) = stats s" "inHandler (put_thread t th s) = inHandler s"
  "status (put_thread t th s) = status s" "now (put_thread t th s) = now s"
  by (simp_all add: put_thread_def now_def)

lemma put_sem_simps [simp]:
  "threads (put_sem t th s) = threads s" "currentThread (put_sem t th s) = currentThread s"
  "threadToBeDestroyed (put_sem t th s) = threadToBeDestroyed s"
  "readyList (put_sem t th s) = readyList s" "semaphores (put_sem t th s) = (semaphores s)(t \<mapsto> th)"
  "spaces (put_sem t th s) = spaces s" "registers (put_sem t th s) = registers s"
  "level (put_sem t th s) = level s" "pending (put_sem t th s) = pending s"
  "stats (put_sem t th s) = stats s" "inHandler (put_sem t th s) = inHandler s"
  "status (put_sem t th s) = status s" "now (put_sem t th s) = now s"
  by (simp_all add: put_sem_def now_def)

text \<open>\<^verbatim>\<open>V\<close> in an interrupt handler runs with interrupts off from start to end: no time passes and the
  interrupt state stays as it is.\<close>

lemma ReadyToRun_hardware:
  assumes "ReadyToRun t s = Inr s'"
  shows "level s' = level s \<and> now s' = now s \<and> pending s' = pending s \<and> inHandler s' = inHandler s"
  using assms by (auto simp: ReadyToRun_def setStatus_def rbind_eq_Inr now_def)

lemma V_section_hardware:
  assumes "V_section sm s = Inr s'"
  shows "level s' = level s \<and> now s' = now s \<and> pending s' = pending s \<and> inHandler s' = inHandler s"
proof -
  from assms obtain x where x: "sem_at sm s = Inr x" by (auto simp: V_section_def rbind_eq_Inr)
  show ?thesis
  proof (cases "sem_queue x")
    case Nil
    with x assms show ?thesis by (auto simp: V_section_def rbind_eq_Inr cint_eq_Inr)
  next
    case (Cons t ts)
    with x assms obtain s1 y where "ReadyToRun t (put_sem sm (x\<lparr>sem_queue := ts\<rparr>) s) = Inr s1"
      "s' = put_sem sm (y\<lparr>sem_value := sem_value y + 1\<rparr>) s1"
      by (auto simp: V_section_def rbind_eq_Inr cint_eq_Inr)
    then show ?thesis by (auto dest!: ReadyToRun_hardware)
  qed
qed

lemma V_section_ends: "ends (V_section sm s)"
proof -
  have at: "ends (sem_at sm s)" "ends (thread_at t s)" for t and s :: "'a kernel_scheme"
    by (auto simp: sem_at_def thread_at_def split: option.split)
  show ?thesis
    unfolding V_section_def
    by (intro ends_rbind at) (auto simp: ReadyToRun_def setStatus_def at split: list.split intro!: ends_rbind at)
qed

lemma Semaphore_V_in_handler:
  assumes "level s = IntOff"
  shows "Semaphore_V oneTick sm s = V_section sm s"
proof -
  have off: "SetLevel oneTick IntOff u = Inr (IntOff, u)" if "level u = IntOff" for u :: "'a kernel_scheme"
    using that by (simp add: SetLevel_def ChangeLevel_def Let_def)
  show ?thesis
  proof (cases "V_section sm s")
    case (Inl e)
    then show ?thesis using off [OF assms] by (simp add: Semaphore_V_def)
  next
    case (Inr s')
    then show ?thesis using off [OF assms] off [of s'] V_section_hardware [OF Inr] assms
      by (simp add: Semaphore_V_def)
  qed
qed

lemma Run_before_user:
  assumes "threads s (currentThread s) = Some th" "th_space th = Some sp"
      "th_stack th \<in> {None, Some STACK_FENCEPOST}"
    and "length (registers s) = NumTotalRegs" "length (userRegisters th) = NumTotalRegs"
    and "spaces s sp = Some as"
  shows "Run_before nextThread s =
      setStatus RUNNING nextThread
        ((put_thread (currentThread s) (th\<lparr>userRegisters := registers s\<rparr>) s)\<lparr>currentThread := nextThread\<rparr>)"
  using assms
  by (auto simp: Run_before_def thread_at_def SaveUserState_eq SaveState_def CheckOverflow_def)

subsection \<open>Properties\<close>

text \<open>C28. A context switch is invisible to user programs. When a thread with an address space gives up
  the processor in \<^verbatim>\<open>Scheduler::Run\<close> and \<^verbatim>\<open>SWITCH\<close> later returns to it, having left the saved registers in
  its thread object alone, then whatever the other threads did to the machine in between, all
  its user registers have their old values again and the machine uses its page table. If it was
  a finished thread that was switched away from, that thread has been deleted.\<close>

theorem Run_preserves_user_state:
  assumes cur: "threads s (currentThread s) = Some th" "th_space th = Some sp"
      "th_stack th \<in> {None, Some STACK_FENCEPOST}"
    and regs: "length (registers s) = NumTotalRegs" "length (userRegisters th) = NumTotalRegs"
    and as: "spaces s sp = Some as"
    and before: "Run_before nextThread s = Inr s1"
    and switched: "currentThread s2 = currentThread s" "threads s2 (currentThread s) = Some th2"
      "userRegisters th2 = userRegisters (the (threads s1 (currentThread s)))" "th_space th2 = Some sp"
      "spaces s2 sp = Some as" "length (registers s2) = NumTotalRegs"
    and destroyed: "threadToBeDestroyed s2 = None \<or>
      (\<exists>d. threadToBeDestroyed s2 = Some d \<and> d \<noteq> currentThread s \<and> threads s2 d \<noteq> None)"
  shows "\<exists>s3. Scheduler_Run (\<lambda>_ _ _. Inr s2) nextThread s = Inr s3 \<and> registers s3 = registers s \<and>
    pageTable s3 = Some (as_pageTable as) \<and> pageTableSize s3 = as_numPages as \<and>
    currentThread s3 = currentThread s \<and> threadToBeDestroyed s3 = None \<and>
    (\<forall>d. threadToBeDestroyed s2 = Some d \<longrightarrow> threads s3 d = None)"
proof -
  let ?c = "currentThread s"
  have "userRegisters (the (threads s1 ?c)) = registers s"
    using before unfolding Run_before_user [OF cur regs as]
    by (auto simp: setStatus_def rbind_eq_Inr thread_at_eq_Inr split: if_splits)
  with switched have saved: "userRegisters th2 = registers s" by simp
  define s2' where "s2' = (case threadToBeDestroyed s2 of None \<Rightarrow> s2
    | Some d \<Rightarrow> s2\<lparr>threads := (threads s2)(d := None), threadToBeDestroyed := None\<rparr>)"
  have s2': "threads s2' ?c = Some th2" "registers s2' = registers s2" "spaces s2' = spaces s2"
      "currentThread s2' = ?c" "threadToBeDestroyed s2' = None"
    using destroyed switched by (auto simp: s2'_def split: option.split)
  have "RestoreUserState ?c s2' = Inr (s2'\<lparr>registers := registers s\<rparr>)"
    using RestoreUserState_eq [OF s2'(1)] s2' saved regs switched by simp
  moreover have "Run_after s2 = rbind (thread_at ?c s2') (\<lambda>th.
      case th_space th of None \<Rightarrow> Inr s2' | Some sp \<Rightarrow> rbind (RestoreUserState ?c s2') (RestoreState sp))"
    using destroyed switched
    by (auto simp: Run_after_def s2'_def Thread_delete_def thread_at_def split: option.splits)
  ultimately have "Run_after s2 =
      Inr (s2'\<lparr>registers := registers s, pageTable := Some (as_pageTable as), pageTableSize := as_numPages as\<rparr>)"
    using s2' switched by (simp add: thread_at_def RestoreState_def)
  with before s2' show ?thesis
    by (auto simp: Scheduler_Run_def) (simp add: s2'_def)
qed

text \<open>A kernel with a user thread 0, running, and a kernel thread 1, ready.\<close>

definition two_thread_kernel :: kernel where
  "two_thread_kernel =
     \<lparr>registers = replicate NumTotalRegs 7, mainMemory = (\<lambda>_. 0), tables = Map.empty, tlb = None,
      pageTable = Some 3, pageTableSize = 2, singleStep = False, runUntilTime = 0,
      stats = Statistics_new, level = IntOff, pending = [], inHandler = False, yieldOnReturn = False,
      status = SystemMode,
      threads = [0 \<mapsto> (Thread_new ''user'' (replicate NumTotalRegs 0))\<lparr>th_status := READY, th_space := Some 5\<rparr>,
                 1 \<mapsto> (Thread_new ''worker'' (replicate NumTotalRegs 0))\<lparr>th_status := READY\<rparr>],
      currentThread = 0, threadToBeDestroyed = None, readyList = [0],
      semaphores = Map.empty, spaces = [5 \<mapsto> \<lparr>as_pageTable = 3, as_numPages = 2\<rparr>]\<rparr>"

theorem Run_preserves_user_state_witness:
  "\<exists>s1 s3. Run_before 1 two_thread_kernel = Inr s1 \<and>
    Scheduler_Run (\<lambda>_ _ _. Inr (s1\<lparr>currentThread := 0, registers := replicate NumTotalRegs 99, pageTable := None\<rparr>)) 1
      two_thread_kernel = Inr s3 \<and>
    registers s3 = replicate NumTotalRegs 7 \<and> pageTable s3 = Some 3"
proof -
  let ?s = two_thread_kernel
  let ?th = "(Thread_new ''user'' (replicate NumTotalRegs 0))\<lparr>th_status := READY, th_space := Some 5\<rparr>"
  have th: "threads ?s 0 = Some ?th" "threads ?s (currentThread ?s) = Some ?th"
      "th_space ?th = Some 5" "th_stack ?th \<in> {None, Some STACK_FENCEPOST}"
      "length (userRegisters ?th) = NumTotalRegs" "length (registers ?s) = NumTotalRegs"
      "spaces ?s 5 = Some \<lparr>as_pageTable = 3, as_numPages = 2\<rparr>"
    by (simp_all add: two_thread_kernel_def Thread_new_def)
  have w: "threads ?s 1 = Some ((Thread_new ''worker'' (replicate NumTotalRegs 0))\<lparr>th_status := READY\<rparr>)"
      "currentThread ?s = 0" "registers ?s = replicate NumTotalRegs 7" "threadToBeDestroyed ?s = None"
    by (simp_all add: two_thread_kernel_def)
  obtain s1 where s1: "Run_before 1 ?s = Inr s1"
    and t: "threads s1 0 = Some (?th\<lparr>userRegisters := replicate NumTotalRegs 7\<rparr>)"
    and o: "spaces s1 = spaces ?s" "threadToBeDestroyed s1 = None"
    unfolding Run_before_user [OF th(2-4) th(6,5,7)]
    using w th by (simp add: setStatus_def thread_at_def)
  let ?s2 = "s1\<lparr>currentThread := 0, registers := replicate NumTotalRegs 99, pageTable := None\<rparr>"
  from Run_preserves_user_state [OF th(2-4) th(6,5,7) s1, of ?s2 "?th\<lparr>userRegisters := replicate NumTotalRegs 7\<rparr>"] t o th s1 w
  show ?thesis by auto
qed

end
