(* ===== verification/Thread_Steps.thy ===== *)
theory Thread_Steps
  imports Threads
begin

text \<open>
  All threads together. \<open>kstep\<close> interleaves the pieces of the methods of the theory \<open>Threads\<close> between
  two points where the processor changes hands: the running thread may call \<^verbatim>\<open>P\<close>, \<^verbatim>\<open>V\<close>, \<^verbatim>\<open>Yield\<close>,
  \<^verbatim>\<open>Fork\<close> and \<^verbatim>\<open>Finish\<close> in any order, an interrupt handler may call \<^verbatim>\<open>V\<close> at any time (also while the
  current thread waits in the loop of \<^verbatim>\<open>Sleep\<close>), and a thread that gets the processor continues
  where it gave it up: at the test of the loop in \<^verbatim>\<open>P\<close>, after the \<^verbatim>\<open>Run\<close> of \<^verbatim>\<open>Yield\<close>, or in
  \<^verbatim>\<open>ThreadRoot\<close>. Each piece runs with interrupts disabled, so no other step comes between.

  The invariant \<open>sched_ok\<close> says that every thread is accounted for; \<open>wakeup_ok\<close> that no wake-up is
  lost. Both hold in every reachable state, by induction over the steps.
\<close>

definition point :: "'a kernel_scheme \<Rightarrow> nat \<Rightarrow> switch_point option" where
  "point s t = map_option th_point (threads s t)"

definition tstatus :: "'a kernel_scheme \<Rightarrow> nat \<Rightarrow> ThreadStatus option" where
  "tstatus s t = map_option th_status (threads s t)"

definition set_point :: "switch_point \<Rightarrow> nat \<Rightarrow> 'a kernel_scheme \<Rightarrow> 'a kernel_scheme res" where
  "set_point pt t s = rbind (thread_at t s) (\<lambda>th. Inr (put_thread t (th\<lparr>th_point := pt\<rparr>) s))"

text \<open>The current thread runs kernel or user code outside the methods below.\<close>

definition executing :: "'a kernel_scheme \<Rightarrow> bool" where
  "executing s \<longleftrightarrow> tstatus s (currentThread s) = Some RUNNING \<and> point s (currentThread s) = Some Executing"

text \<open>One round of the loop in \<^verbatim>\<open>P\<close>: take the semaphore, or wait for it until dispatched again.\<close>

definition P_round :: "nat \<Rightarrow> 'a kernel_scheme \<Rightarrow> 'a kernel_scheme res" where
  "P_round sm s =
     rbind (sem_at sm s) (\<lambda>x.
     if sem_value x = 0
     then rbind (sem_enqueue sm s) (\<lambda>s1.
          rbind (setStatus BLOCKED (currentThread s1) s1) (\<lambda>s2.
          set_point (InP sm) (currentThread s2) s2))
     else rbind (sem_decrement sm s) (\<lambda>s1. set_point Executing (currentThread s1) s1))"

text \<open>The dispatch: \<^verbatim>\<open>Run\<close> up to \<^verbatim>\<open>SWITCH\<close>, then the second half of the \<^verbatim>\<open>Run\<close> in which the next thread
  gave up the processor; a thread that never ran starts in \<^verbatim>\<open>ThreadRoot\<close> instead.\<close>

definition dispatch :: "nat \<Rightarrow> 'a kernel_scheme \<Rightarrow> 'a kernel_scheme res" where
  "dispatch nx s =
     rbind (Run_before nx s) (\<lambda>s1.
     case point s1 nx of Some (Fresh f a) \<Rightarrow> Inr s1 | _ \<Rightarrow> Run_after s1)"

inductive kstep :: "'a kernel_scheme \<Rightarrow> 'a kernel_scheme \<Rightarrow> bool" where
  call_P: "executing s \<Longrightarrow> P_round sm s = Inr s' \<Longrightarrow> kstep s s'"
| resume_P: "tstatus s (currentThread s) = Some RUNNING \<Longrightarrow> point s (currentThread s) = Some (InP sm) \<Longrightarrow>
    P_round sm s = Inr s' \<Longrightarrow> kstep s s'"
| call_V: "V_section sm s = Inr s' \<Longrightarrow> kstep s s'"
| call_Yield: "executing s \<Longrightarrow> FindNextToRun s = (Some nx, s1) \<Longrightarrow>
    ReadyToRun (currentThread s) s1 = Inr s2 \<Longrightarrow> set_point InYield (currentThread s) s2 = Inr s3 \<Longrightarrow>
    dispatch nx s3 = Inr s' \<Longrightarrow> kstep s s'"
| resume_Yield: "tstatus s (currentThread s) = Some RUNNING \<Longrightarrow> point s (currentThread s) = Some InYield \<Longrightarrow>
    set_point Executing (currentThread s) s = Inr s' \<Longrightarrow> kstep s s'"
| start: "tstatus s (currentThread s) = Some RUNNING \<Longrightarrow> point s (currentThread s) = Some (Fresh f a) \<Longrightarrow>
    set_point Executing (currentThread s) s = Inr s' \<Longrightarrow> kstep s s'"
| call_Fork: "executing s \<Longrightarrow> threads s t = None \<Longrightarrow> t \<notin> set (readyList s) \<Longrightarrow>
    StackAllocate f a t (put_thread t (Thread_new nm regs) s) = Inr s1 \<Longrightarrow>
    ReadyToRun t s1 = Inr s' \<Longrightarrow> kstep s s'"
| call_Finish: "executing s \<Longrightarrow>
    setStatus BLOCKED (currentThread s) (s\<lparr>threadToBeDestroyed := Some (currentThread s)\<rparr>) = Inr s1 \<Longrightarrow>
    set_point Finishing (currentThread s) s1 = Inr s' \<Longrightarrow> kstep s s'"
| new_Semaphore: "semaphores s sm = None \<Longrightarrow> 0 \<le> v \<Longrightarrow> v < 2 ^ 31 \<Longrightarrow> kstep s (put_sem sm (Semaphore_new nm v) s)"
| sleep_dispatch: "tstatus s (currentThread s) \<in> {Some BLOCKED, Some READY} \<Longrightarrow>
    FindNextToRun s = (Some nx, s1) \<Longrightarrow> dispatch nx s1 = Inr s' \<Longrightarrow> kstep s s'"

subsection \<open>The invariants, on the part of the state they speak of\<close>

text \<open>
  The arguments: current thread, ready list, status and switch point of each thread, semaphores,
  thread to be destroyed. Every thread is in exactly one place: it runs, or it is once on the
  ready list, or it waits once in the queue of the semaphore whose \<^verbatim>\<open>P\<close> it called, or it has
  finished.
\<close>

definition waiters :: "(nat \<rightharpoonup> semaphore) \<Rightarrow> nat \<Rightarrow> nat set" where
  "waiters sems sm = (case sems sm of None \<Rightarrow> {} | Some x \<Rightarrow> set (sem_queue x))"

definition sems_ok :: "(nat \<rightharpoonup> semaphore) \<Rightarrow> bool" where
  "sems_ok sems \<longleftrightarrow> (\<forall>x \<in> ran sems. 0 \<le> sem_value x \<and> sem_value x < 2 ^ 31 \<and> distinct (sem_queue x))"

definition sched_view ::
    "nat \<Rightarrow> nat list \<Rightarrow> (nat \<rightharpoonup> ThreadStatus) \<Rightarrow> (nat \<rightharpoonup> switch_point) \<Rightarrow> (nat \<rightharpoonup> semaphore) \<Rightarrow> nat option \<Rightarrow> bool" where
  "sched_view c r st pt sems d \<longleftrightarrow>
     c \<in> dom st \<and> dom st = dom pt \<and> distinct r \<and>
     {t. st t = Some READY} = set r \<and>
     {t. st t = Some RUNNING} \<subseteq> {c} \<and>
     Some JUST_CREATED \<notin> range st \<and>
     (\<forall>t. st t = Some BLOCKED \<longrightarrow> pt t \<in> insert (Some Finishing) (Some ` range InP)) \<and>
     sems_ok sems \<and>
     (\<forall>sm. waiters sems sm = {t. st t = Some BLOCKED \<and> pt t = Some (InP sm)}) \<and>
     (\<forall>t. d = Some t \<longrightarrow> st t = Some BLOCKED \<and> pt t = Some Finishing)"

lemma waiters_upd [simp]:
  "waiters (sems(sm \<mapsto> x)) sm' = (if sm' = sm then set (sem_queue x) else waiters sems sm')"
  by (simp add: waiters_def)

lemma sems_ok_upd: "sems_ok sems \<Longrightarrow> 0 \<le> sem_value x \<Longrightarrow> sem_value x < 2 ^ 31 \<Longrightarrow> distinct (sem_queue x) \<Longrightarrow> sems_ok (sems(sm \<mapsto> x))"
  by (auto simp: sems_ok_def ran_def)

lemma sems_okD: "sems_ok sems \<Longrightarrow> sems sm = Some x \<Longrightarrow> 0 \<le> sem_value x \<and> sem_value x < 2 ^ 31 \<and> distinct (sem_queue x)"
  by (auto simp: sems_ok_def ran_def)

text \<open>The threads that \<^verbatim>\<open>V\<close> has woken and that have not yet tested the semaphore again.\<close>

definition woken :: "nat \<Rightarrow> nat list \<Rightarrow> (nat \<rightharpoonup> ThreadStatus) \<Rightarrow> (nat \<rightharpoonup> switch_point) \<Rightarrow> nat \<Rightarrow> nat" where
  "woken c r st pt sm =
     length (filter (\<lambda>t. pt t = Some (InP sm)) r) +
     (if st c = Some RUNNING \<and> pt c = Some (InP sm) then 1 else 0)"

definition wakeup_view ::
    "nat \<Rightarrow> nat list \<Rightarrow> (nat \<rightharpoonup> ThreadStatus) \<Rightarrow> (nat \<rightharpoonup> switch_point) \<Rightarrow> (nat \<rightharpoonup> semaphore) \<Rightarrow> bool" where
  "wakeup_view c r st pt sems \<longleftrightarrow>
     (\<forall>sm x. sems sm = Some x \<longrightarrow> sem_queue x \<noteq> [] \<longrightarrow> sem_value x \<le> int (woken c r st pt sm))"

lemma woken_cong:
  "(\<And>t. t \<in> set r \<Longrightarrow> pt' t = pt t) \<Longrightarrow>
   (st' c' = Some RUNNING \<and> pt' c' = Some (InP sm) \<longleftrightarrow> st c = Some RUNNING \<and> pt c = Some (InP sm)) \<Longrightarrow>
   woken c' r st' pt' sm = woken c r st pt sm"
  by (simp add: woken_def cong: filter_cong)

lemma sched_viewD:
  assumes "sched_view c r st pt sems d"
  shows "t \<in> set r \<longleftrightarrow> st t = Some READY"
    and "t \<in> waiters sems sm \<longleftrightarrow> st t = Some BLOCKED \<and> pt t = Some (InP sm)"
    and "st t = Some RUNNING \<Longrightarrow> t = c"
    and "sems sm = Some x \<Longrightarrow> 0 \<le> sem_value x \<and> sem_value x < 2 ^ 31 \<and> distinct (sem_queue x)"
    and "sems sm = Some x \<Longrightarrow> t \<in> set (sem_queue x) \<longleftrightarrow> st t = Some BLOCKED \<and> pt t = Some (InP sm)"
proof -
  note a = assms [unfolded sched_view_def]
  show "t \<in> set r \<longleftrightarrow> st t = Some READY" using a by blast
  show w: "t \<in> waiters sems sm \<longleftrightarrow> st t = Some BLOCKED \<and> pt t = Some (InP sm)" using a by blast
  show "st t = Some RUNNING \<Longrightarrow> t = c" using a by blast
  show "sems sm = Some x \<Longrightarrow> 0 \<le> sem_value x \<and> sem_value x < 2 ^ 31 \<and> distinct (sem_queue x)" using a sems_okD by blast
  show "sems sm = Some x \<Longrightarrow> t \<in> set (sem_queue x) \<longleftrightarrow> st t = Some BLOCKED \<and> pt t = Some (InP sm)"
    using w by (simp add: waiters_def)
qed

subsection \<open>The steps, on the same part of the state\<close>

lemma sched_view_take:
  assumes "sched_view c r st pt sems d" "st c = Some RUNNING" "sems sm = Some x" "sem_value x \<noteq> 0"
  shows "sched_view c r st (pt(c \<mapsto> Executing)) (sems(sm \<mapsto> x\<lparr>sem_value := sem_value x - 1\<rparr>)) d"
proof -
  note a = assms(1) [unfolded sched_view_def]
  have "sems_ok (sems(sm \<mapsto> x\<lparr>sem_value := sem_value x - 1\<rparr>))"
    using a sems_okD [of sems sm x] assms(3,4) by (intro sems_ok_upd) auto
  moreover have "waiters (sems(sm \<mapsto> x\<lparr>sem_value := sem_value x - 1\<rparr>)) sm' = waiters sems sm'" for sm'
    using assms(3) by (simp add: waiters_def)
  moreover have "{t. st t = Some BLOCKED \<and> (pt(c \<mapsto> Executing)) t = Some (InP sm')} =
      {t. st t = Some BLOCKED \<and> pt t = Some (InP sm')}" for sm'
    using assms(2) by auto
  ultimately show ?thesis
    unfolding sched_view_def using a assms(2) by auto
qed

lemma wakeup_view_take:
  assumes "wakeup_view c r st pt sems" "c \<notin> set r" "st c = Some RUNNING"
    "pt c \<in> {Some Executing, Some (InP sm)}" "sems sm = Some x"
  shows "wakeup_view c r st (pt(c \<mapsto> Executing)) (sems(sm \<mapsto> x\<lparr>sem_value := sem_value x - 1\<rparr>))"
proof -
  have f: "filter (\<lambda>t. (pt(c \<mapsto> Executing)) t = Some (InP sm')) r = filter (\<lambda>t. pt t = Some (InP sm')) r" for sm'
    using assms(2) by (intro filter_cong) auto
  have w: "woken c r st (pt(c \<mapsto> Executing)) sm' =
      woken c r st pt sm' - (if pt c = Some (InP sm') then 1 else 0)" for sm'
    using assms(3) unfolding woken_def f by simp
  show ?thesis
    unfolding wakeup_view_def
  proof (intro allI impI)
    fix sm' y assume y: "(sems(sm \<mapsto> x\<lparr>sem_value := sem_value x - 1\<rparr>)) sm' = Some y" "sem_queue y \<noteq> []"
    have old: "sem_value z \<le> int (woken c r st pt sm')" if "sems sm' = Some z" "sem_queue z \<noteq> []" for z
      using assms(1) that by (simp add: wakeup_view_def)
    show "sem_value y \<le> int (woken c r st (pt(c \<mapsto> Executing)) sm')"
    proof (cases "sm' = sm")
      case True
      with y assms(5) have "sem_value y = sem_value x - 1" "sem_queue x \<noteq> []" by auto
      with old [of x] True assms(5) show ?thesis unfolding w by auto
    next
      case False
      with y assms(4) old [of y] show ?thesis unfolding w by auto
    qed
  qed
qed

lemma sched_view_block:
  assumes "sched_view c r st pt sems d" "st c = Some RUNNING" "sems sm = Some x"
  shows "sched_view c r (st(c \<mapsto> BLOCKED)) (pt(c \<mapsto> InP sm)) (sems(sm \<mapsto> x\<lparr>sem_queue := sem_queue x @ [c]\<rparr>)) d"
proof -
  note a = assms(1) [unfolded sched_view_def]
  have "c \<notin> set (sem_queue x)" using sched_viewD(5) [OF assms(1,3)] assms(2) by simp
  then have "sems_ok (sems(sm \<mapsto> x\<lparr>sem_queue := sem_queue x @ [c]\<rparr>))"
    using a sems_okD [of sems sm x] assms(3) by (intro sems_ok_upd) auto
  moreover have "waiters (sems(sm \<mapsto> x\<lparr>sem_queue := sem_queue x @ [c]\<rparr>)) sm' =
      {t. (st(c \<mapsto> BLOCKED)) t = Some BLOCKED \<and> (pt(c \<mapsto> InP sm)) t = Some (InP sm')}" for sm'
  proof (rule set_eqI)
    fix t
    show "t \<in> waiters (sems(sm \<mapsto> x\<lparr>sem_queue := sem_queue x @ [c]\<rparr>)) sm' \<longleftrightarrow>
        t \<in> {t. (st(c \<mapsto> BLOCKED)) t = Some BLOCKED \<and> (pt(c \<mapsto> InP sm)) t = Some (InP sm')}"
      using sched_viewD(5) [OF assms(1,3), of t] sched_viewD(2) [OF assms(1), of t sm'] assms(2) by auto
  qed
  moreover have "{t. (st(c \<mapsto> BLOCKED)) t = Some READY} = set r"
    using sched_viewD(1) [OF assms(1)] assms(2) by auto
  ultimately show ?thesis
    unfolding sched_view_def using a assms(2) by auto
qed

lemma sched_view_V_empty:
  assumes "sched_view c r st pt sems d" "sems sm = Some x" "sem_value x + 1 < 2 ^ 31"
  shows "sched_view c r st pt (sems(sm \<mapsto> x\<lparr>sem_value := sem_value x + 1\<rparr>)) d"
proof -
  note a = assms(1) [unfolded sched_view_def]
  have "sems_ok (sems(sm \<mapsto> x\<lparr>sem_value := sem_value x + 1\<rparr>))"
    using a sems_okD [of sems sm x] assms(2,3) by (intro sems_ok_upd) auto
  moreover have "waiters (sems(sm \<mapsto> x\<lparr>sem_value := sem_value x + 1\<rparr>)) = waiters sems"
    using assms(2) by (simp add: fun_eq_iff waiters_def)
  ultimately show ?thesis unfolding sched_view_def using a by auto
qed

lemma sched_view_V_wake:
  assumes "sched_view c r st pt sems d" "sems sm = Some x" "sem_queue x = t # ts" "sem_value x + 1 < 2 ^ 31"
  shows "sched_view c (r @ [t]) (st(t \<mapsto> READY)) pt
    (sems(sm \<mapsto> x\<lparr>sem_queue := ts, sem_value := sem_value x + 1\<rparr>)) d"
proof -
  note a = assms(1) [unfolded sched_view_def]
  have t: "st t = Some BLOCKED" "pt t = Some (InP sm)"
    using sched_viewD(5) [OF assms(1,2), of t] assms(3) by simp_all
  have x: "0 \<le> sem_value x" "distinct (t # ts)"
    using a sems_okD [of sems sm x] assms(2,3) by auto
  then have "sems_ok (sems(sm \<mapsto> x\<lparr>sem_queue := ts, sem_value := sem_value x + 1\<rparr>))"
    using a assms(4) by (intro sems_ok_upd) auto
  moreover have "waiters (sems(sm \<mapsto> x\<lparr>sem_queue := ts, sem_value := sem_value x + 1\<rparr>)) sm' =
      {u. (st(t \<mapsto> READY)) u = Some BLOCKED \<and> pt u = Some (InP sm')}" for sm'
  proof (rule set_eqI)
    fix u
    show "u \<in> waiters (sems(sm \<mapsto> x\<lparr>sem_queue := ts, sem_value := sem_value x + 1\<rparr>)) sm' \<longleftrightarrow>
        u \<in> {u. (st(t \<mapsto> READY)) u = Some BLOCKED \<and> pt u = Some (InP sm')}"
      using sched_viewD(5) [OF assms(1,2), of u] sched_viewD(2) [OF assms(1), of u sm'] t assms(3) x(2) by auto
  qed
  moreover have "{u. (st(t \<mapsto> READY)) u = Some READY} = set (r @ [t])" "t \<notin> set r"
    using sched_viewD(1) [OF assms(1)] t by auto
  ultimately show ?thesis
    unfolding sched_view_def using a t by auto
qed

lemma sched_view_dispatch:
  assumes "sched_view c (n # ts) st pt sems d" "st c \<noteq> Some RUNNING"
  shows "sched_view n ts (st(n \<mapsto> RUNNING)) pt sems d"
proof -
  note a = assms(1) [unfolded sched_view_def]
  have n: "st n = Some READY" using a by auto
  have "{u. (st(n \<mapsto> RUNNING)) u = Some BLOCKED \<and> pt u = Some (InP sm)} =
      {u. st u = Some BLOCKED \<and> pt u = Some (InP sm)}" for sm
    using n by auto
  moreover have "{u. (st(n \<mapsto> RUNNING)) u = Some READY} = set ts" using a n by auto
  ultimately show ?thesis
    unfolding sched_view_def using a assms(2) n by auto
qed

lemma sched_view_yield:
  assumes "sched_view c (n # ts) st pt sems d" "st c = Some RUNNING"
  shows "sched_view n (ts @ [c]) (st(c \<mapsto> READY, n \<mapsto> RUNNING)) (pt(c \<mapsto> InYield)) sems d"
proof -
  note a = assms(1) [unfolded sched_view_def]
  have n: "st n = Some READY" "n \<noteq> c" "c \<notin> set ts"
    using sched_viewD(1) [OF assms(1), of n] sched_viewD(1) [OF assms(1), of c] assms(2) by auto
  have "{u. (st(c \<mapsto> READY, n \<mapsto> RUNNING)) u = Some BLOCKED \<and> (pt(c \<mapsto> InYield)) u = Some (InP sm)} =
      {u. st u = Some BLOCKED \<and> pt u = Some (InP sm)}" for sm
    using n assms(2) by auto
  moreover have "{u. (st(c \<mapsto> READY, n \<mapsto> RUNNING)) u = Some READY} = set (ts @ [c])" using a n by auto
  moreover have "{u. (st(c \<mapsto> READY, n \<mapsto> RUNNING)) u = Some RUNNING} \<subseteq> {n}" using a by auto
  ultimately show ?thesis
    unfolding sched_view_def using a assms(2) n by auto
qed

lemma sched_view_destroy:
  assumes "sched_view c r st pt sems (Some t)" "st c = Some RUNNING"
  shows "sched_view c r (st(t := None)) (pt(t := None)) sems None"
proof -
  note a = assms(1) [unfolded sched_view_def]
  have t: "st t = Some BLOCKED" "pt t = Some Finishing" using a by auto
  have "{u. (st(t := None)) u = Some BLOCKED \<and> (pt(t := None)) u = Some (InP sm)} =
      {u. st u = Some BLOCKED \<and> pt u = Some (InP sm)}" for sm
    using t by auto
  moreover have "{u. (st(t := None)) u = Some READY} = {u. st u = Some READY}" using t by auto
  ultimately show ?thesis
    unfolding sched_view_def using a assms(2) t by auto
qed

lemma sched_view_fork:
  assumes "sched_view c r st pt sems d" "st t = None"
  shows "sched_view c (r @ [t]) (st(t \<mapsto> READY)) (pt(t \<mapsto> Fresh f a)) sems d"
proof -
  note a = assms(1) [unfolded sched_view_def]
  have "{u. (st(t \<mapsto> READY)) u = Some BLOCKED \<and> (pt(t \<mapsto> Fresh f a)) u = Some (InP sm)} =
      {u. st u = Some BLOCKED \<and> pt u = Some (InP sm)}" for sm
    using assms(2) by auto
  moreover have "{u. (st(t \<mapsto> READY)) u = Some READY} = set (r @ [t])" "t \<notin> set r"
    using sched_viewD(1) [OF assms(1)] assms(2) by auto
  ultimately show ?thesis
    unfolding sched_view_def using a assms(2) by auto
qed

lemma sched_view_finish:
  assumes "sched_view c r st pt sems d" "st c = Some RUNNING"
  shows "sched_view c r (st(c \<mapsto> BLOCKED)) (pt(c \<mapsto> Finishing)) sems (Some c)"
proof -
  note a = assms(1) [unfolded sched_view_def]
  have "{u. (st(c \<mapsto> BLOCKED)) u = Some BLOCKED \<and> (pt(c \<mapsto> Finishing)) u = Some (InP sm)} =
      {u. st u = Some BLOCKED \<and> pt u = Some (InP sm)}" for sm
    using assms(2) by auto
  moreover have "{u. (st(c \<mapsto> BLOCKED)) u = Some READY} = set r"
    using sched_viewD(1) [OF assms(1)] assms(2) by auto
  ultimately show ?thesis
    unfolding sched_view_def using a assms(2) by auto
qed

lemma sched_view_exec:
  assumes "sched_view c r st pt sems d" "st c = Some RUNNING"
  shows "sched_view c r st (pt(c \<mapsto> Executing)) sems d"
proof -
  note a = assms(1) [unfolded sched_view_def]
  have "{u. st u = Some BLOCKED \<and> (pt(c \<mapsto> Executing)) u = Some (InP sm)} =
      {u. st u = Some BLOCKED \<and> pt u = Some (InP sm)}" for sm
    using assms(2) by auto
  then show ?thesis
    unfolding sched_view_def using a assms(2) by auto
qed

lemma sched_view_new_sem:
  assumes "sched_view c r st pt sems d" "sems sm = None" "0 \<le> v" "v < 2 ^ 31"
  shows "sched_view c r st pt (sems(sm \<mapsto> Semaphore_new nm v)) d"
proof -
  note a = assms(1) [unfolded sched_view_def]
  have "sems_ok (sems(sm \<mapsto> Semaphore_new nm v))"
    using a assms(3,4) by (intro sems_ok_upd) (auto simp: Semaphore_new_def)
  moreover have "waiters (sems(sm \<mapsto> Semaphore_new nm v)) = waiters sems"
    using assms(2) by (simp add: fun_eq_iff waiters_def Semaphore_new_def)
  ultimately show ?thesis unfolding sched_view_def using a by auto
qed

text \<open>The number of woken threads changes in the same way.\<close>

lemma wakeup_viewI:
  assumes "\<And>sm x. sems' sm = Some x \<Longrightarrow> sem_queue x \<noteq> [] \<Longrightarrow> sem_value x \<noteq> 0 \<Longrightarrow>
     \<exists>y. sems sm = Some y \<and> sem_queue y \<noteq> [] \<and>
       sem_value x - sem_value y \<le> int (woken c' r' st' pt' sm) - int (woken c r st pt sm)"
    and "wakeup_view c r st pt sems"
  shows "wakeup_view c' r' st' pt' sems'"
  unfolding wakeup_view_def
proof (intro allI impI)
  fix sm x assume x: "sems' sm = Some x" "sem_queue x \<noteq> []"
  show "sem_value x \<le> int (woken c' r' st' pt' sm)"
  proof (cases "sem_value x = 0")
    case False
    then obtain y where "sems sm = Some y" "sem_queue y \<noteq> []"
      "sem_value x - sem_value y \<le> int (woken c' r' st' pt' sm) - int (woken c r st pt sm)"
      using assms(1) [OF x] by blast
    moreover from this have "sem_value y \<le> int (woken c r st pt sm)"
      using assms(2) by (simp add: wakeup_view_def)
    ultimately show ?thesis by linarith
  qed simp
qed

lemma filter_upd: "c \<notin> set r \<Longrightarrow> filter (\<lambda>t. t \<noteq> c \<and> (t \<noteq> c \<longrightarrow> P t)) r = filter P r"
  by (intro filter_cong) auto

lemma wakeup_view_block:
  assumes "wakeup_view c r st pt sems" "c \<notin> set r" "st c = Some RUNNING"
    "pt c \<in> {Some Executing, Some (InP sm)}" "sems sm = Some x" "sem_value x = 0"
  shows "wakeup_view c r (st(c \<mapsto> BLOCKED)) (pt(c \<mapsto> InP sm)) (sems(sm \<mapsto> x\<lparr>sem_queue := sem_queue x @ [c]\<rparr>))"
  by (rule wakeup_viewI [OF _ assms(1)])
    (use assms(2-) in \<open>auto simp: woken_def filter_upd split: if_splits\<close>)

lemma wakeup_view_V_empty:
  assumes "wakeup_view c r st pt sems" "sems sm = Some x" "sem_queue x = []"
  shows "wakeup_view c r st pt (sems(sm \<mapsto> x\<lparr>sem_value := sem_value x + 1\<rparr>))"
  by (rule wakeup_viewI [OF _ assms(1)]) (use assms(2-) in \<open>auto split: if_splits\<close>)

lemma wakeup_view_V_wake:
  assumes "wakeup_view c r st pt sems" "sems sm = Some x" "sem_queue x = t # ts" "st t = Some BLOCKED"
    "pt t = Some (InP sm)"
  shows "wakeup_view c (r @ [t]) (st(t \<mapsto> READY)) pt
    (sems(sm \<mapsto> x\<lparr>sem_queue := ts, sem_value := sem_value x + 1\<rparr>))"
  by (rule wakeup_viewI [OF _ assms(1)])
    (use assms(2-) in \<open>auto simp: woken_def split: if_splits\<close>)

lemma wakeup_view_dispatch:
  assumes "wakeup_view c (n # ts) st pt sems" "st c \<noteq> Some RUNNING"
  shows "wakeup_view n ts (st(n \<mapsto> RUNNING)) pt sems"
  by (rule wakeup_viewI [OF _ assms(1)]) (use assms(2-) in \<open>auto simp: woken_def\<close>)

lemma wakeup_view_yield:
  assumes "wakeup_view c (n # ts) st pt sems" "pt c = Some Executing" "n \<noteq> c" "c \<notin> set ts"
  shows "wakeup_view n (ts @ [c]) (st(c \<mapsto> READY, n \<mapsto> RUNNING)) (pt(c \<mapsto> InYield)) sems"
  by (rule wakeup_viewI [OF _ assms(1)])
    (use assms(2-) in \<open>auto simp: woken_def filter_upd split: if_splits\<close>)

lemma wakeup_view_other:
  assumes "wakeup_view c r st pt sems" "\<And>sm. woken c r' st' pt' sm = woken c r st pt sm"
  shows "wakeup_view c r' st' pt' sems"
  using assms by (simp add: wakeup_view_def)

lemma wakeup_view_new_sem:
  assumes "wakeup_view c r st pt sems"
  shows "wakeup_view c r st pt (sems(sm \<mapsto> Semaphore_new nm v))"
  by (rule wakeup_viewI [OF _ assms(1)]) (auto simp: Semaphore_new_def split: if_splits)

subsection \<open>The operations, on the same part of the state\<close>

lemma setStatus_view:
  assumes "setStatus x t s = Inr s'"
  shows "tstatus s' = (tstatus s)(t \<mapsto> x)" "point s' = point s" "readyList s' = readyList s"
    "currentThread s' = currentThread s" "semaphores s' = semaphores s"
    "threadToBeDestroyed s' = threadToBeDestroyed s"
  using assms by (auto simp: setStatus_def rbind_eq_Inr thread_at_eq_Inr tstatus_def point_def fun_eq_iff)

lemma set_point_view:
  assumes "set_point p t s = Inr s'"
  shows "point s' = (point s)(t \<mapsto> p)" "tstatus s' = tstatus s" "readyList s' = readyList s"
    "currentThread s' = currentThread s" "semaphores s' = semaphores s"
    "threadToBeDestroyed s' = threadToBeDestroyed s"
  using assms by (auto simp: set_point_def rbind_eq_Inr thread_at_eq_Inr tstatus_def point_def fun_eq_iff)

lemma ReadyToRun_view:
  assumes "ReadyToRun t s = Inr s'"
  shows "tstatus s' = (tstatus s)(t \<mapsto> READY)" "point s' = point s" "readyList s' = readyList s @ [t]"
    "currentThread s' = currentThread s" "semaphores s' = semaphores s"
    "threadToBeDestroyed s' = threadToBeDestroyed s"
proof -
  from assms obtain u where u: "setStatus READY t s = Inr u" "s' = u\<lparr>readyList := readyList u @ [t]\<rparr>"
    by (auto simp: ReadyToRun_def rbind_eq_Inr)
  note v = setStatus_view [OF u(1)]
  have "tstatus s' = tstatus u" "point s' = point u" by (simp_all add: u(2) tstatus_def point_def fun_eq_iff)
  then show "tstatus s' = (tstatus s)(t \<mapsto> READY)" "point s' = point s" "readyList s' = readyList s @ [t]"
    "currentThread s' = currentThread s" "semaphores s' = semaphores s"
    "threadToBeDestroyed s' = threadToBeDestroyed s"
    using v by (simp_all add: u(2))
qed

lemma P_round_view:
  assumes "P_round sm s = Inr s'"
  obtains (take) x where "semaphores s sm = Some x" "sem_value x \<noteq> 0" "tstatus s' = tstatus s"
      "point s' = (point s)(currentThread s \<mapsto> Executing)" "readyList s' = readyList s"
      "currentThread s' = currentThread s" "threadToBeDestroyed s' = threadToBeDestroyed s"
      "semaphores s' = (semaphores s)(sm \<mapsto> x\<lparr>sem_value := sem_value x - 1\<rparr>)"
    | (block) x where "semaphores s sm = Some x" "sem_value x = 0"
      "tstatus s' = (tstatus s)(currentThread s \<mapsto> BLOCKED)"
      "point s' = (point s)(currentThread s \<mapsto> InP sm)" "readyList s' = readyList s"
      "currentThread s' = currentThread s" "threadToBeDestroyed s' = threadToBeDestroyed s"
      "semaphores s' = (semaphores s)(sm \<mapsto> x\<lparr>sem_queue := sem_queue x @ [currentThread s]\<rparr>)"
proof -
  from assms obtain x where x: "semaphores s sm = Some x" by (auto simp: P_round_def rbind_eq_Inr sem_at_eq_Inr)
  then have at: "sem_at sm s = Inr x" by (simp add: sem_at_eq_Inr)
  have upd: "tstatus (put_sem sm y s) = tstatus s" "point (put_sem sm y s) = point s" for y
    by (simp_all add: tstatus_def point_def fun_eq_iff)
  show thesis
  proof (cases "sem_value x = 0")
    case True
    let ?s1 = "put_sem sm (x\<lparr>sem_queue := sem_queue x @ [currentThread s]\<rparr>) s"
    from assms True obtain u where u: "setStatus BLOCKED (currentThread s) ?s1 = Inr u"
        "set_point (InP sm) (currentThread u) u = Inr s'"
      by (auto simp: P_round_def at sem_enqueue_def rbind_eq_Inr)
    from setStatus_view [OF u(1)] set_point_view [OF u(2)] upd x True show thesis
      by (intro block [of x]) simp_all
  next
    case False
    then have "set_point Executing (currentThread s) (put_sem sm (x\<lparr>sem_value := sem_value x - 1\<rparr>) s) = Inr s'"
      using assms by (simp add: P_round_def at sem_decrement_def)
    from set_point_view [OF this] upd x False show thesis by (intro take [of x]) simp_all
  qed
qed

lemma V_section_view:
  assumes "V_section sm s = Inr s'"
  obtains (empty) x where "semaphores s sm = Some x" "sem_queue x = []" "tstatus s' = tstatus s"
      "point s' = point s" "readyList s' = readyList s"
      "currentThread s' = currentThread s" "threadToBeDestroyed s' = threadToBeDestroyed s"
      "semaphores s' = (semaphores s)(sm \<mapsto> x\<lparr>sem_value := sem_value x + 1\<rparr>)" "sem_value x + 1 < 2 ^ 31"
    | (wake) x t ts where "semaphores s sm = Some x" "sem_queue x = t # ts"
      "tstatus s' = (tstatus s)(t \<mapsto> READY)" "point s' = point s" "readyList s' = readyList s @ [t]"
      "currentThread s' = currentThread s" "threadToBeDestroyed s' = threadToBeDestroyed s"
      "semaphores s' = (semaphores s)(sm \<mapsto> x\<lparr>sem_queue := ts, sem_value := sem_value x + 1\<rparr>)" "sem_value x + 1 < 2 ^ 31"
proof -
  from assms obtain x where x: "semaphores s sm = Some x" by (auto simp: V_section_def rbind_eq_Inr sem_at_eq_Inr)
  then have at: "sem_at sm s = Inr x" by (simp add: sem_at_eq_Inr)
  have upd: "tstatus (put_sem sm y u) = tstatus u" "point (put_sem sm y u) = point u"
    for y and u :: "'a kernel_scheme"
    by (simp_all add: tstatus_def point_def fun_eq_iff)
  show thesis
  proof (cases "sem_queue x")
    case Nil
    then have "s' = put_sem sm (x\<lparr>sem_value := sem_value x + 1\<rparr>) s" "sem_value x + 1 < 2 ^ 31"
      using assms at by (simp_all add: V_section_def rbind_eq_Inr cint_eq_Inr word_range_def)
    with x Nil upd show thesis by (intro empty [of x]) simp_all
  next
    case (Cons t ts)
    from assms at Cons obtain u y where u: "ReadyToRun t (put_sem sm (x\<lparr>sem_queue := ts\<rparr>) s) = Inr u"
        and y: "semaphores u sm = Some y" "sem_value y + 1 < 2 ^ 31" and s': "s' = put_sem sm (y\<lparr>sem_value := sem_value y + 1\<rparr>) u"
      by (auto simp: V_section_def rbind_eq_Inr sem_at_eq_Inr cint_eq_Inr word_range_def)
    note v = ReadyToRun_view [OF u]
    have "y = x\<lparr>sem_queue := ts\<rparr>" using y(1) v by simp
    with v x y(2) Cons upd show thesis by (intro wake [of x t ts]) (simp_all add: s')
  qed
qed

lemma registers_view:
  "tstatus (s\<lparr>registers := r\<rparr>) = tstatus s" "point (s\<lparr>registers := r\<rparr>) = point s"
  for s :: "'a kernel_scheme"
  by (simp_all add: tstatus_def point_def fun_eq_iff)

lemma SaveUserState_view:
  assumes "SaveUserState t s = Inr s'"
  shows "\<exists>th rs. threads s t = Some th \<and> s' = put_thread t (th\<lparr>userRegisters := rs\<rparr>) s"
proof -
  let ?f = "\<lambda>i th. rbind (ReadRegister (int i) s) (\<lambda>v.
      rbind (arr_set (userRegisters th) (int i) v) (\<lambda>rs. Inr (th\<lparr>userRegisters := rs\<rparr>)))"
  from assms obtain th th' where th: "threads s t = Some th" "for_each ?f [0..<NumTotalRegs] th = Inr th'"
    "s' = put_thread t th' s" by (auto simp: SaveUserState_def rbind_eq_Inr thread_at_eq_Inr)
  have "\<exists>rs. th' = th\<lparr>userRegisters := rs\<rparr>"
  proof (rule for_each_Inr_inv [OF th(2)])
    show "\<exists>rs. th = th\<lparr>userRegisters := rs\<rparr>" by (rule exI [of _ "userRegisters th"]) simp
  qed (auto simp: rbind_eq_Inr)
  with th show ?thesis by blast
qed

lemma RestoreUserState_view:
  assumes "RestoreUserState t s = Inr s'"
  shows "\<exists>rs. s' = s\<lparr>registers := rs\<rparr>"
proof -
  let ?f = "\<lambda>(th :: thread) i m. rbind (arr_get (userRegisters th) (int i)) (\<lambda>v. WriteRegister (int i) v m)"
  from assms obtain th where "for_each (?f th) [0..<NumTotalRegs] s = Inr s'"
    by (auto simp: RestoreUserState_def rbind_eq_Inr)
  then show ?thesis
  proof (rule for_each_Inr_inv)
    show "\<exists>rs. s = s\<lparr>registers := rs\<rparr>" by (rule exI [of _ "registers s"]) simp
  qed (auto simp: rbind_eq_Inr WriteRegister_def)
qed

lemma Run_before_view:
  assumes "Run_before n s = Inr s'"
  shows "tstatus s' = (tstatus s)(n \<mapsto> RUNNING)" "point s' = point s" "readyList s' = readyList s"
    "currentThread s' = n" "semaphores s' = semaphores s" "threadToBeDestroyed s' = threadToBeDestroyed s"
proof -
  let ?c = "currentThread s"
  from assms obtain th u where th: "threads s ?c = Some th"
    and u: "(case th_space th of None \<Rightarrow> Inr s | Some sp \<Rightarrow> rbind (SaveUserState ?c s) (SaveState sp)) = Inr u"
    and s': "setStatus RUNNING n (u\<lparr>currentThread := n\<rparr>) = Inr s'"
    by (auto simp: Run_before_def Let_def rbind_eq_Inr thread_at_eq_Inr)
  have "u = s \<or> (\<exists>rs. u = put_thread ?c (th\<lparr>userRegisters := rs\<rparr>) s)"
    using u th by (auto simp: rbind_eq_Inr SaveState_def split: option.splits dest!: SaveUserState_view)
  then have "tstatus u = tstatus s \<and> point u = point s \<and> readyList u = readyList s \<and>
      semaphores u = semaphores s \<and> threadToBeDestroyed u = threadToBeDestroyed s"
    using th by (auto simp: tstatus_def point_def fun_eq_iff)
  moreover have "tstatus (u\<lparr>currentThread := n\<rparr>) = tstatus u" "point (u\<lparr>currentThread := n\<rparr>) = point u"
    by (simp_all add: tstatus_def point_def fun_eq_iff)
  ultimately show "tstatus s' = (tstatus s)(n \<mapsto> RUNNING)" "point s' = point s" "readyList s' = readyList s"
    "currentThread s' = n" "semaphores s' = semaphores s" "threadToBeDestroyed s' = threadToBeDestroyed s"
    using setStatus_view [OF s'] by simp_all
qed

lemma Run_after_view:
  assumes "Run_after s = Inr s'"
  shows "currentThread s' = currentThread s" "readyList s' = readyList s" "semaphores s' = semaphores s"
    "threadToBeDestroyed s' = None"
    "tstatus s' = (case threadToBeDestroyed s of None \<Rightarrow> tstatus s | Some t \<Rightarrow> (tstatus s)(t := None))"
    "point s' = (case threadToBeDestroyed s of None \<Rightarrow> point s | Some t \<Rightarrow> (point s)(t := None))"
proof -
  define u where "u = (case threadToBeDestroyed s of None \<Rightarrow> s
    | Some t \<Rightarrow> s\<lparr>threads := (threads s)(t := None), threadToBeDestroyed := None\<rparr>)"
  have "(case threadToBeDestroyed s of None \<Rightarrow> Inr s
      | Some t \<Rightarrow> rbind (Thread_delete t s) (\<lambda>s1. Inr (s1\<lparr>threadToBeDestroyed := None\<rparr>))) = Inr u"
    using assms by (auto simp: Run_after_def rbind_eq_Inr Thread_delete_def u_def split: option.splits)
  with assms obtain th :: thread where th:
    "(case th_space th of None \<Rightarrow> Inr u
      | Some sp \<Rightarrow> rbind (RestoreUserState (currentThread u) u) (RestoreState sp)) = Inr s'"
    by (auto simp: Run_after_def rbind_eq_Inr)
  then have "currentThread s' = currentThread u \<and> readyList s' = readyList u \<and> semaphores s' = semaphores u \<and>
      threadToBeDestroyed s' = threadToBeDestroyed u \<and> threads s' = threads u"
    by (cases "th_space th")
      (auto simp: rbind_eq_Inr RestoreState_def split: option.splits dest!: RestoreUserState_view)
  then show "currentThread s' = currentThread s" "readyList s' = readyList s" "semaphores s' = semaphores s"
    "threadToBeDestroyed s' = None"
    "tstatus s' = (case threadToBeDestroyed s of None \<Rightarrow> tstatus s | Some t \<Rightarrow> (tstatus s)(t := None))"
    "point s' = (case threadToBeDestroyed s of None \<Rightarrow> point s | Some t \<Rightarrow> (point s)(t := None))"
    by (auto simp: u_def tstatus_def point_def fun_eq_iff split: option.splits)
qed

subsection \<open>The invariant of the kernel state\<close>

definition sched_ok :: "'a kernel_scheme \<Rightarrow> bool" where
  "sched_ok s \<longleftrightarrow> sched_view (currentThread s) (readyList s) (tstatus s) (point s) (semaphores s) (threadToBeDestroyed s)"

definition wakeup_ok :: "'a kernel_scheme \<Rightarrow> bool" where
  "wakeup_ok s \<longleftrightarrow> wakeup_view (currentThread s) (readyList s) (tstatus s) (point s) (semaphores s)"

text \<open>The second half of \<^verbatim>\<open>Run\<close> deletes at most a finished thread.\<close>

lemma Run_after_ok:
  assumes "sched_ok s" "wakeup_ok s" "tstatus s (currentThread s) = Some RUNNING" "Run_after s = Inr s'"
  shows "sched_ok s' \<and> wakeup_ok s'"
proof (cases "threadToBeDestroyed s")
  case None
  with Run_after_view [OF assms(4)] assms(1,2) show ?thesis by (simp add: sched_ok_def wakeup_ok_def)
next
  case (Some t)
  note v = assms(1) [unfolded sched_ok_def Some]
  have t: "tstatus s t = Some BLOCKED" "t \<notin> set (readyList s)" "t \<noteq> currentThread s"
    using v assms(3) sched_viewD(1) [OF v, of t] by (auto simp: sched_view_def)
  have "wakeup_view (currentThread s) (readyList s) ((tstatus s)(t := None)) ((point s)(t := None)) (semaphores s)"
    using assms(2) t unfolding wakeup_ok_def
    by (elim wakeup_view_other) (intro woken_cong; auto)
  with sched_view_destroy [OF v assms(3)] Run_after_view [OF assms(4)] Some show ?thesis
    by (simp add: sched_ok_def wakeup_ok_def)
qed

lemma dispatch_ok:
  assumes "sched_view n r ((tstatus s)(n \<mapsto> RUNNING)) (point s) (semaphores s) (threadToBeDestroyed s)"
    and "wakeup_view n r ((tstatus s)(n \<mapsto> RUNNING)) (point s) (semaphores s)"
    and "readyList s = r" and "dispatch n s = Inr s'"
  shows "sched_ok s' \<and> wakeup_ok s'"
proof -
  from assms(4) obtain u where u: "Run_before n s = Inr u" "u = s' \<or> Run_after u = Inr s'"
    by (cases "Run_before n s")
      (auto simp: dispatch_def split: option.splits switch_point.split_asm)
  note v = Run_before_view [OF u(1)]
  have "sched_ok u" "wakeup_ok u" "tstatus u (currentThread u) = Some RUNNING"
    using v assms(1-3) by (simp_all add: sched_ok_def wakeup_ok_def)
  with u(2) Run_after_ok show ?thesis by blast
qed

lemma P_round_ok:
  assumes "sched_ok s" "wakeup_ok s" "P_round sm s = Inr s'"
    and "tstatus s (currentThread s) = Some RUNNING" "point s (currentThread s) \<in> {Some Executing, Some (InP sm)}"
  shows "sched_ok s' \<and> wakeup_ok s'"
proof -
  note v = assms(1) [unfolded sched_ok_def] and w = assms(2) [unfolded wakeup_ok_def]
  have c: "currentThread s \<notin> set (readyList s)" using sched_viewD(1) [OF v] assms(4) by simp
  from assms(3) show ?thesis
  proof (cases rule: P_round_view)
    case (take x)
    with sched_view_take [OF v assms(4) take(1,2)] wakeup_view_take [OF w c assms(4,5) take(1)]
    show ?thesis by (simp add: sched_ok_def wakeup_ok_def)
  next
    case (block x)
    with sched_view_block [OF v assms(4) block(1)] wakeup_view_block [OF w c assms(4,5) block(1,2)]
    show ?thesis by (simp add: sched_ok_def wakeup_ok_def)
  qed
qed

lemma V_section_ok:
  assumes "sched_ok s" "wakeup_ok s" "V_section sm s = Inr s'"
  shows "sched_ok s' \<and> wakeup_ok s'"
proof -
  note v = assms(1) [unfolded sched_ok_def] and w = assms(2) [unfolded wakeup_ok_def]
  from assms(3) show ?thesis
  proof (cases rule: V_section_view)
    case (empty x)
    with sched_view_V_empty [OF v empty(1,9)] wakeup_view_V_empty [OF w empty(1,2)]
    show ?thesis by (simp add: sched_ok_def wakeup_ok_def)
  next
    case (wake x t ts)
    have "tstatus s t = Some BLOCKED" "point s t = Some (InP sm)"
      using sched_viewD(5) [OF v wake(1), of t] wake(2) by simp_all
    with wake sched_view_V_wake [OF v wake(1,2,9)] wakeup_view_V_wake [OF w wake(1,2)]
    show ?thesis by (simp add: sched_ok_def wakeup_ok_def)
  qed
qed

text \<open>Every step keeps both invariants.\<close>

text \<open>The steps one by one.\<close>

lemma Yield_step_ok:
  assumes "executing s" "FindNextToRun s = (Some nx, s1)" "ReadyToRun (currentThread s) s1 = Inr s2" "set_point InYield (currentThread s) s2 = Inr s3"
    "dispatch nx s3 = Inr s'" "sched_ok s" "wakeup_ok s"
  shows "sched_ok s' \<and> wakeup_ok s'"
proof -
  let ?c = "currentThread s"
  from assms(2) obtain ts where r: "readyList s = nx # ts" "s1 = s\<lparr>readyList := ts\<rparr>"
    by (auto simp: FindNextToRun_def split: list.splits)
  have run: "tstatus s ?c = Some RUNNING" "point s ?c = Some Executing"
    using assms(1) by (simp_all add: executing_def)
  note v = assms(6) [unfolded sched_ok_def r(1)] and w = assms(7) [unfolded wakeup_ok_def r(1)]
  have n: "nx \<noteq> ?c" "?c \<notin> set ts"
    using sched_viewD(1) [OF v, of ?c] run(1) by auto
  have s1: "tstatus s1 = tstatus s" "point s1 = point s" by (simp_all add: r(2) tstatus_def point_def fun_eq_iff)
  note v2 = ReadyToRun_view [OF assms(3)] and v3 = set_point_view [OF assms(4)]
  have s3: "tstatus s3 = (tstatus s)(?c \<mapsto> READY)" "point s3 = (point s)(?c \<mapsto> InYield)"
      "readyList s3 = ts @ [?c]" "semaphores s3 = semaphores s" "threadToBeDestroyed s3 = threadToBeDestroyed s"
    using v2 v3 s1 by (simp_all add: r(2))
  from sched_view_yield [OF v run(1)] wakeup_view_yield [OF w run(2) n] show ?thesis
    by (intro dispatch_ok [OF _ _ s3(3) assms(5)]) (simp_all add: s3)
qed

text \<open>A thread that got the processor back goes on, after \<^verbatim>\<open>Yield\<close> or for the first time.\<close>

lemma go_on_ok:
  assumes "tstatus s (currentThread s) = Some RUNNING" "point s (currentThread s) = Some p" "\<And>sm. p \<noteq> InP sm"
    "set_point Executing (currentThread s) s = Inr s'" "sched_ok s" "wakeup_ok s"
  shows "sched_ok s' \<and> wakeup_ok s'"
proof -
  have "wakeup_view (currentThread s) (readyList s) (tstatus s) ((point s)(currentThread s \<mapsto> Executing)) (semaphores s)"
    using assms(6) unfolding wakeup_ok_def
    by (rule wakeup_view_other)
      (rule woken_cong, use assms(1-3,5) sched_viewD(1) [of "currentThread s" "readyList s"] in \<open>auto simp: sched_ok_def\<close>)
  with sched_view_exec [OF assms(5) [unfolded sched_ok_def] assms(1)] set_point_view [OF assms(4)]
  show ?thesis by (simp add: sched_ok_def wakeup_ok_def)
qed

lemma Fork_step_ok:
  assumes "executing s" "threads s t = None" "t \<notin> set (readyList s)" "StackAllocate f a t (put_thread t (Thread_new nm regs) s) = Inr s1" "ReadyToRun t s1 = Inr s'" "sched_ok s" "wakeup_ok s"
  shows "sched_ok s' \<and> wakeup_ok s'"
proof -
  note v = assms(6) [unfolded sched_ok_def]
  have t: "tstatus s t = None" using assms(2) by (simp add: tstatus_def)
  have s1: "s1 = put_thread t ((Thread_new nm regs)\<lparr>th_stack := Some STACK_FENCEPOST, th_point := Fresh f a\<rparr>)
      (put_thread t (Thread_new nm regs) s)"
    using assms(4) by (simp add: StackAllocate_def thread_at_def)
  have "tstatus s1 = (tstatus s)(t \<mapsto> JUST_CREATED)" "point s1 = (point s)(t \<mapsto> Fresh f a)"
    by (simp_all add: s1 tstatus_def point_def fun_eq_iff Thread_new_def)
  note s' = ReadyToRun_view [OF assms(5)] this
  have "wakeup_view (currentThread s) (readyList s @ [t]) ((tstatus s)(t \<mapsto> READY)) ((point s)(t \<mapsto> Fresh f a)) (semaphores s)"
    using assms(7) unfolding wakeup_ok_def
  proof (rule wakeup_view_other)
    fix sm
    have "t \<noteq> currentThread s" using assms(1) t by (auto simp: executing_def)
    then show "woken (currentThread s) (readyList s @ [t]) ((tstatus s)(t \<mapsto> READY)) ((point s)(t \<mapsto> Fresh f a)) sm =
        woken (currentThread s) (readyList s) (tstatus s) (point s) sm"
      using assms(3) by (auto simp: woken_def filter_upd)
  qed
  with sched_view_fork [OF v t] s' show ?thesis by (simp add: sched_ok_def wakeup_ok_def s1)
qed

lemma Finish_step_ok:
  assumes "executing s" "setStatus BLOCKED (currentThread s) (s\<lparr>threadToBeDestroyed := Some (currentThread s)\<rparr>) = Inr s1" "set_point Finishing (currentThread s) s1 = Inr s'" "sched_ok s" "wakeup_ok s"
  shows "sched_ok s' \<and> wakeup_ok s'"
proof -
  let ?c = "currentThread s" and ?s0 = "s\<lparr>threadToBeDestroyed := Some (currentThread s)\<rparr>"
  have run: "tstatus s ?c = Some RUNNING" "point s ?c = Some Executing"
    using assms(1) by (simp_all add: executing_def)
  have s0: "tstatus ?s0 = tstatus s" "point ?s0 = point s" by (simp_all add: tstatus_def point_def fun_eq_iff)
  note v = assms(4) [unfolded sched_ok_def]
  have "wakeup_view ?c (readyList s) ((tstatus s)(?c \<mapsto> BLOCKED)) ((point s)(?c \<mapsto> Finishing)) (semaphores s)"
    using assms(5) unfolding wakeup_ok_def
    by (rule wakeup_view_other) (rule woken_cong, use run sched_viewD(1) [OF v] in auto)
  with sched_view_finish [OF v run(1)] setStatus_view [OF assms(2)] set_point_view [OF assms(3)] s0
  show ?thesis by (simp add: sched_ok_def wakeup_ok_def)
qed

lemma sleep_step_ok:
  assumes "tstatus s (currentThread s) \<in> {Some BLOCKED, Some READY}" "FindNextToRun s = (Some nx, s1)" "dispatch nx s1 = Inr s'" "sched_ok s" "wakeup_ok s"
  shows "sched_ok s' \<and> wakeup_ok s'"
proof -
  from assms(2) obtain ts where r: "readyList s = nx # ts" "s1 = s\<lparr>readyList := ts\<rparr>"
    by (auto simp: FindNextToRun_def split: list.splits)
  have s1: "tstatus s1 = tstatus s" "point s1 = point s" by (simp_all add: r(2) tstatus_def point_def fun_eq_iff)
  have nr: "tstatus s (currentThread s) \<noteq> Some RUNNING" using assms(1) by auto
  from sched_view_dispatch [OF assms(4) [unfolded sched_ok_def r(1)] nr]
    wakeup_view_dispatch [OF assms(5) [unfolded wakeup_ok_def r(1)] nr]
  show ?thesis by (intro dispatch_ok [OF _ _ _ assms(3), of ts]) (simp_all add: s1 [unfolded r(2)] r(2))
qed

lemma new_Semaphore_ok:
  assumes "semaphores s sm = None" "0 \<le> v" "v < 2 ^ 31" "sched_ok s" "wakeup_ok s"
  shows "sched_ok (put_sem sm (Semaphore_new nm v) s) \<and> wakeup_ok (put_sem sm (Semaphore_new nm v) s)"
proof -
  have "tstatus (put_sem sm x s) = tstatus s" "point (put_sem sm x s) = point s" for x
    by (simp_all add: tstatus_def point_def fun_eq_iff)
  with sched_view_new_sem [OF assms(4) [unfolded sched_ok_def] assms(1-3)] wakeup_view_new_sem [OF assms(5) [unfolded wakeup_ok_def]]
  show ?thesis by (simp add: sched_ok_def wakeup_ok_def)
qed

lemma kstep_ok:
  assumes "kstep s s'" "sched_ok s" "wakeup_ok s"
  shows "sched_ok s' \<and> wakeup_ok s'"
  using assms(1)
proof (cases rule: kstep.cases)
  case (call_P sm)
  then show ?thesis using assms by (intro P_round_ok) (auto simp: executing_def)
next
  case (resume_P sm)
  then show ?thesis using assms by (intro P_round_ok) auto
next
  case (call_V sm)
  then show ?thesis using assms by (intro V_section_ok)
next
  case (call_Yield nx s1 s2 s3)
  then show ?thesis using assms(2,3) by (rule Yield_step_ok)
next
  case resume_Yield
  then show ?thesis using assms(2,3) by (intro go_on_ok) auto
next
  case (start f a)
  then show ?thesis using assms(2,3) by (intro go_on_ok) auto
next
  case (call_Fork t f a nm regs s1)
  then show ?thesis using assms(2,3) by (rule Fork_step_ok)
next
  case (call_Finish s1)
  then show ?thesis using assms(2,3) by (rule Finish_step_ok)
next
  case (new_Semaphore sm v nm)
  then show ?thesis using new_Semaphore_ok [OF _ _ _ assms(2,3)] by simp
next
  case (sleep_dispatch nx s1)
  then show ?thesis using assms(2,3) by (rule sleep_step_ok)
qed

lemma reachable_ok:
  assumes "rtranclp kstep s0 s" "sched_ok s0" "wakeup_ok s0"
  shows "sched_ok s \<and> wakeup_ok s"
  using assms by (induction rule: rtranclp_induct) (auto dest: kstep_ok)

subsection \<open>Properties\<close>

text \<open>The state after start-up: only the main thread, running, and no semaphore yet.\<close>

definition booted :: "'a kernel_scheme \<Rightarrow> bool" where
  "booted s \<longleftrightarrow> (\<exists>th. threads s = [currentThread s \<mapsto> th] \<and> th_status th = RUNNING \<and> th_point th = Executing) \<and>
     readyList s = [] \<and> semaphores s = Map.empty \<and> threadToBeDestroyed s = None"

lemma booted_ok: "booted s \<Longrightarrow> sched_ok s \<and> wakeup_ok s"
  by (auto simp: booted_def sched_ok_def wakeup_ok_def sched_view_def wakeup_view_def tstatus_def point_def
      waiters_def sems_ok_def dom_def split: if_splits)

text \<open>C6. In every state that threads can reach by calling \<^verbatim>\<open>Fork\<close>, \<^verbatim>\<open>Yield\<close>, \<^verbatim>\<open>P\<close>, \<^verbatim>\<open>V\<close> and \<^verbatim>\<open>Finish\<close> in
  any interleaving (with \<^verbatim>\<open>V\<close> also from interrupt handlers), every thread is in exactly one place: a
  \<^verbatim>\<open>RUNNING\<close> thread is the current one, the ready list holds exactly the \<^verbatim>\<open>READY\<close> threads, once each, and a
  \<^verbatim>\<open>BLOCKED\<close> thread that has not finished is in the queue of exactly the semaphore it waits for; the
  value of a semaphore is a C \<^verbatim>\<open>int\<close> and not negative. A \<^verbatim>\<open>V\<close> that would raise the value beyond the largest \<^verbatim>\<open>int\<close> overflows
  and is not a step (\<open>V_section\<close> is undefined there).\<close>

theorem reachable_threads_accounted:
  assumes "booted s0" and "rtranclp kstep s0 s"
  shows "threads s (currentThread s) \<noteq> None \<and> distinct (readyList s) \<and>
    (\<forall>t th. threads s t = Some th \<longrightarrow>
       (th_status th = RUNNING \<longrightarrow> t = currentThread s) \<and>
       (th_status th = READY \<longleftrightarrow> t \<in> set (readyList s)) \<and>
       th_status th \<noteq> JUST_CREATED \<and>
       (th_status th = BLOCKED \<longrightarrow> th_point th = Finishing \<or> (\<exists>sm. th_point th = InP sm)) \<and>
       (\<forall>sm x. semaphores s sm = Some x \<longrightarrow>
          (t \<in> set (sem_queue x) \<longleftrightarrow> th_status th = BLOCKED \<and> th_point th = InP sm))) \<and>
    (\<forall>t \<in> set (readyList s). threads s t \<noteq> None) \<and>
    (\<forall>sm x. semaphores s sm = Some x \<longrightarrow> 0 \<le> sem_value x \<and> sem_value x < 2 ^ 31 \<and> distinct (sem_queue x) \<and>
       (\<forall>t \<in> set (sem_queue x). threads s t \<noteq> None))"
proof -
  have ok: "sched_view (currentThread s) (readyList s) (tstatus s) (point s) (semaphores s) (threadToBeDestroyed s)"
    using reachable_ok [OF assms(2)] booted_ok [OF assms(1)] by (simp add: sched_ok_def)
  note a = ok [unfolded sched_view_def] and v = sched_viewD [OF ok]
  have live: "tstatus s t \<noteq> None \<longleftrightarrow> threads s t \<noteq> None" for t by (simp add: tstatus_def)
  have "threads s (currentThread s) \<noteq> None" using a live by auto
  moreover have "distinct (readyList s)" using a by blast
  moreover have "(th_status th = RUNNING \<longrightarrow> t = currentThread s) \<and>
       (th_status th = READY \<longleftrightarrow> t \<in> set (readyList s)) \<and> th_status th \<noteq> JUST_CREATED \<and>
       (th_status th = BLOCKED \<longrightarrow> th_point th = Finishing \<or> (\<exists>sm. th_point th = InP sm)) \<and>
       (\<forall>sm x. semaphores s sm = Some x \<longrightarrow>
          (t \<in> set (sem_queue x) \<longleftrightarrow> th_status th = BLOCKED \<and> th_point th = InP sm))"
    if th: "threads s t = Some th" for t th
  proof -
    have st: "tstatus s t = Some (th_status th)" "point s t = Some (th_point th)"
      using th by (simp_all add: tstatus_def point_def)
    have "tstatus s t \<noteq> Some JUST_CREATED" using a by (metis rangeI)
    moreover have "tstatus s t = Some BLOCKED \<longrightarrow> point s t \<in> insert (Some Finishing) (Some ` range InP)"
      using a by blast
    ultimately show ?thesis using v(1) [of t] v(3) [of t] v(5) [of _ _ t] st by auto
  qed
  moreover have "\<forall>t \<in> set (readyList s). threads s t \<noteq> None" using v(1) live by (metis option.distinct(1))
  moreover have "\<forall>sm x. semaphores s sm = Some x \<longrightarrow> 0 \<le> sem_value x \<and> sem_value x < 2 ^ 31 \<and> distinct (sem_queue x) \<and>
       (\<forall>t \<in> set (sem_queue x). threads s t \<noteq> None)"
    using v(4,5) live by (metis option.distinct(1))
  ultimately show ?thesis by blast
qed

text \<open>
  A run: the main thread creates a semaphore with value 0, forks a thread and calls \<^verbatim>\<open>P\<close>; the forked
  thread gets the processor.
\<close>

definition boot_kernel :: kernel where
  "boot_kernel = two_thread_kernel\<lparr>threads := [0 \<mapsto> (Thread_new ''main'' [])\<lparr>th_status := RUNNING\<rparr>], readyList := []\<rparr>"

definition run_to_P :: "kernel res" where
  "run_to_P =
     rbind (StackAllocate SimpleThread 1 1 (put_thread 1 (Thread_new ''forked'' [])
       (put_sem 8 (Semaphore_new ''s'' 0) boot_kernel))) (\<lambda>s1.
     rbind (ReadyToRun 1 s1) (P_round 8))"

lemma run_to_P_reachable: "\<exists>s. run_to_P = Inr s \<and> booted boot_kernel \<and> rtranclp kstep boot_kernel s \<and>
  semaphores s 8 = Some \<lparr>sem_name = ''s'', sem_value = 0, sem_queue = [0]\<rparr> \<and> readyList s = [1] \<and>
  tstatus s 0 = Some BLOCKED"
proof -
  let ?s0 = boot_kernel and ?s1 = "put_sem 8 (Semaphore_new ''s'' 0) boot_kernel"
  have b: "threads ?s0 = [0 \<mapsto> (Thread_new ''main'' [])\<lparr>th_status := RUNNING\<rparr>]" "currentThread ?s0 = 0"
      "readyList ?s0 = []" "semaphores ?s0 = Map.empty" "threadToBeDestroyed ?s0 = None"
    by (simp_all add: boot_kernel_def two_thread_kernel_def)
  have boot: "booted ?s0" using b by (auto simp: booted_def Thread_new_def)
  have k1: "kstep ?s0 ?s1" using b by (intro kstep.new_Semaphore) simp_all
  have "executing ?s1" using b by (simp add: executing_def tstatus_def point_def Thread_new_def)
  then have k2: "kstep ?s1 s'"
    if "StackAllocate SimpleThread 1 1 (put_thread 1 (Thread_new ''forked'' []) ?s1) = Inr u"
      "ReadyToRun 1 u = Inr s'" for u s'
    using that b by (intro kstep.call_Fork [of ?s1 1 SimpleThread 1 "''forked''" "[]" u]) simp_all
  obtain u s2 where u: "StackAllocate SimpleThread 1 1 (put_thread 1 (Thread_new ''forked'' []) ?s1) = Inr u"
    and s2: "ReadyToRun 1 u = Inr s2" and s2': "currentThread s2 = 0" "readyList s2 = [1]"
      "threads s2 0 = Some ((Thread_new ''main'' [])\<lparr>th_status := RUNNING\<rparr>)"
      "semaphores s2 = [8 \<mapsto> Semaphore_new ''s'' 0]"
    using b by (simp add: StackAllocate_def ReadyToRun_def setStatus_def thread_at_def)
  obtain s3 where s3: "P_round 8 s2 = Inr s3" "readyList s3 = [1]" "tstatus s3 0 = Some BLOCKED"
      "semaphores s3 8 = Some \<lparr>sem_name = ''s'', sem_value = 0, sem_queue = [0]\<rparr>"
    using s2' by (simp add: P_round_def sem_at_def Semaphore_new_def sem_enqueue_def setStatus_def thread_at_def
        set_point_def tstatus_def)
  have "executing s2" using s2' by (simp add: executing_def tstatus_def point_def Thread_new_def)
  then have k3: "kstep s2 s3" using s3(1) by (rule kstep.call_P)
  have "rtranclp kstep ?s0 s3" 
    using converse_rtranclp_into_rtranclp [of kstep ?s0 ?s1 s3] k1
      converse_rtranclp_into_rtranclp [of kstep ?s1 s2 s3] k2 [OF u s2] r_into_rtranclp [of kstep s2 s3] k3 by blast
  with boot s3 u s2 show ?thesis by (auto simp: run_to_P_def)
qed

theorem reachable_threads_accounted_witness:
  "\<exists>s. run_to_P = Inr s \<and> booted boot_kernel \<and> rtranclp kstep boot_kernel s \<and>
     distinct (readyList s) \<and> threads s 1 \<noteq> None"
proof -
  obtain s where s: "run_to_P = Inr s" "booted boot_kernel" "rtranclp kstep boot_kernel s" "readyList s = [1]"
    using run_to_P_reachable by blast
  with reachable_threads_accounted [OF s(2,3)] show ?thesis by auto
qed

text \<open>C11. No wake-up is lost: in every reachable state, while threads wait in the queue of a semaphore whose
  value is positive, at least as many threads as the value says have been woken by \<^verbatim>\<open>V\<close> and are on the
  ready list or running, about to test the value again.\<close>

theorem no_lost_wakeup:
  assumes "booted s0" and "rtranclp kstep s0 s"
    and "semaphores s sm = Some x" and "sem_queue x \<noteq> []"
  shows "sem_value x \<le> int (length (filter (\<lambda>t. point s t = Some (InP sm)) (readyList s))) +
    (if tstatus s (currentThread s) = Some RUNNING \<and> point s (currentThread s) = Some (InP sm) then 1 else 0)"
proof -
  have "wakeup_ok s" using reachable_ok [OF assms(2)] booted_ok [OF assms(1)] by simp
  then show ?thesis using assms(3,4) by (auto simp: wakeup_ok_def wakeup_view_def woken_def split: if_splits)
qed

theorem no_lost_wakeup_witness:
  "\<exists>s x. run_to_P = Inr s \<and> semaphores s 8 = Some x \<and> sem_queue x \<noteq> [] \<and>
     sem_value x \<le> int (length (filter (\<lambda>t. point s t = Some (InP 8)) (readyList s))) +
       (if tstatus s (currentThread s) = Some RUNNING \<and> point s (currentThread s) = Some (InP 8) then 1 else 0)"
proof -
  obtain s where s: "run_to_P = Inr s" "booted boot_kernel" "rtranclp kstep boot_kernel s"
    "semaphores s 8 = Some \<lparr>sem_name = ''s'', sem_value = 0, sem_queue = [0]\<rparr>"
    using run_to_P_reachable by blast
  from no_lost_wakeup [OF s(2-4)] s show ?thesis by auto
qed

end
