(* ===== verification/Mips.thy ===== *)
theory Mips
  imports Interrupt "HOL-Library.Signed_Division"
begin

text \<open>
  The simulated processor: machine/mipssim.h, machine/mipssim.cc, and the trap and memory access of
  machine/machine.cc and machine/translate.cc that it uses.

  The kernel's \<^verbatim>\<open>ExceptionHandler\<close> (userprog/exception.cc) is the argument \<open>eh\<close> of the operations
  that can trap. An instruction either ends in the handler (\<open>Trapped\<close>, the \<^verbatim>\<open>return\<close> statements of
  \<^verbatim>\<open>OneInstruction\<close>) or reaches the end of the switch with a next program counter and a delayed load
  (\<open>Advance\<close>). There is one definition for each case of the switch; cases that fall through share
  the definition of the case below.

  Registers are 32-bit words. The C++ code adds and subtracts them as signed integers and relies on
  wrap-around, and shifts negative integers to the right arithmetically, as every supported host does.
\<close>

unbundle bit_operations_syntax

subsection \<open>Traps and memory access\<close>

type_synonym 's handler = "ExceptionType \<Rightarrow> 's \<Rightarrow> 's res"

definition RaiseException ::
    "'a hardware_scheme handler \<Rightarrow> ExceptionType \<Rightarrow> int32 \<Rightarrow> 'a hardware_scheme \<Rightarrow> 'a hardware_scheme res" where
  "RaiseException eh which badVAddr s =
     rbind (set_reg BadVAddrReg badVAddr s) (\<lambda>s1.
     rbind (DelayedLoad 0 0 s1) (\<lambda>s2.
     rbind (eh which (s2\<lparr>status := SystemMode\<rparr>)) (\<lambda>s3.
     Inr (s3\<lparr>status := UserMode\<rparr>))))"

text \<open>\<^verbatim>\<open>ReadMem\<close> and \<^verbatim>\<open>WriteMem\<close>: \<open>None\<close> and \<open>False\<close> when the translation failed.\<close>

definition ReadMem ::
    "'a hardware_scheme handler \<Rightarrow> int32 \<Rightarrow> int \<Rightarrow> 'a hardware_scheme \<Rightarrow> (int32 option \<times> 'a hardware_scheme) res" where
  "ReadMem eh addr sz s =
     rbind (Translate addr sz False s) (\<lambda>(r, s1). case r of
         Inl exception \<Rightarrow> rbind (RaiseException eh exception addr s1) (\<lambda>s2. Inr (None, s2))
       | Inr physicalAddress \<Rightarrow>
           rbind (load_phys HOST_IS_BIG_ENDIAN (mainMemory s1) physicalAddress sz) (\<lambda>v. Inr (Some v, s1)))"

definition WriteMem ::
    "'a hardware_scheme handler \<Rightarrow> int32 \<Rightarrow> int \<Rightarrow> int32 \<Rightarrow> 'a hardware_scheme \<Rightarrow> (bool \<times> 'a hardware_scheme) res" where
  "WriteMem eh addr sz v s =
     rbind (Translate addr sz True s) (\<lambda>(r, s1). case r of
         Inl exception \<Rightarrow> rbind (RaiseException eh exception addr s1) (\<lambda>s2. Inr (False, s2))
       | Inr physicalAddress \<Rightarrow>
           rbind (store_phys HOST_IS_BIG_ENDIAN (mainMemory s1) physicalAddress sz v) (\<lambda>mem.
           Inr (True, s1\<lparr>mainMemory := mem\<rparr>)))"

subsection \<open>Instructions\<close>

datatype opcode =
    OP_ADD | OP_ADDI | OP_ADDIU | OP_ADDU | OP_AND | OP_ANDI | OP_BEQ | OP_BGEZ | OP_BGEZAL | OP_BGTZ
  | OP_BLEZ | OP_BLTZ | OP_BLTZAL | OP_BNE | OP_DIV | OP_DIVU | OP_J | OP_JAL | OP_JALR | OP_JR
  | OP_LB | OP_LBU | OP_LH | OP_LHU | OP_LUI | OP_LW | OP_LWL | OP_LWR | OP_MFHI | OP_MFLO
  | OP_MTHI | OP_MTLO | OP_MULT | OP_MULTU | OP_NOR | OP_OR | OP_ORI | OP_RFE | OP_SB | OP_SH
  | OP_SLL | OP_SLLV | OP_SLT | OP_SLTI | OP_SLTIU | OP_SLTU | OP_SRA | OP_SRAV | OP_SRL | OP_SRLV
  | OP_SUB | OP_SUBU | OP_SW | OP_SWL | OP_SWR | OP_XOR | OP_XORI | OP_SYSCALL | OP_UNIMP | OP_RES
  | SPECIAL | BCOND

datatype format = IFMT | JFMT | RFMT

record Instruction =
  i_value :: int32
  opCode :: opcode
  rs :: int
  rt :: int
  rd :: int
  extra :: int32

definition opTable :: "(opcode \<times> format) list" where
  "opTable =
    [(SPECIAL, RFMT), (BCOND, IFMT), (OP_J, JFMT), (OP_JAL, JFMT),
     (OP_BEQ, IFMT), (OP_BNE, IFMT), (OP_BLEZ, IFMT), (OP_BGTZ, IFMT),
     (OP_ADDI, IFMT), (OP_ADDIU, IFMT), (OP_SLTI, IFMT), (OP_SLTIU, IFMT),
     (OP_ANDI, IFMT), (OP_ORI, IFMT), (OP_XORI, IFMT), (OP_LUI, IFMT),
     (OP_UNIMP, IFMT), (OP_UNIMP, IFMT), (OP_UNIMP, IFMT), (OP_UNIMP, IFMT),
     (OP_RES, IFMT), (OP_RES, IFMT), (OP_RES, IFMT), (OP_RES, IFMT),
     (OP_RES, IFMT), (OP_RES, IFMT), (OP_RES, IFMT), (OP_RES, IFMT),
     (OP_RES, IFMT), (OP_RES, IFMT), (OP_RES, IFMT), (OP_RES, IFMT),
     (OP_LB, IFMT), (OP_LH, IFMT), (OP_LWL, IFMT), (OP_LW, IFMT),
     (OP_LBU, IFMT), (OP_LHU, IFMT), (OP_LWR, IFMT), (OP_RES, IFMT),
     (OP_SB, IFMT), (OP_SH, IFMT), (OP_SWL, IFMT), (OP_SW, IFMT),
     (OP_RES, IFMT), (OP_RES, IFMT), (OP_SWR, IFMT), (OP_RES, IFMT),
     (OP_UNIMP, IFMT), (OP_UNIMP, IFMT), (OP_UNIMP, IFMT), (OP_UNIMP, IFMT),
     (OP_RES, IFMT), (OP_RES, IFMT), (OP_RES, IFMT), (OP_RES, IFMT),
     (OP_UNIMP, IFMT), (OP_UNIMP, IFMT), (OP_UNIMP, IFMT), (OP_UNIMP, IFMT),
     (OP_RES, IFMT), (OP_RES, IFMT), (OP_RES, IFMT), (OP_RES, IFMT)]"

definition specialTable :: "opcode list" where
  "specialTable =
    [OP_SLL, OP_RES, OP_SRL, OP_SRA, OP_SLLV, OP_RES, OP_SRLV, OP_SRAV,
     OP_JR, OP_JALR, OP_RES, OP_RES, OP_SYSCALL, OP_UNIMP, OP_RES, OP_RES,
     OP_MFHI, OP_MTHI, OP_MFLO, OP_MTLO, OP_RES, OP_RES, OP_RES, OP_RES,
     OP_MULT, OP_MULTU, OP_DIV, OP_DIVU, OP_RES, OP_RES, OP_RES, OP_RES,
     OP_ADD, OP_ADDU, OP_SUB, OP_SUBU, OP_AND, OP_OR, OP_XOR, OP_NOR,
     OP_RES, OP_RES, OP_SLT, OP_SLTU, OP_RES, OP_RES, OP_RES, OP_RES,
     OP_RES, OP_RES, OP_RES, OP_RES, OP_RES, OP_RES, OP_RES, OP_RES,
     OP_RES, OP_RES, OP_RES, OP_RES, OP_RES, OP_RES, OP_RES, OP_RES]"

definition Decode :: "int32 \<Rightarrow> Instruction res" where
  "Decode v =
     rbind (arr_get opTable (uint (drop_bit 26 v AND 0x3f))) (\<lambda>(op, fmt).
     let ex = (case fmt of
                 IFMT \<Rightarrow> (let e = v AND 0xffff in if e AND 0x8000 \<noteq> 0 then e OR 0xffff0000 else e)
               | RFMT \<Rightarrow> drop_bit 6 v AND 0x1f
               | JFMT \<Rightarrow> v AND 0x3ffffff) in
     rbind (case op of
              SPECIAL \<Rightarrow> arr_get specialTable (uint (v AND 0x3f))
            | BCOND \<Rightarrow>
                (let i = v AND 0x1f0000 in
                 Inr (if i = 0 then OP_BLTZ else if i = 0x10000 then OP_BGEZ
                      else if i = 0x100000 then OP_BLTZAL else if i = 0x110000 then OP_BGEZAL else OP_UNIMP))
            | _ \<Rightarrow> Inr op) (\<lambda>op'.
     Inr \<lparr>i_value = v, opCode = op', rs = uint (drop_bit 21 v AND 0x1f), rt = uint (drop_bit 16 v AND 0x1f),
          rd = uint (drop_bit 11 v AND 0x1f), extra = ex\<rparr>))"

definition IndexToAddr :: "int32 \<Rightarrow> int32" where
  "IndexToAddr x = push_bit 2 x"

definition SIGN_BIT :: int32 where "SIGN_BIT = 0x80000000"

subsection \<open>Multiplication\<close>

text \<open>The loop over the bits of \<open>a\<close>: \<open>n\<close> iterations are left; the state is (a, bLo, bHi, lo, hi).
  The comparison \<^verbatim>\<open>lo < bLo\<close> is unsigned, \<^verbatim>\<open>a >>= 1\<close> shifts a signed integer.\<close>

fun mult_loop :: "nat \<Rightarrow> int32 \<Rightarrow> int32 \<Rightarrow> int32 \<Rightarrow> int32 \<Rightarrow> int32 \<Rightarrow> int32 \<times> int32" where
  "mult_loop 0 a bLo bHi lo hi = (hi, lo)"
| "mult_loop (Suc n) a bLo bHi lo hi =
     (let lo' = (if a AND 1 \<noteq> 0 then lo + bLo else lo);
          hi' = (if a AND 1 \<noteq> 0 then (if lo' < bLo then hi + 1 else hi) + bHi else hi) in
      if a AND 1 \<noteq> 0 \<and> a AND 0xfffffffe = 0 then (hi', lo')
      else
        let bHi1 = push_bit 1 bHi;
            bHi2 = (if bLo AND 0x80000000 \<noteq> 0 then bHi1 OR 1 else bHi1) in
        mult_loop n (signed_drop_bit 1 a) (push_bit 1 bLo) bHi2 lo' hi')"

definition Mult :: "int32 \<Rightarrow> int32 \<Rightarrow> bool \<Rightarrow> int32 \<times> int32" where
  "Mult a b signedArith =
     (if a = 0 \<or> b = 0 then (0, 0)
      else
        let negative = (signedArith \<and> ((sint a < 0) \<noteq> (sint b < 0)));
            a' = (if signedArith \<and> sint a < 0 then - a else a);
            b' = (if signedArith \<and> sint b < 0 then - b else b);
            (hi, lo) = mult_loop 32 a' b' 0 0 0 in
        if negative
        then let hi1 = NOT hi; lo1 = NOT lo + 1 in (if lo1 = 0 then hi1 + 1 else hi1, lo1)
        else (hi, lo))"

subsection \<open>Execution: the cases of the switch\<close>

datatype 's exec = Trapped 's | Advance int32 int32 int32 's

definition trap ::
    "'a hardware_scheme handler \<Rightarrow> ExceptionType \<Rightarrow> int32 \<Rightarrow> 'a hardware_scheme \<Rightarrow> 'a hardware_scheme exec res" where
  "trap eh which badVAddr s = rbind (RaiseException eh which badVAddr s) (\<lambda>s1. Inr (Trapped s1))"

text \<open>\<^verbatim>\<open>registers[i] = v; break;\<close>\<close>

definition put :: "int \<Rightarrow> int32 \<Rightarrow> int32 \<Rightarrow> 'a hardware_scheme \<Rightarrow> 'a hardware_scheme exec res" where
  "put i v pcAfter s = rbind (set_reg i v s) (\<lambda>s1. Inr (Advance pcAfter 0 0 s1))"

text \<open>Read \<^verbatim>\<open>registers[instr->rs]\<close>, or both operand registers.\<close>

definition src :: "Instruction \<Rightarrow> 'a hardware_scheme \<Rightarrow> (int32 \<Rightarrow> 'b res) \<Rightarrow> 'b res" where
  "src instr s k = rbind (reg s (rs instr)) k"

definition src2 :: "Instruction \<Rightarrow> 'a hardware_scheme \<Rightarrow> (int32 \<Rightarrow> int32 \<Rightarrow> 'b res) \<Rightarrow> 'b res" where
  "src2 instr s k = rbind (reg s (rs instr)) (\<lambda>a. rbind (reg s (rt instr)) (k a))"

definition negw :: "int32 \<Rightarrow> bool" where
  "negw w \<longleftrightarrow> w AND SIGN_BIT \<noteq> 0"

text \<open>\<^verbatim>\<open><<\<close> and \<^verbatim>\<open>>>\<close> of C++ on \<^verbatim>\<open>int\<close>: a shift by the width or more is undefined.\<close>

definition shl :: "int32 \<Rightarrow> int32 \<Rightarrow> int32 res" where
  "shl v n = (if unat n < 32 then Inr (push_bit (unat n) v) else Inl Undefined)"

definition sar :: "int32 \<Rightarrow> int32 \<Rightarrow> int32 res" where
  "sar v n = (if unat n < 32 then Inr (signed_drop_bit (unat n) v) else Inl Undefined)"

text \<open>\<^verbatim>\<open>if (c) pcAfter = registers[NextPCReg] + IndexToAddr(instr->extra); break;\<close>\<close>

definition branch_if :: "bool \<Rightarrow> Instruction \<Rightarrow> int32 \<Rightarrow> 'a hardware_scheme \<Rightarrow> 'a hardware_scheme exec res" where
  "branch_if c instr pcAfter s =
     rbind (reg s NextPCReg) (\<lambda>npc.
     Inr (Advance (if c then npc + IndexToAddr (extra instr) else pcAfter) 0 0 s))"

text \<open>\<^verbatim>\<open>registers[i] = registers[NextPCReg] + 4;\<close> and fall through.\<close>

definition link :: "int \<Rightarrow> 'a hardware_scheme \<Rightarrow> 'a hardware_scheme res" where
  "link i s = rbind (reg s NextPCReg) (\<lambda>npc. set_reg i (npc + 4) s)"

definition exec_ADD ::
    "'a hardware_scheme handler \<Rightarrow> Instruction \<Rightarrow> int32 \<Rightarrow> 'a hardware_scheme \<Rightarrow> 'a hardware_scheme exec res" where
  "exec_ADD eh instr pcAfter s =
     src2 instr s (\<lambda>a b. let sum = a + b in
     if \<not> negw (a XOR b) \<and> negw (a XOR sum) then trap eh OverflowException 0 s
     else put (rd instr) sum pcAfter s)"

definition exec_ADDI ::
    "'a hardware_scheme handler \<Rightarrow> Instruction \<Rightarrow> int32 \<Rightarrow> 'a hardware_scheme \<Rightarrow> 'a hardware_scheme exec res" where
  "exec_ADDI eh instr pcAfter s =
     src instr s (\<lambda>a. let sum = a + extra instr in
     if \<not> negw (a XOR extra instr) \<and> negw (extra instr XOR sum) then trap eh OverflowException 0 s
     else put (rt instr) sum pcAfter s)"

definition exec_ADDIU ::
    "'a hardware_scheme handler \<Rightarrow> Instruction \<Rightarrow> int32 \<Rightarrow> 'a hardware_scheme \<Rightarrow> 'a hardware_scheme exec res" where
  "exec_ADDIU eh instr pcAfter s =
     src instr s (\<lambda>a. put (rt instr) (a + extra instr) pcAfter s)"

definition exec_ADDU ::
    "'a hardware_scheme handler \<Rightarrow> Instruction \<Rightarrow> int32 \<Rightarrow> 'a hardware_scheme \<Rightarrow> 'a hardware_scheme exec res" where
  "exec_ADDU eh instr pcAfter s =
     src2 instr s (\<lambda>a b. put (rd instr) (a + b) pcAfter s)"

definition exec_AND ::
    "'a hardware_scheme handler \<Rightarrow> Instruction \<Rightarrow> int32 \<Rightarrow> 'a hardware_scheme \<Rightarrow> 'a hardware_scheme exec res" where
  "exec_AND eh instr pcAfter s =
     src2 instr s (\<lambda>a b. put (rd instr) (a AND b) pcAfter s)"

definition exec_ANDI ::
    "'a hardware_scheme handler \<Rightarrow> Instruction \<Rightarrow> int32 \<Rightarrow> 'a hardware_scheme \<Rightarrow> 'a hardware_scheme exec res" where
  "exec_ANDI eh instr pcAfter s =
     src instr s (\<lambda>a. put (rt instr) (a AND (extra instr AND 0xffff)) pcAfter s)"

definition exec_BEQ ::
    "'a hardware_scheme handler \<Rightarrow> Instruction \<Rightarrow> int32 \<Rightarrow> 'a hardware_scheme \<Rightarrow> 'a hardware_scheme exec res" where
  "exec_BEQ eh instr pcAfter s =
     src2 instr s (\<lambda>a b. branch_if (a = b) instr pcAfter s)"

definition exec_BGEZ ::
    "'a hardware_scheme handler \<Rightarrow> Instruction \<Rightarrow> int32 \<Rightarrow> 'a hardware_scheme \<Rightarrow> 'a hardware_scheme exec res" where
  "exec_BGEZ eh instr pcAfter s =
     src instr s (\<lambda>a. branch_if (\<not> negw a) instr pcAfter s)"

definition exec_BGEZAL ::
    "'a hardware_scheme handler \<Rightarrow> Instruction \<Rightarrow> int32 \<Rightarrow> 'a hardware_scheme \<Rightarrow> 'a hardware_scheme exec res" where
  "exec_BGEZAL eh instr pcAfter s =
     rbind (link RetAddrReg s) (\<lambda>s1. exec_BGEZ eh instr pcAfter s1)"

definition exec_BGTZ ::
    "'a hardware_scheme handler \<Rightarrow> Instruction \<Rightarrow> int32 \<Rightarrow> 'a hardware_scheme \<Rightarrow> 'a hardware_scheme exec res" where
  "exec_BGTZ eh instr pcAfter s =
     src instr s (\<lambda>a. branch_if (sint a > 0) instr pcAfter s)"

definition exec_BLEZ ::
    "'a hardware_scheme handler \<Rightarrow> Instruction \<Rightarrow> int32 \<Rightarrow> 'a hardware_scheme \<Rightarrow> 'a hardware_scheme exec res" where
  "exec_BLEZ eh instr pcAfter s =
     src instr s (\<lambda>a. branch_if (sint a \<le> 0) instr pcAfter s)"

definition exec_BLTZ ::
    "'a hardware_scheme handler \<Rightarrow> Instruction \<Rightarrow> int32 \<Rightarrow> 'a hardware_scheme \<Rightarrow> 'a hardware_scheme exec res" where
  "exec_BLTZ eh instr pcAfter s =
     src instr s (\<lambda>a. branch_if (negw a) instr pcAfter s)"

definition exec_BLTZAL ::
    "'a hardware_scheme handler \<Rightarrow> Instruction \<Rightarrow> int32 \<Rightarrow> 'a hardware_scheme \<Rightarrow> 'a hardware_scheme exec res" where
  "exec_BLTZAL eh instr pcAfter s =
     rbind (link RetAddrReg s) (\<lambda>s1. exec_BLTZ eh instr pcAfter s1)"

definition exec_BNE ::
    "'a hardware_scheme handler \<Rightarrow> Instruction \<Rightarrow> int32 \<Rightarrow> 'a hardware_scheme \<Rightarrow> 'a hardware_scheme exec res" where
  "exec_BNE eh instr pcAfter s =
     src2 instr s (\<lambda>a b. branch_if (a \<noteq> b) instr pcAfter s)"

text \<open>Division truncates towards zero; the quotient \<open>- (2 ^ 31) / -1\<close> does not fit an \<^verbatim>\<open>int\<close>.\<close>

definition exec_DIV ::
    "'a hardware_scheme handler \<Rightarrow> Instruction \<Rightarrow> int32 \<Rightarrow> 'a hardware_scheme \<Rightarrow> 'a hardware_scheme exec res" where
  "exec_DIV eh instr pcAfter s =
     src2 instr s (\<lambda>a b.
     if b = 0 then rbind (set_reg LoReg 0 s) (put HiReg 0 pcAfter)
     else if a = SIGN_BIT \<and> b = - 1 then Inl Undefined
     else rbind (set_reg LoReg (of_int (sint a sdiv sint b)) s) (\<lambda>s1.
          src2 instr s1 (\<lambda>a1 b1. put HiReg (of_int (sint a1 smod sint b1)) pcAfter s1)))"

definition exec_DIVU ::
    "'a hardware_scheme handler \<Rightarrow> Instruction \<Rightarrow> int32 \<Rightarrow> 'a hardware_scheme \<Rightarrow> 'a hardware_scheme exec res" where
  "exec_DIVU eh instr pcAfter s =
     src2 instr s (\<lambda>a b.
     if b = 0 then rbind (set_reg LoReg 0 s) (put HiReg 0 pcAfter)
     else rbind (set_reg LoReg (a div b) s) (put HiReg (a mod b) pcAfter))"

definition exec_J ::
    "'a hardware_scheme handler \<Rightarrow> Instruction \<Rightarrow> int32 \<Rightarrow> 'a hardware_scheme \<Rightarrow> 'a hardware_scheme exec res" where
  "exec_J eh instr pcAfter s =
     Inr (Advance ((pcAfter AND 0xf0000000) OR IndexToAddr (extra instr)) 0 0 s)"

definition exec_JAL ::
    "'a hardware_scheme handler \<Rightarrow> Instruction \<Rightarrow> int32 \<Rightarrow> 'a hardware_scheme \<Rightarrow> 'a hardware_scheme exec res" where
  "exec_JAL eh instr pcAfter s =
     rbind (link RetAddrReg s) (\<lambda>s1. exec_J eh instr pcAfter s1)"

definition exec_JR ::
    "'a hardware_scheme handler \<Rightarrow> Instruction \<Rightarrow> int32 \<Rightarrow> 'a hardware_scheme \<Rightarrow> 'a hardware_scheme exec res" where
  "exec_JR eh instr pcAfter s =
     src instr s (\<lambda>a. Inr (Advance a 0 0 s))"

definition exec_JALR ::
    "'a hardware_scheme handler \<Rightarrow> Instruction \<Rightarrow> int32 \<Rightarrow> 'a hardware_scheme \<Rightarrow> 'a hardware_scheme exec res" where
  "exec_JALR eh instr pcAfter s =
     rbind (link (rd instr) s) (\<lambda>s1. exec_JR eh instr pcAfter s1)"

text \<open>A load records the target register and the value, which the next instruction still does not see.\<close>

definition load_mem ::
    "'a hardware_scheme handler \<Rightarrow> Instruction \<Rightarrow> int32 \<Rightarrow> int32 \<Rightarrow> int \<Rightarrow> (int32 \<Rightarrow> int32) \<Rightarrow> 'a hardware_scheme \<Rightarrow> 'a hardware_scheme exec res" where
  "load_mem eh instr pcAfter tmp sz f s =
     rbind (ReadMem eh tmp sz s) (\<lambda>(r, s1). case r of
         None \<Rightarrow> Inr (Trapped s1)
       | Some v \<Rightarrow> Inr (Advance pcAfter (of_int (rt instr)) (f v) s1))"

definition exec_LB ::
    "'a hardware_scheme handler \<Rightarrow> Instruction \<Rightarrow> int32 \<Rightarrow> 'a hardware_scheme \<Rightarrow> 'a hardware_scheme exec res" where
  "exec_LB eh instr pcAfter s =
     src instr s (\<lambda>a.
     load_mem eh instr pcAfter (a + extra instr) 1
       (\<lambda>v. if v AND 0x80 \<noteq> 0 \<and> opCode instr = OP_LB then v OR 0xffffff00 else v AND 0xff) s)"

definition exec_LH ::
    "'a hardware_scheme handler \<Rightarrow> Instruction \<Rightarrow> int32 \<Rightarrow> 'a hardware_scheme \<Rightarrow> 'a hardware_scheme exec res" where
  "exec_LH eh instr pcAfter s =
     src instr s (\<lambda>a. let tmp = a + extra instr in
     if tmp AND 0x1 \<noteq> 0 then trap eh AddressErrorException tmp s
     else load_mem eh instr pcAfter tmp 2
       (\<lambda>v. if v AND 0x8000 \<noteq> 0 \<and> opCode instr = OP_LH then v OR 0xffff0000 else v AND 0xffff) s)"

definition exec_LUI ::
    "'a hardware_scheme handler \<Rightarrow> Instruction \<Rightarrow> int32 \<Rightarrow> 'a hardware_scheme \<Rightarrow> 'a hardware_scheme exec res" where
  "exec_LUI eh instr pcAfter s =
     put (rt instr) (push_bit 16 (extra instr)) pcAfter s"

definition exec_LW ::
    "'a hardware_scheme handler \<Rightarrow> Instruction \<Rightarrow> int32 \<Rightarrow> 'a hardware_scheme \<Rightarrow> 'a hardware_scheme exec res" where
  "exec_LW eh instr pcAfter s =
     src instr s (\<lambda>a. let tmp = a + extra instr in
     if tmp AND 0x3 \<noteq> 0 then trap eh AddressErrorException tmp s
     else load_mem eh instr pcAfter tmp 4 (\<lambda>v. v) s)"

text \<open>The value in flight for \<^verbatim>\<open>rt\<close>, or the value of \<^verbatim>\<open>rt\<close>.\<close>

definition pending_load :: "Instruction \<Rightarrow> 'a hardware_scheme \<Rightarrow> int32 res" where
  "pending_load instr s =
     rbind (reg s LoadReg) (\<lambda>r. if sint r = rt instr then reg s LoadValueReg else reg s (rt instr))"

definition exec_LWL ::
    "'a hardware_scheme handler \<Rightarrow> Instruction \<Rightarrow> int32 \<Rightarrow> 'a hardware_scheme \<Rightarrow> 'a hardware_scheme exec res" where
  "exec_LWL eh instr pcAfter s =
     src instr s (\<lambda>a. let tmp = a + extra instr in
     rbind (ASSERT (tmp AND 0x3 = 0)) (\<lambda>_.
     rbind (ReadMem eh tmp 4 s) (\<lambda>(r, s1). case r of
         None \<Rightarrow> Inr (Trapped s1)
       | Some value \<Rightarrow> rbind (pending_load instr s1) (\<lambda>old.
           Inr (Advance pcAfter (of_int (rt instr))
             (if tmp AND 0x3 = 0 then value
              else if tmp AND 0x3 = 1 then (old AND 0xff) OR push_bit 8 value
              else if tmp AND 0x3 = 2 then (old AND 0xffff) OR push_bit 16 value
              else (old AND 0xffffff) OR push_bit 24 value) s1)))))"

definition exec_LWR ::
    "'a hardware_scheme handler \<Rightarrow> Instruction \<Rightarrow> int32 \<Rightarrow> 'a hardware_scheme \<Rightarrow> 'a hardware_scheme exec res" where
  "exec_LWR eh instr pcAfter s =
     src instr s (\<lambda>a. let tmp = a + extra instr in
     rbind (ASSERT (tmp AND 0x3 = 0)) (\<lambda>_.
     rbind (ReadMem eh tmp 4 s) (\<lambda>(r, s1). case r of
         None \<Rightarrow> Inr (Trapped s1)
       | Some value \<Rightarrow> rbind (pending_load instr s1) (\<lambda>old.
           Inr (Advance pcAfter (of_int (rt instr))
             (if tmp AND 0x3 = 0 then (old AND 0xffffff00) OR (signed_drop_bit 24 value AND 0xff)
              else if tmp AND 0x3 = 1 then (old AND 0xffff0000) OR (signed_drop_bit 16 value AND 0xffff)
              else if tmp AND 0x3 = 2 then (old AND 0xff000000) OR (signed_drop_bit 8 value AND 0xffffff)
              else value) s1)))))"

definition exec_MFHI ::
    "'a hardware_scheme handler \<Rightarrow> Instruction \<Rightarrow> int32 \<Rightarrow> 'a hardware_scheme \<Rightarrow> 'a hardware_scheme exec res" where
  "exec_MFHI eh instr pcAfter s =
     rbind (reg s HiReg) (\<lambda>v. put (rd instr) v pcAfter s)"

definition exec_MFLO ::
    "'a hardware_scheme handler \<Rightarrow> Instruction \<Rightarrow> int32 \<Rightarrow> 'a hardware_scheme \<Rightarrow> 'a hardware_scheme exec res" where
  "exec_MFLO eh instr pcAfter s =
     rbind (reg s LoReg) (\<lambda>v. put (rd instr) v pcAfter s)"

definition exec_MTHI ::
    "'a hardware_scheme handler \<Rightarrow> Instruction \<Rightarrow> int32 \<Rightarrow> 'a hardware_scheme \<Rightarrow> 'a hardware_scheme exec res" where
  "exec_MTHI eh instr pcAfter s =
     src instr s (\<lambda>a. put HiReg a pcAfter s)"

definition exec_MTLO ::
    "'a hardware_scheme handler \<Rightarrow> Instruction \<Rightarrow> int32 \<Rightarrow> 'a hardware_scheme \<Rightarrow> 'a hardware_scheme exec res" where
  "exec_MTLO eh instr pcAfter s =
     src instr s (\<lambda>a. put LoReg a pcAfter s)"

definition exec_MULT ::
    "'a hardware_scheme handler \<Rightarrow> Instruction \<Rightarrow> int32 \<Rightarrow> 'a hardware_scheme \<Rightarrow> 'a hardware_scheme exec res" where
  "exec_MULT eh instr pcAfter s =
     src2 instr s (\<lambda>a b. let (hi, lo) = Mult a b True in
     rbind (set_reg HiReg hi s) (put LoReg lo pcAfter))"

definition exec_MULTU ::
    "'a hardware_scheme handler \<Rightarrow> Instruction \<Rightarrow> int32 \<Rightarrow> 'a hardware_scheme \<Rightarrow> 'a hardware_scheme exec res" where
  "exec_MULTU eh instr pcAfter s =
     src2 instr s (\<lambda>a b. let (hi, lo) = Mult a b False in
     rbind (set_reg HiReg hi s) (put LoReg lo pcAfter))"

definition exec_NOR ::
    "'a hardware_scheme handler \<Rightarrow> Instruction \<Rightarrow> int32 \<Rightarrow> 'a hardware_scheme \<Rightarrow> 'a hardware_scheme exec res" where
  "exec_NOR eh instr pcAfter s =
     src2 instr s (\<lambda>a b. put (rd instr) (NOT (a OR b)) pcAfter s)"

text \<open>The source ORs \<^verbatim>\<open>registers[instr->rs]\<close> with itself.\<close>

definition exec_OR ::
    "'a hardware_scheme handler \<Rightarrow> Instruction \<Rightarrow> int32 \<Rightarrow> 'a hardware_scheme \<Rightarrow> 'a hardware_scheme exec res" where
  "exec_OR eh instr pcAfter s =
     src instr s (\<lambda>a. put (rd instr) (a OR a) pcAfter s)"

definition exec_ORI ::
    "'a hardware_scheme handler \<Rightarrow> Instruction \<Rightarrow> int32 \<Rightarrow> 'a hardware_scheme \<Rightarrow> 'a hardware_scheme exec res" where
  "exec_ORI eh instr pcAfter s =
     src instr s (\<lambda>a. put (rt instr) (a OR (extra instr AND 0xffff)) pcAfter s)"

definition store_mem ::
    "'a hardware_scheme handler \<Rightarrow> Instruction \<Rightarrow> int32 \<Rightarrow> int \<Rightarrow> 'a hardware_scheme \<Rightarrow> 'a hardware_scheme exec res" where
  "store_mem eh instr pcAfter sz s =
     src2 instr s (\<lambda>a b.
     rbind (WriteMem eh (a + extra instr) sz b s) (\<lambda>(ok, s1).
     Inr (if ok then Advance pcAfter 0 0 s1 else Trapped s1)))"

definition exec_SB ::
    "'a hardware_scheme handler \<Rightarrow> Instruction \<Rightarrow> int32 \<Rightarrow> 'a hardware_scheme \<Rightarrow> 'a hardware_scheme exec res" where
  "exec_SB eh instr pcAfter s =
     store_mem eh instr pcAfter 1 s"

definition exec_SH ::
    "'a hardware_scheme handler \<Rightarrow> Instruction \<Rightarrow> int32 \<Rightarrow> 'a hardware_scheme \<Rightarrow> 'a hardware_scheme exec res" where
  "exec_SH eh instr pcAfter s =
     store_mem eh instr pcAfter 2 s"

definition exec_SLL ::
    "'a hardware_scheme handler \<Rightarrow> Instruction \<Rightarrow> int32 \<Rightarrow> 'a hardware_scheme \<Rightarrow> 'a hardware_scheme exec res" where
  "exec_SLL eh instr pcAfter s =
     rbind (reg s (rt instr)) (\<lambda>b. rbind (shl b (extra instr)) (\<lambda>v. put (rd instr) v pcAfter s))"

definition exec_SLLV ::
    "'a hardware_scheme handler \<Rightarrow> Instruction \<Rightarrow> int32 \<Rightarrow> 'a hardware_scheme \<Rightarrow> 'a hardware_scheme exec res" where
  "exec_SLLV eh instr pcAfter s =
     src2 instr s (\<lambda>a b. rbind (shl b (a AND 0x1f)) (\<lambda>v. put (rd instr) v pcAfter s))"

definition exec_SLT ::
    "'a hardware_scheme handler \<Rightarrow> Instruction \<Rightarrow> int32 \<Rightarrow> 'a hardware_scheme \<Rightarrow> 'a hardware_scheme exec res" where
  "exec_SLT eh instr pcAfter s =
     src2 instr s (\<lambda>a b. put (rd instr) (if sint a < sint b then 1 else 0) pcAfter s)"

definition exec_SLTI ::
    "'a hardware_scheme handler \<Rightarrow> Instruction \<Rightarrow> int32 \<Rightarrow> 'a hardware_scheme \<Rightarrow> 'a hardware_scheme exec res" where
  "exec_SLTI eh instr pcAfter s =
     src instr s (\<lambda>a. put (rt instr) (if sint a < sint (extra instr) then 1 else 0) pcAfter s)"

definition exec_SLTIU ::
    "'a hardware_scheme handler \<Rightarrow> Instruction \<Rightarrow> int32 \<Rightarrow> 'a hardware_scheme \<Rightarrow> 'a hardware_scheme exec res" where
  "exec_SLTIU eh instr pcAfter s =
     src instr s (\<lambda>a. put (rt instr) (if a < extra instr then 1 else 0) pcAfter s)"

definition exec_SLTU ::
    "'a hardware_scheme handler \<Rightarrow> Instruction \<Rightarrow> int32 \<Rightarrow> 'a hardware_scheme \<Rightarrow> 'a hardware_scheme exec res" where
  "exec_SLTU eh instr pcAfter s =
     src2 instr s (\<lambda>a b. put (rd instr) (if a < b then 1 else 0) pcAfter s)"

definition exec_SRA ::
    "'a hardware_scheme handler \<Rightarrow> Instruction \<Rightarrow> int32 \<Rightarrow> 'a hardware_scheme \<Rightarrow> 'a hardware_scheme exec res" where
  "exec_SRA eh instr pcAfter s =
     rbind (reg s (rt instr)) (\<lambda>b. rbind (sar b (extra instr)) (\<lambda>v. put (rd instr) v pcAfter s))"

definition exec_SRAV ::
    "'a hardware_scheme handler \<Rightarrow> Instruction \<Rightarrow> int32 \<Rightarrow> 'a hardware_scheme \<Rightarrow> 'a hardware_scheme exec res" where
  "exec_SRAV eh instr pcAfter s =
     src2 instr s (\<lambda>a b. rbind (sar b (a AND 0x1f)) (\<lambda>v. put (rd instr) v pcAfter s))"

text \<open>\<^verbatim>\<open>tmp\<close> is an \<^verbatim>\<open>int\<close>, so the shifts of \<^verbatim>\<open>OP_SRL\<close> and \<^verbatim>\<open>OP_SRLV\<close> are arithmetic too.\<close>

definition exec_SRL ::
    "'a hardware_scheme handler \<Rightarrow> Instruction \<Rightarrow> int32 \<Rightarrow> 'a hardware_scheme \<Rightarrow> 'a hardware_scheme exec res" where
  "exec_SRL eh instr pcAfter s =
     rbind (reg s (rt instr)) (\<lambda>tmp. rbind (sar tmp (extra instr)) (\<lambda>v. put (rd instr) v pcAfter s))"

definition exec_SRLV ::
    "'a hardware_scheme handler \<Rightarrow> Instruction \<Rightarrow> int32 \<Rightarrow> 'a hardware_scheme \<Rightarrow> 'a hardware_scheme exec res" where
  "exec_SRLV eh instr pcAfter s =
     src2 instr s (\<lambda>a tmp. rbind (sar tmp (a AND 0x1f)) (\<lambda>v. put (rd instr) v pcAfter s))"

definition exec_SUB ::
    "'a hardware_scheme handler \<Rightarrow> Instruction \<Rightarrow> int32 \<Rightarrow> 'a hardware_scheme \<Rightarrow> 'a hardware_scheme exec res" where
  "exec_SUB eh instr pcAfter s =
     src2 instr s (\<lambda>a b. let diff = a - b in
     if negw (a XOR b) \<and> negw (a XOR diff) then trap eh OverflowException 0 s
     else put (rd instr) diff pcAfter s)"

definition exec_SUBU ::
    "'a hardware_scheme handler \<Rightarrow> Instruction \<Rightarrow> int32 \<Rightarrow> 'a hardware_scheme \<Rightarrow> 'a hardware_scheme exec res" where
  "exec_SUBU eh instr pcAfter s =
     src2 instr s (\<lambda>a b. put (rd instr) (a - b) pcAfter s)"

definition exec_SW ::
    "'a hardware_scheme handler \<Rightarrow> Instruction \<Rightarrow> int32 \<Rightarrow> 'a hardware_scheme \<Rightarrow> 'a hardware_scheme exec res" where
  "exec_SW eh instr pcAfter s =
     store_mem eh instr pcAfter 4 s"

text \<open>The unaligned stores read the word, merge \<^verbatim>\<open>rt\<close> into it and write it back.\<close>

definition store_merged ::
    "'a hardware_scheme handler \<Rightarrow> Instruction \<Rightarrow> int32 \<Rightarrow> (int32 \<Rightarrow> int32 \<Rightarrow> int32 \<Rightarrow> int32) \<Rightarrow> 'a hardware_scheme \<Rightarrow> 'a hardware_scheme exec res" where
  "store_merged eh instr pcAfter merge s =
     src instr s (\<lambda>a. let tmp = a + extra instr in
     rbind (ASSERT (tmp AND 0x3 = 0)) (\<lambda>_.
     rbind (ReadMem eh (tmp AND NOT 0x3) 4 s) (\<lambda>(r, s1). case r of
         None \<Rightarrow> Inr (Trapped s1)
       | Some value \<Rightarrow> rbind (reg s1 (rt instr)) (\<lambda>b.
           rbind (WriteMem eh (tmp AND NOT 0x3) 4 (merge (tmp AND 0x3) value b) s1) (\<lambda>(ok, s2).
           Inr (if ok then Advance pcAfter 0 0 s2 else Trapped s2))))))"

definition exec_SWL ::
    "'a hardware_scheme handler \<Rightarrow> Instruction \<Rightarrow> int32 \<Rightarrow> 'a hardware_scheme \<Rightarrow> 'a hardware_scheme exec res" where
  "exec_SWL eh instr pcAfter s =
     store_merged eh instr pcAfter (\<lambda>k value b.
       if k = 0 then b
       else if k = 1 then (value AND 0xff000000) OR (signed_drop_bit 8 b AND 0xffffff)
       else if k = 2 then (value AND 0xffff0000) OR (signed_drop_bit 16 b AND 0xffff)
       else (value AND 0xffffff00) OR (signed_drop_bit 24 b AND 0xff)) s"

definition exec_SWR ::
    "'a hardware_scheme handler \<Rightarrow> Instruction \<Rightarrow> int32 \<Rightarrow> 'a hardware_scheme \<Rightarrow> 'a hardware_scheme exec res" where
  "exec_SWR eh instr pcAfter s =
     store_merged eh instr pcAfter (\<lambda>k value b.
       if k = 0 then (value AND 0xffffff) OR push_bit 24 b
       else if k = 1 then (value AND 0xffff) OR push_bit 16 b
       else if k = 2 then (value AND 0xff) OR push_bit 8 b
       else b) s"

definition exec_SYSCALL ::
    "'a hardware_scheme handler \<Rightarrow> Instruction \<Rightarrow> int32 \<Rightarrow> 'a hardware_scheme \<Rightarrow> 'a hardware_scheme exec res" where
  "exec_SYSCALL eh instr pcAfter s =
     trap eh SyscallException 0 s"

definition exec_XOR ::
    "'a hardware_scheme handler \<Rightarrow> Instruction \<Rightarrow> int32 \<Rightarrow> 'a hardware_scheme \<Rightarrow> 'a hardware_scheme exec res" where
  "exec_XOR eh instr pcAfter s =
     src2 instr s (\<lambda>a b. put (rd instr) (a XOR b) pcAfter s)"

definition exec_XORI ::
    "'a hardware_scheme handler \<Rightarrow> Instruction \<Rightarrow> int32 \<Rightarrow> 'a hardware_scheme \<Rightarrow> 'a hardware_scheme exec res" where
  "exec_XORI eh instr pcAfter s =
     src instr s (\<lambda>a. put (rt instr) (a XOR (extra instr AND 0xffff)) pcAfter s)"

definition exec_UNIMP ::
    "'a hardware_scheme handler \<Rightarrow> Instruction \<Rightarrow> int32 \<Rightarrow> 'a hardware_scheme \<Rightarrow> 'a hardware_scheme exec res" where
  "exec_UNIMP eh instr pcAfter s =
     trap eh IllegalInstrException 0 s"

text \<open>The switch. The cases \<^verbatim>\<open>OP_RFE\<close>, \<^verbatim>\<open>SPECIAL\<close> and \<^verbatim>\<open>BCOND\<close> reach its default, \<^verbatim>\<open>ASSERT(FALSE)\<close>.\<close>

definition execute ::
    "'a hardware_scheme handler \<Rightarrow> Instruction \<Rightarrow> int32 \<Rightarrow> 'a hardware_scheme \<Rightarrow> 'a hardware_scheme exec res" where
  "execute eh instr pcAfter s =
     (case opCode instr of
        OP_ADD \<Rightarrow> exec_ADD eh instr pcAfter s
      | OP_ADDI \<Rightarrow> exec_ADDI eh instr pcAfter s
      | OP_ADDIU \<Rightarrow> exec_ADDIU eh instr pcAfter s
      | OP_ADDU \<Rightarrow> exec_ADDU eh instr pcAfter s
      | OP_AND \<Rightarrow> exec_AND eh instr pcAfter s
      | OP_ANDI \<Rightarrow> exec_ANDI eh instr pcAfter s
      | OP_BEQ \<Rightarrow> exec_BEQ eh instr pcAfter s
      | OP_BGEZAL \<Rightarrow> exec_BGEZAL eh instr pcAfter s
      | OP_BGEZ \<Rightarrow> exec_BGEZ eh instr pcAfter s
      | OP_BGTZ \<Rightarrow> exec_BGTZ eh instr pcAfter s
      | OP_BLEZ \<Rightarrow> exec_BLEZ eh instr pcAfter s
      | OP_BLTZAL \<Rightarrow> exec_BLTZAL eh instr pcAfter s
      | OP_BLTZ \<Rightarrow> exec_BLTZ eh instr pcAfter s
      | OP_BNE \<Rightarrow> exec_BNE eh instr pcAfter s
      | OP_DIV \<Rightarrow> exec_DIV eh instr pcAfter s
      | OP_DIVU \<Rightarrow> exec_DIVU eh instr pcAfter s
      | OP_JAL \<Rightarrow> exec_JAL eh instr pcAfter s
      | OP_J \<Rightarrow> exec_J eh instr pcAfter s
      | OP_JALR \<Rightarrow> exec_JALR eh instr pcAfter s
      | OP_JR \<Rightarrow> exec_JR eh instr pcAfter s
      | OP_LB \<Rightarrow> exec_LB eh instr pcAfter s
      | OP_LBU \<Rightarrow> exec_LB eh instr pcAfter s
      | OP_LH \<Rightarrow> exec_LH eh instr pcAfter s
      | OP_LHU \<Rightarrow> exec_LH eh instr pcAfter s
      | OP_LUI \<Rightarrow> exec_LUI eh instr pcAfter s
      | OP_LW \<Rightarrow> exec_LW eh instr pcAfter s
      | OP_LWL \<Rightarrow> exec_LWL eh instr pcAfter s
      | OP_LWR \<Rightarrow> exec_LWR eh instr pcAfter s
      | OP_MFHI \<Rightarrow> exec_MFHI eh instr pcAfter s
      | OP_MFLO \<Rightarrow> exec_MFLO eh instr pcAfter s
      | OP_MTHI \<Rightarrow> exec_MTHI eh instr pcAfter s
      | OP_MTLO \<Rightarrow> exec_MTLO eh instr pcAfter s
      | OP_MULT \<Rightarrow> exec_MULT eh instr pcAfter s
      | OP_MULTU \<Rightarrow> exec_MULTU eh instr pcAfter s
      | OP_NOR \<Rightarrow> exec_NOR eh instr pcAfter s
      | OP_OR \<Rightarrow> exec_OR eh instr pcAfter s
      | OP_ORI \<Rightarrow> exec_ORI eh instr pcAfter s
      | OP_SB \<Rightarrow> exec_SB eh instr pcAfter s
      | OP_SH \<Rightarrow> exec_SH eh instr pcAfter s
      | OP_SLL \<Rightarrow> exec_SLL eh instr pcAfter s
      | OP_SLLV \<Rightarrow> exec_SLLV eh instr pcAfter s
      | OP_SLT \<Rightarrow> exec_SLT eh instr pcAfter s
      | OP_SLTI \<Rightarrow> exec_SLTI eh instr pcAfter s
      | OP_SLTIU \<Rightarrow> exec_SLTIU eh instr pcAfter s
      | OP_SLTU \<Rightarrow> exec_SLTU eh instr pcAfter s
      | OP_SRA \<Rightarrow> exec_SRA eh instr pcAfter s
      | OP_SRAV \<Rightarrow> exec_SRAV eh instr pcAfter s
      | OP_SRL \<Rightarrow> exec_SRL eh instr pcAfter s
      | OP_SRLV \<Rightarrow> exec_SRLV eh instr pcAfter s
      | OP_SUB \<Rightarrow> exec_SUB eh instr pcAfter s
      | OP_SUBU \<Rightarrow> exec_SUBU eh instr pcAfter s
      | OP_SW \<Rightarrow> exec_SW eh instr pcAfter s
      | OP_SWL \<Rightarrow> exec_SWL eh instr pcAfter s
      | OP_SWR \<Rightarrow> exec_SWR eh instr pcAfter s
      | OP_SYSCALL \<Rightarrow> exec_SYSCALL eh instr pcAfter s
      | OP_XOR \<Rightarrow> exec_XOR eh instr pcAfter s
      | OP_XORI \<Rightarrow> exec_XORI eh instr pcAfter s
      | OP_RES \<Rightarrow> exec_UNIMP eh instr pcAfter s
      | OP_UNIMP \<Rightarrow> exec_UNIMP eh instr pcAfter s
      | OP_RFE \<Rightarrow> Inl Aborted | SPECIAL \<Rightarrow> Inl Aborted | BCOND \<Rightarrow> Inl Aborted)"

subsection \<open>One instruction\<close>

definition advance_pc :: "int32 \<Rightarrow> 'a hardware_scheme \<Rightarrow> 'a hardware_scheme res" where
  "advance_pc pcAfter s =
     rbind (reg s PCReg) (\<lambda>pc.
     rbind (set_reg PrevPCReg pc s) (\<lambda>s1.
     rbind (reg s1 NextPCReg) (\<lambda>npc.
     rbind (set_reg PCReg npc s1) (\<lambda>s2.
     set_reg NextPCReg pcAfter s2))))"

definition OneInstruction :: "'a hardware_scheme handler \<Rightarrow> 'a hardware_scheme \<Rightarrow> 'a hardware_scheme res" where
  "OneInstruction eh s =
     rbind (reg s PCReg) (\<lambda>pc.
     rbind (ReadMem eh pc 4 s) (\<lambda>(r, s1). case r of
         None \<Rightarrow> Inr s1
       | Some raw \<Rightarrow>
           rbind (Decode raw) (\<lambda>instr.
           rbind (reg s1 NextPCReg) (\<lambda>npc.
           rbind (execute eh instr (npc + 4) s1) (\<lambda>ex. case ex of
               Trapped s2 \<Rightarrow> Inr s2
             | Advance pcAfter nextLoadReg nextLoadValue s2 \<Rightarrow>
                 rbind (DelayedLoad nextLoadReg nextLoadValue s2) (advance_pc pcAfter))))))"

text \<open>
  \<^verbatim>\<open>Machine::Debugger\<close> on a line typed by the user; \<open>sscanf_d\<close> is the C library's \<^verbatim>\<open>sscanf(buf, "%d", ..)\<close>.
\<close>

definition Debugger :: "(string \<Rightarrow> int option) \<Rightarrow> string \<Rightarrow> 'a hardware_scheme \<Rightarrow> 'a hardware_scheme" where
  "Debugger sscanf_d buf s =
     (case sscanf_d buf of
        Some num \<Rightarrow> s\<lparr>runUntilTime := num\<rparr>
      | None \<Rightarrow>
          (let s1 = s\<lparr>runUntilTime := 0\<rparr> in
           case buf of CHR ''c'' # _ \<Rightarrow> s1\<lparr>singleStep := False\<rparr> | _ \<Rightarrow> s1))"

text \<open>
  \<^verbatim>\<open>Machine::Run\<close> never returns: \<open>Run_body\<close> is the body of its loop and \<open>Machine_Run n\<close> the state
  after \<open>n\<close> iterations. \<open>oneTick\<close> is \<^verbatim>\<open>interrupt->OneTick\<close> and \<open>dbg\<close> the debugger with its input.
\<close>

definition Run_body :: "'a hardware_scheme handler \<Rightarrow> ('a hardware_scheme \<Rightarrow> 'a hardware_scheme res) \<Rightarrow> ('a hardware_scheme \<Rightarrow> 'a hardware_scheme) \<Rightarrow> 'a hardware_scheme \<Rightarrow> 'a hardware_scheme res" where
  "Run_body eh oneTick dbg s =
     rbind (OneInstruction eh s) (\<lambda>s1.
     rbind (oneTick s1) (\<lambda>s2.
     Inr (if singleStep s2 \<and> runUntilTime s2 \<le> totalTicks (stats s2) then dbg s2 else s2)))"

fun run_iterations :: "'a hardware_scheme handler \<Rightarrow> ('a hardware_scheme \<Rightarrow> 'a hardware_scheme res) \<Rightarrow> ('a hardware_scheme \<Rightarrow> 'a hardware_scheme) \<Rightarrow> nat \<Rightarrow> 'a hardware_scheme \<Rightarrow> 'a hardware_scheme res" where
  "run_iterations eh oneTick dbg 0 s = Inr s"
| "run_iterations eh oneTick dbg (Suc n) s = rbind (Run_body eh oneTick dbg s) (run_iterations eh oneTick dbg n)"

definition Machine_Run :: "'a hardware_scheme handler \<Rightarrow> ('a hardware_scheme \<Rightarrow> 'a hardware_scheme res) \<Rightarrow> ('a hardware_scheme \<Rightarrow> 'a hardware_scheme) \<Rightarrow> nat \<Rightarrow> 'a hardware_scheme \<Rightarrow> 'a hardware_scheme res" where
  "Machine_Run eh oneTick dbg n s = run_iterations eh oneTick dbg n (s\<lparr>status := UserMode\<rparr>)"

end
