(* ===== verification/Mips_Arith.thy ===== *)
theory Mips_Arith
  imports Mips
begin

text \<open>
  The arithmetic of the simulated processor: the shift-and-add multiplication of \<^verbatim>\<open>Mult\<close> computes the
  exact 64-bit product, and the sign-bit tests of \<^verbatim>\<open>OP_ADD\<close>, \<^verbatim>\<open>OP_ADDI\<close> and \<^verbatim>\<open>OP_SUB\<close> detect exactly
  the results that do not fit 32 bits.
\<close>

unbundle bit_operations_syntax

subsection \<open>Double words\<close>

definition dword :: "int32 \<Rightarrow> int32 \<Rightarrow> int" where
  "dword hi lo = uint hi * 2 ^ 32 + uint lo"

lemma uint_add32: "uint ((a :: int32) + b) = (uint a + uint b) mod 2 ^ 32"
  by (simp add: uint_word_ariths)

lemma odd_and_1: "(a :: int32) AND 1 \<noteq> 0 \<longleftrightarrow> odd (uint a)"
  by (metis and_1_mod even_iff_mod_2_eq_zero)

lemma dword_mod:
  assumes "uint hi = y mod 2 ^ 32" and "y * 2 ^ 32 + uint lo = z"
  shows "dword hi lo mod 2 ^ 64 = z mod 2 ^ 64"
proof -
  have "y mod 2 ^ 32 * 2 ^ 32 = y * 2 ^ 32 mod (2 ^ 64 :: int)"
    using mult_mod_left [of y "2 ^ 32" "2 ^ 32"] by simp
  then have "dword hi lo = y * 2 ^ 32 mod 2 ^ 64 + uint lo" by (simp add: dword_def assms(1))
  then show ?thesis by (simp add: mod_add_left_eq flip: assms(2))
qed

lemma dword_add:
  "dword ((if lo + bLo < bLo then hi + 1 else hi) + bHi) (lo + bLo) mod 2 ^ 64 = (dword hi lo + dword bHi bLo) mod 2 ^ 64"
proof -
  define L B where "L = uint lo" and "B = uint bLo"
  have L: "0 \<le> L" "L < 2 ^ 32" "0 \<le> B" "B < 2 ^ 32" unfolding L_def B_def using uint_lt2p [of lo] uint_lt2p [of bLo] by simp_all
  define c :: int where "c = (if L + B < 2 ^ 32 then 0 else 1)"
  have lo: "uint (lo + bLo) = L + B - c * 2 ^ 32"
  proof (cases "L + B < 2 ^ 32")
    case False
    then have "(L + B) mod 2 ^ 32 = (L + B - 2 ^ 32) mod 2 ^ 32" by simp
    also have "\<dots> = L + B - 2 ^ 32" using L False by (intro mod_pos_pos_trivial) simp_all
    finally show ?thesis using False by (simp add: uint_add32 c_def L_def B_def)
  qed (use L in \<open>simp add: uint_add32 c_def flip: L_def B_def\<close>)
  have carry: "lo + bLo < bLo \<longleftrightarrow> c = 1"
    unfolding word_less_def lo using L by (simp add: c_def flip: B_def)
  have "uint ((if lo + bLo < bLo then hi + 1 else hi) + bHi) = (uint hi + c + uint bHi) mod 2 ^ 32"
    using carry by (auto simp: uint_add32 mod_simps c_def split: if_splits)
  then show ?thesis
    by (rule dword_mod) (simp only: dword_def lo, simp add: L_def B_def)
qed

lemma dword_shift:
  "dword (if bLo AND 0x80000000 \<noteq> 0 then push_bit 1 bHi OR 1 else push_bit 1 bHi) (push_bit 1 bLo) mod 2 ^ 64
   = (2 * dword bHi bLo) mod 2 ^ 64"
proof -
  define B where "B = uint bLo"
  have B: "0 \<le> B" "B < 2 ^ 32" unfolding B_def using uint_lt2p [of bLo] by simp_all
  define c :: int where "c = B div 2 ^ 31"
  have "c \<in> {0, 1}" using B by (auto simp: c_def)
  moreover have "bit bLo 31 \<longleftrightarrow> odd c"
    using bit_iff_odd [of "uint bLo" 31] by (simp add: c_def B_def bit_uint_iff)
  ultimately have c: "c = (if bit bLo 31 then 1 else 0)" by auto
  have top: "bLo AND 0x80000000 \<noteq> 0 \<longleftrightarrow> bit bLo 31"
    using bit_iff_and_push_bit_not_eq_0 [of bLo 31] by (simp add: push_bit_eq_mult)
  have "2 * B mod 2 ^ 32 = 2 * (B mod 2 ^ 31)" using mult_mod_right [of 2 B "2 ^ 31"] by simp
  also have "\<dots> = 2 * B - c * 2 ^ 32" unfolding c_def by (simp add: minus_div_mult_eq_mod [symmetric])
  finally have lo: "uint (push_bit 1 bLo) = 2 * B - c * 2 ^ 32"
    by (simp add: push_bit_eq_mult uint_word_ariths B_def mult.commute)
  have bhi: "push_bit 1 bHi OR 1 = push_bit 1 bHi + 1"
    by (rule disjunctive_add [symmetric]) (auto simp: bit_double_iff bit_1_iff mult.commute [of bHi 2])
  have "uint (if bLo AND 0x80000000 \<noteq> 0 then push_bit 1 bHi OR 1 else push_bit 1 bHi) = (2 * uint bHi + c) mod 2 ^ 32"
    unfolding top bhi c by (auto simp: push_bit_eq_mult uint_word_ariths mod_simps ac_simps)
  then show ?thesis
    by (rule dword_mod) (simp only: dword_def lo, simp add: B_def)
qed

subsection \<open>Multiplication\<close>

lemma sar_mod: "n \<le> 31 \<Longrightarrow> uint (signed_drop_bit 1 (a :: int32)) mod 2 ^ n = uint a div 2 mod 2 ^ n"
proof -
  assume n: "n \<le> 31"
  have "take_bit n (uint (signed_drop_bit 1 a)) = take_bit n (drop_bit 1 (uint a))"
    using n by (intro bit_eqI) (auto simp: bit_simps)
  then show ?thesis by (simp add: take_bit_eq_mod drop_bit_eq_div)
qed

lemma mult_loop_correct:
  "n \<le> 32 \<Longrightarrow> mult_loop n a bLo bHi lo hi = (h, l) \<Longrightarrow>
   dword h l mod 2 ^ 64 = (dword hi lo + (uint a mod 2 ^ n) * dword bHi bLo) mod 2 ^ 64"
proof (induction n a bLo bHi lo hi rule: mult_loop.induct)
  case (1 a bLo bHi lo hi)
  then show ?case by simp
next
  case (2 n a bLo bHi lo hi)
  define lo1 hi1 where "lo1 = (if a AND 1 \<noteq> 0 then lo + bLo else lo)"
    and "hi1 = (if a AND 1 \<noteq> 0 then (if lo1 < bLo then hi + 1 else hi) + bHi else hi)"
  have step: "dword hi1 lo1 mod 2 ^ 64 = (dword hi lo + (uint a mod 2) * dword bHi bLo) mod 2 ^ 64"
  proof (cases "odd (uint a)")
    case True
    then have "uint a mod 2 = 1" by (simp add: odd_iff_mod_2_eq_one)
    with True show ?thesis using dword_add [of lo bLo hi bHi] by (simp only: hi1_def lo1_def odd_and_1 if_True mult_1 not_False_eq_True)
  qed (simp add: hi1_def lo1_def odd_and_1)
  have split: "uint a mod 2 ^ Suc n = uint a mod 2 + 2 * (uint a div 2 mod 2 ^ n)"
    using zmod_zmult2_eq [of "2 ^ n" "uint a" 2] by simp
  show ?case
  proof (cases "a AND 1 \<noteq> 0 \<and> a AND 0xfffffffe = 0")
    case True
    moreover have "(0xfffffffe :: int32) + 2 = 0" by simp
    then have "(0xfffffffe :: int32) = NOT 1" by (simp add: eq_neg_iff_add_eq_0)
    ultimately have "a AND NOT 1 = 0" by simp
    then have "a = a AND 1" using bit.conj_disj_distrib [of a 1 "NOT 1"] by simp
    with True have a: "a = 1" using and_one_eq [of a] by (auto simp: mod2_eq_if split: if_splits)
    from True 2(3) step split a show ?thesis
      by (auto simp: Let_def lo1_def hi1_def)
  next
    case False
    define bHi2 where "bHi2 = (if bLo AND 0x80000000 \<noteq> 0 then push_bit 1 bHi OR 1 else push_bit 1 bHi)"
    have rec: "mult_loop n (signed_drop_bit 1 a) (push_bit 1 bLo) bHi2 lo1 hi1 = (h, l)"
      using 2(3) False unfolding mult_loop.simps(2) Let_def lo1_def [symmetric] hi1_def [symmetric] bHi2_def [symmetric]
      by (simp only: if_False)
    have "dword h l mod 2 ^ 64 = (dword hi1 lo1 + (uint a div 2 mod 2 ^ n) * dword bHi2 (push_bit 1 bLo)) mod 2 ^ 64"
      using 2(1) [OF lo1_def hi1_def False refl bHi2_def _ rec] 2(2) sar_mod [of n a] by (simp only: Suc_le_eq) 
    also have "\<dots> = (dword hi lo + (uint a mod 2) * dword bHi bLo + (uint a div 2 mod 2 ^ n) * (2 * dword bHi bLo)) mod 2 ^ 64"
      unfolding bHi2_def by (intro mod_add_cong mod_mult_cong refl step dword_shift)
    finally show ?thesis unfolding split by (simp add: algebra_simps)
  qed
qed

lemma dword_bounds: "0 \<le> dword h l" "dword h l < 2 ^ 64"
  using uint_lt2p [of h] uint_lt2p [of l] by (simp_all add: dword_def)

lemma mult_loop_32:
  assumes "mult_loop 32 a b 0 0 0 = (h, l)"
  shows "dword h l = uint a * uint b"
proof -
  have ab: "uint a * uint b < 2 ^ 32 * 2 ^ 32" "0 \<le> uint a * uint b"
    using uint_lt2p [of a] uint_lt2p [of b] by (intro mult_strict_mono) simp_all
  have "dword h l mod 2 ^ 64 = (uint a * uint b) mod 2 ^ 64"
    using mult_loop_correct [OF _ assms] uint_lt2p [of a] by (simp add: dword_def)
  then show ?thesis using ab dword_bounds [of h l] by simp
qed

lemma dword_neg:
  "dword (if NOT l + 1 = 0 then NOT h + 1 else NOT h) (NOT l + 1) mod 2 ^ 64 = - dword h l mod 2 ^ 64"
proof (cases "l = 0")
  case True
  have "NOT h + 1 = - h" by (simp add: not_eq_complement)
  then have "uint (NOT h + 1) = (- uint h) mod 2 ^ 32" by (simp only: uint_word_ariths) simp
  then show ?thesis using True by (intro dword_mod [where y = "- uint h"]) (simp_all add: dword_def)
next
  case False
  have "uint (NOT h) = (- uint h - 1) mod 2 ^ 32" 
    by (simp add: not_eq_complement uint_word_ariths mod_simps)
  moreover have "uint (- l) = 2 ^ 32 - uint l"
    using False uint_lt2p [of l] by (simp add: uint_word_ariths zmod_zminus1_eq_if word_uint_eq_iff)
  moreover have "NOT l + 1 = - l" by (simp add: not_eq_complement)
  ultimately show ?thesis
    using False by (intro dword_mod [where y = "- uint h - 1"]) (simp_all add: dword_def)
qed


lemma uint_as_sint: "uint (a :: int32) = sint a + (if sint a < 0 then 2 ^ 32 else 0)"
proof -
  have "uint a = sint a mod 2 ^ 32" by (simp add: uint_sint take_bit_eq_mod)
  moreover have "sint a mod 2 ^ 32 = (sint a + 2 ^ 32) mod 2 ^ 32" by simp
  moreover have "- (2 ^ 31) \<le> sint a" "sint a < 2 ^ 31" using sint_ge [of a] sint_lt [of a] by simp_all
  moreover from this have "(sint a + 2 ^ 32) mod 2 ^ 32 = sint a + 2 ^ 32" if "sint a < 0"
    using that by (intro mod_pos_pos_trivial) simp_all
  ultimately show ?thesis by (cases "sint a < 0") simp_all
qed

lemma uint_minus32: "a \<noteq> 0 \<Longrightarrow> uint (- a :: int32) = 2 ^ 32 - uint a"
  using uint_lt2p [of a] by (simp add: uint_word_ariths zmod_zminus1_eq_if word_uint_eq_iff)

lemma sint_dword:
  assumes "dword h l mod 2 ^ 64 = x mod 2 ^ 64" and x: "- (2 ^ 63) \<le> x" "x < 2 ^ 63"
  shows "sint h * 2 ^ 32 + uint l = x"
proof -
  define y where "y = sint h * 2 ^ 32 + uint l"
  have "- (2 ^ 31) \<le> sint h" "sint h < 2 ^ 31" using sint_ge [of h] sint_lt [of h] by simp_all
  moreover define L where "L = uint l"
  have "0 \<le> L" "L < 2 ^ 32" using uint_lt2p [of l] by (simp_all add: L_def)
  ultimately have y: "- (2 ^ 63) \<le> y" "y < 2 ^ 63" by (simp_all add: y_def flip: L_def)
  have "dword h l = y + (if sint h < 0 then 1 else 0) * 2 ^ 64"
    by (simp add: dword_def y_def uint_as_sint [of h])
  then have "dword h l mod 2 ^ 64 = y mod 2 ^ 64" by simp
  with assms(1) have "2 ^ 64 dvd y - x" by (simp only: mod_eq_dvd_iff [symmetric])
  then obtain k where k: "y - x = 2 ^ 64 * k" by (elim dvdE)
  with x y have "k = 0" by simp
  with k show ?thesis by (simp add: y_def)
qed

lemma abs_word:
  "uint (if sint a < 0 then - a else a) = \<bar>sint (a :: int32)\<bar>"
  using uint_minus32 [of a] uint_as_sint [of a] by (cases "a = 0") auto

lemma sint_prod_bounds: "- (2 ^ 63) \<le> sint (a :: int32) * sint (b :: int32)" "sint a * sint b < 2 ^ 63"
proof -
  have "\<bar>sint a\<bar> \<le> 2 ^ 31" "\<bar>sint b\<bar> \<le> 2 ^ 31"
    using sint_ge [of a] sint_lt [of a] sint_ge [of b] sint_lt [of b] by simp_all
  then have "\<bar>sint a * sint b\<bar> \<le> 2 ^ 31 * 2 ^ 31" unfolding abs_mult by (intro mult_mono) simp_all
  then show "- (2 ^ 63) \<le> sint a * sint b" "sint a * sint b < 2 ^ 63" by simp_all
qed

lemma Mult_dword:
  assumes "Mult a b signedArith = (hi, lo)"
  shows "dword hi lo mod 2 ^ 64 =
    (if signedArith then sint a * sint b else uint a * uint b) mod 2 ^ 64"
proof (cases "a = 0 \<or> b = 0")
  case True
  with assms show ?thesis by (auto simp: Mult_def dword_def)
next
  case False
  define a' b' where "a' = (if signedArith \<and> sint a < 0 then - a else a)"
    and "b' = (if signedArith \<and> sint b < 0 then - b else b)"
  obtain h l where hl: "mult_loop 32 a' b' 0 0 0 = (h, l)" by (cases "mult_loop 32 a' b' 0 0 0")
  have d: "dword h l = uint a' * uint b'" by (rule mult_loop_32 [OF hl])
  have M: "Mult a b signedArith =
      (if signedArith \<and> (sint a < 0) \<noteq> (sint b < 0)
       then (if NOT l + 1 = 0 then NOT h + 1 else NOT h, NOT l + 1) else (h, l))"
    using False hl by (simp add: Mult_def Let_def flip: a'_def b'_def)
  show ?thesis
  proof (cases signedArith)
    case True
    have u: "uint a' * uint b' = \<bar>sint a * sint b\<bar>" using True abs_word [of a] abs_word [of b] by (simp add: a'_def b'_def abs_mult)
    show ?thesis
    proof (cases "(sint a < 0) \<noteq> (sint b < 0)")
      case neg: True
      then have "sint a * sint b \<le> 0" by (auto simp: mult_le_0_iff)
      then have "\<bar>sint a * sint b\<bar> = - (sint a * sint b)" by simp
      with dword_neg [of l h] assms True neg M d u show ?thesis by simp
    next
      case pos: False
      then have "0 \<le> sint a * sint b" by (auto simp: zero_le_mult_iff)
      then have "\<bar>sint a * sint b\<bar> = sint a * sint b" by simp
      with assms True pos M d u show ?thesis by simp
    qed
  qed (use assms M d in \<open>simp add: a'_def b'_def\<close>)
qed

text \<open>C13. \<^verbatim>\<open>Mult\<close> computes the exact double-length product: for every pair of words, including the most
  negative one, the high and low words read as a signed (\<^verbatim>\<open>OP_MULT\<close>) or unsigned (\<^verbatim>\<open>OP_MULTU\<close>) 64-bit number
  are the product of the operands, although the loop shifts a negative \<open>a\<close> arithmetically and stops early.\<close>

theorem Mult_correct:
  "case Mult a b signedArith of (hi, lo) \<Rightarrow>
     if signedArith then sint hi * 2 ^ 32 + uint lo = sint a * sint b
     else uint hi * 2 ^ 32 + uint lo = uint a * uint b"
proof (cases "Mult a b signedArith")
  case (Pair hi lo)
  note d = Mult_dword [OF Pair]
  have "uint a * uint b < 2 ^ 32 * 2 ^ 32" "0 \<le> uint a * uint b"
    using uint_lt2p [of a] uint_lt2p [of b] by (intro mult_strict_mono) simp_all
  then show ?thesis
    using d sint_dword [of hi lo "sint a * sint b"] sint_prod_bounds [of a b] dword_bounds [of hi lo] Pair
    by (simp add: dword_def split: if_splits)
qed

subsection \<open>Overflow\<close>

lemma negw_iff: "negw w \<longleftrightarrow> sint w < 0"
proof -
  have "w AND SIGN_BIT \<noteq> 0 \<longleftrightarrow> bit w 31"
    using bit_iff_and_push_bit_not_eq_0 [of w 31] by (simp add: push_bit_eq_mult SIGN_BIT_def)
  then show ?thesis using bit_last_iff [of w] by (simp add: negw_def)
qed

lemma negw_xor: "negw (a XOR b) \<longleftrightarrow> (sint a < 0) \<noteq> (sint b < 0)"
proof -
  have "sint w < 0 \<longleftrightarrow> bit w 31" for w :: int32 using bit_last_iff [of w] by simp
  then show ?thesis by (simp add: negw_iff bit_xor_iff)
qed

lemma sint_range: "- (2 ^ 31) \<le> sint (a :: int32)" "sint a < 2 ^ 31"
  using sint_ge [of a] sint_lt [of a] by simp_all

lemma sint_wraps:
  fixes w :: int32
  assumes "w = of_int x"
  obtains k where "sint w = x + k * 2 ^ 32"
proof -
  have "uint w = x mod 2 ^ 32" using assms by (simp add: unsigned_of_int take_bit_eq_mod)
  then have "sint w = x + (- (x div 2 ^ 32) - (if sint w < 0 then 1 else 0)) * 2 ^ 32"
    using uint_as_sint [of w] minus_div_mult_eq_mod [of x "2 ^ 32"] by (simp add: left_diff_distrib split: if_splits)
  then show thesis by (rule that)
qed

lemma add_overflow:
  "\<not> negw (a XOR b) \<and> negw (a XOR (a + b)) \<longleftrightarrow> \<not> (- (2 ^ 31) \<le> sint a + sint b \<and> sint a + sint b < 2 ^ 31)"
proof -
  obtain k where k: "sint (a + b) = sint a + sint b + k * 2 ^ 32"
    by (rule sint_wraps [of "a + b" "sint a + sint b"]) simp_all
  moreover from k have "k \<in> {- 1, 0, 1}"
    using sint_range [of a] sint_range [of b] sint_range [of "a + b"] by auto
  ultimately show ?thesis
    unfolding negw_xor using sint_range [of a] sint_range [of b] sint_range [of "a + b"] by auto
qed

lemma sub_overflow:
  "negw (a XOR b) \<and> negw (a XOR (a - b)) \<longleftrightarrow> \<not> (- (2 ^ 31) \<le> sint a - sint b \<and> sint a - sint b < 2 ^ 31)"
proof -
  obtain k where k: "sint (a - b) = sint a - sint b + k * 2 ^ 32"
    by (rule sint_wraps [of "a - b" "sint a - sint b"]) simp_all
  moreover from k have "k \<in> {- 1, 0, 1}"
    using sint_range [of a] sint_range [of b] sint_range [of "a - b"] by auto
  ultimately show ?thesis
    unfolding negw_xor using sint_range [of a] sint_range [of b] sint_range [of "a - b"] by auto
qed

text \<open>What the instruction manual asks of the trapping instructions: the exact result, or the trap.\<close>

definition checked ::
    "'a hardware_scheme handler \<Rightarrow> int \<Rightarrow> int \<Rightarrow> int32 \<Rightarrow> 'a hardware_scheme \<Rightarrow> 'a hardware_scheme exec res" where
  "checked eh dest x pcAfter s =
     (if - (2 ^ 31) \<le> x \<and> x < 2 ^ 31 then put dest (of_int x) pcAfter s else trap eh OverflowException 0 s)"

text \<open>C29. \<^verbatim>\<open>OP_ADD\<close>, \<^verbatim>\<open>OP_ADDI\<close> and \<^verbatim>\<open>OP_SUB\<close> raise \<^verbatim>\<open>OverflowException\<close> exactly when the mathematical sum or
  difference of their signed operands is outside the range of a 32-bit integer, and then write no
  register; otherwise they write that sum or difference.\<close>

theorem overflow_detected_exactly:
  "exec_ADD eh i pcAfter s = src2 i s (\<lambda>a b. checked eh (rd i) (sint a + sint b) pcAfter s) \<and>
   exec_ADDI eh i pcAfter s = src i s (\<lambda>a. checked eh (rt i) (sint a + sint (extra i)) pcAfter s) \<and>
   exec_SUB eh i pcAfter s = src2 i s (\<lambda>a b. checked eh (rd i) (sint a - sint b) pcAfter s)"
proof -
  have add: "(if \<not> negw (a XOR b) \<and> negw (a XOR (a + b)) then trap eh OverflowException 0 s else put d (a + b) pcAfter s) =
      checked eh d (sint a + sint b) pcAfter s" for a b d
    unfolding add_overflow checked_def by simp
  have addi: "(if \<not> negw (a XOR b) \<and> negw (b XOR (a + b)) then trap eh OverflowException 0 s else put d (a + b) pcAfter s) =
      checked eh d (sint a + sint b) pcAfter s" for a b d
    using add [of b a d] by (simp only: add.commute [of b a] add.commute [of "sint b"] xor.commute [of b a])
  have sub: "(if negw (a XOR b) \<and> negw (a XOR (a - b)) then trap eh OverflowException 0 s else put d (a - b) pcAfter s) =
      checked eh d (sint a - sint b) pcAfter s" for a b d
    unfolding sub_overflow checked_def by simp
  show ?thesis unfolding exec_ADD_def exec_ADDI_def exec_SUB_def Let_def add addi sub by simp
qed

end
