(* ===== verification/Mips_Safety.thy ===== *)
theory Mips_Safety
  imports Mips_Arith
begin

text \<open>
  Memory accesses and instructions of the simulated processor keep the machine well-formed. A machine
  is \<open>cpu_ok\<close> when it has all its registers, R0 is zero, the delayed load names a general register and
  the MMU is set up. The locale \<open>trap_handler\<close> states what the processor relies on in the kernel:
  called on such a machine because of a fault, the exception handler gives one back or stops the process
  for a reason in \<open>E\<close>. Under it every instruction but the system call does the same, apart from the
  instructions whose simulation can stop \<^verbatim>\<open>nachos\<close> itself (\<open>faulting\<close>). The interpretation on the handler of
  the kernel is in the theory \<open>Syscalls\<close>.
\<close>

unbundle bit_operations_syntax

subsection \<open>Safety\<close>

text \<open>
  \<open>allows E P r\<close>: the call \<open>r\<close> returns a value with \<open>P\<close>, or stops the process for a reason in \<open>E\<close>.
\<close>

definition allows :: "stop set \<Rightarrow> ('a \<Rightarrow> bool) \<Rightarrow> 'a res \<Rightarrow> bool" where
  "allows E P r = (case r of Inl e \<Rightarrow> e \<in> E | Inr x \<Rightarrow> P x)"

lemma allows_Inr [simp]: "allows E P (Inr x) = P x"
  by (simp add: allows_def)

lemma allows_Inl [simp]: "allows E P (Inl e) \<longleftrightarrow> e \<in> E"
  by (simp add: allows_def)

lemma allows_rbind: "allows E Q m \<Longrightarrow> (\<And>x. m = Inr x \<Longrightarrow> Q x \<Longrightarrow> allows E P (f x)) \<Longrightarrow> allows E P (rbind m f)"
  by (cases m) simp_all

lemma allows_mono: "allows E P r \<Longrightarrow> E \<subseteq> E' \<Longrightarrow> (\<And>x. P x \<Longrightarrow> Q x) \<Longrightarrow> allows E' Q r"
  by (cases r) auto

definition core_ok :: "'a machine_scheme \<Rightarrow> bool" where
  "core_ok s \<longleftrightarrow> length (registers s) = NumTotalRegs \<and> unat (registers s ! 37) < 32 \<and> mmu_ok s"

definition cpu_ok :: "'a machine_scheme \<Rightarrow> bool" where
  "cpu_ok s \<longleftrightarrow> core_ok s \<and> registers s ! 0 = 0"

definition instr_ok :: "Instruction \<Rightarrow> bool" where
  "instr_ok i \<longleftrightarrow> 0 \<le> rs i \<and> rs i < 32 \<and> 0 \<le> rt i \<and> rt i < 32 \<and> 0 \<le> rd i \<and> rd i < 32 \<and>
     opCode i \<notin> {SPECIAL, BCOND, OP_RFE} \<and> (opCode i \<in> {OP_SLL, OP_SRA, OP_SRL} \<longrightarrow> unat (extra i) < 32)"

abbreviation R :: "'a machine_scheme \<Rightarrow> int \<Rightarrow> int32" where
  "R s i \<equiv> registers s ! nat i"

lemma mmu_ok_updates [simp]:
  "mmu_ok (m\<lparr>registers := v\<rparr>) = mmu_ok m" "mmu_ok (m\<lparr>mainMemory := w\<rparr>) = mmu_ok m"
  "mmu_ok (s\<lparr>status := x\<rparr>) = mmu_ok s"
  by (simp_all add: mmu_ok_def cong: option.case_cong)

lemma core_okD: "core_ok s \<Longrightarrow> length (registers s) = 40" "core_ok s \<Longrightarrow> mmu_ok s"
  by (simp_all add: core_ok_def const_defs)

lemma core_ok_updates [simp]:
  "core_ok (s\<lparr>status := x\<rparr>) = core_ok s" "core_ok (m\<lparr>mainMemory := w\<rparr>) = core_ok m"
  "cpu_ok (s\<lparr>status := x\<rparr>) = cpu_ok s" "cpu_ok (m\<lparr>mainMemory := w\<rparr>) = cpu_ok m"
  by (simp_all add: cpu_ok_def core_ok_def)

lemma core_ok_update: "core_ok s \<Longrightarrow> i \<noteq> 37 \<Longrightarrow> core_ok (s\<lparr>registers := (registers s)[i := v]\<rparr>)"
  by (auto simp: core_ok_def nth_list_update)

lemma reg_ok: "core_ok s \<Longrightarrow> 0 \<le> i \<Longrightarrow> i < 40 \<Longrightarrow> reg s i = Inr (R s i)"
  by (simp add: reg_def core_okD)

lemma set_reg_ok: "core_ok s \<Longrightarrow> 0 \<le> i \<Longrightarrow> i < 40 \<Longrightarrow> set_reg i v s = Inr (s\<lparr>registers := (registers s)[nat i := v]\<rparr>)"
  by (simp add: set_reg_def core_okD)

lemma DelayedLoad_ok:
  assumes "core_ok s" and "unat r < 32"
  shows "\<exists>s'. DelayedLoad r v s = Inr s' \<and> cpu_ok s' \<and>
    registers s' = (registers s)[unat (R s 37) := R s 38, 37 := r, 38 := v, 0 := 0]"
proof -
  have l: "length (registers s) = 40" "unat (registers s ! 37) < 32" using assms(1) by (auto simp: core_ok_def const_defs)
  have "sint (registers s ! 37) = int (unat (registers s ! 37))" by (rule sint_small) (use l in simp)
  moreover have "int (unat (registers s ! 37)) < 32" using l by linarith
  ultimately show ?thesis using l assms
    by (auto simp: DelayedLoad_def reg_def set_reg_def cpu_ok_def core_ok_def nth_list_update)
qed

subsection \<open>Virtual memory\<close>

text \<open>
  The user program's view: \<open>phys_of\<close> is where a virtual address lives in main memory, \<open>vbyte\<close> the byte
  there, \<open>vload\<close> the value of \<open>n\<close> bytes; \<open>accessible\<close> says when an access raises no exception.
\<close>

definition phys_of :: "'a machine_scheme \<Rightarrow> nat \<Rightarrow> nat option" where
  "phys_of s va =
     (case page_entry s (va div 128) of
        Some (a, i, e) \<Rightarrow> if unat (physicalPage e) < 128 then Some (unat (physicalPage e) * 128 + va mod 128) else None
      | None \<Rightarrow> None)"

definition vbyte :: "'a machine_scheme \<Rightarrow> nat \<Rightarrow> byte option" where
  "vbyte s va = map_option (mainMemory s) (phys_of s va)"

definition vload :: "'a machine_scheme \<Rightarrow> nat \<Rightarrow> nat \<Rightarrow> int32" where
  "vload s va n = le_value (map (\<lambda>i. the (vbyte s (va + i))) [0..<n])"

definition accessible :: "'a machine_scheme \<Rightarrow> int32 \<Rightarrow> int \<Rightarrow> bool \<Rightarrow> bool" where
  "accessible s va sz writing \<longleftrightarrow> aligned va sz \<and>
     (case page_entry s (unat va div 128) of
        Some (a, i, e) \<Rightarrow> unat (physicalPage e) < 128 \<and> \<not> (readOnly e \<and> writing) | None \<Rightarrow> False)"

lemma Translate_cases:
  assumes "mmu_ok s" and "sz \<in> {1, 2, 4}"
  obtains (fault) exn where "Translate va sz w s = Inr (Inl exn, s)" "\<not> accessible s va sz w"
      "exn \<in> {AddressErrorException, PageFaultException, ReadOnlyException, BusErrorException}"
  | (access) a i e pa where "Translate va sz w s = Inr (Inr pa, touch a i w s)" "mmu_ok (touch a i w s)"
      "unat pa + nat sz \<le> 128 * 128" "page_entry s (unat va div 128) = Some (a, i, e)"
      "unat pa = unat (physicalPage e) * 128 + unat va mod 128" "unat va mod 128 + nat sz \<le> 128"
      "accessible s va sz w" "unat (physicalPage e) < 128"
proof -
  note T = Translate_eq [OF assms, of va w]
  have frame: "physicalPage e \<ge> of_int NumPhysPages \<longleftrightarrow> \<not> unat (physicalPage e) < 128" for e
    by (auto simp: const_defs word_le_nat_alt)
  show thesis
  proof (cases "accessible s va sz w")
    case False
    moreover from this have
      "\<exists>exn \<in> {AddressErrorException, PageFaultException, ReadOnlyException, BusErrorException}.
         Translate va sz w s = Inr (Inl exn, s)"
      unfolding T frame
      by (cases "page_entry s (unat va div 128)") (auto simp: accessible_def page_exception_def split: if_splits)
    ultimately show ?thesis using fault by blast
  next
    case True
    then obtain a i e where al: "aligned va sz" and p: "page_entry s (unat va div 128) = Some (a, i, e)"
      and f: "unat (physicalPage e) < 128" and r: "\<not> (readOnly e \<and> w)"
      by (auto simp: accessible_def split: option.splits)
    have t: "Translate va sz w s = Inr (Inr (of_nat (unat (physicalPage e) * 128 + unat va mod 128)), touch a i w s)"
      unfolding T frame using al p f r by simp
    have m: "unat va mod 128 + nat sz \<le> 128" by (rule aligned_in_page [OF assms(2) al])
    with f have b: "unat (physicalPage e) * 128 + unat va mod 128 + nat sz \<le> 128 * 128" by linarith
    then have pa: "unat (of_nat (unat (physicalPage e) * 128 + unat va mod 128) :: int32) =
        unat (physicalPage e) * 128 + unat va mod 128"
      by (intro unat_of_nat_small) simp
    have ok: "mmu_ok (touch a i w s)"
      using page_entry_in_table [OF assms(1) p] by (auto intro: mmu_ok_touch [OF assms(1)])
    have b': "unat (of_nat (unat (physicalPage e) * 128 + unat va mod 128) :: int32) + nat sz \<le> 128 * 128"
      unfolding pa by (rule b)
    show ?thesis by (rule access [OF t ok b' p pa m True f])
  qed
qed

lemma phys_of_touch:
  assumes "mmu_ok s" and "page_entry s vpn = Some (a, i, e)"
  shows "phys_of (touch a i w s) = phys_of s"
proof
  fix va
  show "phys_of (touch a i w s) va = phys_of s va"
    by (cases "page_entry s (va div 128)")
      (auto simp: phys_of_def page_entry_touch [OF assms] split: if_splits)
qed

lemma phys_of_access:
  assumes "page_entry s (va div 128) = Some (a, i, e)" and "unat (physicalPage e) < 128" and "va mod 128 + k < 128"
  shows "phys_of s (va + k) = Some (unat (physicalPage e) * 128 + va mod 128 + k)"
proof -
  have "va + k = va div 128 * 128 + (va mod 128 + k)" by simp
  then have "(va + k) div 128 = va div 128" "(va + k) mod 128 = va mod 128 + k"
    using assms(3) by (metis add.commute div_mult_self3 div_less add_0 zero_neq_numeral, metis mod_mult_self3 mod_less)
  with assms(1,2) show ?thesis by (simp add: phys_of_def)
qed

lemma ReadMem_access:
  assumes ok: "mmu_ok s" and sz: "sz \<in> {1, 2, 4}" and acc: "accessible s va sz False"
  shows "\<exists>s'. ReadMem eh va sz s = Inr (Some (vload s (unat va) (nat sz)), s') \<and> mmu_ok s' \<and> vbyte s' = vbyte s \<and>
     registers s' = registers s \<and> (\<exists>a i. s' = touch a i False s)"
  using ok sz
proof (cases rule: Translate_cases [where va = va and w = False])
  case (access a i e pa)
  have "map (\<lambda>k. mainMemory s (unat pa + k)) [0..<nat sz] = map (\<lambda>k. the (vbyte s (unat va + k))) [0..<nat sz]"
    using access(4,5,6,8) by (auto simp: vbyte_def phys_of_access)
  then have "load_phys HOST_IS_BIG_ENDIAN (mainMemory s) pa sz = Inr (vload s (unat va) (nat sz))"
    unfolding load_phys_eq [OF sz access(3)] vload_def by (simp only:)
  moreover have "vbyte (touch a i False s) = vbyte s"
    by (simp add: vbyte_def phys_of_touch [OF ok access(4)] fun_eq_iff)
  ultimately show ?thesis using access(1,2) by (auto simp: ReadMem_def)
qed (use acc in simp)

text \<open>No two virtual addresses share a place in main memory.\<close>

definition no_alias :: "'a machine_scheme \<Rightarrow> bool" where
  "no_alias s \<longleftrightarrow> (\<forall>x y q. phys_of s x = Some q \<longrightarrow> phys_of s y = Some q \<longrightarrow> x = y)"

lemma phys_of_cong:
  "tlb m = tlb m' \<Longrightarrow> pageTable m = pageTable m' \<Longrightarrow> pageTableSize m = pageTableSize m' \<Longrightarrow> tables m = tables m' \<Longrightarrow>
   phys_of m va = phys_of m' va"
  by (simp add: phys_of_def page_entry_def cong: option.case_cong)

lemma vload_bytes:
  assumes "vbyte s' = (\<lambda>x. if va \<le> x \<and> x < va + n then Some (le_bytes n v ! (x - va)) else f x)"
  shows "vload s' va n = le_value (le_bytes n v)"
proof -
  have "map (\<lambda>i. the (vbyte s' (va + i))) [0..<n] = le_bytes n v"
    by (rule nth_equalityI) (simp_all add: assms)
  then show ?thesis by (simp add: vload_def)
qed

lemma WriteMem_access:
  assumes ok: "mmu_ok s" and sz: "sz \<in> {1, 2, 4}" and acc: "accessible s va sz True" and inj: "no_alias s"
  shows "\<exists>s'. WriteMem eh va sz v s = Inr (True, s') \<and> mmu_ok s' \<and> no_alias s' \<and> registers s' = registers s \<and>
    vbyte s' = (\<lambda>x. if unat va \<le> x \<and> x < unat va + nat sz then Some (le_bytes (nat sz) v ! (x - unat va)) else vbyte s x)"
  using ok sz
proof (cases rule: Translate_cases [where va = va and w = True])
  case (access a i e pa)
  define mem where "mem = (\<lambda>j. if unat pa \<le> j \<and> j < unat pa + nat sz then le_bytes (nat sz) v ! (j - unat pa)
    else mainMemory s j)"
  define s' where "s' = (touch a i True s)\<lparr>mainMemory := mem\<rparr>"
  have W: "WriteMem eh va sz v s = Inr (True, s')"
    using access(1) by (simp add: WriteMem_def store_phys_eq [OF sz access(3)] s'_def mem_def cong: if_cong)
  have "phys_of s' x = phys_of (touch a i True s) x" for x
    by (rule phys_of_cong) (simp_all add: s'_def)
  then have ph: "phys_of s' = phys_of s" by (simp add: phys_of_touch [OF ok access(4)] fun_eq_iff)
  have here: "phys_of s (unat va + k) = Some (unat pa + k)" if "k < nat sz" for k
    using phys_of_access [OF access(4,8), of k] that access(5,6) by simp
  have "vbyte s' x = (if unat va \<le> x \<and> x < unat va + nat sz then Some (le_bytes (nat sz) v ! (x - unat va)) else vbyte s x)" for x
  proof (cases "unat va \<le> x \<and> x < unat va + nat sz")
    case True
    then obtain k where k: "x = unat va + k" "k < nat sz" by (metis le_Suc_ex nat_add_left_cancel_less)
    then show ?thesis by (simp add: vbyte_def ph here) (simp add: s'_def mem_def)
  next
    case False
    have "\<not> (unat pa \<le> q \<and> q < unat pa + nat sz)" if "phys_of s x = Some q" for q
    proof
      assume q: "unat pa \<le> q \<and> q < unat pa + nat sz"
      then have "phys_of s (unat va + (q - unat pa)) = Some q" using here [of "q - unat pa"] by auto
      with that inj have "x = unat va + (q - unat pa)" by (auto simp: no_alias_def)
      with q False show False by auto
    qed
    then have "vbyte s' x = vbyte s x"
      unfolding vbyte_def ph by (cases "phys_of s x") (auto simp: s'_def mem_def)
    with False show ?thesis by auto
  qed
  moreover have "no_alias s'" using inj by (simp add: no_alias_def ph)
  moreover have "mmu_ok s'" "registers s' = registers s" using access(2) by (simp_all add: s'_def)
  ultimately show ?thesis using W by blast
qed (use acc in simp)

lemma memory_fault:
  assumes "mmu_ok s" "sz \<in> {1, 2, 4}"
  shows "\<not> accessible s va sz False \<Longrightarrow>
      \<exists>exn \<in> {AddressErrorException, PageFaultException, ReadOnlyException, BusErrorException}.
        ReadMem eh va sz s = rbind (RaiseException eh exn va s) (\<lambda>s2. Inr (None, s2))"
    and "\<not> accessible s va sz True \<Longrightarrow>
      \<exists>exn \<in> {AddressErrorException, PageFaultException, ReadOnlyException, BusErrorException}.
        WriteMem eh va sz v s = rbind (RaiseException eh exn va s) (\<lambda>s2. Inr (False, s2))"
proof -
  assume n: "\<not> accessible s va sz False"
  from assms show "\<exists>exn \<in> {AddressErrorException, PageFaultException, ReadOnlyException, BusErrorException}.
        ReadMem eh va sz s = rbind (RaiseException eh exn va s) (\<lambda>s2. Inr (None, s2))"
    by (cases rule: Translate_cases [where va = va and w = False]) (use n in \<open>auto simp: ReadMem_def\<close>)
next
  assume n: "\<not> accessible s va sz True"
  from assms show "\<exists>exn \<in> {AddressErrorException, PageFaultException, ReadOnlyException, BusErrorException}.
        WriteMem eh va sz v s = rbind (RaiseException eh exn va s) (\<lambda>s2. Inr (False, s2))"
    by (cases rule: Translate_cases [where va = va and w = True]) (use n in \<open>auto simp: WriteMem_def\<close>)
qed

lemma instr_ok_reg: "instr_ok i \<Longrightarrow> unat (word_of_int (rt i) :: int32) < 32"
  by (simp add: instr_ok_def unsigned_of_int take_bit_int_eq_self nat_less_iff)

fun exec_ok :: "'a hardware_scheme exec \<Rightarrow> bool" where
  "exec_ok (Trapped s) = cpu_ok s"
| "exec_ok (Advance pcAfter r v s) = (core_ok s \<and> unat r < 32)"

lemma allows_put: "core_ok s \<Longrightarrow> 0 \<le> i \<Longrightarrow> i < 40 \<Longrightarrow> i \<noteq> 37 \<Longrightarrow> allows E exec_ok (put i v p s)"
  by (simp add: put_def set_reg_ok) (auto intro: core_ok_update)

lemma allows_set_reg:
  "core_ok s \<Longrightarrow> 0 \<le> i \<Longrightarrow> i < 40 \<Longrightarrow> i \<noteq> 37 \<Longrightarrow>
   (\<And>s'. core_ok s' \<Longrightarrow> registers s' = (registers s)[nat i := v] \<Longrightarrow> allows E P (f s')) \<Longrightarrow> allows E P (rbind (set_reg i v s) f)"
  by (simp add: set_reg_ok core_ok_update)

lemma allows_reg:
  "core_ok s \<Longrightarrow> 0 \<le> i \<Longrightarrow> i < 40 \<Longrightarrow> allows E P (k (R s i)) \<Longrightarrow> allows E P (rbind (reg s i) k)"
  by (simp add: reg_ok)

lemma allows_src:
  "core_ok s \<Longrightarrow> instr_ok i \<Longrightarrow> allows E P (k (R s (rs i))) \<Longrightarrow> allows E P (src i s k)"
  unfolding src_def by (rule allows_reg) (auto simp: instr_ok_def)

lemma allows_src2:
  "core_ok s \<Longrightarrow> instr_ok i \<Longrightarrow> allows E P (k (R s (rs i)) (R s (rt i))) \<Longrightarrow> allows E P (src2 i s k)"
  unfolding src2_def by (intro allows_reg) (auto simp: instr_ok_def)

lemma allows_branch: "core_ok s \<Longrightarrow> allows E exec_ok (branch_if c i p s)"
  unfolding branch_if_def by (rule allows_reg) simp_all

lemma allows_link:
  "core_ok s \<Longrightarrow> 0 \<le> i \<Longrightarrow> i < 32 \<Longrightarrow> (\<And>s'. core_ok s' \<Longrightarrow> allows E P (f s')) \<Longrightarrow> allows E P (rbind (link i s) f)"
  unfolding link_def rbind_assoc by (intro allows_reg allows_set_reg) simp_all

lemma shift_and_31: "unat ((a :: int32) AND 0x1f) < 32"
proof -
  have "a AND 0x1f = take_bit 5 a" by (simp add: take_bit_eq_mask mask_eq_exp_minus_1)
  then have "a AND 0x1f < 32" by (simp add: take_bit_eq_mod word_mod_less_divisor)
  then show ?thesis by (simp add: word_less_nat_alt)
qed

lemma allows_shl: "unat n < 32 \<Longrightarrow> (\<And>x. allows E P (f x)) \<Longrightarrow> allows E P (rbind (shl v n) f)"
  by (simp add: shl_def)

lemma allows_sar: "unat n < 32 \<Longrightarrow> (\<And>x. allows E P (f x)) \<Longrightarrow> allows E P (rbind (sar v n) f)"
  by (simp add: sar_def)

lemmas allows_intros = allows_put allows_set_reg allows_reg allows_src allows_src2 allows_branch allows_link
  allows_shl allows_sar shift_and_31

subsection \<open>Decoding\<close>

lemma and_mask_less:
  "uint ((w :: int32) AND 0x1f) < 32" "uint (w AND 0x3f) < 64" "unat (w AND 0x1f) < 32" "unat (w AND 0x3f) < 64"
proof -
  have *: "w AND 0x1f = take_bit 5 w" "w AND 0x3f = take_bit 6 w"
    by (simp_all add: take_bit_eq_mask mask_eq_exp_minus_1)
  then show "uint (w AND 0x1f) < 32" "uint (w AND 0x3f) < 64"
    using take_bit_int_less_exp [of 5 "uint w"] take_bit_int_less_exp [of 6 "uint w"] by (simp_all add: unsigned_take_bit_eq)
  show "unat (w AND 0x1f) < 32" "unat (w AND 0x3f) < 64"
    using take_bit_nat_less_exp [of 5 "unat w"] take_bit_nat_less_exp [of 6 "unat w"] *
    by (simp_all add: unsigned_take_bit_eq)
qed

lemma opTable_entries:
  "list_all (\<lambda>(op, fmt). op \<notin> {OP_RFE, OP_SLL, OP_SRA, OP_SRL} \<and> (op = SPECIAL \<longleftrightarrow> fmt = RFMT)) opTable"
  "list_all (\<lambda>op. op \<notin> {SPECIAL, BCOND, OP_RFE}) specialTable"
  "length opTable = 64" "length specialTable = 64"
  by (simp_all add: opTable_def specialTable_def)

lemma Decode_ok: "\<exists>i. Decode v = Inr i \<and> instr_ok i \<and> i_value i = v"
proof -
  define n where "n = nat (uint (drop_bit 26 v AND 0x3f))"
  define k where "k = nat (uint (v AND 0x3f))"
  have nk: "n < 64" "k < 64" using and_mask_less(4) by (simp_all add: n_def k_def)
  obtain op fmt where e: "opTable ! n = (op, fmt)" by (cases "opTable ! n")
  have op: "op \<notin> {OP_RFE, OP_SLL, OP_SRA, OP_SRL}" "op = SPECIAL \<longleftrightarrow> fmt = RFMT"
    using opTable_entries(1,3) nk(1) e by (auto simp: list_all_length)
  have sp: "specialTable ! k \<notin> {SPECIAL, BCOND, OP_RFE}"
    using opTable_entries(2,4) nk(2) by (auto simp: list_all_length)
  have get: "arr_get opTable (uint (drop_bit 26 v AND 0x3f)) = Inr (op, fmt)"
    "arr_get specialTable (uint (v AND 0x3f)) = Inr (specialTable ! k)"
    using e nk opTable_entries(3,4) and_mask_less(2) [of "drop_bit 26 v"] and_mask_less(2) [of v]
    by (simp_all add: n_def k_def)
  show ?thesis
    using op sp and_mask_less
    by (cases op) (auto simp: Decode_def get Let_def instr_ok_def split: format.splits)
qed

text \<open>The definitions of the cases of the switch.\<close>

lemmas exec_defs =
  exec_ADD_def exec_ADDI_def exec_ADDIU_def exec_ADDU_def exec_AND_def exec_ANDI_def exec_BEQ_def
  exec_BGEZAL_def exec_BGEZ_def exec_BGTZ_def exec_BLEZ_def exec_BLTZAL_def exec_BLTZ_def exec_BNE_def
  exec_DIVU_def exec_JAL_def exec_J_def exec_JALR_def exec_JR_def exec_LB_def exec_LH_def
  exec_LUI_def exec_LW_def exec_MFHI_def exec_MFLO_def exec_MTHI_def exec_MTLO_def exec_MULT_def
  exec_MULTU_def exec_NOR_def exec_OR_def exec_ORI_def exec_SB_def exec_SH_def exec_SLLV_def
  exec_SLT_def exec_SLTI_def exec_SLTIU_def exec_SLTU_def exec_SRAV_def exec_SRLV_def exec_SUB_def
  exec_SUBU_def exec_SW_def exec_SYSCALL_def exec_XOR_def exec_XORI_def exec_UNIMP_def exec_DIV_def
  exec_SLL_def exec_SRA_def exec_SRL_def exec_SWL_def exec_SWR_def

definition faulting :: "Instruction \<Rightarrow> 'a machine_scheme \<Rightarrow> stop set" where
  "faulting i s =
     (if opCode i = OP_DIV \<and> R s (rs i) = SIGN_BIT \<and> R s (rt i) = - 1 then {Undefined}
      else if opCode i \<in> {OP_LWL, OP_LWR, OP_SWL, OP_SWR} \<and> (R s (rs i) + extra i) AND 3 \<noteq> 0 then {Aborted}
      else {})"

lemma instr_okD:
  "instr_ok i \<Longrightarrow> 0 \<le> rs i" "instr_ok i \<Longrightarrow> rs i < 40" "instr_ok i \<Longrightarrow> rs i < 32"
  "instr_ok i \<Longrightarrow> 0 \<le> rt i" "instr_ok i \<Longrightarrow> rt i < 40" "instr_ok i \<Longrightarrow> rt i < 32" "instr_ok i \<Longrightarrow> rt i \<noteq> 37"
  "instr_ok i \<Longrightarrow> 0 \<le> rd i" "instr_ok i \<Longrightarrow> rd i < 40" "instr_ok i \<Longrightarrow> rd i < 32" "instr_ok i \<Longrightarrow> rd i \<noteq> 37"
  by (auto simp: instr_ok_def)

text \<open>The instruction at the program counter, when it can be fetched.\<close>

definition fetched :: "'a machine_scheme \<Rightarrow> Instruction option" where
  "fetched s =
     (if accessible s (registers s ! 34) 4 False
      then (case Decode (vload s (unat (registers s ! 34)) 4) of Inr i \<Rightarrow> Some i | Inl _ \<Rightarrow> None) else None)"

text \<open>The end of an instruction: the load in flight, then the program counters.\<close>

lemma advance_pc_ok:
  "core_ok s \<Longrightarrow> advance_pc p s =
     Inr (s\<lparr>registers := (registers s)[36 := R s 34, 34 := R s 35, 35 := p]\<rparr>)"
  by (simp add: advance_pc_def reg_def set_reg_def core_okD)

lemma finish_ok:
  "core_ok s \<Longrightarrow> unat r < 32 \<Longrightarrow> allows E cpu_ok (rbind (DelayedLoad r v s) (advance_pc p))"
  using DelayedLoad_ok [of s r v] by (auto simp: advance_pc_ok cpu_ok_def core_ok_def)

locale trap_handler =
  fixes eh :: "'a hardware_scheme handler" and E :: "stop set"
  assumes handler: "cpu_ok s \<Longrightarrow> which \<noteq> SyscallException \<Longrightarrow> allows E cpu_ok (eh which s)"
begin

lemma RaiseException_allows: "core_ok s \<Longrightarrow> which \<noteq> SyscallException \<Longrightarrow> allows E cpu_ok (RaiseException eh which a s)"
proof -
  assume ok: "core_ok s" and which: "which \<noteq> SyscallException"
  from ok have ok1: "core_ok (s\<lparr>registers := (registers s)[39 := a]\<rparr>)" by (rule core_ok_update) simp
  from DelayedLoad_ok [OF this, of 0 0] obtain s2 where
    "DelayedLoad 0 0 (s\<lparr>registers := (registers s)[39 := a]\<rparr>) = Inr s2" "cpu_ok s2" by auto
  then show ?thesis
    using handler [of "s2\<lparr>status := SystemMode\<rparr>"] ok which
    by (auto simp: RaiseException_def set_reg_ok intro!: allows_rbind)
qed

lemma trap_allows: "core_ok s \<Longrightarrow> which \<noteq> SyscallException \<Longrightarrow> allows E exec_ok (trap eh which a s)"
  unfolding trap_def by (rule allows_rbind [OF RaiseException_allows]) simp_all

lemma ReadMem_allows:
  assumes ok: "core_ok s" and sz: "sz \<in> {1, 2, 4}"
  shows "allows E (\<lambda>(r, s'). case r of None \<Rightarrow> cpu_ok s' | Some v \<Rightarrow> core_ok s' \<and> registers s' = registers s)
    (ReadMem eh a sz s)"
  using core_okD(2) [OF ok] sz
proof (cases rule: Translate_cases [where va = a and w = False])
  case (fault exn)
  then show ?thesis
    by (auto simp: ReadMem_def intro: allows_rbind [OF RaiseException_allows [OF ok]])
next
  case (access b i e pa)
  then show ?thesis using ok by (simp add: ReadMem_def load_phys_eq [OF sz access(3)] core_ok_def)
qed

lemma WriteMem_allows:
  assumes ok: "core_ok s" and sz: "sz \<in> {1, 2, 4}"
  shows "allows E (\<lambda>(r, s'). if r then core_ok s' \<and> registers s' = registers s else cpu_ok s') (WriteMem eh a sz v s)"
  using core_okD(2) [OF ok] sz
proof (cases rule: Translate_cases [where va = a and w = True])
  case (fault exn)
  then show ?thesis
    by (auto simp: WriteMem_def intro: allows_rbind [OF RaiseException_allows [OF ok]])
next
  case (access b i e pa)
  then show ?thesis using ok by (simp add: WriteMem_def store_phys_eq [OF sz access(3)] core_ok_def)
qed

lemma load_mem_allows:
  "core_ok s \<Longrightarrow> instr_ok i \<Longrightarrow> sz \<in> {1, 2, 4} \<Longrightarrow> allows E exec_ok (load_mem eh i p a sz f s)"
  unfolding load_mem_def
  by (rule allows_rbind [OF ReadMem_allows]) (auto simp: instr_ok_reg split: option.splits)

lemma store_mem_allows:
  "core_ok s \<Longrightarrow> instr_ok i \<Longrightarrow> sz \<in> {1, 2, 4} \<Longrightarrow> allows E exec_ok (store_mem eh i p sz s)"
  unfolding store_mem_def
  by (intro allows_src2, assumption, assumption, rule allows_rbind [OF WriteMem_allows])
    (auto split: if_splits)

lemma store_merged_allows:
  assumes "core_ok s" "instr_ok i" "(R s (rs i) + extra i) AND 3 = 0"
  shows "allows E exec_ok (store_merged eh i p merge s)"
  unfolding store_merged_def Let_def
proof (intro allows_src assms)
  let ?tmp = "R s (rs i) + extra i"
  have "allows E exec_ok (rbind (ReadMem eh (?tmp AND NOT 0x3) 4 s) (\<lambda>(r, s1). case r of
         None \<Rightarrow> Inr (Trapped s1)
       | Some value \<Rightarrow> rbind (reg s1 (rt i)) (\<lambda>b.
           rbind (WriteMem eh (?tmp AND NOT 0x3) 4 (merge (?tmp AND 0x3) value b) s1) (\<lambda>(ok, s2).
           Inr (if ok then Advance p 0 0 s2 else Trapped s2)))))"
    using assms(2)
    by (intro allows_rbind [OF ReadMem_allows [OF assms(1)]])
      (auto simp: instr_ok_def split: option.splits intro!: allows_reg allows_rbind [OF WriteMem_allows])
  then show "allows E exec_ok (rbind (ASSERT (?tmp AND 3 = 0)) (\<lambda>_.
       rbind (ReadMem eh (?tmp AND NOT 0x3) 4 s) (\<lambda>(r, s1). case r of
         None \<Rightarrow> Inr (Trapped s1)
       | Some value \<Rightarrow> rbind (reg s1 (rt i)) (\<lambda>b.
           rbind (WriteMem eh (?tmp AND NOT 0x3) 4 (merge (?tmp AND 0x3) value b) s1) (\<lambda>(ok, s2).
           Inr (if ok then Advance p 0 0 s2 else Trapped s2))))))"
    using assms(3) by simp
qed

lemma pending_load_allows:
  "core_ok s \<Longrightarrow> instr_ok i \<Longrightarrow> (\<And>x. allows E P (f x)) \<Longrightarrow> allows E P (rbind (pending_load i s) f)"
  by (auto simp: pending_load_def reg_ok instr_ok_def)

lemmas memory_intros = allows_intros instr_okD trap_allows load_mem_allows store_mem_allows pending_load_allows

lemma exec_LW_allows:
  assumes "core_ok s" "instr_ok i" "(R s (rs i) + extra i) AND 3 = 0"
  shows "allows E exec_ok (exec_LWL eh i p s)" "allows E exec_ok (exec_LWR eh i p s)"
  using assms unfolding exec_LWL_def exec_LWR_def Let_def
  by (auto simp: instr_ok_reg split: option.splits
      intro!: allows_src allows_rbind [OF ReadMem_allows] pending_load_allows)

lemma exec_allows:
  assumes "core_ok s" "instr_ok i"
  shows "allows E exec_ok (exec_ADD eh i p s)"
    "allows E exec_ok (exec_ADDI eh i p s)"
    "allows E exec_ok (exec_ADDIU eh i p s)"
    "allows E exec_ok (exec_ADDU eh i p s)"
    "allows E exec_ok (exec_AND eh i p s)"
    "allows E exec_ok (exec_ANDI eh i p s)"
    "allows E exec_ok (exec_BEQ eh i p s)"
    "allows E exec_ok (exec_BGEZAL eh i p s)"
    "allows E exec_ok (exec_BGEZ eh i p s)"
    "allows E exec_ok (exec_BGTZ eh i p s)"
    "allows E exec_ok (exec_BLEZ eh i p s)"
    "allows E exec_ok (exec_BLTZAL eh i p s)"
    "allows E exec_ok (exec_BLTZ eh i p s)"
    "allows E exec_ok (exec_BNE eh i p s)"
    "allows E exec_ok (exec_DIVU eh i p s)"
    "allows E exec_ok (exec_JAL eh i p s)"
    "allows E exec_ok (exec_J eh i p s)"
    "allows E exec_ok (exec_JALR eh i p s)"
    "allows E exec_ok (exec_JR eh i p s)"
    "allows E exec_ok (exec_LB eh i p s)"
    "allows E exec_ok (exec_LH eh i p s)"
    "allows E exec_ok (exec_LUI eh i p s)"
    "allows E exec_ok (exec_LW eh i p s)"
    "allows E exec_ok (exec_MFHI eh i p s)"
    "allows E exec_ok (exec_MFLO eh i p s)"
    "allows E exec_ok (exec_MTHI eh i p s)"
    "allows E exec_ok (exec_MTLO eh i p s)"
    "allows E exec_ok (exec_MULT eh i p s)"
    "allows E exec_ok (exec_MULTU eh i p s)"
    "allows E exec_ok (exec_NOR eh i p s)"
    "allows E exec_ok (exec_OR eh i p s)"
    "allows E exec_ok (exec_ORI eh i p s)"
    "allows E exec_ok (exec_SB eh i p s)"
    "allows E exec_ok (exec_SH eh i p s)"
    "allows E exec_ok (exec_SLLV eh i p s)"
    "allows E exec_ok (exec_SLT eh i p s)"
    "allows E exec_ok (exec_SLTI eh i p s)"
    "allows E exec_ok (exec_SLTIU eh i p s)"
    "allows E exec_ok (exec_SLTU eh i p s)"
    "allows E exec_ok (exec_SRAV eh i p s)"
    "allows E exec_ok (exec_SRLV eh i p s)"
    "allows E exec_ok (exec_SUB eh i p s)"
    "allows E exec_ok (exec_SUBU eh i p s)"
    "allows E exec_ok (exec_SW eh i p s)"
    "allows E exec_ok (exec_XOR eh i p s)"
    "allows E exec_ok (exec_XORI eh i p s)"
    "allows E exec_ok (exec_UNIMP eh i p s)"
  using assms unfolding exec_defs Let_def
  by (auto split: prod.splits intro!: memory_intros)

lemma exec_shift_allows:
  assumes "core_ok s" "instr_ok i" "unat (extra i) < 32"
  shows "allows E exec_ok (exec_SLL eh i p s)" "allows E exec_ok (exec_SRA eh i p s)" "allows E exec_ok (exec_SRL eh i p s)"
  using assms unfolding exec_defs by (auto intro!: memory_intros)

lemma exec_DIV_allows:
  assumes "core_ok s" "instr_ok i" "\<not> (R s (rs i) = SIGN_BIT \<and> R s (rt i) = - 1)"
  shows "allows E exec_ok (exec_DIV eh i p s)"
  unfolding exec_DIV_def
  by (intro allows_src2 assms(1,2)) (use assms in \<open>auto intro!: memory_intros\<close>)

lemma execute_allows:
  assumes "core_ok s" "instr_ok i" "opCode i \<noteq> OP_SYSCALL"
  shows "allows (E \<union> faulting i s) exec_ok (execute eh i p s)"
proof (cases "faulting i s = {}")
  case True
  then have special: "opCode i = OP_DIV \<Longrightarrow> \<not> (R s (rs i) = SIGN_BIT \<and> R s (rt i) = - 1)"
    "opCode i \<in> {OP_LWL, OP_LWR, OP_SWL, OP_SWR} \<Longrightarrow> (R s (rs i) + extra i) AND 3 = 0"
    by (auto simp: faulting_def split: if_splits)
  have shift: "opCode i \<in> {OP_SLL, OP_SRA, OP_SRL} \<Longrightarrow> unat (extra i) < 32"
    and op: "opCode i \<notin> {SPECIAL, BCOND, OP_RFE}" using assms(2) by (simp_all add: instr_ok_def)
  have swl: "allows E exec_ok (exec_SWL eh i p s)" "allows E exec_ok (exec_SWR eh i p s)"
    if "(R s (rs i) + extra i) AND 3 = 0"
    unfolding exec_SWL_def exec_SWR_def using that assms by (simp_all add: store_merged_allows)
  from True show ?thesis
    using op special shift assms(3)
    by (cases "opCode i") (simp_all add: execute_def exec_allows assms exec_shift_allows exec_DIV_allows exec_LW_allows swl)
next
  case False
  then consider (div) "opCode i = OP_DIV" "R s (rs i) = SIGN_BIT" "R s (rt i) = - 1"
    | (unaligned) "opCode i \<in> {OP_LWL, OP_LWR, OP_SWL, OP_SWR}" "(R s (rs i) + extra i) AND 3 \<noteq> 0"
    by (auto simp: faulting_def split: if_splits)
  then show ?thesis
  proof cases
    case div
    then show ?thesis using assms instr_okD [OF assms(2)]
      by (simp add: execute_def exec_DIV_def src2_def reg_ok faulting_def)
  next
    case unaligned
    then show ?thesis using assms instr_okD [OF assms(2)]
      by (auto simp: execute_def exec_LWL_def exec_LWR_def exec_SWL_def exec_SWR_def store_merged_def src_def
          reg_ok faulting_def)
  qed
qed

lemma OneInstruction_allows:
  assumes "cpu_ok s" and call: "\<And>i. fetched s = Some i \<Longrightarrow> opCode i \<noteq> OP_SYSCALL"
  shows "allows (E \<union> (case fetched s of None \<Rightarrow> {} | Some i \<Rightarrow> faulting i s)) cpu_ok (OneInstruction eh s)"
proof -
  have ok: "core_ok s" using assms(1) by (simp add: cpu_ok_def)
  have fetch: "allows E (\<lambda>(r, s'). case r of None \<Rightarrow> cpu_ok s'
      | Some v \<Rightarrow> core_ok s' \<and> registers s' = registers s \<and> (\<exists>i. fetched s = Some i \<and> Decode v = Inr i \<and> instr_ok i))
    (ReadMem eh (R s PCReg) 4 s)"
  proof (cases "accessible s (R s PCReg) 4 False")
    case True
    obtain i where "Decode (vload s (unat (R s PCReg)) 4) = Inr i" "instr_ok i" using Decode_ok by blast
    with ReadMem_access [OF core_okD(2) [OF ok] _ True, of eh] ok show ?thesis
      using True by (auto simp: core_ok_def fetched_def)
  next
    case False
    have four: "(4 :: int) \<in> {1, 2, 4}" by simp
    show ?thesis using core_okD(2) [OF ok] four
    proof (cases rule: Translate_cases [where va = "R s PCReg" and w = False and sz = 4])
      case (fault exn)
      then show ?thesis
        by (auto simp: ReadMem_def intro: allows_rbind [OF RaiseException_allows [OF ok]])
    qed (use False in simp_all)
  qed
  let ?E = "E \<union> (case fetched s of None \<Rightarrow> {} | Some i \<Rightarrow> faulting i s)"
  let ?rest = "\<lambda>instr s1. rbind (reg s1 NextPCReg) (\<lambda>npc. rbind (execute eh instr (npc + 4) s1) (\<lambda>ex. case ex of
               Trapped s2 \<Rightarrow> Inr s2
             | Advance pcAfter nextLoadReg nextLoadValue s2 \<Rightarrow>
                 rbind (DelayedLoad nextLoadReg nextLoadValue s2) (advance_pc pcAfter)))"
  have rest: "allows (E \<union> faulting i s) cpu_ok (?rest i s1)"
    if "core_ok s1" "registers s1 = registers s" "instr_ok i" "opCode i \<noteq> OP_SYSCALL" for s1 i
  proof -
    have "faulting i s1 = faulting i s" using that(2) by (simp add: faulting_def)
    with execute_allows [OF that(1,3,4)] have "allows (E \<union> faulting i s) exec_ok (execute eh i p s1)" for p by metis
    then show ?thesis
      by (intro allows_reg that(1) allows_rbind [where Q = exec_ok]) (auto simp: finish_ok split: exec.splits)
  qed
  have "allows ?E cpu_ok (rbind (ReadMem eh (R s PCReg) 4 s) (\<lambda>(r, s1). case r of
      None \<Rightarrow> Inr s1 | Some raw \<Rightarrow> rbind (Decode raw) (\<lambda>instr. ?rest instr s1)))"
    by (rule allows_rbind [OF allows_mono [OF fetch Un_upper1]]) (auto simp: rest call split: option.splits)
  then show ?thesis
    unfolding OneInstruction_def by (simp add: reg_ok [OF ok])
qed

end

subsection \<open>Properties\<close>

text \<open>C38. Every 32-bit word decodes: the table lookups of \<^verbatim>\<open>Decode\<close> are in range, the register numbers are
  the bit fields of the word and name general registers, the operation is one of the cases of the
  interpreter (never \<^verbatim>\<open>SPECIAL\<close>, \<^verbatim>\<open>BCOND\<close> or \<^verbatim>\<open>OP_RFE\<close>, which would abort it), and a shift amount is below 32.\<close>

theorem Decode_total:
  "case Decode v of Inl _ \<Rightarrow> False
   | Inr i \<Rightarrow> instr_ok i \<and> i_value i = v \<and> rs i = uint v div 2 ^ 21 mod 32 \<and> rt i = uint v div 2 ^ 16 mod 32 \<and>
       rd i = uint v div 2 ^ 11 mod 32"
proof -
  obtain i where i: "Decode v = Inr i" "instr_ok i" "i_value i = v" using Decode_ok by blast
  have field: "uint (drop_bit n v AND 0x1f) = uint v div 2 ^ n mod 32" for n
  proof -
    have m: "(0x1f :: int32) = mask 5" by (simp add: mask_eq_exp_minus_1)
    have "uint (drop_bit n v AND 0x1f) = take_bit 5 (drop_bit n (uint v))"
      unfolding m by (rule bit_eqI) (auto simp: bit_simps dest: bit_imp_le_length)
    then show ?thesis by (simp add: take_bit_eq_mod drop_bit_eq_div)
  qed
  have "rs i = uint (drop_bit 21 v AND 0x1f)" "rt i = uint (drop_bit 16 v AND 0x1f)" "rd i = uint (drop_bit 11 v AND 0x1f)"
    using i(1) by (auto simp: Decode_def Let_def rbind_eq_Inr)
  with i show ?thesis unfolding field by simp
qed

text \<open>C9. \<^verbatim>\<open>ReadMem\<close> and \<^verbatim>\<open>WriteMem\<close> implement a byte-addressed virtual memory. On a machine whose pages have
  distinct frames, an access to an address that is misaligned, unmapped, mapped outside main memory
  or (for a write) read-only traps with the fault and the address; any other read returns the
  little-endian value of the bytes of the virtual memory and changes none; any other write replaces
  exactly the addressed bytes of the virtual memory, so that reading them back gives the value
  written, and leaves the registers, the mapping and the well-formedness of the MMU as they were.\<close>

theorem virtual_memory_refinement:
  assumes "mmu_ok s" and "sz \<in> {1, 2, 4}" and "no_alias s"
  shows "(if accessible s va sz False
         then \<exists>s'. ReadMem eh va sz s = Inr (Some (vload s (unat va) (nat sz)), s') \<and> mmu_ok s' \<and>
                vbyte s' = vbyte s \<and> registers s' = registers s
         else \<exists>exn \<in> {AddressErrorException, PageFaultException, ReadOnlyException, BusErrorException}.
                ReadMem eh va sz s = rbind (RaiseException eh exn va s) (\<lambda>s2. Inr (None, s2))) \<and>
         (if accessible s va sz True
         then \<exists>s'. WriteMem eh va sz v s = Inr (True, s') \<and> mmu_ok s' \<and> no_alias s' \<and> registers s' = registers s \<and>
                vbyte s' = (\<lambda>x. if unat va \<le> x \<and> x < unat va + nat sz
                                then Some (le_bytes (nat sz) v ! (x - unat va)) else vbyte s x) \<and>
                vload s' (unat va) (nat sz) = le_value (le_bytes (nat sz) v)
         else \<exists>exn \<in> {AddressErrorException, PageFaultException, ReadOnlyException, BusErrorException}.
                WriteMem eh va sz v s = rbind (RaiseException eh exn va s) (\<lambda>s2. Inr (False, s2)))"
proof (rule conjI)
  show "if accessible s va sz False
         then \<exists>s'. ReadMem eh va sz s = Inr (Some (vload s (unat va) (nat sz)), s') \<and> mmu_ok s' \<and>
                vbyte s' = vbyte s \<and> registers s' = registers s
         else \<exists>exn \<in> {AddressErrorException, PageFaultException, ReadOnlyException, BusErrorException}.
                ReadMem eh va sz s = rbind (RaiseException eh exn va s) (\<lambda>s2. Inr (None, s2))"
    using ReadMem_access [OF assms(1,2), of va eh] memory_fault(1) [OF assms(1,2), of va eh]
    by (cases "accessible s va sz False") (simp_all, blast)
next
  show "if accessible s va sz True
         then \<exists>s'. WriteMem eh va sz v s = Inr (True, s') \<and> mmu_ok s' \<and> no_alias s' \<and> registers s' = registers s \<and>
                vbyte s' = (\<lambda>x. if unat va \<le> x \<and> x < unat va + nat sz
                                then Some (le_bytes (nat sz) v ! (x - unat va)) else vbyte s x) \<and>
                vload s' (unat va) (nat sz) = le_value (le_bytes (nat sz) v)
         else \<exists>exn \<in> {AddressErrorException, PageFaultException, ReadOnlyException, BusErrorException}.
                WriteMem eh va sz v s = rbind (RaiseException eh exn va s) (\<lambda>s2. Inr (False, s2))"
    using WriteMem_access [OF assms(1,2) _ assms(3), of va eh v] memory_fault(2) [OF assms(1,2), of va eh v]
    by (cases "accessible s va sz True") (fastforce dest: vload_bytes, simp)
qed

text \<open>
  A machine that runs a user program: two pages in frames 5 and 3, the second one read-only; at
  address 0 the instructions \<^verbatim>\<open>ADDIU r2,r0,7; SW r2,16(r0); LW r3,16(r0); DIV r3,r2\<close>.
\<close>

definition user_program :: "int32 list" where
  "user_program = [0x24020007, 0xac020010, 0x8c030010, 0x0062001a]"

definition user_machine :: hardware where
  "user_machine =
     \<lparr>registers = (replicate NumTotalRegs 0)[35 := 4],
      mainMemory = (\<lambda>j. if 640 \<le> j \<and> j < 656 then concat (map (le_bytes 4) user_program) ! (j - 640) else 0),
      tables = [7 \<mapsto> [\<lparr>virtualPage = 0, physicalPage = 5, valid = True, readOnly = False, te_use = False, dirty = False\<rparr>,
                     \<lparr>virtualPage = 1, physicalPage = 3, valid = True, readOnly = True, te_use = False, dirty = False\<rparr>]],
      tlb = None, pageTable = Some 7, pageTableSize = 2, singleStep = False, runUntilTime = 0,
      stats = Statistics_new, level = IntOn, pending = [], inHandler = False, yieldOnReturn = False, status = UserMode\<rparr>"

lemma user_machine_ok: "cpu_ok user_machine"
  by (simp add: user_machine_def cpu_ok_def core_ok_def const_defs mmu_ok_def)

lemma user_machine_phys:
  "phys_of user_machine va = (if va < 128 then Some (640 + va) else if va < 256 then Some (256 + va) else None)"
proof -
  consider "va div 128 = 0" "va < 128" | "va div 128 = 1" "128 \<le> va" "va < 256" | "2 \<le> va div 128" "256 \<le> va" by force
  then show ?thesis
    by cases (auto simp: phys_of_def page_entry_def user_machine_def le_mod_geq)
qed

lemma user_machine_no_alias: "no_alias user_machine"
  by (auto simp: no_alias_def user_machine_phys split: if_splits)

theorem virtual_memory_refinement_witness:
  "mmu_ok user_machine \<and> no_alias user_machine \<and>
   (\<exists>s'. WriteMem (\<lambda>_ s. Inl Halted) 16 4 42 user_machine = Inr (True, s') \<and> vload s' 16 4 = 42) \<and>
   (\<exists>exn. WriteMem (\<lambda>_ s. Inl Halted) 132 4 42 user_machine =
      rbind (RaiseException (\<lambda>_ s. Inl Halted) exn 132 user_machine) (\<lambda>s2. Inr (False, s2)))"
proof -
  have ok: "mmu_ok user_machine" "(4 :: int) \<in> {1, 2, 4}" using user_machine_ok by (simp_all add: cpu_ok_def core_ok_def)
  have a: "accessible user_machine 16 4 True" "\<not> accessible user_machine 132 4 True"
    by (simp_all add: accessible_def aligned_def page_entry_def user_machine_def)
  note T = virtual_memory_refinement [OF ok user_machine_no_alias, where eh = "\<lambda>_ s. Inl Halted", THEN conjunct2]
  from T [of 16 42] T [of 132 42] a ok user_machine_no_alias show ?thesis
    by (auto simp: le_value_le_bytes)
qed

end
