(* ===== verification/Bitmap.thy ===== *)
theory Bitmap
  imports Nachos_Prelude
begin

text \<open>
  The class \<^verbatim>\<open>BitMap\<close> (userprog/bitmap.h, userprog/bitmap.cc): an array of bits packed into
  32-bit words, used for the physical pages, the disk sectors, the process table and the
  semaphore table. The state is the record \<open>bitmap\<close>; each method is one definition. The words
  that \<^verbatim>\<open>new unsigned int[numWords]\<close> returns are not initialised, so the constructor takes
  their contents as an argument.

  The locale \<open>slot_map\<close> is the contract the clients rely on (a set of used slots out of a
  fixed range); it is interpreted on the bitmap operations, and the allocation and release
  loops of the clients are proved once against it.
\<close>

unbundle bit_operations_syntax

subsection \<open>The class\<close>

record bitmap =
  numBits :: int
  numWords :: int
  bmap :: "32 word list"

definition BitsInByte :: int where [const_defs]: "BitsInByte = 8"
definition BitsInWord :: int where [const_defs]: "BitsInWord = 32"

text \<open>\<^verbatim>\<open>1 << (which % BitsInWord)\<close>\<close>

definition bit_mask :: "int \<Rightarrow> 32 word" where
  "bit_mask which = push_bit (nat (which smod BitsInWord)) 1"

definition BitMap_Mark :: "int \<Rightarrow> bitmap \<Rightarrow> bitmap res" where
  "BitMap_Mark which bm =
     rbind (ASSERT (which \<ge> 0 \<and> which < numBits bm)) (\<lambda>_.
     rbind (arr_get (bmap bm) (which sdiv BitsInWord)) (\<lambda>w.
     rbind (arr_set (bmap bm) (which sdiv BitsInWord) (w OR bit_mask which)) (\<lambda>m.
     Inr (bm\<lparr>bmap := m\<rparr>))))"

definition BitMap_Clear :: "int \<Rightarrow> bitmap \<Rightarrow> bitmap res" where
  "BitMap_Clear which bm =
     rbind (ASSERT (which \<ge> 0 \<and> which < numBits bm)) (\<lambda>_.
     rbind (arr_get (bmap bm) (which sdiv BitsInWord)) (\<lambda>w.
     rbind (arr_set (bmap bm) (which sdiv BitsInWord) (w AND NOT (bit_mask which))) (\<lambda>m.
     Inr (bm\<lparr>bmap := m\<rparr>))))"

definition BitMap_Test :: "int \<Rightarrow> bitmap \<Rightarrow> bool res" where
  "BitMap_Test which bm =
     rbind (ASSERT (which \<ge> 0 \<and> which < numBits bm)) (\<lambda>_.
     rbind (arr_get (bmap bm) (which sdiv BitsInWord)) (\<lambda>w.
     Inr (w AND bit_mask which \<noteq> 0)))"

text \<open>The constructor: \<open>fresh\<close> holds whatever the allocated words happen to contain.\<close>

definition BitMap_new :: "(nat \<Rightarrow> 32 word) \<Rightarrow> int \<Rightarrow> bitmap res" where
  "BitMap_new fresh nitems =
     (let nw = divRoundUp nitems BitsInWord in
      if nw < 0 then Inl Undefined
      else for_each (\<lambda>i. BitMap_Clear (int i)) [0..<nat nitems]
             \<lparr>numBits = nitems, numWords = nw, bmap = map fresh [0..<nat nw]\<rparr>)"

fun find_loop :: "nat list \<Rightarrow> bitmap \<Rightarrow> (int \<times> bitmap) res" where
  "find_loop [] bm = Inr (- 1, bm)"
| "find_loop (i # is) bm =
     rbind (BitMap_Test (int i) bm) (\<lambda>t.
     if \<not> t then rbind (BitMap_Mark (int i) bm) (\<lambda>bm'. Inr (int i, bm'))
     else find_loop is bm)"

definition BitMap_Find :: "bitmap \<Rightarrow> (int \<times> bitmap) res" where
  "BitMap_Find bm = find_loop [0..<nat (numBits bm)] bm"

definition BitMap_NumClear :: "bitmap \<Rightarrow> int res" where
  "BitMap_NumClear bm =
     for_each (\<lambda>i count. rbind (BitMap_Test (int i) bm) (\<lambda>t.
                 Inr (if \<not> t then count + 1 else count)))
       [0..<nat (numBits bm)] 0"

text \<open>\<^verbatim>\<open>Print\<close>: the numbers written to the terminal, in order.\<close>

definition BitMap_Print :: "bitmap \<Rightarrow> int list res" where
  "BitMap_Print bm =
     for_each (\<lambda>i out. rbind (BitMap_Test (int i) bm) (\<lambda>t.
                 Inr (if t then out @ [int i] else out)))
       [0..<nat (numBits bm)] []"

subsection \<open>Well-formedness and the set of marked bits\<close>

definition bm_wf :: "bitmap \<Rightarrow> bool" where
  "bm_wf bm \<longleftrightarrow> 0 \<le> numBits bm \<and> numWords bm = divRoundUp (numBits bm) BitsInWord \<and>
     int (length (bmap bm)) = numWords bm"

definition bit_at :: "bitmap \<Rightarrow> int \<Rightarrow> bool" where
  "bit_at bm i = bit (bmap bm ! nat (i div 32)) (nat (i mod 32))"

definition marked :: "bitmap \<Rightarrow> int set" where
  "marked bm = {i. 0 \<le> i \<and> i < numBits bm \<and> bit_at bm i}"

subsection \<open>The contract of a slot map\<close>

locale slot_map =
  fixes inv :: "'b \<Rightarrow> bool"
    and cap :: "'b \<Rightarrow> int"
    and used :: "'b \<Rightarrow> int set"
    and clear :: "int \<Rightarrow> 'b \<Rightarrow> 'b res"
    and find :: "'b \<Rightarrow> (int \<times> 'b) res"
    and num_clear :: "'b \<Rightarrow> int res"
  assumes used_range: "inv b \<Longrightarrow> used b \<subseteq> {0..<cap b}"
    and clear_law: "inv b \<Longrightarrow> i \<in> {0..<cap b} \<Longrightarrow>
      \<exists>b'. clear i b = Inr b' \<and> inv b' \<and> cap b' = cap b \<and> used b' = used b - {i}"
    and find_law: "inv b \<Longrightarrow> used b \<noteq> {0..<cap b} \<Longrightarrow>
      \<exists>i b'. find b = Inr (i, b') \<and> inv b' \<and> cap b' = cap b \<and>
        i \<in> {0..<cap b} - used b \<and> {0..<i} \<subseteq> used b \<and> used b' = insert i (used b)"
    and find_full: "inv b \<Longrightarrow> used b = {0..<cap b} \<Longrightarrow> find b = Inr (- 1, b)"
    and num_clear_law: "inv b \<Longrightarrow> num_clear b = Inr (int (card ({0..<cap b} - used b)))"
begin

text \<open>The number of free slots, and that it is positive exactly when a slot is free.\<close>

lemma free_pos_iff: "inv b \<Longrightarrow> 0 < card ({0..<cap b} - used b) \<longleftrightarrow> used b \<noteq> {0..<cap b}"
  using used_range [of b] by (auto simp: card_gt_0_iff)

lemma free_insert:
  assumes "inv b" "i \<in> {0..<cap b} - used b"
  shows "card ({0..<cap b} - insert i (used b)) = card ({0..<cap b} - used b) - 1"
proof -
  have "{0..<cap b} - insert i (used b) = ({0..<cap b} - used b) - {i}" by blast
  with assms(2) show ?thesis by (simp add: card_Diff_singleton)
qed

text \<open>
  The allocation loop of a client: \<open>n\<close> calls of \<open>find\<close>, the results stored one after the
  other. With \<open>n\<close> free slots it returns \<open>n\<close> distinct slots that were free.
\<close>

lemma alloc_loop:
  assumes "inv b" and "n \<le> card ({0..<cap b} - used b)"
  shows "\<exists>xs b'. for_each (\<lambda>_ (xs, b). rbind (find b) (\<lambda>(i, b'). Inr (xs @ [i], b'))) [0..<n] ([], b)
           = Inr (xs, b') \<and> length xs = n \<and> distinct xs \<and> set xs \<subseteq> {0..<cap b} \<and>
             set xs \<inter> used b = {} \<and> inv b' \<and> cap b' = cap b \<and> used b' = used b \<union> set xs"
  using assms(2)
proof (induction n)
  case 0
  with assms(1) show ?case by simp
next
  case (Suc n)
  then obtain xs c where loop: "for_each (\<lambda>_ (xs, b). rbind (find b) (\<lambda>(i, b'). Inr (xs @ [i], b')))
        [0..<n] ([], b) = Inr (xs, c)"
    and len: "length xs = n" and dist: "distinct xs" and rng: "set xs \<subseteq> {0..<cap b}"
    and disj: "set xs \<inter> used b = {}" and c: "inv c" "cap c = cap b" "used c = used b \<union> set xs"
    by (metis (no_types, lifting) Suc_leD)
  have "card ({0..<cap b} - used b - set xs) = card ({0..<cap b} - used b) - n"
    using dist rng disj len by (subst card_Diff_subset) (auto simp: distinct_card)
  moreover have "{0..<cap b} - used b - set xs = {0..<cap c} - used c" using c by auto
  ultimately have "used c \<noteq> {0..<cap c}"
    using Suc.prems c(1) by (simp flip: free_pos_iff)
  then obtain i d where i: "find c = Inr (i, d)" "i \<in> {0..<cap c} - used c"
    and d: "inv d" "cap d = cap c" "used d = insert i (used c)"
    using find_law c(1) by blast
  with loop len dist rng disj c show ?case
    by (intro exI [of _ "xs @ [i]"] exI [of _ d]) (auto simp: for_each_append)
qed

text \<open>The release loop of a client: clearing every slot of a list.\<close>

lemma release_loop:
  assumes "inv b" and "set xs \<subseteq> {0..<cap b}"
  shows "\<exists>b'. for_each clear xs b = Inr b' \<and> inv b' \<and> cap b' = cap b \<and> used b' = used b - set xs"
  using assms
proof (induction xs arbitrary: b)
  case (Cons x xs)
  then obtain c where "clear x b = Inr c" and c: "inv c" "cap c = cap b" "used c = used b - {x}"
    using clear_law [of b x] by auto
  moreover from Cons.IH [of c] Cons.prems(2) c obtain d where "for_each clear xs c = Inr d"
    "inv d" "cap d = cap c" "used d = used c - set xs"
    by auto
  ultimately show ?case by auto
qed simp

end

subsection \<open>Bit-level facts\<close>

lemma sdiv_word [simp]: "0 \<le> i \<Longrightarrow> i sdiv BitsInWord = i div 32"
  by (simp add: const_defs)

lemma bit_mask_iff [simp]: "0 \<le> i \<Longrightarrow> bit (bit_mask i) n \<longleftrightarrow> n = nat (i mod 32)"
  by (auto simp: bit_mask_def const_defs bit_simps)

lemma and_bit_mask_iff: "0 \<le> i \<Longrightarrow> w AND bit_mask i \<noteq> 0 \<longleftrightarrow> bit w (nat (i mod 32))"
  by (auto simp: bit_eq_iff [of "w AND bit_mask i" 0] bit_and_iff dest: bit_imp_le_length)

lemma word_index_bound: "bm_wf bm \<Longrightarrow> 0 \<le> i \<Longrightarrow> i < numBits bm \<Longrightarrow> i div 32 < int (length (bmap bm))"
  using div_less_divRoundUp [of i "numBits bm" 32] by (simp add: bm_wf_def const_defs)

lemma bm_wf_update: "bm_wf bm \<Longrightarrow> bm_wf (bm\<lparr>bmap := (bmap bm)[k := w]\<rparr>)"
  by (simp add: bm_wf_def)

lemma bit_at_update:
  assumes "bm_wf bm" "0 \<le> i" "i < numBits bm" "0 \<le> j"
    and "\<And>n. n \<noteq> nat (i mod 32) \<Longrightarrow> bit w n = bit (bmap bm ! nat (i div 32)) n"
  shows "bit_at (bm\<lparr>bmap := (bmap bm)[nat (i div 32) := w]\<rparr>) j =
         (if j = i then bit w (nat (i mod 32)) else bit_at bm j)"
proof (cases "nat (j div 32) = nat (i div 32)")
  case True
  with assms(2,4) have eq: "j div 32 = i div 32" by (simp add: nat_eq_iff pos_imp_zdiv_nonneg_iff)
  have "j mod 32 = i mod 32 \<longleftrightarrow> j = i"
    using eq by (metis div_mult_mod_eq)
  then have "nat (j mod 32) = nat (i mod 32) \<longleftrightarrow> j = i" by (simp add: nat_eq_iff)
  moreover have "nat (i div 32) < length (bmap bm)"
    using word_index_bound [OF assms(1-3)] assms(2) by linarith
  ultimately show ?thesis using assms(5) True by (auto simp: bit_at_def)
next
  case False
  then show ?thesis by (auto simp: bit_at_def)
qed

subsection \<open>The methods against the set of marked bits\<close>

lemma marked_range: "marked bm \<subseteq> {0..<numBits bm}"
  by (auto simp: marked_def)

lemma finite_marked [simp]: "finite (marked bm)"
  by (rule finite_subset [OF marked_range]) simp

lemma BitMap_Test_ok:
  assumes "bm_wf bm" "0 \<le> i" "i < numBits bm"
  shows "BitMap_Test i bm = Inr (i \<in> marked bm)"
  using assms word_index_bound [OF assms]
  by (simp add: BitMap_Test_def and_bit_mask_iff marked_def bit_at_def pos_imp_zdiv_nonneg_iff)

lemma BitMap_Mark_ok:
  assumes "bm_wf bm" "0 \<le> i" "i < numBits bm"
  shows "\<exists>bm'. BitMap_Mark i bm = Inr bm' \<and> bm_wf bm' \<and> numBits bm' = numBits bm \<and>
           marked bm' = insert i (marked bm)"
proof -
  let ?w = "bmap bm ! nat (i div 32) OR bit_mask i"
  let ?bm = "bm\<lparr>bmap := (bmap bm)[nat (i div 32) := ?w]\<rparr>"
  have "BitMap_Mark i bm = Inr ?bm"
    using assms word_index_bound [OF assms] by (simp add: BitMap_Mark_def pos_imp_zdiv_nonneg_iff)
  moreover have "bit_at ?bm j = (j = i \<or> bit_at bm j)" if "0 \<le> j" for j
    using bit_at_update [OF assms that, of ?w] assms(2) by (auto simp: bit_or_iff)
  then have "marked ?bm = insert i (marked bm)"
    using assms by (auto simp: marked_def)
  ultimately show ?thesis using assms(1) by (simp add: bm_wf_update)
qed

lemma BitMap_Clear_ok:
  assumes "bm_wf bm" "0 \<le> i" "i < numBits bm"
  shows "\<exists>bm'. BitMap_Clear i bm = Inr bm' \<and> bm_wf bm' \<and> numBits bm' = numBits bm \<and>
           marked bm' = marked bm - {i}"
proof -
  let ?w = "bmap bm ! nat (i div 32) AND NOT (bit_mask i)"
  let ?bm = "bm\<lparr>bmap := (bmap bm)[nat (i div 32) := ?w]\<rparr>"
  have "BitMap_Clear i bm = Inr ?bm"
    using assms word_index_bound [OF assms] by (simp add: BitMap_Clear_def pos_imp_zdiv_nonneg_iff)
  moreover have w: "bit ?w n = (n \<noteq> nat (i mod 32) \<and> bit (bmap bm ! nat (i div 32)) n)" for n
    using assms(2) by (auto simp: bit_and_iff bit_not_iff dest: bit_imp_le_length)
  have "bit_at ?bm j = (j \<noteq> i \<and> bit_at bm j)" if "0 \<le> j" for j
    by (subst bit_at_update [OF assms that]) (simp_all add: w)
  then have "marked ?bm = marked bm - {i}"
    using assms by (auto simp: marked_def)
  ultimately show ?thesis using assms(1) by (simp add: bm_wf_update)
qed

lemma BitMap_out_of_range:
  assumes "\<not> (0 \<le> i \<and> i < numBits bm)"
  shows "BitMap_Mark i bm = Inl Aborted" "BitMap_Clear i bm = Inl Aborted"
    "BitMap_Test i bm = Inl Aborted"
  using assms by (simp_all add: BitMap_Mark_def BitMap_Clear_def BitMap_Test_def)

lemma find_loop_spec:
  assumes "bm_wf bm" "k \<le> n" "int n \<le> numBits bm"
  shows "find_loop [k..<n] bm = Inr (- 1, bm) \<and> {int k..<int n} \<subseteq> marked bm \<or>
         (\<exists>i bm'. k \<le> i \<and> i < n \<and> find_loop [k..<n] bm = Inr (int i, bm') \<and> int i \<notin> marked bm \<and>
            {int k..<int i} \<subseteq> marked bm \<and> BitMap_Mark (int i) bm = Inr bm')"
  using assms(2)
proof (induction "n - k" arbitrary: k)
  case 0
  then show ?case by simp
next
  case (Suc d)
  then have k: "k < n" and upt: "[k..<n] = k # [Suc k..<n]"
    by (simp_all add: upt_rec)
  have test: "BitMap_Test (int k) bm = Inr (int k \<in> marked bm)"
    using BitMap_Test_ok [OF assms(1), of "int k"] k assms(3) by simp
  show ?case
  proof (cases "int k \<in> marked bm")
    case False
    obtain bm' where "BitMap_Mark (int k) bm = Inr bm'"
      using BitMap_Mark_ok [OF assms(1), of "int k"] k assms(3) by auto
    with False k test show ?thesis by (auto simp: upt intro!: exI [of _ k])
  next
    case True
    have ext: "{int k..<m} \<subseteq> marked bm" if "{int (Suc k)..<m} \<subseteq> marked bm" for m
    proof
      fix x assume "x \<in> {int k..<m}"
      with True that show "x \<in> marked bm" by (cases "x = int k") (auto simp: subset_iff)
    qed
    have step: "find_loop [k..<n] bm = find_loop [Suc k..<n] bm"
      using True test by (simp add: upt)
    from Suc.hyps(2) have "d = n - Suc k" by simp
    from Suc.hyps(1) [OF this] k consider
        "find_loop [Suc k..<n] bm = Inr (- 1, bm)" "{int (Suc k)..<int n} \<subseteq> marked bm"
      | i bm' where "Suc k \<le> i" "i < n" "find_loop [Suc k..<n] bm = Inr (int i, bm')"
          "int i \<notin> marked bm" "{int (Suc k)..<int i} \<subseteq> marked bm" "BitMap_Mark (int i) bm = Inr bm'"
      by auto
    then show ?thesis
    proof cases
      case 1
      then show ?thesis using step ext by simp
    next
      case (2 i bm')
      then show ?thesis using step ext by (intro disjI2 exI [of _ i] exI [of _ bm']) simp
    qed
  qed
qed

lemma BitMap_Find_full: "bm_wf bm \<Longrightarrow> marked bm = {0..<numBits bm} \<Longrightarrow> BitMap_Find bm = Inr (- 1, bm)"
  using find_loop_spec [of bm 0 "nat (numBits bm)"]
  by (auto simp: BitMap_Find_def bm_wf_def)

lemma BitMap_Find_ok:
  assumes "bm_wf bm" "marked bm \<noteq> {0..<numBits bm}"
  shows "\<exists>i bm'. BitMap_Find bm = Inr (i, bm') \<and> bm_wf bm' \<and> numBits bm' = numBits bm \<and>
           i \<in> {0..<numBits bm} - marked bm \<and> {0..<i} \<subseteq> marked bm \<and> marked bm' = insert i (marked bm)"
proof -
  from assms have n: "0 \<le> numBits bm" by (simp add: bm_wf_def)
  with find_loop_spec [OF assms(1), of 0 "nat (numBits bm)"] assms(2) marked_range [of bm]
  obtain i bm' where i: "i < nat (numBits bm)" "BitMap_Find bm = Inr (int i, bm')" "int i \<notin> marked bm"
    "{0..<int i} \<subseteq> marked bm" "BitMap_Mark (int i) bm = Inr bm'"
    by (auto simp: BitMap_Find_def)
  with BitMap_Mark_ok [OF assms(1), of "int i"] show ?thesis by auto
qed

lemma NumClear_loop:
  assumes "bm_wf bm" "int n \<le> numBits bm"
  shows "for_each (\<lambda>i count. rbind (BitMap_Test (int i) bm) (\<lambda>t.
           Inr (if \<not> t then count + 1 else count))) [0..<n] (0 :: int)
         = Inr (int (card ({0..<int n} - marked bm)))"
  using assms(2)
proof (induction n)
  case (Suc n)
  have sets: "{0..<int (Suc n)} - marked bm =
      (if int n \<in> marked bm then {0..<int n} - marked bm else insert (int n) ({0..<int n} - marked bm))"
    by (auto simp: less_le)
  from Suc BitMap_Test_ok [OF assms(1), of "int n"] show ?case
    by (simp add: for_each_append sets del: of_nat_Suc)
qed simp

lemma BitMap_NumClear_ok:
  "bm_wf bm \<Longrightarrow> BitMap_NumClear bm = Inr (int (card ({0..<numBits bm} - marked bm)))"
  using NumClear_loop [of bm "nat (numBits bm)"] by (simp add: BitMap_NumClear_def bm_wf_def)

interpretation bmslots: slot_map bm_wf numBits marked BitMap_Clear BitMap_Find BitMap_NumClear
proof unfold_locales
  fix b :: bitmap and i
  assume "bm_wf b" "i \<in> {0..<numBits b}"
  then show "\<exists>b'. BitMap_Clear i b = Inr b' \<and> bm_wf b' \<and> numBits b' = numBits b \<and> marked b' = marked b - {i}"
    using BitMap_Clear_ok by simp
qed (use marked_range BitMap_Find_ok BitMap_Find_full BitMap_NumClear_ok in auto)

lemma Clear_loop:
  assumes "bm_wf bm" "int n \<le> numBits bm"
  shows "\<exists>bm'. for_each (\<lambda>i. BitMap_Clear (int i)) [0..<n] bm = Inr bm' \<and> bm_wf bm' \<and>
           numBits bm' = numBits bm \<and> marked bm' = marked bm - {0..<int n}"
proof -
  have "\<exists>s'. for_each (\<lambda>i. BitMap_Clear (int i)) [0..<n] bm = Inr s' \<and> bm_wf s' \<and>
      numBits s' = numBits bm \<and> marked s' = marked bm - {0..<int n}"
  proof (rule for_each_upt_inv [where I = "\<lambda>k s. bm_wf s \<and> numBits s = numBits bm \<and>
        marked s = marked bm - {0..<int k}"])
    fix i u
    assume "i < n" and I: "bm_wf u \<and> numBits u = numBits bm \<and> marked u = marked bm - {0..<int i}"
    with BitMap_Clear_ok [of u "int i"] assms(2)
    show "\<exists>u'. BitMap_Clear (int i) u = Inr u' \<and> bm_wf u' \<and> numBits u' = numBits bm \<and>
        marked u' = marked bm - {0..<int (Suc i)}"
      by force
  qed (use assms in auto)
  then show ?thesis .
qed

lemma Print_loop:
  assumes "bm_wf bm" "int n \<le> numBits bm"
  shows "for_each (\<lambda>i out. rbind (BitMap_Test (int i) bm) (\<lambda>t.
           Inr (if t then out @ [int i] else out))) [0..<n] []
         = Inr (filter (\<lambda>i. i \<in> marked bm) (map int [0..<n]))"
  using assms(2) by (induction n) (simp_all add: for_each_append BitMap_Test_ok [OF assms(1)])

lemma BitMap_Print_ok:
  "bm_wf bm \<Longrightarrow> BitMap_Print bm = Inr (filter (\<lambda>i. i \<in> marked bm) (map int [0..<nat (numBits bm)]))"
  using Print_loop [of bm "nat (numBits bm)"] by (simp add: BitMap_Print_def bm_wf_def)

lemma BitMap_new_ok:
  assumes "0 \<le> n"
  shows "\<exists>bm. BitMap_new fresh n = Inr bm \<and> bm_wf bm \<and> numBits bm = n \<and> marked bm = {}"
proof -
  let ?b = "\<lparr>numBits = n, numWords = divRoundUp n 32, bmap = map fresh [0..<nat (divRoundUp n 32)]\<rparr>"
  have nw: "0 \<le> divRoundUp n 32" using assms by (simp add: divRoundUp_nonneg)
  then have "bm_wf ?b" using assms by (simp add: bm_wf_def const_defs)
  with Clear_loop [of ?b "nat n"] marked_range [of ?b] nw assms show ?thesis
    by (auto simp: BitMap_new_def const_defs Let_def)
qed

subsection \<open>Properties\<close>

text \<open>
  Constructing a bitmap of \<open>n\<close> bits never stops the kernel and yields \<open>n\<close> clear bits,
  whatever the freshly allocated words contained.
\<close>

theorem BitMap_new_all_clear:
  assumes "0 \<le> n"
  shows "\<exists>bm. BitMap_new fresh n = Inr bm \<and> bm_wf bm \<and> numBits bm = n \<and> marked bm = {}"
  by (rule BitMap_new_ok [OF assms])

theorem BitMap_new_all_clear_witness:
  "\<exists>bm. BitMap_new (\<lambda>_. 0xFFFFFFFF) 10 = Inr bm \<and> bm_wf bm \<and> numBits bm = 10 \<and> marked bm = {}"
  using BitMap_new_all_clear [of 10 "\<lambda>_. 0xFFFFFFFF"] by simp

text \<open>
  C34. The packed bits behave as a set of numbers: on a well-formed bitmap \<open>Test\<close> is membership,
  \<open>Mark\<close> inserts and \<open>Clear\<close> removes exactly the given bit and no other (also across the word
  boundary), and a number outside the bitmap fails the assertion in all three.
\<close>

theorem BitMap_ops_refine_set:
  assumes "bm_wf bm"
  shows "if 0 \<le> i \<and> i < numBits bm
         then BitMap_Test i bm = Inr (i \<in> marked bm) \<and>
              (\<exists>bm'. BitMap_Mark i bm = Inr bm' \<and> bm_wf bm' \<and> numBits bm' = numBits bm \<and>
                     marked bm' = insert i (marked bm)) \<and>
              (\<exists>bm'. BitMap_Clear i bm = Inr bm' \<and> bm_wf bm' \<and> numBits bm' = numBits bm \<and>
                     marked bm' = marked bm - {i})
         else BitMap_Test i bm = Inl Aborted \<and> BitMap_Mark i bm = Inl Aborted \<and>
              BitMap_Clear i bm = Inl Aborted"
  using BitMap_Test_ok [OF assms] BitMap_Mark_ok [OF assms] BitMap_Clear_ok [OF assms]
    BitMap_out_of_range [of i bm]
  by simp

theorem BitMap_ops_refine_set_witness:
  "BitMap_Test 33 \<lparr>numBits = 40, numWords = 2, bmap = [0, 2]\<rparr> = Inr True \<and>
   BitMap_Test 40 \<lparr>numBits = 40, numWords = 2, bmap = [0, 2]\<rparr> = Inl Aborted"
proof -
  let ?b = "\<lparr>numBits = 40, numWords = 2, bmap = [0, 2]\<rparr>"
  have wf: "bm_wf ?b" by (simp add: bm_wf_def divRoundUp_def const_defs)
  have "33 \<in> marked ?b" by (simp add: marked_def bit_at_def bit_numeral_rec)
  with BitMap_ops_refine_set [OF wf, of 33] BitMap_ops_refine_set [OF wf, of 40]
  show ?thesis by simp
qed

text \<open>
  C35. \<open>Find\<close> returns the smallest clear bit and marks exactly that bit; when every bit is marked
  it returns -1 and changes nothing. \<open>NumClear\<close> counts the clear bits and \<open>Print\<close> lists the
  marked ones in increasing order.
\<close>

theorem BitMap_Find_first_clear:
  assumes "bm_wf bm"
  shows "BitMap_NumClear bm = Inr (int (card ({0..<numBits bm} - marked bm))) \<and>
         BitMap_Print bm = Inr (filter (\<lambda>i. i \<in> marked bm) (map int [0..<nat (numBits bm)])) \<and>
         (if marked bm = {0..<numBits bm} then BitMap_Find bm = Inr (- 1, bm)
          else \<exists>i bm'. BitMap_Find bm = Inr (i, bm') \<and> bm_wf bm' \<and> numBits bm' = numBits bm \<and>
                 i \<in> {0..<numBits bm} - marked bm \<and> {0..<i} \<subseteq> marked bm \<and>
                 marked bm' = insert i (marked bm))"
  using bmslots.num_clear_law [OF assms] bmslots.find_full [OF assms] bmslots.find_law [OF assms]
    BitMap_Print_ok [OF assms]
  by auto

theorem BitMap_Find_first_clear_witness:
  "\<exists>i bm'. BitMap_Find \<lparr>numBits = 3, numWords = 1, bmap = [1]\<rparr> = Inr (i, bm') \<and>
     i \<in> {0..<3} - marked \<lparr>numBits = 3, numWords = 1, bmap = [1]\<rparr>"
proof -
  let ?b = "\<lparr>numBits = 3, numWords = 1, bmap = [1]\<rparr>"
  have wf: "bm_wf ?b" by (simp add: bm_wf_def divRoundUp_def const_defs)
  have "2 \<notin> marked ?b" by (simp add: marked_def bit_at_def bit_1_iff)
  moreover have "2 \<in> {0..<3 :: int}" by simp
  ultimately have "marked ?b \<noteq> {0..<3}" by blast
  with BitMap_Find_first_clear [OF wf] show ?thesis by auto
qed

end
