(* ===== verification/File_Header.thy ===== *)
theory File_Header
  imports Bitmap Machine_Memory
begin

text \<open>
  File headers: filesys/filehdr.h and filesys/filehdr.cc. A header is the table of the disk sectors
  of a file. It fits one disk sector: \<open>encode_header\<close> and \<open>decode_header\<close> are the casts between the
  object and the 128 bytes of the sector (\<^verbatim>\<open>(char *)this\<close>).

  The synchronous disk is an argument: \<open>rd\<close> is \<^verbatim>\<open>synchDisk->ReadSector\<close>, which returns the data, and
  \<open>wr\<close> is \<^verbatim>\<open>synchDisk->WriteSector\<close>. The locale \<open>sector_store\<close> states what the file system relies on,
  for disks in any state \<open>ok\<close> with contents \<open>sec\<close>.
\<close>

unbundle bit_operations_syntax

subsection \<open>Data\<close>

definition NumDirect :: nat where [const_defs]: "NumDirect = 30"
definition MaxFileSize :: int where [const_defs]: "MaxFileSize = int NumDirect * SectorSize"

record FileHeader =
  fh_numBytes :: int
  fh_numSectors :: int
  dataSectors :: "int list"

type_synonym 's sector_read = "int \<Rightarrow> 's \<Rightarrow> (byte list \<times> 's) res"
type_synonym 's sector_write = "int \<Rightarrow> byte list \<Rightarrow> 's \<Rightarrow> 's res"

text \<open>The words of an object in memory, on the little-endian host.\<close>

definition int_bytes :: "int \<Rightarrow> byte list" where
  "int_bytes n = host_store32 HOST_IS_BIG_ENDIAN (of_int n)"

definition bytes_int :: "byte list \<Rightarrow> int" where
  "bytes_int bs = sint (host_load32 HOST_IS_BIG_ENDIAN bs)"

definition encode_header :: "FileHeader \<Rightarrow> byte list" where
  "encode_header h = concat (map int_bytes (fh_numBytes h # fh_numSectors h # dataSectors h))"

definition decode_header :: "byte list \<Rightarrow> FileHeader" where
  "decode_header bs =
     \<lparr>fh_numBytes = bytes_int (take 4 bs), fh_numSectors = bytes_int (take 4 (drop 4 bs)),
      dataSectors = map (\<lambda>i. bytes_int (take 4 (drop (8 + 4 * i) bs))) [0..<NumDirect]\<rparr>"

subsection \<open>Operations\<close>

definition Allocate :: "bitmap \<Rightarrow> int \<Rightarrow> FileHeader \<Rightarrow> (bool \<times> bitmap \<times> FileHeader) res" where
  "Allocate freeMap fileSize h =
     (let h1 = h\<lparr>fh_numBytes := fileSize, fh_numSectors := divRoundUp fileSize SectorSize\<rparr> in
      rbind (BitMap_NumClear freeMap) (\<lambda>n.
      if n < fh_numSectors h1 then Inr (False, freeMap, h1)
      else
        rbind (for_each (\<lambda>i (ds, fm).
            rbind (BitMap_Find fm) (\<lambda>(k, fm').
            rbind (arr_set ds (int i) k) (\<lambda>ds'. Inr (ds', fm'))))
          [0..<nat (fh_numSectors h1)] (dataSectors h1, freeMap)) (\<lambda>(ds, fm).
        Inr (True, fm, h1\<lparr>dataSectors := ds\<rparr>))))"

definition Deallocate :: "bitmap \<Rightarrow> FileHeader \<Rightarrow> bitmap res" where
  "Deallocate freeMap h =
     for_each (\<lambda>i fm.
         rbind (arr_get (dataSectors h) (int i)) (\<lambda>k.
         rbind (BitMap_Test k fm) (\<lambda>t.
         rbind (ASSERT t) (\<lambda>_. BitMap_Clear k fm))))
       [0..<nat (fh_numSectors h)] freeMap"

definition FileHeader_FetchFrom :: "'s sector_read \<Rightarrow> int \<Rightarrow> 's \<Rightarrow> (FileHeader \<times> 's) res" where
  "FileHeader_FetchFrom rd sector s = rbind (rd sector s) (\<lambda>(bs, s1). Inr (decode_header bs, s1))"

definition FileHeader_WriteBack :: "'s sector_write \<Rightarrow> int \<Rightarrow> FileHeader \<Rightarrow> 's \<Rightarrow> 's res" where
  "FileHeader_WriteBack wr sector h s = wr sector (encode_header h) s"

definition ByteToSector :: "int \<Rightarrow> FileHeader \<Rightarrow> int res" where
  "ByteToSector offset h = arr_get (dataSectors h) (offset sdiv SectorSize)"

definition FileLength :: "FileHeader \<Rightarrow> int" where
  "FileLength h = fh_numBytes h"

text \<open>
  \<^verbatim>\<open>FileHeader::Print\<close>: the file size, the sector numbers and, for every sector, the bytes that are
  printed, the last sector only up to the end of the file.
\<close>

definition FileHeader_Print ::
    "'s sector_read \<Rightarrow> FileHeader \<Rightarrow> 's \<Rightarrow> ((int \<times> int list \<times> byte list list) \<times> 's) res" where
  "FileHeader_Print rd h s =
     rbind (for_each (\<lambda>i out. rbind (arr_get (dataSectors h) (int i)) (\<lambda>k. Inr (out @ [k])))
       [0..<nat (fh_numSectors h)] []) (\<lambda>blocks.
     rbind (for_each (\<lambda>i (k, out, s1).
         rbind (arr_get (dataSectors h) (int i)) (\<lambda>sector.
         rbind (rd sector s1) (\<lambda>(data, s2).
         let line = take (nat (min SectorSize (fh_numBytes h - k))) data in
         Inr (k + int (length line), out @ [line], s2))))
       [0..<nat (fh_numSectors h)] (0, [], s)) (\<lambda>(k, out, s1).
     Inr ((fh_numBytes h, blocks, out), s1)))"

subsection \<open>Encoding\<close>

lemma length_int_bytes [simp]: "length (int_bytes n) = 4"
  by (simp add: int_bytes_def host_store32_def Let_def)

lemma bytes_int_bytes: "- (2 ^ 31) \<le> n \<Longrightarrow> n < 2 ^ 31 \<Longrightarrow> bytes_int (int_bytes n) = n"
  by (simp add: bytes_int_def int_bytes_def host_store_load32 signed_of_int signed_take_bit_int_eq_self)

lemma length_concat_blocks: "(\<And>x. x \<in> set xs \<Longrightarrow> length (f x) = k) \<Longrightarrow> length (concat (map f xs)) = k * length xs"
  by (induction xs) simp_all

lemma drop_concat_blocks:
  "(\<And>x. x \<in> set xs \<Longrightarrow> length (f x) = k) \<Longrightarrow> drop (k * n) (concat (map f xs)) = concat (map f (drop n xs))"
proof (induction xs arbitrary: n)
  case (Cons x xs)
  then show ?case by (cases n) simp_all
qed simp

lemma take_concat_blocks:
  "(\<And>x. x \<in> set xs \<Longrightarrow> length (f x) = k) \<Longrightarrow> take (k * n) (concat (map f xs)) = concat (map f (take n xs))"
proof (induction xs arbitrary: n)
  case (Cons x xs)
  then show ?case by (cases n) simp_all
qed simp

lemma block_concat:
  assumes "\<And>x. x \<in> set xs \<Longrightarrow> length (f x) = k" and "n < length xs"
  shows "take k (drop (k * n) (concat (map f xs))) = f (xs ! n)"
  using drop_concat_blocks [of xs f k n, OF assms(1)] assms
  by (simp flip: Cons_nth_drop_Suc)

text \<open>A header all of whose words are 32-bit integers.\<close>

definition header_words :: "FileHeader \<Rightarrow> bool" where
  "header_words h \<longleftrightarrow> length (dataSectors h) = NumDirect \<and> word_range (fh_numBytes h) \<and> word_range (fh_numSectors h) \<and>
     list_all word_range (dataSectors h)"

lemma length_encode_header: "length (dataSectors h) = NumDirect \<Longrightarrow> length (encode_header h) = 128"
  unfolding encode_header_def by (subst length_concat_blocks [where k = 4]) (simp_all add: const_defs)

lemma decode_encode_header:
  assumes "header_words h"
  shows "decode_header (encode_header h) = h"
proof -
  let ?ws = "fh_numBytes h # fh_numSectors h # dataSectors h"
  have len: "length ?ws = 32" using assms by (simp add: header_words_def const_defs)
  have word: "bytes_int (take 4 (drop (4 * n) (encode_header h))) = ?ws ! n" if "n < 32" for n
  proof -
    have "take 4 (drop (4 * n) (encode_header h)) = int_bytes (?ws ! n)"
      unfolding encode_header_def by (rule block_concat) (use that len in simp_all)
    moreover have "word_range (?ws ! n)"
      using assms that len by (auto simp: header_words_def nth_Cons list_all_length const_defs split: nat.split)
    ultimately show ?thesis by (simp add: bytes_int_bytes word_range_def)
  qed
  have ds: "map (\<lambda>i. bytes_int (take 4 (drop (8 + 4 * i) (encode_header h)))) [0..<NumDirect] = dataSectors h"
  proof (rule nth_equalityI)
    show "length (map (\<lambda>i. bytes_int (take 4 (drop (8 + 4 * i) (encode_header h)))) [0..<NumDirect]) = length (dataSectors h)"
      using assms by (simp add: header_words_def)
    fix i assume "i < length (map (\<lambda>i. bytes_int (take 4 (drop (8 + 4 * i) (encode_header h)))) [0..<NumDirect])"
    then have i: "i < NumDirect" by simp
    then have "bytes_int (take 4 (drop (4 * (i + 2)) (encode_header h))) = ?ws ! (i + 2)"
      by (intro word) (simp add: const_defs)
    moreover have "4 * (i + 2) = 8 + 4 * i" by simp
    ultimately show "map (\<lambda>i. bytes_int (take 4 (drop (8 + 4 * i) (encode_header h)))) [0..<NumDirect] ! i = dataSectors h ! i"
      using i by simp
  qed
  have "bytes_int (take 4 (encode_header h)) = fh_numBytes h" "bytes_int (take 4 (drop 4 (encode_header h))) = fh_numSectors h"
    using word [of 0] word [of 1] by simp_all
  then show ?thesis unfolding decode_header_def ds by simp
qed

subsection \<open>Allocation\<close>

text \<open>The loop that fills the sector table is the allocation loop of the free map.\<close>

lemma Allocate_loop:
  assumes "n \<le> length ds"
    and "for_each (\<lambda>_ (xs, b). rbind (BitMap_Find b) (\<lambda>(i, b'). Inr (xs @ [i], b'))) [0..<n] ([], fm) = Inr (xs, fm')"
  shows "for_each (\<lambda>i (ds, fm). rbind (BitMap_Find fm) (\<lambda>(k, fm'). rbind (arr_set ds (int i) k) (\<lambda>ds'. Inr (ds', fm'))))
      [0..<n] (ds, fm) = Inr (xs @ drop n ds, fm') \<and> length xs = n"
  using assms
proof (induction n arbitrary: xs fm')
  case (Suc n)
  then obtain ys g where g: "for_each (\<lambda>_ (xs, b). rbind (BitMap_Find b) (\<lambda>(i, b'). Inr (xs @ [i], b'))) [0..<n] ([], fm) = Inr (ys, g)"
    and last: "rbind (BitMap_Find g) (\<lambda>(i, b'). Inr (ys @ [i], b')) = Inr (xs, fm')"
    by (auto simp: for_each_append rbind_eq_Inr)
  then obtain k where k: "BitMap_Find g = Inr (k, fm')" "xs = ys @ [k]" by (auto simp: rbind_eq_Inr)
  from Suc.IH [OF _ g] Suc.prems(1) have IH: "for_each (\<lambda>i (ds, fm). rbind (BitMap_Find fm) (\<lambda>(k, fm'). rbind (arr_set ds (int i) k) (\<lambda>ds'. Inr (ds', fm'))))
      [0..<n] (ds, fm) = Inr (ys @ drop n ds, g)" "length ys = n" by auto
  have "(ys @ drop n ds)[n := k] = ys @ [k] @ drop (Suc n) ds"
    using Suc.prems(1) IH(2) by (simp add: list_update_append flip: Cons_nth_drop_Suc)
  with IH k Suc.prems(1) show ?case by (simp add: for_each_append)
qed simp

lemma Deallocate_eq:
  assumes "bm_wf fm" and "nat (fh_numSectors h) \<le> length (dataSectors h)"
    and "distinct (take (nat (fh_numSectors h)) (dataSectors h))"
    and "set (take (nat (fh_numSectors h)) (dataSectors h)) \<subseteq> marked fm"
  shows "\<exists>fm'. Deallocate fm h = Inr fm' \<and> bm_wf fm' \<and> numBits fm' = numBits fm \<and>
    marked fm' = marked fm - set (take (nat (fh_numSectors h)) (dataSectors h))"
proof -
  define n where "n = nat (fh_numSectors h)"
  let ?ds = "dataSectors h"
  let ?f = "\<lambda>i fm. rbind (arr_get ?ds (int i)) (\<lambda>k. rbind (BitMap_Test k fm) (\<lambda>t. rbind (ASSERT t) (\<lambda>_. BitMap_Clear k fm)))"
  let ?I = "\<lambda>i u. bm_wf u \<and> numBits u = numBits fm \<and> marked u = marked fm - set (take i ?ds)"
  have "\<exists>fm'. for_each ?f [0..<n] fm = Inr fm' \<and> ?I n fm'"
  proof (rule for_each_upt_inv)
    fix i u assume i: "i < n" and I: "?I i u"
    have il: "i < length ?ds" using i assms(2) by (simp add: n_def)
    have "?ds ! i \<in> set (take n ?ds)" using i il by (metis in_set_conv_nth length_take min_less_iff_conj nth_take)
    then have "?ds ! i \<in> marked fm" using assms(4) by (auto simp: n_def)
    moreover have new: "?ds ! i \<notin> set (take i ?ds)"
    proof -
      have "distinct (take (Suc i) ?ds)" using assms(3) i by (metis distinct_take min.absorb1 n_def Suc_leI take_take)
      then show ?thesis using il by (simp add: take_Suc_conv_app_nth)
    qed
    ultimately have m: "?ds ! i \<in> marked u" using I by auto
    then have r: "0 \<le> ?ds ! i" "?ds ! i < numBits u" using marked_range [of u] by auto
    obtain u' where "BitMap_Clear (?ds ! i) u = Inr u'" "bm_wf u'" "numBits u' = numBits u" "marked u' = marked u - {?ds ! i}"
      using bmslots.clear_law [of u "?ds ! i"] I r by auto
    moreover have "BitMap_Test (?ds ! i) u = Inr True"
      using BitMap_Test_ok [of u "?ds ! i"] I r m by simp
    ultimately show "\<exists>u'. ?f i u = Inr u' \<and> ?I (Suc i) u'"
      using I il by (auto simp: take_Suc_conv_app_nth)
  qed (use assms(1) in simp)
  then show ?thesis by (simp add: Deallocate_def n_def)
qed

lemma Allocate_no_space:
  assumes "bm_wf fm" and "int (card ({0..<numBits fm} - marked fm)) < divRoundUp fileSize SectorSize"
  shows "Allocate fm fileSize h =
    Inr (False, fm, h\<lparr>fh_numBytes := fileSize, fh_numSectors := divRoundUp fileSize SectorSize\<rparr>)"
  using assms bmslots.num_clear_law [OF assms(1)] by (simp add: Allocate_def Let_def)

lemma Allocate_ok:
  assumes "bm_wf fm" and "length (dataSectors h) = NumDirect" and "0 \<le> fileSize" "fileSize \<le> MaxFileSize"
    and free: "divRoundUp fileSize SectorSize \<le> int (card ({0..<numBits fm} - marked fm))"
  shows "\<exists>xs fm'. Allocate fm fileSize h =
      Inr (True, fm', h\<lparr>fh_numBytes := fileSize, fh_numSectors := divRoundUp fileSize SectorSize,
        dataSectors := xs @ drop (length xs) (dataSectors h)\<rparr>) \<and>
    int (length xs) = divRoundUp fileSize SectorSize \<and> length xs \<le> NumDirect \<and> distinct xs \<and>
    set xs \<subseteq> {0..<numBits fm} - marked fm \<and> bm_wf fm' \<and> numBits fm' = numBits fm \<and> marked fm' = marked fm \<union> set xs"
proof -
  define n where "n = nat (divRoundUp fileSize SectorSize)"
  have pos: "0 \<le> divRoundUp fileSize SectorSize" using assms(3) by (intro divRoundUp_nonneg) (simp_all add: const_defs)
  have "divRoundUp fileSize SectorSize * SectorSize < fileSize + SectorSize"
    using assms(3) by (intro divRoundUp_lower) (simp_all add: const_defs)
  then have n30: "n \<le> NumDirect" using assms(4) by (simp add: n_def const_defs)
  have "n \<le> card ({0..<numBits fm} - marked fm)" using free by (simp add: n_def)
  from bmslots.alloc_loop [OF assms(1) this] obtain xs fm' where
    loop: "for_each (\<lambda>_ (xs, b). rbind (BitMap_Find b) (\<lambda>(i, b'). Inr (xs @ [i], b'))) [0..<n] ([], fm) = Inr (xs, fm')"
    and xs: "length xs = n" "distinct xs" "set xs \<subseteq> {0..<numBits fm}" "set xs \<inter> marked fm = {}"
      "bm_wf fm'" "numBits fm' = numBits fm" "marked fm' = marked fm \<union> set xs"
    by auto
  from Allocate_loop [of n "dataSectors h", OF _ loop] assms(2) n30 xs(1)
  have A: "Allocate fm fileSize h =
      Inr (True, fm', h\<lparr>fh_numBytes := fileSize, fh_numSectors := divRoundUp fileSize SectorSize,
        dataSectors := xs @ drop (length xs) (dataSectors h)\<rparr>)"
    using free bmslots.num_clear_law [OF assms(1)] by (simp add: Allocate_def Let_def n_def)
  show ?thesis by (intro exI conjI, rule A) (use xs n30 pos in \<open>auto simp: n_def\<close>)
qed

lemma Allocate_out_of_table:
  assumes "bm_wf fm" and "length (dataSectors h) = NumDirect" and "MaxFileSize < fileSize"
    and free: "divRoundUp fileSize SectorSize \<le> int (card ({0..<numBits fm} - marked fm))"
  shows "Allocate fm fileSize h = Inl Undefined"
proof -
  have "0 \<le> fileSize" using assms(3) by (simp add: const_defs)
  then have "fileSize \<le> divRoundUp fileSize SectorSize * SectorSize" by (intro divRoundUp_upper) (simp_all add: const_defs)
  with assms(3) have n: "Suc NumDirect \<le> nat (divRoundUp fileSize SectorSize)" by (simp add: const_defs)
  then obtain m where m: "nat (divRoundUp fileSize SectorSize) = NumDirect + Suc m"
    by (metis add_Suc_shift le_Suc_ex)
  let ?f = "\<lambda>i (ds, fm). rbind (BitMap_Find fm) (\<lambda>(k, fm'). rbind (arr_set ds (int i) k) (\<lambda>ds'. Inr (ds', fm')))"
  have c: "Suc NumDirect \<le> card ({0..<numBits fm} - marked fm)" using n free by linarith
  then have "NumDirect \<le> card ({0..<numBits fm} - marked fm)" by simp
  from bmslots.alloc_loop [OF assms(1) this] obtain xs g where
    loop: "for_each (\<lambda>_ (xs, b). rbind (BitMap_Find b) (\<lambda>(i, b'). Inr (xs @ [i], b'))) [0..<NumDirect] ([], fm) = Inr (xs, g)"
    and g: "length xs = NumDirect" "set xs \<subseteq> {0..<numBits fm}" "bm_wf g" "numBits g = numBits fm" "marked g = marked fm \<union> set xs"
    by auto
  have "card ({0..<numBits fm} - marked fm - set xs) \<ge> card ({0..<numBits fm} - marked fm) - card (set xs)"
    by (rule diff_card_le_card_Diff) simp
  moreover have "card (set xs) \<le> NumDirect" using card_length [of xs] g(1) by simp
  moreover have "{0..<numBits g} - marked g = {0..<numBits fm} - marked fm - set xs" using g by auto
  then have "card ({0..<numBits g} - marked g) = card ({0..<numBits fm} - marked fm - set xs)" by (rule arg_cong)
  ultimately have "0 < card ({0..<numBits g} - marked g)" using c by linarith
  then obtain k g' where "BitMap_Find g = Inr (k, g')"
    using bmslots.free_pos_iff [OF g(3)] bmslots.find_law [OF g(3)] by blast
  moreover from Allocate_loop [of NumDirect "dataSectors h", OF _ loop] assms(2) g(1)
  have "for_each ?f [0..<NumDirect] (dataSectors h, fm) = Inr (xs, g)" by simp
  moreover have "[0..<NumDirect + Suc m] = [0..<NumDirect] @ NumDirect # [Suc NumDirect..<NumDirect + Suc m]"
    using upt_add_eq_append [of 0 NumDirect "Suc m"] upt_conv_Cons [of NumDirect "NumDirect + Suc m"]
    by (simp del: upt_Suc)
  ultimately have "for_each ?f [0..<NumDirect + Suc m] (dataSectors h, fm) = Inl Undefined"
    using g(1) by (simp add: for_each_append arr_set_def)
  then show ?thesis
    using free bmslots.num_clear_law [OF assms(1)] by (simp add: Allocate_def Let_def m)
qed

subsection \<open>Properties\<close>

text \<open>C39. Allocating the data sectors of a new file of at most \<^verbatim>\<open>MaxFileSize\<close> bytes: with too few free
  sectors it fails and leaves the free map as it was; otherwise it takes exactly as many sectors as
  the size needs, all distinct and free before, marks exactly those, and deallocating the header
  gives the free map its old contents back.\<close>

theorem Allocate_Deallocate:
  assumes "bm_wf fm" and "length (dataSectors h) = NumDirect" and "0 \<le> fileSize" "fileSize \<le> MaxFileSize"
  shows "if int (card ({0..<numBits fm} - marked fm)) < divRoundUp fileSize SectorSize
    then \<exists>h'. Allocate fm fileSize h = Inr (False, fm, h')
    else \<exists>fm' h' fm''. Allocate fm fileSize h = Inr (True, fm', h') \<and> fh_numBytes h' = fileSize \<and>
      fh_numSectors h' = divRoundUp fileSize SectorSize \<and> length (dataSectors h') = NumDirect \<and>
      (let xs = take (nat (fh_numSectors h')) (dataSectors h') in
       int (length xs) = fh_numSectors h' \<and> distinct xs \<and> set xs \<subseteq> {0..<numBits fm} - marked fm \<and>
       marked fm' = marked fm \<union> set xs) \<and>
      Deallocate fm' h' = Inr fm'' \<and> bm_wf fm'' \<and> numBits fm'' = numBits fm \<and> marked fm'' = marked fm"
proof (cases "int (card ({0..<numBits fm} - marked fm)) < divRoundUp fileSize SectorSize")
  case True
  then show ?thesis using Allocate_no_space [OF assms(1)] by simp
next
  case False
  then have free: "divRoundUp fileSize SectorSize \<le> int (card ({0..<numBits fm} - marked fm))" by simp
  from Allocate_ok [OF assms free] obtain xs fm' where
    A: "Allocate fm fileSize h = Inr (True, fm', h\<lparr>fh_numBytes := fileSize, fh_numSectors := divRoundUp fileSize SectorSize,
        dataSectors := xs @ drop (length xs) (dataSectors h)\<rparr>)" (is "_ = Inr (True, fm', ?h)")
    and xs: "int (length xs) = divRoundUp fileSize SectorSize" "length xs \<le> NumDirect" "distinct xs"
      "set xs \<subseteq> {0..<numBits fm} - marked fm" "bm_wf fm'" "numBits fm' = numBits fm" "marked fm' = marked fm \<union> set xs"
    by blast
  have n: "nat (fh_numSectors ?h) = length xs" by (simp flip: xs(1))
  have t: "take (nat (fh_numSectors ?h)) (dataSectors ?h) = xs" unfolding n by simp
  have "\<exists>fm''. Deallocate fm' ?h = Inr fm'' \<and> bm_wf fm'' \<and> numBits fm'' = numBits fm' \<and> marked fm'' = marked fm' - set xs"
    using Deallocate_eq [OF xs(5), of ?h] unfolding t using xs n by (simp del: nat_eq_iff)
  then obtain fm'' where D: "Deallocate fm' ?h = Inr fm''" "bm_wf fm''" "numBits fm'' = numBits fm" "marked fm'' = marked fm"
    using xs by auto
  have "length (dataSectors ?h) = NumDirect" using assms(2) xs(2) by simp
  then show ?thesis
    using False A D xs t by (auto simp: Let_def intro!: exI [of _ fm'] exI [of _ fm''])
qed

theorem Allocate_Deallocate_witness:
  "\<exists>fm' h'. Allocate \<lparr>numBits = 8, numWords = 1, bmap = [5]\<rparr> 300 \<lparr>fh_numBytes = 0, fh_numSectors = 0, dataSectors = replicate 30 0\<rparr>
     = Inr (True, fm', h') \<and> fh_numSectors h' = 3"
proof -
  let ?fm = "\<lparr>numBits = 8, numWords = 1, bmap = [5]\<rparr>"
  let ?h = "\<lparr>fh_numBytes = 0, fh_numSectors = 0, dataSectors = replicate 30 0\<rparr>"
  have wf: "bm_wf ?fm" by (simp add: bm_wf_def divRoundUp_def const_defs)
  have "length (dataSectors ?h) = NumDirect" "(0 :: int) \<le> 300" "300 \<le> MaxFileSize" by (simp_all add: const_defs)
  note T = Allocate_Deallocate [OF wf this]
  have "BitMap_NumClear ?fm = Inr 6" by code_simp
  then have "int (card ({0..<numBits ?fm} - marked ?fm)) = 6"
    using bmslots.num_clear_law [OF wf] by simp
  moreover have "divRoundUp 300 SectorSize = 3" by (simp add: divRoundUp_def const_defs)
  ultimately show ?thesis using T by auto
qed

text \<open>\<^verbatim>\<open>FileHeader::Allocate\<close> does not check \<^verbatim>\<open>NumDirect\<close>: when a file of more than \<^verbatim>\<open>MaxFileSize\<close> bytes is
  asked for and the disk has enough free sectors, the loop writes behind the end of \<^verbatim>\<open>dataSectors\<close>.\<close>

theorem Allocate_overruns_table:
  assumes "bm_wf fm" and "length (dataSectors h) = NumDirect" and "MaxFileSize < fileSize"
    and "divRoundUp fileSize SectorSize \<le> int (card ({0..<numBits fm} - marked fm))"
  shows "Allocate fm fileSize h = Inl Undefined"
  using assms by (rule Allocate_out_of_table)

theorem Allocate_overruns_table_witness:
  "Allocate \<lparr>numBits = 64, numWords = 2, bmap = [0, 0]\<rparr> 4000 \<lparr>fh_numBytes = 0, fh_numSectors = 0, dataSectors = replicate 30 0\<rparr>
     = Inl Undefined"
proof -
  let ?fm = "\<lparr>numBits = 64, numWords = 2, bmap = [0, 0]\<rparr>"
  have wf: "bm_wf ?fm" by (simp add: bm_wf_def divRoundUp_def const_defs)
  have "BitMap_NumClear ?fm = Inr 64" by code_simp
  then have "int (card ({0..<numBits ?fm} - marked ?fm)) = 64"
    using bmslots.num_clear_law [OF wf] by simp
  then show ?thesis by (intro Allocate_overruns_table [OF wf]) (simp_all add: const_defs divRoundUp_def)
qed

end
