(* ===== verification/Open_File.thy ===== *)
theory Open_File
  imports File_Header
begin

text \<open>
  Open files of the Nachos file system: filesys/openfile.h (the branch without \<^verbatim>\<open>FILESYS_STUB\<close>) and
  filesys/openfile.cc. Requests that do not start or end at a sector boundary are made of
  whole-sector reads and writes; the properties show that the result is a byte array of fixed size.

  Buffers of the caller are byte lists: \<open>ReadAt\<close> returns the bytes it copies to \<^verbatim>\<open>into\<close>. \<open>junk\<close> is what
  the freshly allocated sector buffer of \<^verbatim>\<open>WriteAt\<close> contains. The end \<^verbatim>\<open>position + numBytes\<close> of the
  request is computed before it is clipped, from a length the caller chooses: it goes through \<open>cint\<close>,
  and a request whose end is no \<^verbatim>\<open>int\<close> is undefined. The sums after the clipping are at most the length of
  the file.
\<close>

subsection \<open>Operations\<close>

record OpenFile =
  of_hdr :: FileHeader
  seekPosition :: int
  of_type :: int

definition OpenFile_new :: "'s sector_read \<Rightarrow> int \<Rightarrow> int \<Rightarrow> 's \<Rightarrow> (OpenFile \<times> 's) res" where
  "OpenFile_new rd sector type s =
     rbind (FileHeader_FetchFrom rd sector s) (\<lambda>(h, s1).
     Inr (\<lparr>of_hdr = h, seekPosition = 0, of_type = type\<rparr>, s1))"

definition Seek :: "int \<Rightarrow> OpenFile \<Rightarrow> OpenFile" where
  "Seek position f = f\<lparr>seekPosition := position\<rparr>"

text \<open>\<^verbatim>\<open>bcopy(&buf[off], into, n)\<close> and \<^verbatim>\<open>bcopy(from, &buf[off], n)\<close>; outside the buffer they are undefined.\<close>

definition copy_out :: "byte list \<Rightarrow> int \<Rightarrow> int \<Rightarrow> byte list res" where
  "copy_out buf off n =
     (if 0 \<le> off \<and> 0 \<le> n \<and> off + n \<le> int (length buf) then Inr (take (nat n) (drop (nat off) buf)) else Inl Undefined)"

definition copy_in :: "byte list \<Rightarrow> int \<Rightarrow> byte list \<Rightarrow> byte list res" where
  "copy_in buf off bs =
     (if 0 \<le> off \<and> off + int (length bs) \<le> int (length buf)
      then Inr (take (nat off) buf @ bs @ drop (nat off + length bs) buf) else Inl Undefined)"

text \<open>The loops over the sectors \<^verbatim>\<open>firstSector .. lastSector\<close> of a request.\<close>

definition read_sectors ::
    "'s sector_read \<Rightarrow> FileHeader \<Rightarrow> int \<Rightarrow> int \<Rightarrow> 's \<Rightarrow> (byte list \<times> 's) res" where
  "read_sectors rd h firstSector lastSector s =
     for_each (\<lambda>i (buf, s1).
         rbind (ByteToSector (i * SectorSize) h) (\<lambda>sector.
         rbind (rd sector s1) (\<lambda>(data, s2). Inr (buf @ data, s2))))
       [firstSector..lastSector] ([], s)"

definition write_sectors ::
    "'s sector_write \<Rightarrow> FileHeader \<Rightarrow> int \<Rightarrow> int \<Rightarrow> byte list \<Rightarrow> 's \<Rightarrow> 's res" where
  "write_sectors wr h firstSector lastSector buf s =
     for_each (\<lambda>i s1.
         rbind (ByteToSector (i * SectorSize) h) (\<lambda>sector.
         rbind (copy_out buf ((i - firstSector) * SectorSize) SectorSize) (\<lambda>data. wr sector data s1)))
       [firstSector..lastSector] s"

definition ReadAt :: "'s sector_read \<Rightarrow> int \<Rightarrow> int \<Rightarrow> OpenFile \<Rightarrow> 's \<Rightarrow> ((int \<times> byte list) \<times> 's) res" where
  "ReadAt rd numBytes position f s =
     (let fileLength = FileLength (of_hdr f) in
      if numBytes \<le> 0 \<or> position \<ge> fileLength then Inr ((0, []), s)
      else
        rbind (cint (position + numBytes)) (\<lambda>last.
        let n = (if last > fileLength then fileLength - position else numBytes);
            firstSector = divRoundDown position SectorSize;
            lastSector = divRoundDown (position + n - 1) SectorSize in
        rbind (read_sectors rd (of_hdr f) firstSector lastSector s) (\<lambda>(buf, s1).
        rbind (copy_out buf (position - firstSector * SectorSize) n) (\<lambda>data.
        Inr ((n, data), s1)))))"

definition WriteAt ::
    "'s sector_read \<Rightarrow> 's sector_write \<Rightarrow> (nat \<Rightarrow> byte) \<Rightarrow> byte list \<Rightarrow> int \<Rightarrow> int \<Rightarrow> OpenFile \<Rightarrow> 's \<Rightarrow> (int \<times> 's) res" where
  "WriteAt rd wr junk data numBytes position f s =
     (let fileLength = FileLength (of_hdr f) in
      if numBytes \<le> 0 \<or> position \<ge> fileLength then Inr (0, s)
      else
        rbind (cint (position + numBytes)) (\<lambda>last.
        let n = (if last > fileLength then fileLength - position else numBytes);
            firstSector = divRoundDown position SectorSize;
            lastSector = divRoundDown (position + n - 1) SectorSize;
            numSectors = 1 + lastSector - firstSector;
            buf = map junk [0..<nat (numSectors * SectorSize)];
            firstAligned = (position = firstSector * SectorSize);
            lastAligned = (position + n = (lastSector + 1) * SectorSize) in
        rbind (if \<not> firstAligned
               then rbind (ReadAt rd SectorSize (firstSector * SectorSize) f s) (\<lambda>((_, bs), s1).
                    rbind (copy_in buf 0 bs) (\<lambda>buf1. Inr (buf1, s1)))
               else Inr (buf, s)) (\<lambda>(buf1, s1).
        rbind (if \<not> lastAligned \<and> (firstSector \<noteq> lastSector \<or> firstAligned)
               then rbind (ReadAt rd SectorSize (lastSector * SectorSize) f s1) (\<lambda>((_, bs), s2).
                    rbind (copy_in buf1 ((lastSector - firstSector) * SectorSize) bs) (\<lambda>buf2. Inr (buf2, s2)))
               else Inr (buf1, s1)) (\<lambda>(buf2, s2).
        rbind (copy_out data 0 n) (\<lambda>bs.
        rbind (copy_in buf2 (position - firstSector * SectorSize) bs) (\<lambda>buf3.
        rbind (write_sectors wr (of_hdr f) firstSector lastSector buf3 s2) (\<lambda>s3.
        Inr (n, s3))))))))"

definition OpenFile_Read :: "'s sector_read \<Rightarrow> int \<Rightarrow> OpenFile \<Rightarrow> 's \<Rightarrow> ((int \<times> byte list) \<times> OpenFile \<times> 's) res" where
  "OpenFile_Read rd numBytes f s =
     rbind (ReadAt rd numBytes (seekPosition f) f s) (\<lambda>((result, bs), s1).
     Inr ((result, bs), f\<lparr>seekPosition := seekPosition f + result\<rparr>, s1))"

definition OpenFile_Write ::
    "'s sector_read \<Rightarrow> 's sector_write \<Rightarrow> (nat \<Rightarrow> byte) \<Rightarrow> byte list \<Rightarrow> int \<Rightarrow> OpenFile \<Rightarrow> 's \<Rightarrow> (int \<times> OpenFile \<times> 's) res" where
  "OpenFile_Write rd wr junk data numBytes f s =
     rbind (WriteAt rd wr junk data numBytes (seekPosition f) f s) (\<lambda>(result, s1).
     Inr (result, f\<lparr>seekPosition := seekPosition f + result\<rparr>, s1))"

definition OpenFile_Length :: "OpenFile \<Rightarrow> int" where
  "OpenFile_Length f = FileLength (of_hdr f)"

definition GetCurrentPos :: "OpenFile \<Rightarrow> int" where
  "GetCurrentPos f = seekPosition f"

subsection \<open>The contract of the disk\<close>

locale sector_store =
  fixes rd :: "'s sector_read" and wr :: "'s sector_write"
    and ok :: "'s \<Rightarrow> bool" and sec :: "'s \<Rightarrow> int \<Rightarrow> byte list" and limit :: int
  assumes rd_law: "ok s \<Longrightarrow> 0 \<le> n \<Longrightarrow> n < limit \<Longrightarrow> \<exists>s'. rd n s = Inr (sec s n, s') \<and> ok s' \<and> sec s' = sec s"
    and wr_law: "ok s \<Longrightarrow> 0 \<le> n \<Longrightarrow> n < limit \<Longrightarrow> length data = 128 \<Longrightarrow>
      \<exists>s'. wr n data s = Inr s' \<and> ok s' \<and> (\<forall>m. 0 \<le> m \<longrightarrow> m < limit \<longrightarrow> sec s' m = (if m = n then data else sec s m))"
    and sec_length: "ok s \<Longrightarrow> 0 \<le> n \<Longrightarrow> n < limit \<Longrightarrow> length (sec s n) = 128"

text \<open>A request inside the file whose end is no \<^verbatim>\<open>int\<close> never gets to its clipping.\<close>

lemma ReadAt_overflow:
  "0 < numBytes \<Longrightarrow> position < fh_numBytes (of_hdr f) \<Longrightarrow> \<not> word_range (position + numBytes) \<Longrightarrow>
   ReadAt rd numBytes position f s = Inl Undefined"
  by (simp add: ReadAt_def FileLength_def Let_def cint_def)

lemma WriteAt_overflow:
  "0 < numBytes \<Longrightarrow> position < fh_numBytes (of_hdr f) \<Longrightarrow> \<not> word_range (position + numBytes) \<Longrightarrow>
   WriteAt rd wr junk data numBytes position f s = Inl Undefined"
  by (simp add: WriteAt_def FileLength_def Let_def cint_def)

text \<open>A header whose sectors exist, and the bytes of its file.\<close>

definition header_ok :: "int \<Rightarrow> FileHeader \<Rightarrow> bool" where
  "header_ok limit h \<longleftrightarrow> 0 \<le> fh_numBytes h \<and> fh_numSectors h = divRoundUp (fh_numBytes h) SectorSize \<and>
     length (dataSectors h) = NumDirect \<and> fh_numBytes h \<le> MaxFileSize \<and>
     (let xs = take (nat (fh_numSectors h)) (dataSectors h) in distinct xs \<and> set xs \<subseteq> {0..<limit})"

definition used_sectors :: "FileHeader \<Rightarrow> int list" where
  "used_sectors h = take (nat (fh_numSectors h)) (dataSectors h)"

definition sector_data :: "(int \<Rightarrow> byte list) \<Rightarrow> FileHeader \<Rightarrow> byte list" where
  "sector_data sec h = concat (map sec (used_sectors h))"

definition file_bytes :: "(int \<Rightarrow> byte list) \<Rightarrow> FileHeader \<Rightarrow> byte list" where
  "file_bytes sec h = take (nat (fh_numBytes h)) (sector_data sec h)"

text \<open>\<open>overwrite xs p ys\<close> replaces the bytes from \<open>p\<close> on by \<open>ys\<close>.\<close>

definition overwrite :: "'a list \<Rightarrow> nat \<Rightarrow> 'a list \<Rightarrow> 'a list" where
  "overwrite xs p ys = take p xs @ ys @ drop (p + length ys) xs"

lemma length_overwrite [simp]: "p + length ys \<le> length xs \<Longrightarrow> length (overwrite xs p ys) = length xs"
  by (simp add: overwrite_def)

lemma nth_overwrite:
  "p + length ys \<le> length xs \<Longrightarrow> j < length xs \<Longrightarrow>
   overwrite xs p ys ! j = (if p \<le> j \<and> j < p + length ys then ys ! (j - p) else xs ! j)"
  by (auto simp: overwrite_def nth_append min_def)

lemma copy_in_ok:
  "0 \<le> off \<Longrightarrow> nat off + length bs \<le> length buf \<Longrightarrow> copy_in buf off bs = Inr (overwrite buf (nat off) bs)"
  by (simp add: copy_in_def overwrite_def)

lemma copy_out_ok:
  "0 \<le> off \<Longrightarrow> 0 \<le> n \<Longrightarrow> nat off + nat n \<le> length buf \<Longrightarrow> copy_out buf off n = Inr (take (nat n) (drop (nat off) buf))"
  by (simp add: copy_out_def)

subsection \<open>Blocks\<close>

lemma upto_int: "[int a..int b] = map int [a..<Suc b]"
proof (induction b)
  case 0
  then show ?case by (cases a) simp_all
next
  case (Suc b)
  show ?case
  proof (cases "a \<le> Suc b")
    case True
    then have "[int a..int (Suc b)] = [int a..int b] @ [int (Suc b)]"
      using upto_rec2 [of "int a" "int (Suc b)"] by simp
    with Suc True show ?thesis by simp
  qed simp
qed

lemma nth_concat_blocks:
  assumes "\<And>x. x \<in> set xs \<Longrightarrow> length (f x) = k" and "j < k * length xs"
  shows "concat (map f xs) ! j = f (xs ! (j div k)) ! (j mod k)"
proof -
  have k: "0 < k" using assms(2) by (cases k) simp_all
  then have "j div k < length xs" using assms(2) by (simp add: less_mult_imp_div_less mult.commute)
  then have b: "take k (drop (k * (j div k)) (concat (map f xs))) = f (xs ! (j div k))"
    using block_concat [of xs f k "j div k", OF assms(1)] by simp
  have len: "length (concat (map f xs)) = k * length xs" by (rule length_concat_blocks) (rule assms(1))
  have "take k (drop (k * (j div k)) (concat (map f xs))) ! (j mod k) = concat (map f xs) ! (k * (j div k) + j mod k)"
  proof -
    have "k * (j div k) \<le> length (concat (map f xs))"
      unfolding len using assms(2) times_div_less_eq_dividend [of k j] by linarith
    then show ?thesis using k by (simp add: nth_drop)
  qed
  then show ?thesis by (simp add: b)
qed

lemma take_drop_upt: "a + n \<le> length xs \<Longrightarrow> take n (drop a xs) = map (\<lambda>k. xs ! k) [a..<a + n]"
  by (rule nth_equalityI) simp_all

context sector_store
begin

lemma used_sectors_in:
  assumes "header_ok limit h" and "k < length (used_sectors h)"
  shows "0 \<le> used_sectors h ! k" "used_sectors h ! k < limit"
proof -
  have "used_sectors h ! k \<in> {0..<limit}"
    using assms nth_mem [OF assms(2)] by (auto simp: header_ok_def used_sectors_def Let_def)
  then show "0 \<le> used_sectors h ! k" "used_sectors h ! k < limit" by simp_all
qed

lemma used_sectors_length:
  assumes "header_ok limit h"
  shows "length (used_sectors h) = nat (divRoundUp (fh_numBytes h) SectorSize)" "length (used_sectors h) \<le> NumDirect"
    "nat (fh_numBytes h) \<le> 128 * length (used_sectors h)" "distinct (used_sectors h)"
proof -
  let ?n = "divRoundUp (fh_numBytes h) SectorSize"
  have B: "0 \<le> fh_numBytes h" "fh_numBytes h \<le> MaxFileSize" using assms by (simp_all add: header_ok_def)
  have "?n * SectorSize < fh_numBytes h + SectorSize" "fh_numBytes h \<le> ?n * SectorSize" "0 \<le> ?n"
    using B by (auto intro!: divRoundUp_lower divRoundUp_upper divRoundUp_nonneg simp: const_defs)
  moreover from this B have "nat ?n \<le> NumDirect" by (simp add: const_defs)
  ultimately show "length (used_sectors h) = nat ?n" "length (used_sectors h) \<le> NumDirect"
    "nat (fh_numBytes h) \<le> 128 * length (used_sectors h)" "distinct (used_sectors h)"
    using assms by (auto simp: header_ok_def used_sectors_def Let_def const_defs)
qed

lemma ByteToSector_used:
  assumes "header_ok limit h" and "k < length (used_sectors h)"
  shows "ByteToSector (int k * SectorSize) h = Inr (used_sectors h ! k)"
  using assms used_sectors_length(2) [OF assms(1)]
  by (simp add: ByteToSector_def used_sectors_def header_ok_def const_defs Let_def)

lemma length_sector_data:
  "ok s \<Longrightarrow> header_ok limit h \<Longrightarrow> length (sector_data (sec s) h) = 128 * length (used_sectors h)"
  unfolding sector_data_def
  by (rule length_concat_blocks) (metis in_set_conv_nth sec_length used_sectors_in)

lemma nth_sector_data:
  assumes "ok s" "header_ok limit h" "j < 128 * length (used_sectors h)"
  shows "sector_data (sec s) h ! j = sec s (used_sectors h ! (j div 128)) ! (j mod 128)"
  unfolding sector_data_def
  by (rule nth_concat_blocks [OF _ assms(3)]) (metis assms(1,2) in_set_conv_nth sec_length used_sectors_in)

lemma read_loop:
  assumes "ok s" "header_ok limit h" "\<forall>k \<in> set ks. k < length (used_sectors h)"
  shows "\<exists>s'. for_each (\<lambda>i (buf, s1). rbind (ByteToSector (i * SectorSize) h) (\<lambda>sector.
         rbind (rd sector s1) (\<lambda>(data, s2). Inr (buf @ data, s2)))) (map int ks) (buf, s) =
       Inr (buf @ concat (map (\<lambda>k. sec s (used_sectors h ! k)) ks), s') \<and> ok s' \<and> sec s' = sec s"
  using assms
proof (induction ks arbitrary: buf s)
  case (Cons k ks)
  then have k: "k < length (used_sectors h)" by simp
  from rd_law [OF Cons.prems(1) used_sectors_in [OF Cons.prems(2) k]] obtain s1 where
    s1: "rd (used_sectors h ! k) s = Inr (sec s (used_sectors h ! k), s1)" "ok s1" "sec s1 = sec s" by blast
  from Cons.IH [OF s1(2) Cons.prems(2), of "buf @ sec s (used_sectors h ! k)"] Cons.prems(3) s1
    ByteToSector_used [OF Cons.prems(2) k]
  show ?case by auto
qed simp

lemma read_sectors_ok:
  assumes "ok s" "header_ok limit h" "a \<le> b" "b < length (used_sectors h)"
  shows "\<exists>s'. read_sectors rd h (int a) (int b) s =
      Inr (take (128 * (Suc b - a)) (drop (128 * a) (sector_data (sec s) h)), s') \<and> ok s' \<and> sec s' = sec s"
proof -
  let ?u = "used_sectors h"
  have len: "\<And>x. x \<in> set ?u \<Longrightarrow> length (sec s x) = 128"
    by (metis assms(1,2) in_set_conv_nth sec_length used_sectors_in)
  have "take (128 * (Suc b - a)) (drop (128 * a) (sector_data (sec s) h)) = concat (map (sec s) (take (Suc b - a) (drop a ?u)))"
  proof -
    have "drop (128 * a) (sector_data (sec s) h) = concat (map (sec s) (drop a ?u))"
      unfolding sector_data_def by (rule drop_concat_blocks) (rule len)
    moreover have "take (128 * (Suc b - a)) (concat (map (sec s) (drop a ?u))) = concat (map (sec s) (take (Suc b - a) (drop a ?u)))"
      by (rule take_concat_blocks) (use len in_set_dropD in fast)
    ultimately show ?thesis by simp
  qed
  also have "take (Suc b - a) (drop a ?u) = map (\<lambda>k. ?u ! k) [a..<Suc b]"
    using take_drop_upt [of a "Suc b - a" ?u] assms(3,4) by simp
  finally have e: "concat (map (\<lambda>k. sec s (?u ! k)) [a..<Suc b]) = take (128 * (Suc b - a)) (drop (128 * a) (sector_data (sec s) h))"
    by (simp add: comp_def)
  have "\<forall>k \<in> set [a..<Suc b]. k < length ?u" using assms(4) by auto
  from read_loop [OF assms(1,2) this, of "[]"] show ?thesis
    unfolding read_sectors_def upto_int e by simp
qed

lemma write_loop:
  assumes "ok s" "header_ok limit h" "a + n \<le> length (used_sectors h)" "128 * n \<le> length buf"
  shows "\<exists>s'. for_each (\<lambda>i s1. rbind (ByteToSector (i * SectorSize) h) (\<lambda>sector.
         rbind (copy_out buf ((i - int a) * SectorSize) SectorSize) (\<lambda>data. wr sector data s1))) (map int [a..<a + n]) s =
       Inr s' \<and> ok s' \<and> (\<forall>j<n. sec s' (used_sectors h ! (a + j)) = take 128 (drop (128 * j) buf)) \<and>
       (\<forall>m. 0 \<le> m \<longrightarrow> m < limit \<longrightarrow> m \<notin> set (take n (drop a (used_sectors h))) \<longrightarrow> sec s' m = sec s m)"
  using assms(3,4)
proof (induction n)
  case 0
  with assms show ?case by simp
next
  case (Suc n)
  let ?u = "used_sectors h" and ?f = "\<lambda>i s1. rbind (ByteToSector (i * SectorSize) h) (\<lambda>sector.
         rbind (copy_out buf ((i - int a) * SectorSize) SectorSize) (\<lambda>data. wr sector data s1))"
  from Suc obtain t where t: "for_each ?f (map int [a..<a + n]) s = Inr t" "ok t"
    "\<forall>j<n. sec t (?u ! (a + j)) = take 128 (drop (128 * j) buf)"
    "\<forall>m. 0 \<le> m \<longrightarrow> m < limit \<longrightarrow> m \<notin> set (take n (drop a ?u)) \<longrightarrow> sec t m = sec s m" by auto
  have an: "a + n < length ?u" using Suc.prems by simp
  have out: "copy_out buf ((int (a + n) - int a) * SectorSize) SectorSize = Inr (take 128 (drop (128 * n) buf))"
    using Suc.prems by (subst copy_out_ok) (simp_all add: const_defs nat_mult_distrib mult.commute)
  have "length (take 128 (drop (128 * n) buf)) = 128" using Suc.prems by simp
  from wr_law [OF t(2) used_sectors_in [OF assms(2) an] this] obtain t' where
    t': "wr (?u ! (a + n)) (take 128 (drop (128 * n) buf)) t = Inr t'" "ok t'"
    "\<forall>m. 0 \<le> m \<longrightarrow> m < limit \<longrightarrow> sec t' m = (if m = ?u ! (a + n) then take 128 (drop (128 * n) buf) else sec t m)" by blast
  have "for_each ?f (map int [a..<a + Suc n]) s = Inr t'"
    using t(1) t'(1) ByteToSector_used [OF assms(2) an] out by (simp add: for_each_append)
  moreover have "sec t' (?u ! (a + j)) = take 128 (drop (128 * j) buf)" if "j < Suc n" for j
  proof (cases "j = n")
    case False
    with that have "j < n" by simp
    moreover have "?u ! (a + j) \<noteq> ?u ! (a + n)"
      using used_sectors_length(4) [OF assms(2)] an \<open>j < n\<close> by (simp add: nth_eq_iff_index_eq)
    ultimately show ?thesis using t(3) t'(3) used_sectors_in [OF assms(2), of "a + j"] an by simp
  qed (use t'(3) used_sectors_in [OF assms(2) an] in simp)
  moreover have "take (Suc n) (drop a ?u) = take n (drop a ?u) @ [?u ! (a + n)]"
    using an by (simp add: take_Suc_conv_app_nth)
  ultimately show ?case using t(4) t'(2,3) by (intro exI [of _ t']) auto
qed

lemma block_arith:
  assumes "0 < m" "p + m \<le> 128 * u"
  shows "p div 128 \<le> (p + m - 1) div 128" "(p + m - 1) div 128 < u"
    "p - 128 * (p div 128) + m \<le> 128 * (Suc ((p + m - 1) div 128) - p div 128)"
proof -
  show le: "p div 128 \<le> (p + m - 1) div 128" using assms(1) by (intro div_le_mono) simp
  show "(p + m - 1) div 128 < u" using assms by (intro less_mult_imp_div_less) simp
  have "p + m - 1 < 128 * Suc ((p + m - 1) div 128)" by (metis dividend_less_times_div mult_Suc_right add.commute zero_less_numeral)
  then have "p + m \<le> 128 * Suc ((p + m - 1) div 128)" using assms(1) by linarith
  then show "p - 128 * (p div 128) + m \<le> 128 * (Suc ((p + m - 1) div 128) - p div 128)"
    using times_div_less_eq_dividend [of 128 p] le by (simp add: diff_mult_distrib2 diff_le_mono)
qed

lemma divRoundDown_int: "divRoundDown (int p) SectorSize = int (p div 128)"
  by (simp add: divRoundDown_def const_defs zdiv_int)

lemma take_drop_take_drop:
  "a + n \<le> m \<Longrightarrow> take n (drop a (take m (drop b xs))) = take n (drop (a + b) xs)"
  by (simp add: drop_take min_absorb1)

text \<open>A read of \<open>m\<close> bytes at \<open>p\<close> inside the file.\<close>

lemma read_inside:
  assumes "ok s" "header_ok limit h" "0 < m" "p + m \<le> nat (fh_numBytes h)"
  shows "\<exists>s'. rbind (read_sectors rd h (divRoundDown (int p) SectorSize) (divRoundDown (int p + int m - 1) SectorSize) s) (\<lambda>(buf, s1).
      rbind (copy_out buf (int p - divRoundDown (int p) SectorSize * SectorSize) (int m)) (\<lambda>data. Inr ((int m, data), s1))) =
    Inr ((int m, take m (drop p (sector_data (sec s) h))), s') \<and> ok s' \<and> sec s' = sec s"
proof -
  let ?D = "sector_data (sec s) h" and ?a = "p div 128" and ?b = "(p + m - 1) div 128"
  have le: "p + m \<le> 128 * length (used_sectors h)" using assms(4) used_sectors_length(3) [OF assms(2)] by linarith
  note ar = block_arith [OF assms(3) le]
  from read_sectors_ok [OF assms(1,2) ar(1,2)] obtain s' where
    s': "read_sectors rd h (int ?a) (int ?b) s = Inr (take (128 * (Suc ?b - ?a)) (drop (128 * ?a) ?D), s')" "ok s'" "sec s' = sec s"
    by blast
  have last: "int p + int m - 1 = int (p + m - 1)" using assms(3) by simp
  have off: "int p - int ?a * SectorSize = int (p - 128 * ?a)"
    using times_div_less_eq_dividend [of 128 p] by (simp add: const_defs)
  have len: "length (take (128 * (Suc ?b - ?a)) (drop (128 * ?a) ?D)) = 128 * (Suc ?b - ?a)"
  proof -
    have "128 * (Suc ?b - ?a) \<le> length ?D - 128 * ?a"
      unfolding length_sector_data [OF assms(1,2)] diff_mult_distrib2 by (rule diff_le_mono) (use ar(2) in simp)
    then show ?thesis by (simp add: min_absorb2)
  qed
  have "copy_out (take (128 * (Suc ?b - ?a)) (drop (128 * ?a) ?D)) (int (p - 128 * ?a)) (int m) = Inr (take m (drop p ?D))"
    using ar(3) len times_div_less_eq_dividend [of 128 p]
    by (subst copy_out_ok) (simp_all only: take_drop_take_drop nat_int, simp_all)
  then show ?thesis
    unfolding last divRoundDown_int off using s' by auto
qed

lemma ReadAt_ok:
  assumes "ok s" "header_ok limit (of_hdr f)" "0 \<le> position"
    and "position < fh_numBytes (of_hdr f) \<Longrightarrow> position + numBytes < 2 ^ 31"
  shows "\<exists>s'. ReadAt rd numBytes position f s =
      (let k = min (nat numBytes) (nat (fh_numBytes (of_hdr f)) - nat position) in
       Inr ((int k, take k (drop (nat position) (file_bytes (sec s) (of_hdr f)))), s')) \<and> ok s' \<and> sec s' = sec s"
proof (cases "numBytes \<le> 0 \<or> position \<ge> fh_numBytes (of_hdr f)")
  case True
  then have "min (nat numBytes) (nat (fh_numBytes (of_hdr f)) - nat position) = 0" by auto
  with True assms(1) show ?thesis by (auto simp: ReadAt_def FileLength_def Let_def)
next
  case False
  let ?h = "of_hdr f"
  define p where "p = nat position"
  define m where "m = min (nat numBytes) (nat (fh_numBytes ?h) - p)"
  have B: "0 \<le> fh_numBytes ?h" using assms(2) by (simp add: header_ok_def)
  have pm: "0 < m" "p + m \<le> nat (fh_numBytes ?h)" using False assms(3) by (auto simp: m_def p_def)
  have pos: "position = int p" using assms(3) by (simp add: p_def)
  have n: "(if position + numBytes > fh_numBytes ?h then fh_numBytes ?h - position else numBytes) = int m"
    using False assms(3) B by (auto simp: m_def p_def min_def)
  have "take m (drop p (sector_data (sec s) ?h)) = take m (drop p (file_bytes (sec s) ?h))"
    using pm by (simp add: file_bytes_def drop_take)
  moreover have "word_range (position + numBytes)" using False assms(3,4) by (simp add: word_range_def)
  ultimately show ?thesis using read_inside [OF assms(1,2) pm] False
    by (simp add: ReadAt_def FileLength_def Let_def n) (simp add: pos m_def)
qed

text \<open>The sectors after the write loop hold the buffer, and no sector of another file changes.\<close>

lemma write_sectors_ok:
  assumes "ok s" "header_ok limit h" "a \<le> b" "b < length (used_sectors h)" "length buf = 128 * (Suc b - a)"
  shows "\<exists>s'. write_sectors wr h (int a) (int b) buf s = Inr s' \<and> ok s' \<and>
    sector_data (sec s') h = overwrite (sector_data (sec s) h) (128 * a) buf \<and>
    (\<forall>m. 0 \<le> m \<longrightarrow> m < limit \<longrightarrow> m \<notin> set (used_sectors h) \<longrightarrow> sec s' m = sec s m)"
proof -
  let ?u = "used_sectors h" and ?n = "Suc b - a"
  have an: "a + ?n \<le> length ?u" "a + ?n = Suc b" using assms(3,4) by simp_all
  from write_loop [OF assms(1,2) an(1), of buf] assms(5) obtain s' where
    s': "write_sectors wr h (int a) (int b) buf s = Inr s'" "ok s'"
    and new: "\<forall>j<?n. sec s' (?u ! (a + j)) = take 128 (drop (128 * j) buf)"
    and old: "\<forall>m. 0 \<le> m \<longrightarrow> m < limit \<longrightarrow> m \<notin> set (take ?n (drop a ?u)) \<longrightarrow> sec s' m = sec s m"
    unfolding write_sectors_def upto_int an(2) by auto
  have fits: "128 * a + length buf \<le> length (sector_data (sec s) h)"
    using an(1) assms(5) length_sector_data [OF assms(1,2)] by simp
  have "sector_data (sec s') h = overwrite (sector_data (sec s) h) (128 * a) buf"
  proof (rule nth_equalityI)
    show l: "length (sector_data (sec s') h) = length (overwrite (sector_data (sec s) h) (128 * a) buf)"
      using fits by (simp add: length_sector_data assms s'(2))
    fix j assume "j < length (sector_data (sec s') h)"
    then have j: "j < 128 * length ?u" by (simp add: length_sector_data assms s'(2))
    then have jd: "j div 128 < length ?u" by (simp add: less_mult_imp_div_less mult.commute)
    have eq: "j = 128 * (j div 128) + j mod 128" by simp
    show "sector_data (sec s') h ! j = overwrite (sector_data (sec s) h) (128 * a) buf ! j"
    proof (cases "a \<le> j div 128 \<and> j div 128 < Suc b")
      case True
      then obtain i where i: "j div 128 = a + i" "i < ?n" by (metis an(2) le_Suc_ex nat_add_left_cancel_less)
      then have ji: "j = 128 * a + (128 * i + j mod 128)" using eq by (simp add: algebra_simps)
      then have idx: "j - 128 * a = 128 * i + j mod 128" by linarith
      have "128 * i + j mod 128 < length buf" using i(2) assms(5) mod_less_divisor [of 128 j] by simp
      then have "overwrite (sector_data (sec s) h) (128 * a) buf ! j = buf ! (128 * i + j mod 128)"
        using fits j length_sector_data [OF assms(1,2)] ji idx by (subst nth_overwrite) auto
      moreover have "take 128 (drop (128 * i) buf) ! (j mod 128) = buf ! (128 * i + j mod 128)"
        using i(2) assms(5) by simp
      ultimately show ?thesis using nth_sector_data [OF s'(2) assms(2) j] new i by simp
    next
      case False
      have "?u ! (j div 128) \<notin> set (take ?n (drop a ?u))"
      proof
        assume "?u ! (j div 128) \<in> set (take ?n (drop a ?u))"
        then obtain i where i: "i < ?n" "?u ! (j div 128) = ?u ! (a + i)"
          using an(1) by (auto simp: in_set_conv_nth)
        then have "j div 128 = a + i"
          using used_sectors_length(4) [OF assms(2)] jd an(1) by (simp add: nth_eq_iff_index_eq)
        with i(1) an(2) False show False by auto
      qed
      then have "sec s' (?u ! (j div 128)) = sec s (?u ! (j div 128))"
        using old used_sectors_in [OF assms(2) jd] by blast
      moreover have "\<not> (128 * a \<le> j \<and> j < 128 * a + length buf)"
      proof
        assume "128 * a \<le> j \<and> j < 128 * a + length buf"
        then have "a \<le> j div 128" "j < 128 * Suc b" using assms(3,5) by (auto simp: less_eq_div_iff_mult_less_eq)
        then show False using False by (simp add: less_mult_imp_div_less mult.commute)
      qed
      ultimately show ?thesis
        using fits j by (auto simp: nth_overwrite nth_sector_data assms(1,2) s'(2) length_sector_data)
    qed
  qed
  moreover have "m \<notin> set (take ?n (drop a ?u))" if "m \<notin> set ?u" for m
    using that by (meson in_set_dropD in_set_takeD)
  ultimately show ?thesis using s' old by blast
qed

end

text \<open>The sector buffer of \<^verbatim>\<open>WriteAt\<close>: the bytes of the file that the request does not replace are those
  that were read in before.\<close>

lemma write_buffer:
  fixes p m a b B :: nat
  assumes "length buf = 128 * (Suc b - a)" "128 * a \<le> p" "p < 128 * Suc a" "128 * b < p + m" "p + m \<le> 128 * Suc b"
    and "p + m \<le> B" "B = length fb" "0 < m" "a \<le> b"
    and buf1: "buf1 = (if p \<noteq> 128 * a then overwrite buf 0 (take 128 (drop (128 * a) fb)) else buf)"
    and buf2: "buf2 = (if p + m \<noteq> 128 * Suc b \<and> (a \<noteq> b \<or> p = 128 * a)
      then overwrite buf1 (128 * (b - a)) (take 128 (drop (128 * b) fb)) else buf1)"
    and j: "128 * a \<le> j" "j < 128 * Suc b" "j < B" "j < p \<or> p + m \<le> j"
  shows "buf2 ! (j - 128 * a) = fb ! j"
proof -
  let ?k = "j - 128 * a"
  have kl: "?k < length buf" using assms(1) j(1,2) assms(9) by (simp add: diff_mult_distrib2)
  have l1: "length buf1 = length buf" using assms(1,9) by (simp add: buf1 diff_mult_distrib2)
  have first: "buf1 ! ?k = fb ! j" if "p \<noteq> 128 * a" "j < 128 * Suc a"
  proof -
    have "0 + length (take 128 (drop (128 * a) fb)) \<le> length buf" using assms(1,9) by (simp add: diff_mult_distrib2)
    moreover have "?k < length (take 128 (drop (128 * a) fb))" using that(2) j(1,3) assms(7) by (simp; arith)
    moreover have "128 * a \<le> length fb" using j(1,3) assms(7) by linarith
    ultimately show ?thesis using that(1) kl j(1) by (simp add: buf1 nth_overwrite)
  qed
  show ?thesis
  proof (cases "p + m \<noteq> 128 * Suc b \<and> (a \<noteq> b \<or> p = 128 * a)")
    case True
    have fits: "128 * (b - a) + length (take 128 (drop (128 * b) fb)) \<le> length buf1"
      using assms(1,9) l1 by (simp add: diff_mult_distrib2)
    have b2: "buf2 ! ?k = (if 128 * (b - a) \<le> ?k \<and> ?k < 128 * (b - a) + length (take 128 (drop (128 * b) fb))
        then take 128 (drop (128 * b) fb) ! (?k - 128 * (b - a)) else buf1 ! ?k)"
      using True kl l1 by (simp add: buf2 nth_overwrite [OF fits])
    show ?thesis
    proof (cases "128 * b \<le> j")
      case last: True
      have e: "?k - 128 * (b - a) = j - 128 * b" "128 * (b - a) \<le> ?k" using last assms(9) by (simp_all add: diff_mult_distrib2)
      have lt: "j - 128 * b < length (take 128 (drop (128 * b) fb))" using last j(2,3) assms(7) by (simp; arith)
      then have c: "128 * (b - a) \<le> ?k \<and> ?k < 128 * (b - a) + length (take 128 (drop (128 * b) fb))" using e by linarith
      have "128 * b \<le> length fb" using last j(3) assms(7) by linarith
      then show ?thesis unfolding b2 if_P [OF c] e(1) using lt last by simp
    next
      case before: False
      then have jp: "j < p" using j(4) assms(4) by linarith
      then have "p \<noteq> 128 * a" "j < 128 * Suc a" using j(1) assms(3) by simp_all
      moreover have "\<not> 128 * (b - a) \<le> ?k" using before j(1) assms(9) by (simp add: diff_mult_distrib2)
      ultimately show ?thesis unfolding b2 using first by simp
    qed
  next
    case False
    then have b2: "buf2 = buf1" unfolding buf2 by (rule if_not_P)
    consider "j < p" | "p + m \<le> j" using j(4) by blast
    then show ?thesis
    proof cases
      case 1
      then show ?thesis unfolding b2 using j(1) assms(3) by (intro first) simp_all
    next
      case 2
      with j(2) have "p + m \<noteq> 128 * Suc b" by simp
      with False have "a = b" "p \<noteq> 128 * a" by auto
      with j(2) show ?thesis unfolding b2 by (intro first) simp_all
    qed
  qed
qed

context sector_store
begin

lemma length_file_bytes:
  assumes "ok s" "header_ok limit h"
  shows "length (file_bytes (sec s) h) = nat (fh_numBytes h)"
  using used_sectors_length(3) [OF assms(2)] by (simp add: file_bytes_def length_sector_data [OF assms])

text \<open>A write of \<open>m\<close> bytes at \<open>p\<close> inside the file.\<close>

lemma write_inside:
  assumes "ok s" "header_ok limit (of_hdr f)" "0 < m" "p + m \<le> nat (fh_numBytes (of_hdr f))" "m \<le> length data"
  defines "a \<equiv> p div 128" and "b \<equiv> (p + m - 1) div 128" and "fb \<equiv> file_bytes (sec s) (of_hdr f)"
  assumes buf1: "buf1 = (if p \<noteq> 128 * a then overwrite (map junk [0..<128 * (Suc b - a)]) 0 (take 128 (drop (128 * a) fb))
      else map junk [0..<128 * (Suc b - a)])"
    and buf2: "buf2 = (if p + m \<noteq> 128 * Suc b \<and> (a \<noteq> b \<or> p = 128 * a)
      then overwrite buf1 (128 * (b - a)) (take 128 (drop (128 * b) fb)) else buf1)"
  shows "\<exists>s'. write_sectors wr (of_hdr f) (int a) (int b) (overwrite buf2 (p - 128 * a) (take m data)) s = Inr s' \<and> ok s' \<and>
    file_bytes (sec s') (of_hdr f) = overwrite fb p (take m data) \<and>
    (\<forall>x. 0 \<le> x \<longrightarrow> x < limit \<longrightarrow> x \<notin> set (used_sectors (of_hdr f)) \<longrightarrow> sec s' x = sec s x)"
proof -
  let ?h = "of_hdr f" and ?B = "nat (fh_numBytes (of_hdr f))" and ?U = "length (used_sectors (of_hdr f))"
  let ?buf = "map junk [0..<128 * (Suc b - a)]" and ?new = "take m data"
  have le: "p + m \<le> 128 * ?U" using assms(4) used_sectors_length(3) [OF assms(2)] by linarith
  note ar = block_arith [OF assms(3) le, folded a_def b_def]
  have bnd: "128 * a \<le> p" "p < 128 * Suc a" unfolding a_def
    using times_div_less_eq_dividend [of 128 p] dividend_less_times_div [of 128 p] by simp_all
  have bnd2: "128 * b < p + m" "p + m \<le> 128 * Suc b" unfolding b_def
    using times_div_less_eq_dividend [of 128 "p + m - 1"] dividend_less_times_div [of 128 "p + m - 1"] assms(3) by simp_all
  have lfb: "?B = length fb" by (simp add: fb_def length_file_bytes assms(1,2))
  have l1: "length buf1 = 128 * (Suc b - a)" using ar(1) by (simp add: buf1 diff_mult_distrib2)
  have l2: "length buf2 = 128 * (Suc b - a)" using ar(1) l1 by (simp add: buf2 diff_mult_distrib2)
  have fits: "p - 128 * a + length ?new \<le> length buf2" using ar(3) l2 assms(5) by (simp flip: a_def b_def)
  have l3: "length (overwrite buf2 (p - 128 * a) ?new) = 128 * (Suc b - a)" using fits l2 by simp
  from write_sectors_ok [OF assms(1,2) ar(1,2) l3] obtain s' where
    s': "write_sectors wr ?h (int a) (int b) (overwrite buf2 (p - 128 * a) ?new) s = Inr s'" "ok s'"
      "sector_data (sec s') ?h = overwrite (sector_data (sec s) ?h) (128 * a) (overwrite buf2 (p - 128 * a) ?new)"
    and others: "\<forall>x. 0 \<le> x \<longrightarrow> x < limit \<longrightarrow> x \<notin> set (used_sectors ?h) \<longrightarrow> sec s' x = sec s x" by blast
  have dfits: "128 * a + length (overwrite buf2 (p - 128 * a) ?new) \<le> length (sector_data (sec s) ?h)"
    unfolding l3 length_sector_data [OF assms(1,2)] using ar(1,2) by (simp add: diff_mult_distrib2)
  have pfits: "p + length ?new \<le> length fb" using assms(4,5) lfb by simp
  have "file_bytes (sec s') ?h = overwrite fb p ?new"
  proof (rule nth_equalityI)
    show "length (file_bytes (sec s') ?h) = length (overwrite fb p ?new)"
      using pfits by (simp add: length_file_bytes s'(2) assms(2) flip: lfb)
    fix j assume "j < length (file_bytes (sec s') ?h)"
    then have j: "j < ?B" by (simp add: length_file_bytes s'(2) assms(2))
    then have jd: "j < length (sector_data (sec s) ?h)" "j < length fb"
      using used_sectors_length(3) [OF assms(2)] lfb by (simp_all add: length_sector_data assms(1,2))
    have old: "sector_data (sec s) ?h ! j = fb ! j" using j by (simp add: fb_def file_bytes_def)
    have "file_bytes (sec s') ?h ! j =
        (if 128 * a \<le> j \<and> j < 128 * Suc b then overwrite buf2 (p - 128 * a) ?new ! (j - 128 * a) else fb ! j)"
      using j jd dfits old ar(1) unfolding file_bytes_def s'(3)
      by (simp add: nth_overwrite l3) (auto simp: diff_mult_distrib2)
    also have "\<dots> = overwrite fb p ?new ! j"
    proof (cases "128 * a \<le> j \<and> j < 128 * Suc b")
      case True
      have k: "j - 128 * a < length buf2" using True l2 ar(1) by (simp add: diff_mult_distrib2; arith)
      show ?thesis
      proof (cases "p \<le> j \<and> j < p + m")
        case inside: True
        then have "p - 128 * a \<le> j - 128 * a \<and> j - 128 * a < p - 128 * a + length ?new" using bnd assms(5) by auto
        moreover have "j - 128 * a - (p - 128 * a) = j - p" using bnd by simp
        ultimately show ?thesis using True inside assms(5) by (simp add: nth_overwrite [OF fits k] nth_overwrite [OF pfits jd(2)])
      next
        case outside: False
        then have "buf2 ! (j - 128 * a) = fb ! j"
          using True j by (intro write_buffer [OF _ bnd bnd2 assms(4) lfb assms(3) ar(1) buf1 buf2]) auto
        moreover have "\<not> (p - 128 * a \<le> j - 128 * a \<and> j - 128 * a < p - 128 * a + length ?new)"
          using outside True bnd assms(5) by auto
        ultimately show ?thesis
          using True outside assms(5) by (auto simp: nth_overwrite [OF fits k] nth_overwrite [OF pfits jd(2)])
      qed
    next
      case False
      then have "\<not> (p \<le> j \<and> j < p + m)" using bnd bnd2 by auto
      then show ?thesis using False assms(5) by (auto simp: nth_overwrite [OF pfits jd(2)])
    qed
    finally show "file_bytes (sec s') ?h ! j = overwrite fb p ?new ! j" .
  qed
  then show ?thesis using s' others by blast
qed

text \<open>Reading in one sector of the file.\<close>

lemma load_sector:
  assumes "ok t" "header_ok limit (of_hdr f)"
  shows "\<exists>k t'. ReadAt rd SectorSize (int c * SectorSize) f t =
    Inr ((k, take 128 (drop (128 * c) (file_bytes (sec t) (of_hdr f)))), t') \<and> ok t' \<and> sec t' = sec t"
proof -
  let ?fb = "file_bytes (sec t) (of_hdr f)"
  have "length (drop (128 * c) ?fb) = nat (fh_numBytes (of_hdr f)) - 128 * c"
    by (simp add: length_file_bytes [OF assms])
  then have "take (min 128 (nat (fh_numBytes (of_hdr f)) - 128 * c)) (drop (128 * c) ?fb) = take 128 (drop (128 * c) ?fb)"
    by (metis take_all_iff min_def nle_le)
  moreover have "int c * SectorSize < fh_numBytes (of_hdr f) \<Longrightarrow> int c * SectorSize + SectorSize < 2 ^ 31"
    using assms(2) by (simp add: header_ok_def const_defs)
  ultimately show ?thesis using ReadAt_ok [OF assms, of "int c * SectorSize" SectorSize]
    by (auto simp: Let_def const_defs nat_mult_distrib mult.commute)
qed

lemma WriteAt_ok:
  assumes "ok s" "header_ok limit (of_hdr f)" "0 \<le> position" "numBytes \<le> int (length data)"
    and "position < fh_numBytes (of_hdr f) \<Longrightarrow> position + numBytes < 2 ^ 31"
  shows "\<exists>s'. WriteAt rd wr junk data numBytes position f s =
      Inr (int (min (nat numBytes) (nat (fh_numBytes (of_hdr f)) - nat position)), s') \<and> ok s' \<and>
    file_bytes (sec s') (of_hdr f) = overwrite (file_bytes (sec s) (of_hdr f)) (nat position)
      (take (min (nat numBytes) (nat (fh_numBytes (of_hdr f)) - nat position)) data) \<and>
    (\<forall>x. 0 \<le> x \<longrightarrow> x < limit \<longrightarrow> x \<notin> set (used_sectors (of_hdr f)) \<longrightarrow> sec s' x = sec s x)"
proof (cases "numBytes \<le> 0 \<or> position \<ge> fh_numBytes (of_hdr f)")
  case True
  then have "min (nat numBytes) (nat (fh_numBytes (of_hdr f)) - nat position) = 0" by auto
  with True assms(1) show ?thesis by (auto simp: WriteAt_def FileLength_def Let_def overwrite_def)
next
  case False
  let ?h = "of_hdr f"
  define p where "p = nat position"
  define m where "m = min (nat numBytes) (nat (fh_numBytes ?h) - p)"
  define a where "a = p div 128"
  define b where "b = (p + m - 1) div 128"
  define fb where "fb = file_bytes (sec s) ?h"
  have B: "0 \<le> fh_numBytes ?h" using assms(2) by (simp add: header_ok_def)
  have pm: "0 < m" "p + m \<le> nat (fh_numBytes ?h)" "m \<le> length data"
    using False assms(3,4) by (auto simp: m_def p_def)
  have pos: "position = int p" using assms(3) by (simp add: p_def)
  have fits: "cint (position + numBytes) = Inr (position + numBytes)" using False assms(3,5) by (simp add: word_range_def)
  have n: "(if position + numBytes > fh_numBytes ?h then fh_numBytes ?h - position else numBytes) = int m"
    using False assms(3) B by (auto simp: m_def p_def min_def)
  have first: "divRoundDown (int p) SectorSize = int a" unfolding a_def by (rule divRoundDown_int)
  have "int p + int m - 1 = int (p + m - 1)" using pm(1) by simp
  then have last: "divRoundDown (int p + int m - 1) SectorSize = int b"
    unfolding b_def by (simp only: divRoundDown_int)
  have le: "p + m \<le> 128 * length (used_sectors ?h)" using pm(2) used_sectors_length(3) [OF assms(2)] by linarith
  note ar = block_arith [OF pm(1) le, folded a_def b_def]
  have size: "nat ((1 + int b - int a) * SectorSize) = 128 * (Suc b - a)"
    using ar(1) by (simp add: const_defs)
  define buf where "buf = map junk [0..<128 * (Suc b - a)]"
  define buf1 where "buf1 = (if p \<noteq> 128 * a then overwrite buf 0 (take 128 (drop (128 * a) fb)) else buf)"
  define buf2 where "buf2 = (if p + m \<noteq> 128 * Suc b \<and> (a \<noteq> b \<or> p = 128 * a)
      then overwrite buf1 (128 * (b - a)) (take 128 (drop (128 * b) fb)) else buf1)"
  have l: "length buf = 128 * (Suc b - a)" "length buf1 = 128 * (Suc b - a)" "length buf2 = 128 * (Suc b - a)"
    using ar(1) by (simp_all add: buf_def buf1_def buf2_def diff_mult_distrib2)
  have fa: "int p = int a * SectorSize \<longleftrightarrow> p = 128 * a" by (auto simp: const_defs)
  have la: "int p + int m = (int b + 1) * SectorSize \<longleftrightarrow> p + m = 128 * Suc b" by (auto simp: const_defs)
  obtain s1 where s1: "(if \<not> p = 128 * a
       then rbind (ReadAt rd SectorSize (int a * SectorSize) f s) (\<lambda>((_, bs), s1).
            rbind (copy_in buf 0 bs) (\<lambda>buf1. Inr (buf1, s1))) else Inr (buf, s)) = Inr (buf1, s1)" "ok s1" "sec s1 = sec s"
  proof (cases "p = 128 * a")
    case False
    from load_sector [OF assms(1,2), of a] obtain k t where
      "ReadAt rd SectorSize (int a * SectorSize) f s = Inr ((k, take 128 (drop (128 * a) fb)), t)" "ok t" "sec t = sec s"
      by (auto simp: fb_def)
    moreover have "copy_in buf 0 (take 128 (drop (128 * a) fb)) = Inr (overwrite buf 0 (take 128 (drop (128 * a) fb)))"
      using l(1) ar(1) by (subst copy_in_ok) (simp_all add: diff_mult_distrib2)
    ultimately show ?thesis using False that by (simp add: buf1_def)
  qed (use that assms(1) in \<open>simp add: buf1_def\<close>)
  obtain s2 where s2: "(if \<not> p + m = 128 * Suc b \<and> (a \<noteq> b \<or> p = 128 * a)
       then rbind (ReadAt rd SectorSize (int b * SectorSize) f s1) (\<lambda>((_, bs), s2).
            rbind (copy_in buf1 ((int b - int a) * SectorSize) bs) (\<lambda>buf2. Inr (buf2, s2))) else Inr (buf1, s1)) = Inr (buf2, s2)"
      "ok s2" "sec s2 = sec s"
  proof (cases "p + m \<noteq> 128 * Suc b \<and> (a \<noteq> b \<or> p = 128 * a)")
    case True
    from load_sector [OF s1(2) assms(2), of b] obtain k t where
      "ReadAt rd SectorSize (int b * SectorSize) f s1 = Inr ((k, take 128 (drop (128 * b) fb)), t)" "ok t" "sec t = sec s"
      by (auto simp: fb_def s1(3))
    moreover have o: "(int b - int a) * SectorSize = int (128 * (b - a))" using ar(1) by (simp add: const_defs)
    have "copy_in buf1 ((int b - int a) * SectorSize) (take 128 (drop (128 * b) fb)) =
        Inr (overwrite buf1 (128 * (b - a)) (take 128 (drop (128 * b) fb)))"
      unfolding o using l(2) ar(1) by (subst copy_in_ok) (simp_all only: nat_int of_nat_0_le_iff, simp add: diff_mult_distrib2)
    ultimately show ?thesis using True that by (simp add: buf2_def)
  qed (use that s1 in \<open>auto simp: buf2_def\<close>)
  from write_inside [OF s2(2) assms(2) pm, folded a_def b_def, unfolded s2(3), folded fb_def,
      OF buf1_def [unfolded buf_def] buf2_def] obtain s3 where
    s3: "write_sectors wr ?h (int a) (int b) (overwrite buf2 (p - 128 * a) (take m data)) s2 = Inr s3" "ok s3"
      "file_bytes (sec s3) ?h = overwrite fb p (take m data)"
      "\<forall>x. 0 \<le> x \<longrightarrow> x < limit \<longrightarrow> x \<notin> set (used_sectors ?h) \<longrightarrow> sec s3 x = sec s x" by blast
  have off: "int p - int a * SectorSize = int (p - 128 * a)"
    using times_div_less_eq_dividend [of 128 p] by (simp add: const_defs a_def)
  have bs: "copy_out data 0 (int m) = Inr (take m data)" using pm(3) by (subst copy_out_ok) simp_all
  have "copy_in buf2 (int (p - 128 * a)) (take m data) = Inr (overwrite buf2 (p - 128 * a) (take m data))"
    using ar(3) l(3) pm(3) by (subst copy_in_ok) (simp_all flip: a_def b_def)
  then have "WriteAt rd wr junk data numBytes position f s = Inr (int m, s3)"
    using False s1(1) s2(1) s3(1) bs
    unfolding WriteAt_def FileLength_def Let_def fits rbind_Inr n
    by (simp only: pos first last fa la size off flip: buf_def) simp
  then show ?thesis using s3 by (auto simp: m_def p_def fb_def)
qed

end

end
