(* ===== verification/Devices.thy ===== *)
theory Devices
  imports Threads Complex_Main
begin

text \<open>
  The simulated devices: machine/timer.cc, machine/console.cc, machine/disk.cc and
  machine/network.cc, with their classes.

  The record \<open>devices\<close> extends the kernel by one object of each class. UNIX is outside the model:
  the keyboard is the sequence of bytes still to be typed, the display the sequence of bytes
  written, the file behind the disk an array of bytes, the socket the sequence of packets that have
  arrived. Whether \<^verbatim>\<open>PollFile\<close> and \<^verbatim>\<open>PollSocket\<close> report input, and what \<^verbatim>\<open>Random\<close> returns, are
  arguments (record \<open>unix\<close>).

  A device calls the kernel back through a function pointer: \<open>callback\<close> names the functions that
  threads/system.cc, threads/synchcons.cc, filesys/synchdisk.cc and network/post.cc pass.
\<close>

subsection \<open>Data\<close>

datatype callback = TimerInterruptHandler | Signal nat

text \<open>\<open>Signal sm\<close> stands for the callbacks whose body is \<^verbatim>\<open>V\<close> of a semaphore: \<^verbatim>\<open>SynchReadFunct\<close>,
  \<^verbatim>\<open>SynchWriteFunct\<close>, \<^verbatim>\<open>DiskRequestDone\<close>, and those of the post office.\<close>

record timer =
  tm_randomize :: bool
  tm_handler :: callback

record console =
  keyboard :: "byte list"
  display :: "byte list"
  cs_writeHandler :: callback
  cs_readHandler :: callback
  putBusy :: bool
  incoming :: byte

record disk =
  dk_file :: "byte list"
  dk_handler :: callback
  active :: bool
  lastSector :: int
  bufferInit :: int

record PacketHeader =
  pk_to :: int32
  pk_from :: int32
  pk_length :: int32

record network =
  ident :: int32
  chanceToWork :: rat
  net_in :: "byte list list"
  net_out :: "(int32 \<times> byte list) list"
  nw_writeHandler :: callback
  nw_readHandler :: callback
  sendBusy :: bool
  inHdr :: PacketHeader
  inbox :: "byte list"

record devices = kernel +
  the_timer :: "timer option"
  the_console :: "console option"
  the_disk :: "disk option"
  the_network :: "network option"
  random_calls :: nat

record unix =
  poll_file :: "nat \<Rightarrow> bool"
  poll_socket :: "nat \<Rightarrow> bool"
  rand :: "nat \<Rightarrow> int"

text \<open>A device that the configuration has not created.\<close>

definition dev :: "'d option \<Rightarrow> 'd res" where
  "dev d = (case d of None \<Rightarrow> Inl Undefined | Some x \<Rightarrow> Inr x)"

definition EOF :: byte where [const_defs]: "EOF = 0xff"
definition SectorsPerTrack :: int where [const_defs]: "SectorsPerTrack = 32"
definition NumTracks :: int where [const_defs]: "NumTracks = 32"
definition NumSectors :: int where [const_defs]: "NumSectors = SectorsPerTrack * NumTracks"
definition MagicNumber :: int32 where [const_defs]: "MagicNumber = 0x456789ab"
definition MagicSize :: int where [const_defs]: "MagicSize = 4"
definition DiskSize :: int where [const_defs]: "DiskSize = MagicSize + NumSectors * SectorSize"
definition MaxWireSize :: int where [const_defs]: "MaxWireSize = 64"
definition MaxPacketSize :: int where [const_defs]: "MaxPacketSize = MaxWireSize - 12"

definition bump :: "(Statistics \<Rightarrow> Statistics) \<Rightarrow> 'a devices_scheme \<Rightarrow> 'a devices_scheme" where
  "bump f s = s\<lparr>stats := f (stats s)\<rparr>"

text \<open>The callbacks. They run in an interrupt handler, with interrupts off.\<close>

definition run_callback :: "callback \<Rightarrow> 'a devices_scheme \<Rightarrow> 'a devices_scheme res" where
  "run_callback cb s =
     (case cb of
        TimerInterruptHandler \<Rightarrow> if status s \<noteq> IdleMode then YieldOnReturn s else Inr s
      | Signal sm \<Rightarrow> Semaphore_V (\<lambda>_. Inl Undefined) sm s)"

definition Random :: "unix \<Rightarrow> 'a devices_scheme \<Rightarrow> int \<times> 'a devices_scheme" where
  "Random ux s = (rand ux (random_calls s), s\<lparr>random_calls := Suc (random_calls s)\<rparr>)"

subsection \<open>Timer\<close>

definition TimeOfNextInterrupt :: "unix \<Rightarrow> timer \<Rightarrow> 'a devices_scheme \<Rightarrow> int \<times> 'a devices_scheme" where
  "TimeOfNextInterrupt ux tm s =
     (if tm_randomize tm then (let (r, s1) = Random ux s in (1 + r smod (TimerTicks * 2), s1))
      else (TimerTicks, s))"

definition Timer_new :: "unix \<Rightarrow> callback \<Rightarrow> bool \<Rightarrow> 'a devices_scheme \<Rightarrow> 'a devices_scheme res" where
  "Timer_new ux timerHandler doRandom s =
     (let tm = \<lparr>tm_randomize = doRandom, tm_handler = timerHandler\<rparr>;
          (t, s1) = TimeOfNextInterrupt ux tm (s\<lparr>the_timer := Some tm\<rparr>) in
      Schedule TimerHandler 0 t TimerInt s1)"

definition TimerExpired :: "unix \<Rightarrow> 'a devices_scheme \<Rightarrow> 'a devices_scheme res" where
  "TimerExpired ux s =
     rbind (dev (the_timer s)) (\<lambda>tm.
     let (t, s1) = TimeOfNextInterrupt ux tm s in
     rbind (Schedule TimerHandler 0 t TimerInt s1) (run_callback (tm_handler tm)))"

subsection \<open>Console\<close>

text \<open>The constructor with the standard input and output (\<^verbatim>\<open>readFile\<close> and \<^verbatim>\<open>writeFile\<close> NULL).\<close>

definition Console_new ::
    "byte list \<Rightarrow> callback \<Rightarrow> callback \<Rightarrow> 'a devices_scheme \<Rightarrow> 'a devices_scheme res" where
  "Console_new input readAvail writeDone s =
     Schedule ConsoleReadPoll 0 ConsoleTime ConsoleReadInt
       (s\<lparr>the_console := Some \<lparr>keyboard = input, display = [], cs_writeHandler = writeDone,
          cs_readHandler = readAvail, putBusy = False, incoming = EOF\<rparr>\<rparr>)"

definition CheckCharAvail :: "unix \<Rightarrow> 'a devices_scheme \<Rightarrow> 'a devices_scheme res" where
  "CheckCharAvail ux s =
     rbind (dev (the_console s)) (\<lambda>cs.
     rbind (Schedule ConsoleReadPoll 0 ConsoleTime ConsoleReadInt s) (\<lambda>s1.
     if incoming cs \<noteq> EOF \<or> \<not> poll_file ux (nat (totalTicks (stats s1))) then Inr s1
     else case keyboard cs of
         [] \<Rightarrow> Inl Aborted
       | c # rest \<Rightarrow>
           run_callback (cs_readHandler cs)
             (bump (\<lambda>st. st\<lparr>numConsoleCharsRead := numConsoleCharsRead st + 1\<rparr>)
               (s1\<lparr>the_console := Some (cs\<lparr>keyboard := rest, incoming := c\<rparr>)\<rparr>))))"

definition WriteDone :: "'a devices_scheme \<Rightarrow> 'a devices_scheme res" where
  "WriteDone s =
     rbind (dev (the_console s)) (\<lambda>cs.
     run_callback (cs_writeHandler cs)
       (bump (\<lambda>st. st\<lparr>numConsoleCharsWritten := numConsoleCharsWritten st + 1\<rparr>)
         (s\<lparr>the_console := Some (cs\<lparr>putBusy := False\<rparr>)\<rparr>)))"

definition GetChar :: "'a devices_scheme \<Rightarrow> (byte \<times> 'a devices_scheme) res" where
  "GetChar s =
     rbind (dev (the_console s)) (\<lambda>cs.
     Inr (incoming cs, s\<lparr>the_console := Some (cs\<lparr>incoming := EOF\<rparr>)\<rparr>))"

definition PutChar :: "byte \<Rightarrow> 'a devices_scheme \<Rightarrow> 'a devices_scheme res" where
  "PutChar ch s =
     rbind (dev (the_console s)) (\<lambda>cs.
     rbind (ASSERT (\<not> putBusy cs)) (\<lambda>_.
     Schedule ConsoleWriteDone 0 ConsoleTime ConsoleWriteInt
       (s\<lparr>the_console := Some (cs\<lparr>display := display cs @ [ch], putBusy := True\<rparr>)\<rparr>)))"

subsection \<open>Disk\<close>

text \<open>The constructor: an existing file must start with the magic number; a new one is created with
  it and padded to the size of the disk.\<close>

definition Disk_new :: "byte list option \<Rightarrow> callback \<Rightarrow> 'a devices_scheme \<Rightarrow> 'a devices_scheme res" where
  "Disk_new file callWhenDone s =
     rbind (case file of
              Some bs \<Rightarrow>
                if length bs < nat MagicSize then Inl Aborted
                else rbind (ASSERT (host_load32 False (take 4 bs) = MagicNumber)) (\<lambda>_. Inr bs)
            | None \<Rightarrow> Inr (host_store32 False MagicNumber @ replicate (nat (DiskSize - MagicSize)) 0)) (\<lambda>bs.
     Inr (s\<lparr>the_disk := Some \<lparr>dk_file = bs, dk_handler = callWhenDone, active = False,
        lastSector = 0, bufferInit = 0\<rparr>\<rparr>))"

definition TimeToSeek :: "disk \<Rightarrow> int \<Rightarrow> int \<Rightarrow> int \<times> int" where
  "TimeToSeek dk ticks newSector =
     (let newTrack = newSector sdiv SectorsPerTrack;
          oldTrack = lastSector dk sdiv SectorsPerTrack;
          seek = \<bar>newTrack - oldTrack\<bar> * SeekTime;
          over = (ticks + seek) smod RotationTime;
          rotation = (if over > 0 then RotationTime - over else 0) in
      (seek, rotation))"

definition ModuloDiff :: "int \<Rightarrow> int \<Rightarrow> int" where
  "ModuloDiff to from =
     (let toOffset = to smod SectorsPerTrack; fromOffset = from smod SectorsPerTrack in
      ((toOffset - fromOffset) + SectorsPerTrack) smod SectorsPerTrack)"

definition ComputeLatency :: "disk \<Rightarrow> int \<Rightarrow> int \<Rightarrow> bool \<Rightarrow> int" where
  "ComputeLatency dk ticks newSector writing =
     (let (seek, rotation) = TimeToSeek dk ticks newSector;
          timeAfter = ticks + seek + rotation in
      if \<not> writing \<and> seek = 0 \<and>
         (timeAfter - bufferInit dk) sdiv RotationTime > ModuloDiff newSector (bufferInit dk sdiv RotationTime)
      then RotationTime
      else let rotation' = rotation + ModuloDiff newSector (timeAfter sdiv RotationTime) * RotationTime in
           seek + rotation' + RotationTime)"

definition UpdateLast :: "int \<Rightarrow> int \<Rightarrow> disk \<Rightarrow> disk" where
  "UpdateLast ticks newSector dk =
     (let (seek, rotate) = TimeToSeek dk ticks newSector;
          dk1 = (if seek \<noteq> 0 then dk\<lparr>bufferInit := ticks + seek + rotate\<rparr> else dk) in
      dk1\<lparr>lastSector := newSector\<rparr>)"

text \<open>\<^verbatim>\<open>Lseek\<close> and \<^verbatim>\<open>Read\<close> or \<^verbatim>\<open>WriteFile\<close> of one sector of the file behind the disk.\<close>

definition sector_pos :: "int \<Rightarrow> nat" where
  "sector_pos sectorNumber = nat (SectorSize * sectorNumber + MagicSize)"

definition file_read :: "byte list \<Rightarrow> nat \<Rightarrow> nat \<Rightarrow> byte list res" where
  "file_read bs pos n = (if pos + n \<le> length bs then Inr (take n (drop pos bs)) else Inl Aborted)"

definition file_write :: "byte list \<Rightarrow> nat \<Rightarrow> byte list \<Rightarrow> byte list" where
  "file_write bs pos xs =
     take pos bs @ replicate (pos - length bs) 0 @ xs @ drop (pos + length xs) bs"

definition ReadRequest :: "int \<Rightarrow> 'a devices_scheme \<Rightarrow> (byte list \<times> 'a devices_scheme) res" where
  "ReadRequest sectorNumber s =
     rbind (dev (the_disk s)) (\<lambda>dk.
     let ticks = ComputeLatency dk (totalTicks (stats s)) sectorNumber False in
     rbind (ASSERT (\<not> active dk)) (\<lambda>_.
     rbind (ASSERT (sectorNumber \<ge> 0 \<and> sectorNumber < NumSectors)) (\<lambda>_.
     rbind (file_read (dk_file dk) (sector_pos sectorNumber) (nat SectorSize)) (\<lambda>data.
     rbind (Schedule DiskDone 0 ticks DiskInt
       (bump (\<lambda>st. st\<lparr>numDiskReads := numDiskReads st + 1\<rparr>)
         (s\<lparr>the_disk := Some (UpdateLast (totalTicks (stats s)) sectorNumber (dk\<lparr>active := True\<rparr>))\<rparr>))) (\<lambda>s1.
     Inr (data, s1))))))"

definition WriteRequest :: "int \<Rightarrow> byte list \<Rightarrow> 'a devices_scheme \<Rightarrow> 'a devices_scheme res" where
  "WriteRequest sectorNumber data s =
     rbind (dev (the_disk s)) (\<lambda>dk.
     let ticks = ComputeLatency dk (totalTicks (stats s)) sectorNumber True in
     rbind (ASSERT (\<not> active dk)) (\<lambda>_.
     rbind (ASSERT (sectorNumber \<ge> 0 \<and> sectorNumber < NumSectors)) (\<lambda>_.
     if length data < nat SectorSize then Inl Undefined
     else
     Schedule DiskDone 0 ticks DiskInt
       (bump (\<lambda>st. st\<lparr>numDiskWrites := numDiskWrites st + 1\<rparr>)
         (s\<lparr>the_disk := Some (UpdateLast (totalTicks (stats s)) sectorNumber
              (dk\<lparr>active := True,
                 dk_file := file_write (dk_file dk) (sector_pos sectorNumber) (take (nat SectorSize) data)\<rparr>))\<rparr>)))))"

definition HandleInterrupt :: "'a devices_scheme \<Rightarrow> 'a devices_scheme res" where
  "HandleInterrupt s =
     rbind (dev (the_disk s)) (\<lambda>dk.
     run_callback (dk_handler dk) (s\<lparr>the_disk := Some (dk\<lparr>active := False\<rparr>)\<rparr>))"

subsection \<open>Network\<close>

text \<open>A packet header as the twelve bytes of its three words.\<close>

definition header_bytes :: "PacketHeader \<Rightarrow> byte list" where
  "header_bytes h = host_store32 False (pk_to h) @ host_store32 False (pk_from h) @ host_store32 False (pk_length h)"

definition bytes_header :: "byte list \<Rightarrow> PacketHeader" where
  "bytes_header bs = \<lparr>pk_to = host_load32 False (take 4 bs), pk_from = host_load32 False (take 4 (drop 4 bs)),
     pk_length = host_load32 False (take 4 (drop 8 bs))\<rparr>"

text \<open>The constructor. The reliability, a \<^verbatim>\<open>double\<close>, is the rational number it stands for (the product with 100 in
  \<^verbatim>\<open>Send\<close> is not rounded); \<open>hdr\<close> and \<open>box\<close> are the uninitialised
  contents of the receive buffer.\<close>

definition Network_new ::
    "int32 \<Rightarrow> rat \<Rightarrow> callback \<Rightarrow> callback \<Rightarrow> PacketHeader \<Rightarrow> byte list \<Rightarrow> 'a devices_scheme \<Rightarrow> 'a devices_scheme res" where
  "Network_new addr reliability readAvail writeDone hdr box s =
     Schedule NetworkReadPoll 0 NetworkTime NetworkRecvInt
       (s\<lparr>the_network := Some \<lparr>ident = addr,
          chanceToWork = (if reliability < 0 then 0 else if reliability > 1 then 1 else reliability),
          net_in = [], net_out = [], nw_writeHandler = writeDone, nw_readHandler = readAvail,
          sendBusy = False, inHdr = hdr\<lparr>pk_length := 0\<rparr>, inbox = box\<rparr>\<rparr>)"

definition CheckPktAvail :: "unix \<Rightarrow> 'a devices_scheme \<Rightarrow> 'a devices_scheme res" where
  "CheckPktAvail ux s =
     rbind (dev (the_network s)) (\<lambda>nw.
     rbind (Schedule NetworkReadPoll 0 NetworkTime NetworkRecvInt s) (\<lambda>s1.
     if pk_length (inHdr nw) \<noteq> 0 then Inr s1
     else if \<not> poll_socket ux (nat (totalTicks (stats s1))) then Inr s1
     else case net_in nw of
         [] \<Rightarrow> Inl Aborted
       | buffer # rest \<Rightarrow>
           if length buffer \<noteq> nat MaxWireSize then Inl Aborted
           else let hdr = bytes_header buffer in
             rbind (ASSERT (pk_to hdr = ident nw \<and> uint (pk_length hdr) \<le> MaxPacketSize)) (\<lambda>_.
             run_callback (nw_readHandler nw)
               (bump (\<lambda>st. st\<lparr>numPacketsRecvd := numPacketsRecvd st + 1\<rparr>)
                 (s1\<lparr>the_network := Some (nw\<lparr>net_in := rest, inHdr := hdr,
                      inbox := take (unat (pk_length hdr)) (drop 12 buffer) @ drop (unat (pk_length hdr)) (inbox nw)\<rparr>)\<rparr>)))))"

definition SendDone :: "'a devices_scheme \<Rightarrow> 'a devices_scheme res" where
  "SendDone s =
     rbind (dev (the_network s)) (\<lambda>nw.
     run_callback (nw_writeHandler nw)
       (bump (\<lambda>st. st\<lparr>numPacketsSent := numPacketsSent st + 1\<rparr>)
         (s\<lparr>the_network := Some (nw\<lparr>sendBusy := False\<rparr>)\<rparr>)))"

text \<open>\<open>junk\<close> is what the rest of the freshly allocated wire buffer contains.\<close>

definition Network_Send ::
    "unix \<Rightarrow> byte list \<Rightarrow> PacketHeader \<Rightarrow> byte list \<Rightarrow> 'a devices_scheme \<Rightarrow> 'a devices_scheme res" where
  "Network_Send ux junk hdr data s =
     rbind (dev (the_network s)) (\<lambda>nw.
     rbind (ASSERT (\<not> sendBusy nw \<and> uint (pk_length hdr) > 0 \<and> uint (pk_length hdr) \<le> MaxPacketSize \<and>
                    pk_from hdr = ident nw)) (\<lambda>_.
     rbind (Schedule NetworkSendDone 0 NetworkTime NetworkSendInt s) (\<lambda>s1.
     let (r, s2) = Random ux s1 in
     if of_int (r smod 100) \<ge> chanceToWork nw * 100 then Inr s2
     else if length data < unat (pk_length hdr) then Inl Undefined
     else
       let buffer = header_bytes hdr @ take (unat (pk_length hdr)) data @
             take (nat MaxPacketSize - unat (pk_length hdr)) junk in
       Inr (s2\<lparr>the_network := Some (nw\<lparr>net_out := net_out nw @ [(pk_to hdr, buffer)]\<rparr>)\<rparr>))))"

definition Network_Receive :: "byte list \<Rightarrow> 'a devices_scheme \<Rightarrow> ((PacketHeader \<times> byte list) \<times> 'a devices_scheme) res" where
  "Network_Receive data s =
     rbind (dev (the_network s)) (\<lambda>nw.
     let hdr = inHdr nw; n = unat (pk_length hdr);
         s1 = s\<lparr>the_network := Some (nw\<lparr>inHdr := hdr\<lparr>pk_length := 0\<rparr>\<rparr>)\<rparr> in
     if pk_length hdr \<noteq> 0
     then if n \<le> length (inbox nw) \<and> n \<le> length data
          then Inr ((hdr, take n (inbox nw) @ drop n data), s1) else Inl Undefined
     else Inr ((hdr, data), s1))"

subsection \<open>The interrupt handlers that the devices register\<close>

definition call_handler :: "unix \<Rightarrow> int_handler \<Rightarrow> int \<Rightarrow> 'a devices_scheme \<Rightarrow> 'a devices_scheme res" where
  "call_handler ux h arg s =
     (case h of
        TimerHandler \<Rightarrow> TimerExpired ux s
      | DiskDone \<Rightarrow> HandleInterrupt s
      | ConsoleReadPoll \<Rightarrow> CheckCharAvail ux s
      | ConsoleWriteDone \<Rightarrow> WriteDone s
      | NetworkReadPoll \<Rightarrow> CheckPktAvail ux s
      | NetworkSendDone \<Rightarrow> SendDone s)"

subsection \<open>The handlers keep the contract\<close>

text \<open>What a handler may do to the interrupt hardware: schedule later interrupts.\<close>

definition only_schedules :: "'a hardware_scheme \<Rightarrow> 'a hardware_scheme \<Rightarrow> bool" where
  "only_schedules s s' \<longleftrightarrow> level s' = level s \<and> now s' = now s \<and> inHandler s' = inHandler s \<and>
     (\<exists>new. pending s' = foldl (\<lambda>ps x. kinsert x ps) (pending s) new \<and> (\<forall>x \<in> set new. now s < fst x))"

lemma only_schedules_refl:
  "level s' = level s \<Longrightarrow> now s' = now s \<Longrightarrow> inHandler s' = inHandler s \<Longrightarrow> pending s' = pending s \<Longrightarrow>
   only_schedules s s'"
  unfolding only_schedules_def by (auto intro!: exI [of _ "[]"])

lemma only_schedules_trans:
  assumes "only_schedules s t" "only_schedules t u"
  shows "only_schedules s u"
proof -
  from assms obtain new new' where
    "pending t = foldl (\<lambda>ps x. kinsert x ps) (pending s) new" "\<forall>x \<in> set new. now s < fst x"
    "pending u = foldl (\<lambda>ps x. kinsert x ps) (pending t) new'" "\<forall>x \<in> set new'. now t < fst x" "now t = now s"
    by (auto simp: only_schedules_def)
  then have "pending u = foldl (\<lambda>ps x. kinsert x ps) (pending s) (new @ new') \<and> (\<forall>x \<in> set (new @ new'). now s < fst x)"
    by auto
  with assms show ?thesis unfolding only_schedules_def by metis
qed

lemma only_schedules_level: "only_schedules s t \<Longrightarrow> level t = level s"
  by (simp add: only_schedules_def)

lemma Schedule_only_schedules:
  assumes "Schedule h a f ty s = Inr s'"
  shows "only_schedules s s'"
proof -
  from assms have "0 < f" "s' = s\<lparr>pending := kinsert (now s + f, PendingInterrupt_new h a (now s + f) ty) (pending s)\<rparr>"
    by (auto simp: Schedule_def Let_def rbind_eq_Inr ASSERT_eq_Inr now_def)
  then show ?thesis
    unfolding only_schedules_def
    by (auto simp: now_def intro!: exI [of _ "[(now s + f, PendingInterrupt_new h a (now s + f) ty)]"])
qed

lemma run_callback_only_schedules:
  assumes "level s = IntOff" and "run_callback cb s = Inr s'"
  shows "only_schedules s s'"
proof (cases cb)
  case TimerInterruptHandler
  then show ?thesis using assms(2)
    by (auto simp: run_callback_def YieldOnReturn_def rbind_eq_Inr now_def split: if_splits intro!: only_schedules_refl)
next
  case (Signal sm)
  then have "V_section sm s = Inr s'"
    using assms Semaphore_V_in_handler [OF assms(1)] by (simp add: run_callback_def)
  then show ?thesis by (intro only_schedules_refl) (auto dest: V_section_hardware)
qed

lemma callback_after:
  assumes "only_schedules s t" "level s = IntOff" "run_callback cb t = Inr s'"
  shows "only_schedules s s'"
  using assms run_callback_only_schedules [of t cb s'] only_schedules_level [of s t] only_schedules_trans [of s t s']
  by simp

text \<open>Changing a device object or a counter other than the clock.\<close>

lemma device_update:
  assumes "only_schedules s t"
  shows "(\<And>st. totalTicks (f st) = totalTicks st) \<Longrightarrow> only_schedules s (bump f (t\<lparr>the_console := c\<rparr>))"
    and "(\<And>st. totalTicks (f st) = totalTicks st) \<Longrightarrow> only_schedules s (bump f (t\<lparr>the_network := n\<rparr>))"
    and "only_schedules s (t\<lparr>the_disk := d\<rparr>)"
proof -
  show "only_schedules s (t\<lparr>the_disk := d\<rparr>)"
    using assms by (rule only_schedules_trans) (simp add: only_schedules_refl now_def)
  assume f: "\<And>st. totalTicks (f st) = totalTicks st"
  show "only_schedules s (bump f (t\<lparr>the_console := c\<rparr>))" "only_schedules s (bump f (t\<lparr>the_network := n\<rparr>))"
    using assms by (rule only_schedules_trans; simp add: only_schedules_refl bump_def now_def f)+
qed

lemma TimeOfNextInterrupt_hardware:
  assumes "TimeOfNextInterrupt ux tm s = (t, s')"
  shows "only_schedules s s'"
  using assms by (auto simp: TimeOfNextInterrupt_def Random_def now_def split: if_splits intro!: only_schedules_refl)

lemma TimerExpired_only_schedules:
  assumes "level s = IntOff" and "TimerExpired ux s = Inr s'"
  shows "only_schedules s s'"
proof -
  from assms(2) obtain tm where "dev (the_timer s) = Inr tm" by (auto simp: TimerExpired_def rbind_eq_Inr)
  moreover obtain t s1 where t: "TimeOfNextInterrupt ux tm s = (t, s1)" by (cases "TimeOfNextInterrupt ux tm s")
  ultimately obtain s2 where s2: "Schedule TimerHandler 0 t TimerInt s1 = Inr s2"
      "run_callback (tm_handler tm) s2 = Inr s'"
    using assms(2) by (auto simp: TimerExpired_def rbind_eq_Inr)
  show ?thesis
    using only_schedules_trans [OF TimeOfNextInterrupt_hardware [OF t] Schedule_only_schedules [OF s2(1)]] assms(1) s2(2)
    by (rule callback_after)
qed

lemma CheckCharAvail_only_schedules:
  assumes "level s = IntOff" and "CheckCharAvail ux s = Inr s'"
  shows "only_schedules s s'"
proof -
  from assms(2) obtain cs s1 where cs: "dev (the_console s) = Inr cs"
    and s1: "Schedule ConsoleReadPoll 0 ConsoleTime ConsoleReadInt s = Inr s1"
    by (auto simp: CheckCharAvail_def rbind_eq_Inr)
  note sch = Schedule_only_schedules [OF s1]
  show ?thesis
  proof (cases "incoming cs \<noteq> EOF \<or> \<not> poll_file ux (nat (totalTicks (stats s1)))")
    case True
    with assms(2) cs s1 sch show ?thesis by (auto simp: CheckCharAvail_def)
  next
    case False
    with assms(2) cs s1 obtain c rest where "keyboard cs = c # rest"
      by (cases "keyboard cs") (auto simp: CheckCharAvail_def)
    with False assms(2) cs s1 show ?thesis
      by (intro callback_after [OF device_update(1) [OF sch] assms(1)]) (auto simp: CheckCharAvail_def)
  qed
qed

lemma CheckPktAvail_only_schedules:
  assumes "level s = IntOff" and "CheckPktAvail ux s = Inr s'"
  shows "only_schedules s s'"
proof -
  from assms(2) obtain nw s1 where nw: "dev (the_network s) = Inr nw"
    and s1: "Schedule NetworkReadPoll 0 NetworkTime NetworkRecvInt s = Inr s1"
    by (auto simp: CheckPktAvail_def rbind_eq_Inr)
  note sch = Schedule_only_schedules [OF s1]
  show ?thesis
  proof (cases "pk_length (inHdr nw) \<noteq> 0 \<or> \<not> poll_socket ux (nat (totalTicks (stats s1)))")
    case True
    with assms(2) nw s1 sch show ?thesis
      by (cases "pk_length (inHdr nw) = 0") (auto simp: CheckPktAvail_def)
  next
    case False
    with assms(2) nw s1 obtain b rest where b: "net_in nw = b # rest"
      by (cases "net_in nw") (auto simp: CheckPktAvail_def)
    with False assms(2) nw s1 have len: "length b = nat MaxWireSize"
      by (auto simp: CheckPktAvail_def split: if_splits)
    let ?h = "bytes_header b"
    from b len False assms(2) nw s1 have
      ok: "ASSERT (pk_to ?h = ident nw \<and> uint (pk_length ?h) \<le> MaxPacketSize) = Inr ()"
      by (auto simp: CheckPktAvail_def Let_def rbind_eq_Inr)
    from False b len ok assms(2) nw s1 show ?thesis
      by (intro callback_after [OF device_update(2) [OF sch] assms(1)]) (auto simp: CheckPktAvail_def Let_def)
  qed
qed

lemma call_handler_only_schedules:
  assumes "level s = IntOff" and "call_handler ux h a s = Inr s'"
  shows "only_schedules s s'"
proof -
  have self: "only_schedules s s" by (rule only_schedules_refl) simp_all
  show ?thesis
  proof (cases h)
    case TimerHandler
    with assms TimerExpired_only_schedules show ?thesis by (auto simp: call_handler_def)
  next
    case DiskDone
    with assms show ?thesis
      by (auto simp: call_handler_def HandleInterrupt_def rbind_eq_Inr
          intro: callback_after [OF device_update(3) [OF self]])
  next
    case ConsoleReadPoll
    with assms CheckCharAvail_only_schedules show ?thesis by (auto simp: call_handler_def)
  next
    case ConsoleWriteDone
    with assms(2) obtain cs where "run_callback (cs_writeHandler cs)
        (bump (\<lambda>st. st\<lparr>numConsoleCharsWritten := numConsoleCharsWritten st + 1\<rparr>)
          (s\<lparr>the_console := Some (cs\<lparr>putBusy := False\<rparr>)\<rparr>)) = Inr s'"
      by (auto simp: call_handler_def WriteDone_def rbind_eq_Inr)
    then show ?thesis by (rule callback_after [OF device_update(1) [OF self] assms(1), rotated]) simp
  next
    case NetworkReadPoll
    with assms CheckPktAvail_only_schedules show ?thesis by (auto simp: call_handler_def)
  next
    case NetworkSendDone
    with assms(2) obtain nw where "run_callback (nw_writeHandler nw)
        (bump (\<lambda>st. st\<lparr>numPacketsSent := numPacketsSent st + 1\<rparr>)
          (s\<lparr>the_network := Some (nw\<lparr>sendBusy := False\<rparr>)\<rparr>)) = Inr s'"
      by (auto simp: call_handler_def SendDone_def rbind_eq_Inr)
    then show ?thesis by (rule callback_after [OF device_update(2) [OF self] assms(1), rotated]) simp
  qed
qed

lemma Schedule_ends: "ends (Schedule h a f ty s)"
  by (auto simp: Schedule_def Let_def intro!: ends_rbind)

lemma dev_ends: "ends (dev d)"
  by (simp add: dev_def split: option.split)

lemma run_callback_ends: "level s = IntOff \<Longrightarrow> ends (run_callback cb s)"
  by (auto simp: run_callback_def YieldOnReturn_def Semaphore_V_in_handler V_section_ends
      split: callback.split intro!: ends_rbind)

lemma call_handler_ends:
  assumes off: "level s = IntOff"
  shows "ends (call_handler ux h a s)"
proof -
  have sched: "ends (rbind (Schedule h a f ty t) k)"
    if "level t = IntOff" "\<And>u. level u = IntOff \<Longrightarrow> ends (k u)" for h a f ty and t :: "'a devices_scheme" and k :: "_ \<Rightarrow> 'a devices_scheme res"
    using that by (intro ends_rbind Schedule_ends) (auto dest: Schedule_only_schedules simp: only_schedules_def)
  have lv: "level (snd (TimeOfNextInterrupt ux tm s)) = IntOff" for tm
    using off by (auto simp: TimeOfNextInterrupt_def Random_def)
  show ?thesis
  proof (cases h)
    case TimerHandler
    have "ends (TimerExpired ux s)"
      unfolding TimerExpired_def
    proof (intro ends_rbind dev_ends)
      fix tm
      show "ends (let (t, s1) = TimeOfNextInterrupt ux tm s in
          rbind (Schedule TimerHandler 0 t TimerInt s1) (run_callback (tm_handler tm)))"
        using lv [of tm] by (auto simp: split_beta intro!: sched run_callback_ends)
    qed
    with TimerHandler show ?thesis by (simp add: call_handler_def)
  next
    case ConsoleReadPoll
    have "ends (CheckCharAvail ux s)"
      unfolding CheckCharAvail_def
      by (intro ends_rbind [OF dev_ends] sched off) (auto simp: bump_def split: list.split intro!: run_callback_ends)
    with ConsoleReadPoll show ?thesis by (simp add: call_handler_def)
  next
    case NetworkReadPoll
    have "ends (CheckPktAvail ux s)"
      unfolding CheckPktAvail_def
      by (intro ends_rbind [OF dev_ends] sched off)
        (auto simp: bump_def Let_def split: list.split intro!: ends_rbind run_callback_ends)
    with NetworkReadPoll show ?thesis by (simp add: call_handler_def)
  qed (use off in \<open>auto simp: call_handler_def HandleInterrupt_def WriteDone_def SendDone_def bump_def dev_ends
      intro!: ends_rbind run_callback_ends\<close>)
qed

interpretation dev_handlers: interrupt_handlers "call_handler ux" for ux
proof
  fix s s' :: "'a devices_scheme" and h a
  assume "level s = IntOff" "call_handler ux h a s = Inr s'"
  then show "level s' = IntOff \<and> now s' = now s \<and>
      (\<exists>new. pending s' = foldl (\<lambda>ps x. kinsert x ps) (pending s) new \<and> (\<forall>x \<in> set new. now s < fst x))"
    using call_handler_only_schedules [of s ux h a s'] by (simp add: only_schedules_def)
qed (rule call_handler_ends)

subsection \<open>Properties of interrupt delivery\<close>

text \<open>C26. \<^verbatim>\<open>Interrupt::OneTick\<close> outside the idle loop always ends its loop: it advances the clock by one user
  or system tick, runs exactly the pending interrupts whose time has come, once each and in the
  order of their times, with interrupts off, and no interrupt is overdue afterwards; interrupts are
  on again, the list of pending interrupts is sorted, and the processor is given up exactly when a
  handler has asked for it.\<close>

theorem OneTick_delivers_due:
  assumes "sorted (map fst (pending s))" and "status s \<noteq> IdleMode"
  shows "let call = call_handler ux; s0 = (tick_clock s)\<lparr>level := IntOff\<rparr> in
    now s0 = now s + (if status s = SystemMode then 10 else 1) \<and>
    (case for_each (\<lambda>x. fire call (snd x)) (due s0) s0 of
       Inl e \<Rightarrow> OneTick call yield s = Inl e
     | Inr s1 \<Rightarrow>
         now s1 = now s0 \<and> sorted (map fst (pending (put_back s1))) \<and>
         (\<forall>x \<in> set (pending (put_back s1)). now s1 < fst x) \<and>
         OneTick call yield s =
           (if yieldOnReturn s1
            then rbind (yield ((put_back s1)\<lparr>level := IntOn, yieldOnReturn := False, status := SystemMode\<rparr>))
                   (\<lambda>s3. Inr (s3\<lparr>status := status s\<rparr>))
            else Inr ((put_back s1)\<lparr>level := IntOn\<rparr>)))"
proof -
  let ?s0 = "(tick_clock s)\<lparr>level := IntOff\<rparr>"
  have s0: "level ?s0 = IntOff" "sorted (map fst (pending ?s0))"
      "now ?s0 = now s + (if status s = SystemMode then 10 else 1)"
    using assms by (simp_all add: tick_clock_def Let_def now_def const_defs)
  note eq = dev_handlers.OneTick_eq [OF assms, of ux yield]
  show ?thesis
  proof (cases "for_each (\<lambda>x. fire (call_handler ux) (snd x)) (due ?s0) ?s0")
    case (Inl e)
    then show ?thesis using eq s0(3) by simp
  next
    case (Inr s1)
    note f = dev_handlers.fire_all [OF s0(1,2) Inr]
    have "due s1 = []" "sorted (map fst (pending s1))" using f by blast+
    then have "\<forall>x \<in> set (pending s1). now s1 < fst x"
      unfolding due_def by (intro sorted_none_due)
    then have "\<forall>x \<in> set (pending (put_back s1)). now s1 < fst x"
      by (metis put_back_simps(5) set_mset_mset)
    moreover have "yieldOnReturn (put_back s1) = yieldOnReturn s1" by (simp add: put_back_def)
    ultimately show ?thesis using eq f Inr s0(3) by (simp add: Let_def)
  qed
qed

text \<open>C27. \<^verbatim>\<open>Interrupt::Idle\<close> halts the machine when nothing is pending or only the timer is. Otherwise the clock moves forward to the
  first pending interrupt (never backwards), the time skipped is accounted as idle time, and the interrupts that are due then
  run in order, each once, except for the timer's when it is the only one pending. If a handler stops the kernel, that is how \<^verbatim>\<open>Idle\<close> ends;
  if none does, \<^verbatim>\<open>Idle\<close> returns, in system mode, with no context switch requested, and nothing else is due. It
  never goes on forever.\<close>

theorem Idle_advances_to_next_interrupt:
  assumes "level s = IntOff" and "sorted (map fst (pending s))"
  shows "case pending s of
      [] \<Rightarrow> Idle (call_handler ux) s = Inl Halted
    | (w, p) # ps \<Rightarrow>
        if ps = [] \<and> pi_type p = TimerInt then Idle (call_handler ux) s = Inl Halted
        else let k = skip_to w (s\<lparr>status := IdleMode\<rparr>) in
          now k = max (now s) w \<and> idleTicks (stats k) = idleTicks (stats s) + (now k - now s) \<and> pending k = pending s \<and> (w, p) \<in> set (due k) \<and>
          (case for_each (fire_idle (call_handler ux)) (due k) k of
             Inl e \<Rightarrow> e \<noteq> Diverged \<and> Idle (call_handler ux) s = Inl e
           | Inr s2 \<Rightarrow> Idle (call_handler ux) s = Inr ((put_back s2)\<lparr>yieldOnReturn := False, status := SystemMode\<rparr>) \<and>
               now s2 = now k \<and> level s2 = IntOff \<and> sorted (map fst (pending (put_back s2))) \<and> (due s2 = [] \<or> only_timer s2))"
proof (cases "pending s")
  case Nil
  then show ?thesis using assms(1) by (simp add: Idle_def CheckIfDue_def Halt_def)
next
  case (Cons x ps)
  obtain w p where x: "x = (w, p)" by (cases x)
  let ?s = "s\<lparr>status := IdleMode\<rparr>" and ?call = "call_handler ux"
  have chk: "CheckIfDue ?call True ?s =
      (if ps = [] \<and> pi_type p = TimerInt then Inr (False, skip_to w ?s)
       else rbind (fire ?call p (skip_to w ?s)) (\<lambda>s'. Inr (True, s')))"
    using assms(1) Cons x by (intro CheckIfDue_advance) simp_all
  show ?thesis
  proof (cases "ps = [] \<and> pi_type p = TimerInt")
    case True
    then show ?thesis using Cons x chk by (simp add: Idle_def Halt_def)
  next
    case more: False
    define k where "k = skip_to w ?s"
    have k: "level k = IntOff" "pending k = (w, p) # ps" "now k = max (now s) w" "idleTicks (stats k) = idleTicks (stats s) + (now k - now s)"
      "sorted (map fst (pending k))"
      using assms Cons x by (auto simp: skip_to_def now_def k_def)
    have d: "due k = (w, p) # takeWhile (\<lambda>x. fst x \<le> now k) ps" using k by (simp add: due_def)
    have "\<not> only_timer k" using k(2) more by (auto simp: only_timer_iff)
    then have first: "for_each (fire_idle ?call) (due k) k = rbind (fire ?call p k) (for_each (fire_idle ?call) (takeWhile (\<lambda>x. fst x \<le> now k) ps))"
      by (simp add: d fire_idle_def)
    have idle: "Idle ?call s = rbind (for_each (fire_idle ?call) (due k) k) (\<lambda>s2. Inr ((put_back s2)\<lparr>yieldOnReturn := False, status := SystemMode\<rparr>))"
    proof (cases "fire ?call p k")
      case (Inl e)
      then show ?thesis using chk more first by (simp add: Idle_def flip: k_def)
    next
      case (Inr s1)
      have "level s1 = IntOff" "sorted (map fst (pending s1))" "due s1 = takeWhile (\<lambda>x. fst x \<le> now k) ps"
        using dev_handlers.fire_due [OF k(1,5) d Inr] by auto
      with dev_handlers.due_loop_idle_eq [of s1 ux] chk more Inr first show ?thesis
        by (simp add: Idle_def rbind_assoc flip: k_def)
    qed
    have "(w, p) \<in> set (due k)" by (simp add: d)
    with dev_handlers.fire_idle_all [OF k(1,5), of ux] idle k more Cons x show ?thesis
      by (auto simp: k_def [symmetric] Let_def split: sum.splits)
  qed
qed

text \<open>A machine with a console, its poll due, and a thread waiting for a character.\<close>

definition console_machine :: devices where
  "console_machine =
     \<lparr>registers = replicate NumTotalRegs 0, mainMemory = (\<lambda>_. 0), tables = Map.empty, tlb = None,
      pageTable = None, pageTableSize = 0, singleStep = False, runUntilTime = 0,
      stats = Statistics_new, level = IntOff,
      pending = [(5, \<lparr>pi_handler = ConsoleReadPoll, pi_arg = 0, pi_when = 5, pi_type = ConsoleReadInt\<rparr>)],
      inHandler = False, yieldOnReturn = False, status = SystemMode,
      threads = [0 \<mapsto> (Thread_new ''main'' [])\<lparr>th_status := BLOCKED\<rparr>], currentThread = 0,
      threadToBeDestroyed = None, readyList = [],
      semaphores = [2 \<mapsto> \<lparr>sem_name = ''Synch Read Avail'', sem_value = 0, sem_queue = [0]\<rparr>], spaces = Map.empty,
      the_timer = None,
      the_console = Some \<lparr>keyboard = [65, 66], display = [], cs_writeHandler = Signal 3, cs_readHandler = Signal 2,
        putBusy = False, incoming = EOF\<rparr>,
      the_disk = None, the_network = None, random_calls = 0\<rparr>"

definition typing :: unix where
  "typing = \<lparr>poll_file = (\<lambda>_. True), poll_socket = (\<lambda>_. False), rand = (\<lambda>_. 0)\<rparr>"

theorem OneTick_delivers_due_witness:
  "sorted (map fst (pending console_machine)) \<and> status console_machine \<noteq> IdleMode \<and>
   (let s0 = (tick_clock console_machine)\<lparr>level := IntOff\<rparr> in now s0 = 10 \<and> length (due s0) = 1) \<and>
   OneTick (call_handler typing) (\<lambda>_. Inl Undefined) console_machine \<noteq> Inl Diverged"
proof -
  let ?m = console_machine and ?s0 = "(tick_clock console_machine)\<lparr>level := IntOff\<rparr>"
  have a: "sorted (map fst (pending ?m))" "status ?m \<noteq> IdleMode" "now ?m = 0" "status ?m = SystemMode"
    by (simp_all add: console_machine_def now_def Statistics_new_def)
  note t = OneTick_delivers_due [OF a(1,2), of typing "\<lambda>_. Inl Undefined"]
  have n: "now ?s0 = 10" using t a by (simp add: Let_def)
  have "length (due ?s0) = 1"
    using n by (simp add: due_def) (simp add: console_machine_def tick_clock_def)
  moreover have "ends (for_each (\<lambda>x. fire (call_handler typing) (snd x)) (due ?s0) ?s0)"
  proof -
    obtain x where "due ?s0 = [x]" using \<open>length (due ?s0) = 1\<close> by (metis One_nat_def length_0_conv length_Suc_conv)
    then show ?thesis by (auto intro!: ends_rbind dev_handlers.fire_ends)
  qed
  ultimately show ?thesis using t a n by (auto simp: Let_def ends_def split: sum.splits if_splits)
qed

lemma console_machine_idle:
  "case for_each (fire_idle (call_handler typing)) (due (skip_to 5 (console_machine\<lparr>status := IdleMode\<rparr>))) (skip_to 5 (console_machine\<lparr>status := IdleMode\<rparr>)) of
     Inl e \<Rightarrow> False | Inr s2 \<Rightarrow> readyList s2 = [0] \<and> map_option incoming (the_console s2) = Some 65"
  by code_simp

theorem Idle_advances_to_next_interrupt_witness:
  "\<exists>s'. Idle (call_handler typing) console_machine = Inr s' \<and> now s' = 5 \<and> readyList s' = [0]"
proof -
  let ?m = console_machine
  have a: "level ?m = IntOff" "sorted (map fst (pending ?m))" "now ?m = 0"
    and p: "pending ?m = [(5, \<lparr>pi_handler = ConsoleReadPoll, pi_arg = 0, pi_when = 5, pi_type = ConsoleReadInt\<rparr>)]"
    by (simp_all add: console_machine_def now_def Statistics_new_def)
  from Idle_advances_to_next_interrupt [OF a(1,2), of typing] console_machine_idle a(3) show ?thesis
    by (auto simp: p Let_def now_def put_back_def split: sum.splits)
qed

subsection \<open>The disk\<close>

definition disk_ok :: "disk \<Rightarrow> bool" where
  "disk_ok dk \<longleftrightarrow> length (dk_file dk) = nat DiskSize \<and> 0 \<le> lastSector dk \<and> lastSector dk < NumSectors \<and>
     0 \<le> bufferInit dk"

definition sector :: "disk \<Rightarrow> int \<Rightarrow> byte list" where
  "sector dk n = take 128 (drop (sector_pos n) (dk_file dk))"

lemma ModuloDiff_range:
  assumes "0 \<le> a" "0 \<le> b"
  shows "0 \<le> ModuloDiff a b \<and> ModuloDiff a b < 32"
proof -
  have "0 \<le> a mod 32 - b mod 32 + 32"
    using pos_mod_sign [of 32 a] pos_mod_bound [of 32 b] by linarith
  then show ?thesis using assms by (simp add: ModuloDiff_def const_defs)
qed

lemma TimeToSeek_range:
  assumes "disk_ok dk" "0 \<le> ticks" "0 \<le> n" "n < NumSectors" "TimeToSeek dk ticks n = (seek, rotation)"
  shows "0 \<le> seek \<and> seek \<le> 31 * 500 \<and> 0 \<le> rotation \<and> rotation < 500"
proof -
  have t: "0 \<le> n div 32" "n div 32 \<le> 31" "0 \<le> lastSector dk div 32" "lastSector dk div 32 \<le> 31"
    using assms(1,3,4) by (auto simp: disk_ok_def const_defs)
  let ?sk = "\<bar>n div 32 - lastSector dk div 32\<bar> * 500"
  have sk: "0 \<le> ?sk" "?sk \<le> 31 * 500" using t by (auto simp: abs_if)
  moreover have "0 \<le> (ticks + ?sk) mod 500" "(ticks + ?sk) mod 500 < 500" by simp_all
  moreover have "seek = ?sk" "rotation = (if (ticks + ?sk) mod 500 > 0 then 500 - (ticks + ?sk) mod 500 else 0)"
    using assms sk by (auto simp: TimeToSeek_def Let_def const_defs disk_ok_def)
  ultimately show ?thesis by auto
qed

lemma ComputeLatency_range:
  assumes "disk_ok dk" "0 \<le> ticks" "0 \<le> n" "n < NumSectors"
  shows "500 \<le> ComputeLatency dk ticks n w \<and> ComputeLatency dk ticks n w \<le> 31 * 500 + 500 + 31 * 500 + 500"
proof -
  obtain seek rotation where tts: "TimeToSeek dk ticks n = (seek, rotation)" by (cases "TimeToSeek dk ticks n")
  note r = TimeToSeek_range [OF assms tts]
  have "0 \<le> ticks + seek + rotation" using r assms(2) by linarith
  then have "0 \<le> (ticks + seek + rotation) sdiv RotationTime" by (simp add: const_defs)
  from ModuloDiff_range [OF assms(3) this] r show ?thesis
    by (simp add: ComputeLatency_def tts Let_def) (simp add: const_defs)
qed

lemma UpdateLast_file [simp]: "dk_file (UpdateLast t n dk) = dk_file dk" "active (UpdateLast t n dk) = active dk"
  by (simp_all add: UpdateLast_def Let_def split_beta)

lemma UpdateLast_ok:
  assumes "disk_ok dk" "0 \<le> ticks" "0 \<le> n" "n < NumSectors"
  shows "disk_ok (UpdateLast ticks n dk)"
  using assms TimeToSeek_range [OF assms]
  by (cases "TimeToSeek dk ticks n") (auto simp: UpdateLast_def Let_def disk_ok_def)

lemma file_write_inside:
  "pos + length xs \<le> length bs \<Longrightarrow>
   length (file_write bs pos xs) = length bs \<and>
   file_write bs pos xs = take pos bs @ xs @ drop (pos + length xs) bs"
  by (simp add: file_write_def)

lemma sector_write:
  assumes "length bs = nat DiskSize" "length xs = 128" "0 \<le> n" "n < NumSectors" "0 \<le> m" "m < NumSectors"
  shows "take 128 (drop (sector_pos m) (file_write bs (sector_pos n) xs)) =
    (if m = n then xs else take 128 (drop (sector_pos m) bs))"
proof -
  have pos: "sector_pos k = 4 + nat k * 128" if "0 \<le> k" for k
    using that by (simp add: sector_pos_def const_defs nat_add_distrib nat_mult_distrib)
  have len: "length bs = 4 + 1024 * 128" using assms(1) by (simp add: const_defs)
  obtain a b where ab: "n = int a" "m = int b" "a < 1024" "b < 1024"
    using assms(3-6) by (simp add: const_defs) (metis nonneg_int_cases of_nat_less_iff of_nat_numeral)
  have w: "file_write bs (4 + a * 128) xs = take (4 + a * 128) bs @ xs @ drop (4 + a * 128 + 128) bs"
    using file_write_inside [of "4 + a * 128" xs bs] ab len assms(2) by simp
  consider "a = b" | "a < b" | "b < a" by linarith
  then show ?thesis
  proof cases
    case 1
    then show ?thesis using ab w len assms(2) by (simp add: pos)
  next
    case 2
    then have "128 + a * 128 \<le> b * 128" by simp
    with 2 show ?thesis using ab w len assms(2) by (simp add: pos)
  next
    case 3
    then have "128 + b * 128 \<le> a * 128" by simp
    then have "128 \<le> a * 128 - b * 128" by simp
    with 3 show ?thesis using ab w len assms(2) by (simp add: pos drop_take min_def)
  qed
qed

text \<open>The disk stores sectors: on a well-formed disk with no request in progress, \<^verbatim>\<open>WriteRequest\<close> of any
  sector is accepted, its interrupt is scheduled after a positive, bounded time (so the check in
  \<^verbatim>\<open>Schedule\<close> cannot fail), and the disk is busy: another request before the interrupt aborts. Once the
  interrupt has come, \<^verbatim>\<open>ReadRequest\<close> returns the data written to that sector and the old contents of
  every other sector.\<close>

theorem Disk_read_after_write:
  fixes s :: "'a devices_scheme"
  assumes dk: "the_disk s = Some dk" "disk_ok dk" "\<not> active dk" and t: "0 \<le> now s"
    and n: "0 \<le> n" "n < NumSectors" and data: "length data = 128"
  shows "\<exists>s1 dk1. WriteRequest n data s = Inr s1 \<and> the_disk s1 = Some dk1 \<and> active dk1 \<and> disk_ok dk1 \<and>
    (\<exists>w p. pending s1 = kinsert (w, p) (pending s) \<and> now s + 500 \<le> w \<and> w \<le> now s + 32000 \<and> pi_handler p = DiskDone) \<and>
    (\<forall>m d. WriteRequest m d s1 = Inl Aborted \<and> ReadRequest m s1 = Inl Aborted) \<and>
    (\<forall>(s2 :: 'a devices_scheme) m. the_disk s2 = Some (dk1\<lparr>active := False\<rparr>) \<longrightarrow> 0 \<le> now s2 \<longrightarrow> 0 \<le> m \<longrightarrow> m < NumSectors \<longrightarrow>
       (\<exists>s3. ReadRequest m s2 = Inr (if m = n then data else sector dk m, s3)))"
proof -
  let ?file = "file_write (dk_file dk) (sector_pos n) data"
  let ?dk0 = "dk\<lparr>active := True, dk_file := ?file\<rparr>"
  define lat where "lat = ComputeLatency dk (now s) n True"
  define dk1 where "dk1 = UpdateLast (now s) n ?dk0"
  define p where "p = PendingInterrupt_new DiskDone 0 (now s + lat) DiskInt"
  define s1 where "s1 = (bump (\<lambda>st. st\<lparr>numDiskWrites := numDiskWrites st + 1\<rparr>)
    (s\<lparr>the_disk := Some dk1\<rparr>))\<lparr>pending := kinsert (now s + lat, p) (pending s)\<rparr>"
  have lat: "500 \<le> lat" "lat \<le> 32000" unfolding lat_def using ComputeLatency_range [OF dk(2) t n] by auto
  have w: "WriteRequest n data s = Inr s1"
    using dk n data lat
    by (simp add: WriteRequest_def dev_def Let_def Schedule_def s1_def dk1_def p_def lat_def now_def bump_def const_defs)
  have len: "length ?file = length (dk_file dk)"
    using file_write_inside [of "sector_pos n" data "dk_file dk"] dk(2) n data
    by (simp add: disk_ok_def sector_pos_def const_defs nat_add_distrib nat_mult_distrib)
  have "disk_ok ?dk0" using dk(2) len by (simp add: disk_ok_def)
  then have ok1: "disk_ok dk1" unfolding dk1_def using t n by (rule UpdateLast_ok)
  have act: "active dk1" by (simp add: dk1_def)
  have s1: "the_disk s1 = Some dk1" "pending s1 = kinsert (now s + lat, p) (pending s)" "pi_handler p = DiskDone"
    by (simp_all add: s1_def bump_def p_def PendingInterrupt_new_def)
  have busy: "WriteRequest m d s1 = Inl Aborted \<and> ReadRequest m s1 = Inl Aborted" for m d
    using s1(1) act by (simp add: WriteRequest_def ReadRequest_def dev_def Let_def)
  have rd: "\<exists>s3. ReadRequest m s2 = Inr (if m = n then data else sector dk m, s3)"
    if s2: "the_disk s2 = Some (dk1\<lparr>active := False\<rparr>)" "0 \<le> now s2" and m: "0 \<le> m" "m < NumSectors"
    for s2 :: "'a devices_scheme" and m
  proof -
    let ?d = "dk1\<lparr>active := False\<rparr>"
    have "disk_ok ?d" using ok1 by (simp add: disk_ok_def)
    from ComputeLatency_range [OF this s2(2) m, of False]
    have pos: "0 < ComputeLatency ?d (totalTicks (stats s2)) m False" by (simp add: now_def)
    have "sector_pos m + 128 \<le> length ?file"
      using len dk(2) m by (simp add: disk_ok_def sector_pos_def const_defs nat_add_distrib nat_mult_distrib)
    then have "file_read (dk_file ?d) (sector_pos m) (nat SectorSize) = Inr (if m = n then data else sector dk m)"
      using sector_write [of "dk_file dk" data n m] dk(2) data n m
      by (auto simp: file_read_def dk1_def sector_def disk_ok_def SectorSize_def)
    with s2 m pos show ?thesis
      by (simp add: ReadRequest_def dev_def Let_def Schedule_def bump_def)
  qed
  have "\<exists>w p. pending s1 = kinsert (w, p) (pending s) \<and> now s + 500 \<le> w \<and> w \<le> now s + 32000 \<and> pi_handler p = DiskDone"
    using s1 lat by (intro exI [of _ "now s + lat"] exI [of _ p]) simp
  with w s1(1) act ok1 busy rd show ?thesis
    by (intro exI [of _ dk1, THEN exI [of _ s1]] conjI allI impI) blast+
qed

definition disk_machine :: devices where
  "disk_machine = console_machine\<lparr>the_disk := Some \<lparr>dk_file = replicate (nat DiskSize) 0, dk_handler = Signal 4,
     active = False, lastSector = 0, bufferInit = 0\<rparr>\<rparr>"

theorem Disk_read_after_write_witness:
  "\<exists>s1 dk1. WriteRequest 3 (replicate 128 9) disk_machine = Inr s1 \<and> the_disk s1 = Some dk1 \<and> active dk1 \<and>
     ReadRequest 3 s1 = Inl Aborted"
proof -
  let ?d = "\<lparr>dk_file = replicate (nat DiskSize) 0, dk_handler = Signal 4, active = False, lastSector = 0, bufferInit = 0\<rparr>"
  have d: "the_disk disk_machine = Some ?d" by (simp add: disk_machine_def)
  moreover have "disk_ok ?d" "\<not> active ?d" "(3 :: int) < NumSectors" by (simp_all add: disk_ok_def const_defs)
  moreover have "0 \<le> now disk_machine" by (simp add: disk_machine_def console_machine_def now_def Statistics_new_def)
  ultimately show ?thesis using Disk_read_after_write [of disk_machine ?d 3 "replicate 128 9"] by fastforce
qed

subsection \<open>The network\<close>

lemma header_roundtrip: "bytes_header (header_bytes h @ rest) = h"
  using host_store_load32 [of False]
  by (simp add: bytes_header_def header_bytes_def) (simp add: host_store32_def)

lemma length_header_bytes [simp]: "length (header_bytes h) = 12"
  by (simp add: header_bytes_def host_store32_def Let_def)

text \<open>What the two ends of the wire do with a packet.\<close>

definition wire_packet :: "byte list \<Rightarrow> PacketHeader \<Rightarrow> byte list \<Rightarrow> byte list" where
  "wire_packet junk hdr data = header_bytes hdr @ data @ take (52 - unat (pk_length hdr)) junk"

lemma packet_length:
  assumes "uint (pk_length hdr) \<le> MaxPacketSize"
  shows "unat (pk_length hdr) \<le> 52"
proof -
  have "int (unat (pk_length hdr)) \<le> 52" using assms by (simp add: const_defs)
  then show ?thesis by linarith
qed

lemma Network_Send_eq:
  assumes "the_network s = Some nw" "\<not> sendBusy nw" "pk_from hdr = ident nw"
    "0 < uint (pk_length hdr)" "uint (pk_length hdr) \<le> MaxPacketSize" "length data = unat (pk_length hdr)"
    "of_int (rand ux (random_calls s) smod 100) < chanceToWork nw * 100"
  shows "\<exists>s'. Network_Send ux junk hdr data s = Inr s' \<and>
    the_network s' = Some (nw\<lparr>net_out := net_out nw @ [(pk_to hdr, wire_packet junk hdr data)]\<rparr>)"
  using assms
  by (simp add: Network_Send_def dev_def Schedule_def Let_def Random_def wire_packet_def)
    (simp add: const_defs)

lemma CheckPktAvail_eq:
  assumes "the_network s = Some nw" "pk_length (inHdr nw) = 0" "poll_socket ux (nat (now s))"
    "net_in nw = buffer # rest" "length buffer = 64" "bytes_header buffer = hdr" "pk_to hdr = ident nw"
    "uint (pk_length hdr) \<le> MaxPacketSize"
    "nw_readHandler nw = Signal sm" "semaphores s sm = Some x" "sem_queue x = []" "level s = IntOff" "word_range (sem_value x + 1)"
  shows "\<exists>s'. CheckPktAvail ux s = Inr s' \<and>
    the_network s' = Some (nw\<lparr>net_in := rest, inHdr := hdr,
       inbox := take (unat (pk_length hdr)) (drop 12 buffer) @ drop (unat (pk_length hdr)) (inbox nw)\<rparr>) \<and>
    semaphores s' sm = Some (x\<lparr>sem_value := sem_value x + 1\<rparr>)"
proof -
  have "Schedule NetworkReadPoll 0 NetworkTime NetworkRecvInt s \<noteq> Inl e" for e
    by (simp add: Schedule_def Let_def const_defs)
  then obtain s1 where s1: "Schedule NetworkReadPoll 0 NetworkTime NetworkRecvInt s = Inr s1"
    by (cases "Schedule NetworkReadPoll 0 NetworkTime NetworkRecvInt s") auto
  then have s1': "stats s1 = stats s" "level s1 = level s" "semaphores s1 = semaphores s"
    by (auto simp: Schedule_def Let_def rbind_eq_Inr)
  have v: "\<exists>t'. run_callback (Signal sm) t = Inr t' \<and> the_network t' = the_network t \<and>
      semaphores t' sm = Some (x\<lparr>sem_value := sem_value x + 1\<rparr>)"
    if "level t = IntOff" "semaphores t sm = Some x" for t :: "'a devices_scheme"
    using that assms(11,13) Semaphore_V_in_handler [of t]
    by (simp add: run_callback_def V_section_def sem_at_def put_sem_def)
  let ?t = "bump (\<lambda>st. st\<lparr>numPacketsRecvd := numPacketsRecvd st + 1\<rparr>) (s1\<lparr>the_network := Some (nw\<lparr>net_in := rest,
      inHdr := hdr, inbox := take (unat (pk_length hdr)) (drop 12 buffer) @ drop (unat (pk_length hdr)) (inbox nw)\<rparr>)\<rparr>)"
  have t: "level ?t = IntOff" "semaphores ?t sm = Some x" using assms s1' by (simp_all add: bump_def)
  have "CheckPktAvail ux s = run_callback (Signal sm) ?t"
    using assms s1 s1' unfolding CheckPktAvail_def by (simp add: dev_def Let_def now_def MaxWireSize_def)
  with v [OF t] show ?thesis by (simp add: bump_def)
qed

text \<open>Packets travel unchanged: a packet that \<^verbatim>\<open>Network::Send\<close> on one machine puts on the wire (that is, one the
  simulated network does not drop) is accepted by \<^verbatim>\<open>CheckPktAvail\<close> on the machine it is addressed to, when
  its receive buffer is free and its socket delivers it; the post office's semaphore is signalled, and
  \<^verbatim>\<open>Receive\<close> then returns the header and exactly the bytes that were sent, and frees the buffer.\<close>

theorem Network_send_receive:
  assumes a: "the_network sa = Some na" "\<not> sendBusy na" "pk_from hdr = ident na"
      "0 < uint (pk_length hdr)" "uint (pk_length hdr) \<le> MaxPacketSize" "length data = unat (pk_length hdr)"
      "of_int (rand uxa (random_calls sa) smod 100) < chanceToWork na * 100" "length junk = 64"
    and b: "the_network sb = Some nb" "pk_length (inHdr nb) = 0" "poll_socket uxb (nat (now sb))"
      "ident nb = pk_to hdr" "length (inbox nb) = 52"
      "nw_readHandler nb = Signal sm" "semaphores sb sm = Some x" "sem_queue x = []" "level sb = IntOff" "word_range (sem_value x + 1)"
    and into: "length into = 52"
  shows "\<exists>sa' na' buffer. Network_Send uxa junk hdr data sa = Inr sa' \<and> the_network sa' = Some na' \<and>
    net_out na' = net_out na @ [(pk_to hdr, buffer)] \<and> length buffer = nat MaxWireSize \<and>
    (\<exists>sb1 sb2 nb2. CheckPktAvail uxb (sb\<lparr>the_network := Some (nb\<lparr>net_in := [buffer]\<rparr>)\<rparr>) = Inr sb1 \<and>
      semaphores sb1 sm = Some (x\<lparr>sem_value := sem_value x + 1\<rparr>) \<and>
      Network_Receive into sb1 = Inr ((hdr, data @ drop (length data) into), sb2) \<and>
      the_network sb2 = Some nb2 \<and> pk_length (inHdr nb2) = 0)"
proof -
  let ?n = "unat (pk_length hdr)" and ?b = "wire_packet junk hdr data"
  have n: "?n \<le> 52" using a(5) by (rule packet_length)
  have len: "length ?b = 64" using n a(6,8) by (simp add: wire_packet_def)
  have hdr: "bytes_header ?b = hdr" by (simp add: wire_packet_def header_roundtrip)
  have payload: "take ?n (drop 12 ?b) = data" using a(6) by (simp add: wire_packet_def)
  obtain sa' where sa': "Network_Send uxa junk hdr data sa = Inr sa'"
    "the_network sa' = Some (na\<lparr>net_out := net_out na @ [(pk_to hdr, ?b)]\<rparr>)"
    using Network_Send_eq [OF a(1-7)] by blast
  let ?sb = "sb\<lparr>the_network := Some (nb\<lparr>net_in := [?b]\<rparr>)\<rparr>"
  obtain sb1 where sb1: "CheckPktAvail uxb ?sb = Inr sb1" "semaphores sb1 sm = Some (x\<lparr>sem_value := sem_value x + 1\<rparr>)"
    "the_network sb1 = Some (nb\<lparr>net_in := [], inHdr := hdr, inbox := data @ drop ?n (inbox nb)\<rparr>)"
    using CheckPktAvail_eq [of ?sb "nb\<lparr>net_in := [?b]\<rparr>" uxb ?b "[]" hdr sm x] b a(5) len hdr payload
    by (auto simp: now_def)
  have nz: "pk_length hdr \<noteq> 0" using a(4) by auto
  have "\<exists>sb2 nb2. Network_Receive into sb1 = Inr ((hdr, data @ drop (length data) into), sb2) \<and>
      the_network sb2 = Some nb2 \<and> pk_length (inHdr nb2) = 0"
    using sb1(3) nz a(6) n b(5) into by (simp add: Network_Receive_def dev_def Let_def)
  with sa' sb1 len show ?thesis by (auto simp: const_defs)
qed

text \<open>Machine 1 sends five bytes to machine 2.\<close>

definition net_machine :: "int32 \<Rightarrow> devices" where
  "net_machine addr = console_machine\<lparr>the_network := Some \<lparr>ident = addr, chanceToWork = 1, net_in = [], net_out = [],
     nw_writeHandler = Signal 5, nw_readHandler = Signal 6, sendBusy = False,
     inHdr = \<lparr>pk_to = 0, pk_from = 0, pk_length = 0\<rparr>, inbox = replicate 52 0\<rparr>,
     semaphores := [6 \<mapsto> \<lparr>sem_name = ''message available'', sem_value = 0, sem_queue = []\<rparr>]\<rparr>"

theorem Network_send_receive_witness:
  "\<exists>sa' na' buffer sb1 sb2.
     Network_Send typing (replicate 64 0) \<lparr>pk_to = 2, pk_from = 1, pk_length = 5\<rparr> [1, 2, 3, 4, 5] (net_machine 1) = Inr sa' \<and>
     the_network sa' = Some na' \<and> net_out na' = [(2, buffer)] \<and>
     CheckPktAvail (typing\<lparr>poll_socket := (\<lambda>_. True)\<rparr>)
       ((net_machine 2)\<lparr>the_network := Some ((the (the_network (net_machine 2)))\<lparr>net_in := [buffer]\<rparr>)\<rparr>) = Inr sb1 \<and>
     Network_Receive (replicate 52 0) sb1 =
       Inr ((\<lparr>pk_to = 2, pk_from = 1, pk_length = 5\<rparr>, [1, 2, 3, 4, 5] @ replicate 47 0), sb2)"
proof -
  let ?h = "\<lparr>pk_to = 2, pk_from = 1, pk_length = 5\<rparr> :: PacketHeader"
  let ?nw = "\<lambda>a. \<lparr>ident = a, chanceToWork = 1, net_in = [], net_out = [],
     nw_writeHandler = Signal 5, nw_readHandler = Signal 6, sendBusy = False,
     inHdr = \<lparr>pk_to = 0, pk_from = 0, pk_length = 0\<rparr>, inbox = replicate 52 0\<rparr> :: network"
  have nw: "the_network (net_machine a) = Some (?nw a)" for a by (simp add: net_machine_def)
  have r: "of_int (rand typing (random_calls (net_machine 1)) smod 100) < chanceToWork (?nw 1) * 100"
    by (simp add: typing_def)
  have sem: "semaphores (net_machine 2) 6 = Some \<lparr>sem_name = ''message available'', sem_value = 0, sem_queue = []\<rparr>"
      "level (net_machine 2) = IntOff" by (simp_all add: net_machine_def console_machine_def)
  have p: "poll_socket (typing\<lparr>poll_socket := (\<lambda>_. True)\<rparr>) (nat (now (net_machine 2)))" by simp
  have h: "pk_from ?h = ident (?nw 1)" "0 < uint (pk_length ?h)" "uint (pk_length ?h) \<le> MaxPacketSize"
      "length [1, 2, 3, 4, 5 :: byte] = unat (pk_length ?h)" by (simp_all add: const_defs)
  have v: "word_range (sem_value \<lparr>sem_name = ''message available'', sem_value = 0, sem_queue = []\<rparr> + 1)" by (simp add: word_range_def)
  have d: "drop (length [1, 2, 3, 4, 5 :: byte]) (replicate 52 0) = (replicate 47 0 :: byte list)" by (simp add: drop_replicate)
  from Network_send_receive [OF nw _ h(1-4) r _ nw _ p _ _ _ sem(1) _ sem(2) v, of "replicate 64 0" "replicate 52 0"]
  show ?thesis unfolding d nw option.sel by fastforce
qed

end
