(* ===== verification/Synch_Disk.thy ===== *)
theory Synch_Disk
  imports Open_File Devices
begin

text \<open>
  The synchronous disk: filesys/synchdisk.h and filesys/synchdisk.cc. A request is handed to the disk
  device and the caller waits on a semaphore that the disk's interrupt handler signals. \<open>P\<close> is
  \<^verbatim>\<open>Semaphore::P\<close>; the operations take it as an argument because \<open>Semaphore_P\<close> itself has the
  context switch, the interrupt handlers and the clock as arguments.

  The interpretation at the end shows that with the real \<open>Semaphore_P\<close>, \<open>Idle\<close> and \<open>OneTick\<close>, a thread
  that is alone on a machine with a disk gets its sectors: the whole path from the request over the
  idle loop, the disk interrupt and the wake-up back to the caller.
\<close>

subsection \<open>Operations\<close>

text \<open>\<open>sem\<close> is the address of the new semaphore; its callback is \<^verbatim>\<open>DiskRequestDone\<close>.\<close>

definition SynchDisk_new :: "byte list option \<Rightarrow> nat \<Rightarrow> 'a devices_scheme \<Rightarrow> 'a devices_scheme res" where
  "SynchDisk_new file sem s = Disk_new file (Signal sem) (put_sem sem (Semaphore_new ''synch disk'' 0) s)"

definition SynchDisk_ReadSector ::
    "(nat \<Rightarrow> 'a devices_scheme \<Rightarrow> 'a devices_scheme res) \<Rightarrow> nat \<Rightarrow> 'a devices_scheme sector_read" where
  "SynchDisk_ReadSector P sem sectorNumber s =
     rbind (ReadRequest sectorNumber (Lock_Acquire s)) (\<lambda>(data, s1).
     rbind (P sem s1) (\<lambda>s2. Inr (data, Lock_Release s2)))"

definition SynchDisk_WriteSector ::
    "(nat \<Rightarrow> 'a devices_scheme \<Rightarrow> 'a devices_scheme res) \<Rightarrow> nat \<Rightarrow> 'a devices_scheme sector_write" where
  "SynchDisk_WriteSector P sem sectorNumber data s =
     rbind (WriteRequest sectorNumber data (Lock_Acquire s)) (\<lambda>s1.
     rbind (P sem s1) (\<lambda>s2. Inr (Lock_Release s2)))"

definition RequestDone :: "nat \<Rightarrow> 'a devices_scheme \<Rightarrow> 'a devices_scheme res" where
  "RequestDone sem s = Semaphore_V (\<lambda>_. Inl Undefined) sem s"

subsection \<open>Waiting for the disk\<close>

text \<open>\<^verbatim>\<open>SWITCH\<close> of a thread to itself returns at once.\<close>

definition self_switch :: "'s switch" where
  "self_switch old new s = (if old = new then Inr s else Inl Undefined)"

definition lone_P :: "unix \<Rightarrow> ('a devices_scheme \<Rightarrow> 'a devices_scheme res) \<Rightarrow> nat \<Rightarrow> 'a devices_scheme \<Rightarrow> 'a devices_scheme res" where
  "lone_P ux yield = Semaphore_P self_switch (call_handler ux) (OneTick (call_handler ux) yield)"

text \<open>The register file lets a delayed load through.\<close>

definition regs_ok :: "'a machine_scheme \<Rightarrow> bool" where
  "regs_ok s \<longleftrightarrow> length (registers s) = NumTotalRegs \<and> unat (registers s ! 37) < 32"

lemma DelayedLoad_0:
  assumes "regs_ok s"
  shows "\<exists>rs. DelayedLoad 0 0 s = Inr (s\<lparr>registers := rs\<rparr>) \<and> length rs = NumTotalRegs \<and> unat (rs ! 37) < 32"
proof -
  have l: "length (registers s) = 40" "unat (registers s ! 37) < 32" using assms by (auto simp: regs_ok_def const_defs)
  have "sint (registers s ! 37) = int (unat (registers s ! 37))" by (rule sint_small) (use l in simp)
  moreover have "int (unat (registers s ! 37)) < 32" using l by linarith
  ultimately show ?thesis using l
    by (auto simp: DelayedLoad_def reg_def set_reg_def nth_list_update const_defs)
qed

text \<open>
  The thread that runs is alone, no interrupt but the disk's is pending. \<open>lone sem q v ps ts\<close>: the
  semaphore has queue \<open>q\<close> and value \<open>v\<close>, the pending interrupts are \<open>ps\<close>, the ready list is \<open>ts\<close>.
\<close>

definition lone :: "nat \<Rightarrow> nat list \<Rightarrow> int \<Rightarrow> (int \<times> PendingInterrupt) list \<Rightarrow> nat list \<Rightarrow> 'a devices_scheme \<Rightarrow> bool" where
  "lone sem q v ps ts s \<longleftrightarrow>
     (\<exists>x. semaphores s sem = Some x \<and> sem_queue x = q \<and> sem_value x = v) \<and>
     (\<exists>th. threads s (currentThread s) = Some th \<and> th_space th = None \<and> th_stack th \<in> {None, Some STACK_FENCEPOST}) \<and>
     pending s = ps \<and> readyList s = ts \<and> threadToBeDestroyed s = None \<and> inHandler s = False \<and>
     yieldOnReturn s = False \<and> 0 \<le> now s \<and> regs_ok s"

definition disk_entry :: "int \<times> PendingInterrupt \<Rightarrow> bool" where
  "disk_entry e \<longleftrightarrow> pi_handler (snd e) = DiskDone \<and> pi_type (snd e) = DiskInt"

text \<open>The disk interrupt makes the waiting thread ready.\<close>

lemma fire_disk:
  fixes s :: "'a devices_scheme"
  assumes "lone sem [currentThread s] 0 [e] [] s" "disk_entry e" "level s = IntOff"
    and "the_disk s = Some dk" "dk_handler dk = Signal sem"
  shows "\<exists>s' :: 'a devices_scheme. fire (call_handler ux) (snd e) s = Inr s' \<and> lone sem [] 1 [] [currentThread s] s' \<and>
    the_disk s' = Some (dk\<lparr>active := False\<rparr>) \<and> level s' = IntOff \<and> status s' = status s \<and>
    currentThread s' = currentThread s \<and> now s' = now s"
proof -
  from assms(1) obtain x th where x: "semaphores s sem = Some x" "sem_queue x = [currentThread s]" "sem_value x = 0"
    and th: "threads s (currentThread s) = Some th" "th_space th = None" "th_stack th \<in> {None, Some STACK_FENCEPOST}"
    and s: "pending s = [e]" "readyList s = []" "threadToBeDestroyed s = None" "inHandler s = False"
      "yieldOnReturn s = False" "0 \<le> now s" "regs_ok s"
    by (auto simp: lone_def)
  have "regs_ok (s\<lparr>pending := []\<rparr>)" using s(7) by (simp add: regs_ok_def)
  from DelayedLoad_0 [OF this] obtain rs where rs: "DelayedLoad 0 0 (s\<lparr>pending := []\<rparr>) = Inr (s\<lparr>pending := [], registers := rs\<rparr>)"
    "length rs = NumTotalRegs" "unat (rs ! 37) < 32" by auto
  show ?thesis
    using x th s rs assms(2-5)
    by (simp add: fire_def call_handler_def disk_entry_def HandleInterrupt_def dev_def run_callback_def Semaphore_V_in_handler
        V_section_def word_range_def sem_at_def ReadyToRun_def setStatus_def thread_at_def lone_def regs_ok_def put_sem_def put_thread_def now_def)
qed

text \<open>The idle loop runs the disk interrupt, at its time.\<close>

lemma Idle_disk:
  fixes s :: "'a devices_scheme"
  assumes "lone sem [currentThread s] 0 [e] [] s" "disk_entry e" "level s = IntOff"
    and "the_disk s = Some dk" "dk_handler dk = Signal sem"
  shows "\<exists>s' :: 'a devices_scheme. Idle (call_handler ux) s = Inr s' \<and> lone sem [] 1 [] [currentThread s] s' \<and>
    the_disk s' = Some (dk\<lparr>active := False\<rparr>) \<and> level s' = IntOff \<and> status s' = SystemMode \<and>
    currentThread s' = currentThread s"
proof -
  let ?i = "s\<lparr>status := IdleMode\<rparr>"
  have e: "pending ?i = [(fst e, snd e)]" "pi_type (snd e) \<noteq> TimerInt" using assms(1,2) by (simp_all add: lone_def disk_entry_def)
  have sk: "lone sem [currentThread (skip_to (fst e) ?i)] 0 [e] [] (skip_to (fst e) ?i)" "level (skip_to (fst e) ?i) = IntOff"
      "the_disk (skip_to (fst e) ?i) = Some dk" "currentThread (skip_to (fst e) ?i) = currentThread s"
    using assms(1,3,4) by (auto simp: skip_to_def lone_def regs_ok_def now_def)
  from fire_disk [OF sk(1) assms(2) sk(2,3) assms(5)] obtain s1 :: "'a devices_scheme" where
    f: "fire (call_handler ux) (snd e) (skip_to (fst e) ?i) = Inr s1" and
    s1: "lone sem [] 1 [] [currentThread s] s1" "the_disk s1 = Some (dk\<lparr>active := False\<rparr>)" "level s1 = IntOff"
      "currentThread s1 = currentThread s" using sk(4) by auto
  have "CheckIfDue (call_handler ux) True ?i = Inr (True, s1)"
    using CheckIfDue_advance [OF _ _ e(1), of "call_handler ux"] e(2) assms(3) f by simp
  moreover have "pending s1 = []" using s1(1) by (simp add: lone_def)
  then have "put_back s1 = s1" "due s1 = []" by (simp_all add: put_back_def due_def)
  then have "due_loop (call_handler ux) s1 = Some (Inr s1)"
    using CheckIfDue_stop [OF s1(3), of "call_handler ux"] by (simp add: due_loop.simps [of _ s1])
  ultimately have "Idle (call_handler ux) s = Inr (s1\<lparr>yieldOnReturn := False, status := SystemMode\<rparr>)"
    by (simp add: Idle_def)
  moreover have "lone sem [] 1 [] [currentThread s] (s1\<lparr>yieldOnReturn := False, status := SystemMode\<rparr>)"
    using s1(1) by (auto simp: lone_def regs_ok_def now_def)
  ultimately show ?thesis using s1 by auto
qed

lemma Sleep_disk:
  fixes s :: "'a devices_scheme"
  assumes "lone sem [currentThread s] 0 [e] [] s" "disk_entry e" "level s = IntOff"
    and "the_disk s = Some dk" "dk_handler dk = Signal sem"
  shows "\<exists>s' :: 'a devices_scheme. Thread_Sleep self_switch (call_handler ux) (currentThread s) s = Inr s' \<and> lone sem [] 1 [] [] s' \<and>
    the_disk s' = Some (dk\<lparr>active := False\<rparr>) \<and> level s' = IntOff \<and> status s' = SystemMode \<and> currentThread s' = currentThread s"
proof -
  from assms(1) obtain th where th: "threads s (currentThread s) = Some th" "th_space th = None"
      "th_stack th \<in> {None, Some STACK_FENCEPOST}" by (auto simp: lone_def)
  define b where "b = put_thread (currentThread s) (th\<lparr>th_status := BLOCKED\<rparr>) s"
  have b: "lone sem [currentThread b] 0 [e] [] b" "level b = IntOff" "the_disk b = Some dk" "currentThread b = currentThread s"
    using assms th by (auto simp: b_def lone_def regs_ok_def put_thread_def now_def)
  from Idle_disk [OF b(1) assms(2) b(2,3) assms(5)] obtain s1 :: "'a devices_scheme" where
    i: "Idle (call_handler ux) b = Inr s1" and s1: "lone sem [] 1 [] [currentThread s] s1"
      "the_disk s1 = Some (dk\<lparr>active := False\<rparr>)" "level s1 = IntOff" "status s1 = SystemMode" "currentThread s1 = currentThread s"
    using b(4) by auto
  have r: "readyList b = []" "readyList s1 = [currentThread s]" using b(1) s1(1) by (auto simp: lone_def)
  have "sleep_loop (Idle (call_handler ux)) s1 = Some (Inr (currentThread s, s1\<lparr>readyList := []\<rparr>))"
    using r(2) by (simp add: sleep_loop.simps [of _ s1] FindNextToRun_def)
  then have l: "sleep_loop (Idle (call_handler ux)) b = Some (Inr (currentThread s, s1\<lparr>readyList := []\<rparr>))"
    using r(1) i by (simp add: sleep_loop.simps [of _ b] FindNextToRun_def)
  from s1(1,5) obtain th1 where th1: "threads s1 (currentThread s) = Some th1" "th_space th1 = None"
      "th_stack th1 \<in> {None, Some STACK_FENCEPOST}" "threadToBeDestroyed s1 = None" by (auto simp: lone_def)
  define s2 where "s2 = put_thread (currentThread s) (th1\<lparr>th_status := RUNNING\<rparr>) (s1\<lparr>readyList := []\<rparr>)"
  have cur: "s1\<lparr>readyList := [], currentThread := currentThread s\<rparr> = s1\<lparr>readyList := []\<rparr>" using s1(5) by simp
  have "Scheduler_Run self_switch (currentThread s) (s1\<lparr>readyList := []\<rparr>) = Inr s2"
    using th1 s1(5)
    by (auto simp: Scheduler_Run_def Run_before_def Run_after_def thread_at_def CheckOverflow_def setStatus_def self_switch_def s2_def Let_def cur)
  then have "Thread_Sleep self_switch (call_handler ux) (currentThread s) s = Inr s2"
    using th assms(3) l by (simp add: Thread_Sleep_def setStatus_def thread_at_def flip: b_def)
  moreover have "lone sem [] 1 [] [] s2" using s1(1,5) th1 by (auto simp: s2_def lone_def regs_ok_def put_thread_def now_def)
  ultimately show ?thesis using s1 by (auto simp: s2_def put_thread_def)
qed

lemma P_disk:
  fixes s :: "'a devices_scheme"
  assumes "lone sem [] 0 [e] [] s" "disk_entry e" "level s = IntOn" "status s = SystemMode"
    and "the_disk s = Some dk" "dk_handler dk = Signal sem"
  shows "\<exists>s' :: 'a devices_scheme. lone_P ux yield sem s = Inr s' \<and> lone sem [] 0 [] [] s' \<and>
    the_disk s' = Some (dk\<lparr>active := False\<rparr>) \<and> level s' = IntOn \<and> status s' = SystemMode"
proof -
  from assms(1) obtain x where x: "semaphores s sem = Some x" "sem_queue x = []" "sem_value x = 0" by (auto simp: lone_def)
  define q where "q = put_sem sem (x\<lparr>sem_queue := [currentThread s]\<rparr>) (s\<lparr>level := IntOff\<rparr>)"
  have q: "lone sem [currentThread q] 0 [e] [] q" "level q = IntOff" "the_disk q = Some dk" "currentThread q = currentThread s"
    using assms x by (auto simp: q_def lone_def regs_ok_def put_sem_def now_def)
  from Sleep_disk [OF q(1) assms(2) q(2,3) assms(6)] obtain s1 :: "'a devices_scheme" where
    sl: "Thread_Sleep self_switch (call_handler ux) (currentThread q) q = Inr s1" and s1: "lone sem [] 1 [] [] s1"
      "the_disk s1 = Some (dk\<lparr>active := False\<rparr>)" "level s1 = IntOff" "status s1 = SystemMode" by auto
  from s1(1) obtain y where y: "semaphores s1 sem = Some y" "sem_queue y = []" "sem_value y = 1" by (auto simp: lone_def)
  let ?sleep = "\<lambda>s. Thread_Sleep self_switch (call_handler ux) (currentThread s) s"
  have "P_loop ?sleep sem s1 = Some (Inr s1)" using y by (simp add: P_loop.simps [of _ _ s1] sem_at_def)
  then have loop: "P_loop ?sleep sem (s\<lparr>level := IntOff\<rparr>) = Some (Inr s1)"
    using x sl by (simp add: P_loop.simps [of _ _ "s\<lparr>level := IntOff\<rparr>"] sem_at_def sem_enqueue_def flip: q_def)
  define d where "d = put_sem sem (y\<lparr>sem_value := 0\<rparr>) s1"
  have d: "pending d = []" "level d = IntOff" "status d = SystemMode" "inHandler d = False" "yieldOnReturn d = False"
    using s1 by (auto simp: d_def lone_def put_sem_def)
  define d' where "d' = (tick_clock (d\<lparr>level := IntOn\<rparr>))\<lparr>level := IntOn\<rparr>"
  have tc: "put_back ((tick_clock (d\<lparr>level := IntOn\<rparr>))\<lparr>level := IntOff\<rparr>) = (tick_clock (d\<lparr>level := IntOn\<rparr>))\<lparr>level := IntOff\<rparr>"
      "due ((tick_clock (d\<lparr>level := IntOn\<rparr>))\<lparr>level := IntOff\<rparr>) = []" "yieldOnReturn d' = False"
    using d by (simp_all add: put_back_def due_def tick_clock_def Let_def d'_def)
  have "OneTick (call_handler ux) yield (d\<lparr>level := IntOn\<rparr>) = Inr d'"
    using dev_handlers.OneTick_eq [of "d\<lparr>level := IntOn\<rparr>" ux yield] d tc by (simp add: Let_def d'_def)
  then have "lone_P ux yield sem s = Inr d'"
    using assms(3,1) loop y d
    by (simp add: lone_P_def Semaphore_P_def SetLevel_def ChangeLevel_def Let_def lone_def sem_decrement_def sem_at_def flip: d_def)
  moreover have "lone sem [] 0 [] [] d'"
    using s1(1) y by (auto simp: d'_def d_def lone_def regs_ok_def put_sem_def now_def tick_clock_def Let_def const_defs)
  ultimately show ?thesis using s1 d by (auto simp: d'_def d_def put_sem_def tick_clock_def Let_def)
qed

subsection \<open>The synchronous disk is a sector store\<close>

definition lone_disk :: "nat \<Rightarrow> 'a devices_scheme \<Rightarrow> bool" where
  "lone_disk sem s \<longleftrightarrow> lone sem [] 0 [] [] s \<and> level s = IntOn \<and> status s = SystemMode \<and>
     (\<exists>dk. the_disk s = Some dk \<and> disk_ok dk \<and> \<not> active dk \<and> dk_handler dk = Signal sem)"

definition disk_sector :: "'a devices_scheme \<Rightarrow> int \<Rightarrow> byte list" where
  "disk_sector s n = (case the_disk s of None \<Rightarrow> [] | Some dk \<Rightarrow> sector dk n)"

lemma UpdateLast_handler [simp]: "dk_handler (UpdateLast t n dk) = dk_handler dk"
  by (simp add: UpdateLast_def Let_def split_beta)

lemma sector_in_file:
  assumes "disk_ok dk" "0 \<le> n" "n < NumSectors"
  shows "sector_pos n + 128 \<le> length (dk_file dk)" "length (sector dk n) = 128"
proof -
  show "sector_pos n + 128 \<le> length (dk_file dk)"
    using assms by (simp add: disk_ok_def sector_pos_def const_defs nat_add_distrib nat_mult_distrib)
  then show "length (sector dk n) = 128" by (simp add: sector_def)
qed

lemma ReadSector_lone:
  fixes s :: "'a devices_scheme"
  assumes "lone_disk sem s" "0 \<le> n" "n < NumSectors"
  shows "\<exists>s' :: 'a devices_scheme. SynchDisk_ReadSector (lone_P ux yield) sem n s = Inr (disk_sector s n, s') \<and> lone_disk sem s' \<and>
    disk_sector s' = disk_sector s"
proof -
  from assms(1) obtain dk where dk: "the_disk s = Some dk" "disk_ok dk" "\<not> active dk" "dk_handler dk = Signal sem"
    and l: "lone sem [] 0 [] [] s" "level s = IntOn" "status s = SystemMode" by (auto simp: lone_disk_def)
  have t: "0 \<le> now s" using l(1) by (simp add: lone_def)
  define lat where "lat = ComputeLatency dk (now s) n False"
  have lat: "0 < lat" unfolding lat_def using ComputeLatency_range [OF dk(2) t assms(2,3), of False] by auto
  define dk1 where "dk1 = UpdateLast (now s) n (dk\<lparr>active := True\<rparr>)"
  define e where "e = (now s + lat, PendingInterrupt_new DiskDone 0 (now s + lat) DiskInt)"
  define s1 where "s1 = (bump (\<lambda>st. st\<lparr>numDiskReads := numDiskReads st + 1\<rparr>) (s\<lparr>the_disk := Some dk1\<rparr>))\<lparr>pending := [e]\<rparr>"
  have "file_read (dk_file dk) (sector_pos n) (nat SectorSize) = Inr (sector dk n)"
    using sector_in_file(1) [OF dk(2) assms(2,3)] by (simp add: file_read_def sector_def SectorSize_def)
  then have R: "ReadRequest n s = Inr (sector dk n, s1)"
    using dk lat l(1) assms(2,3)
    by (simp add: ReadRequest_def dev_def Let_def Schedule_def s1_def dk1_def e_def lat_def now_def bump_def lone_def)
  have ok1: "disk_ok dk1" unfolding dk1_def
    by (rule UpdateLast_ok [OF _ t assms(2,3)]) (use dk(2) in \<open>simp add: disk_ok_def\<close>)
  have s1: "lone sem [] 0 [e] [] s1" "disk_entry e" "level s1 = IntOn" "status s1 = SystemMode" "the_disk s1 = Some dk1" "dk_handler dk1 = Signal sem"
    using l dk by (auto simp: s1_def lone_def bump_def regs_ok_def now_def disk_entry_def e_def PendingInterrupt_new_def dk1_def)
  from P_disk [OF s1] obtain s2 :: "'a devices_scheme" where s2: "lone_P ux yield sem s1 = Inr s2" "lone sem [] 0 [] [] s2"
      "the_disk s2 = Some (dk1\<lparr>active := False\<rparr>)" "level s2 = IntOn" "status s2 = SystemMode" by blast
  have "lone_disk sem s2" using s2 ok1 s1(6) by (auto simp: lone_disk_def disk_ok_def)
  moreover have "disk_sector s2 = disk_sector s" using s2(3) dk(1) by (auto simp: disk_sector_def sector_def dk1_def)
  ultimately show ?thesis
    using R s2(1) dk(1) by (auto simp: SynchDisk_ReadSector_def Lock_Acquire_def Lock_Release_def disk_sector_def)
qed

lemma WriteSector_lone:
  fixes s :: "'a devices_scheme"
  assumes "lone_disk sem s" "0 \<le> n" "n < NumSectors" "length data = 128"
  shows "\<exists>s' :: 'a devices_scheme. SynchDisk_WriteSector (lone_P ux yield) sem n data s = Inr s' \<and> lone_disk sem s' \<and>
    (\<forall>m. 0 \<le> m \<longrightarrow> m < NumSectors \<longrightarrow> disk_sector s' m = (if m = n then data else disk_sector s m))"
proof -
  from assms(1) obtain dk where dk: "the_disk s = Some dk" "disk_ok dk" "\<not> active dk" "dk_handler dk = Signal sem"
    and l: "lone sem [] 0 [] [] s" "level s = IntOn" "status s = SystemMode" by (auto simp: lone_disk_def)
  have t: "0 \<le> now s" using l(1) by (simp add: lone_def)
  define lat where "lat = ComputeLatency dk (now s) n True"
  have lat: "0 < lat" unfolding lat_def using ComputeLatency_range [OF dk(2) t assms(2,3), of True] by auto
  define img where "img = file_write (dk_file dk) (sector_pos n) data"
  define dk1 where "dk1 = UpdateLast (now s) n (dk\<lparr>active := True, dk_file := img\<rparr>)"
  define e where "e = (now s + lat, PendingInterrupt_new DiskDone 0 (now s + lat) DiskInt)"
  define s1 where "s1 = (bump (\<lambda>st. st\<lparr>numDiskWrites := numDiskWrites st + 1\<rparr>) (s\<lparr>the_disk := Some dk1\<rparr>))\<lparr>pending := [e]\<rparr>"
  have W: "WriteRequest n data s = Inr s1"
    using dk lat l(1) assms(2-4)
    by (simp add: WriteRequest_def dev_def Let_def Schedule_def s1_def dk1_def e_def lat_def now_def bump_def lone_def img_def SectorSize_def)
  have "length img = length (dk_file dk)"
    using file_write_inside [of "sector_pos n" data "dk_file dk"] sector_in_file(1) [OF dk(2) assms(2,3)] assms(4)
    by (simp add: img_def)
  then have ok1: "disk_ok dk1" unfolding dk1_def
    by (intro UpdateLast_ok [OF _ t assms(2,3)]) (use dk(2) in \<open>simp add: disk_ok_def\<close>)
  have s1: "lone sem [] 0 [e] [] s1" "disk_entry e" "level s1 = IntOn" "status s1 = SystemMode" "the_disk s1 = Some dk1" "dk_handler dk1 = Signal sem"
    using l dk by (auto simp: s1_def lone_def bump_def regs_ok_def now_def disk_entry_def e_def PendingInterrupt_new_def dk1_def)
  from P_disk [OF s1] obtain s2 :: "'a devices_scheme" where s2: "lone_P ux yield sem s1 = Inr s2" "lone sem [] 0 [] [] s2"
      "the_disk s2 = Some (dk1\<lparr>active := False\<rparr>)" "level s2 = IntOn" "status s2 = SystemMode" by blast
  have "lone_disk sem s2" using s2 ok1 s1(6) by (auto simp: lone_disk_def disk_ok_def)
  moreover have "disk_sector s2 m = (if m = n then data else disk_sector s m)" if "0 \<le> m" "m < NumSectors" for m
    using sector_write [of "dk_file dk" data n m] s2(3) dk(1,2) assms(2-4) that
    by (simp add: disk_sector_def sector_def dk1_def disk_ok_def img_def)
  ultimately show ?thesis
    using W s2(1) by (auto simp: SynchDisk_WriteSector_def Lock_Acquire_def Lock_Release_def)
qed

interpretation sdisk: sector_store "SynchDisk_ReadSector (lone_P ux yield) sem" "SynchDisk_WriteSector (lone_P ux yield) sem"
    "lone_disk sem" disk_sector NumSectors for ux yield sem
proof
  fix s :: "'a devices_scheme" and n
  assume "lone_disk sem s" "0 \<le> n" "n < NumSectors"
  then show "length (disk_sector s n) = 128"
    by (auto simp: lone_disk_def disk_sector_def sector_in_file)
qed (use ReadSector_lone WriteSector_lone in blast)+

subsection \<open>Properties\<close>

text \<open>C22. A synchronous disk request returns. When a kernel thread is alone with an idle disk, \<^verbatim>\<open>ReadSector\<close>
  and \<^verbatim>\<open>WriteSector\<close> put it to sleep, the idle loop advances the clock to the disk's interrupt, the
  handler signals the semaphore, and the thread runs again with interrupts enabled and the disk idle:
  a read returns the contents of the sector, a write has replaced that sector and no other.\<close>

theorem SynchDisk_returns:
  fixes s :: "'a devices_scheme"
  assumes "lone_disk sem s" "0 \<le> n" "n < NumSectors" "length data = 128"
  shows "(\<exists>s' :: 'a devices_scheme. SynchDisk_ReadSector (lone_P ux yield) sem n s = Inr (disk_sector s n, s') \<and>
       lone_disk sem s' \<and> disk_sector s' = disk_sector s) \<and>
    (\<exists>s' :: 'a devices_scheme. SynchDisk_WriteSector (lone_P ux yield) sem n data s = Inr s' \<and> lone_disk sem s' \<and>
       (\<forall>m \<in> {0..<NumSectors}. disk_sector s' m = (if m = n then data else disk_sector s m)))"
  using ReadSector_lone [OF assms(1-3), of ux yield] WriteSector_lone [OF assms, of ux yield] by fastforce

text \<open>A machine with an empty disk and one thread.\<close>

definition lone_machine :: devices where
  "lone_machine = disk_machine\<lparr>pending := [], level := IntOn, status := SystemMode, inHandler := False,
     yieldOnReturn := False, registers := replicate NumTotalRegs 0, readyList := [], threadToBeDestroyed := None,
     threads := [0 \<mapsto> Thread_new ''main'' []], currentThread := 0, stats := Statistics_new,
     semaphores := [4 \<mapsto> Semaphore_new ''synch disk'' 0]\<rparr>"

lemma lone_machine_ok: "lone_disk 4 lone_machine"
  by (simp add: lone_disk_def lone_def lone_machine_def disk_machine_def Semaphore_new_def Thread_new_def regs_ok_def
      disk_ok_def now_def Statistics_new_def) (simp add: const_defs)

theorem SynchDisk_returns_witness:
  "\<exists>s'. SynchDisk_WriteSector (lone_P typing Inr) 4 7 (replicate 128 5) lone_machine = Inr s' \<and>
     disk_sector s' 7 = replicate 128 5"
  using SynchDisk_returns [OF lone_machine_ok, of 7 "replicate 128 5" typing Inr] by (auto simp: const_defs)

text \<open>C7. An open file is an array of bytes of fixed length on the synchronous disk, whatever the alignment
  of the request, for a position that is not negative and a buffer as long as the request says. If the
  position is inside the file and \<^verbatim>\<open>position + numBytes\<close> is no \<^verbatim>\<open>int\<close>, both \<^verbatim>\<open>WriteAt\<close> and \<^verbatim>\<open>ReadAt\<close> are undefined:
  the sum overflows before the request is clipped. In every other case \<^verbatim>\<open>WriteAt\<close> clips the request at the end
  of the file, replaces exactly those bytes of the file by the caller's data and returns their number;
  \<^verbatim>\<open>ReadAt\<close> of the same bytes then returns them; the contents of every file with other sectors stay as
  they were.\<close>

theorem OpenFile_is_byte_array:
  fixes s :: "'a devices_scheme" and ux :: unix and yield :: "'a devices_scheme \<Rightarrow> 'a devices_scheme res"
  assumes "lone_disk sem s" and "header_ok NumSectors (of_hdr f)" and "0 \<le> position" and "numBytes \<le> int (length data)"
  defines "rd \<equiv> SynchDisk_ReadSector (lone_P ux yield) sem" and "wr \<equiv> SynchDisk_WriteSector (lone_P ux yield) sem"
    and "k \<equiv> min (nat numBytes) (nat (fh_numBytes (of_hdr f)) - nat position)"
  shows "if position < fh_numBytes (of_hdr f) \<and> 2 ^ 31 \<le> position + numBytes
   then WriteAt rd wr junk data numBytes position f s = Inl Undefined \<and> ReadAt rd numBytes position f s = Inl Undefined
   else \<exists>s' s'' :: 'a devices_scheme. WriteAt rd wr junk data numBytes position f s = Inr (int k, s') \<and> lone_disk sem s' \<and>
    file_bytes (disk_sector s') (of_hdr f) = overwrite (file_bytes (disk_sector s) (of_hdr f)) (nat position) (take k data) \<and>
    ReadAt rd numBytes position f s' = Inr ((int k, take k data), s'') \<and> lone_disk sem s'' \<and>
    (\<forall>g. header_ok NumSectors g \<longrightarrow> set (used_sectors g) \<inter> set (used_sectors (of_hdr f)) = {} \<longrightarrow>
       file_bytes (disk_sector s') g = file_bytes (disk_sector s) g)"
proof (cases "position < fh_numBytes (of_hdr f) \<and> 2 ^ 31 \<le> position + numBytes")
  case True
  moreover have "0 < numBytes" "\<not> word_range (position + numBytes)"
    using True assms(2) by (simp_all add: word_range_def header_ok_def const_defs)
  ultimately show ?thesis by (simp add: ReadAt_overflow WriteAt_overflow)
next
  case False
  then have fits: "position < fh_numBytes (of_hdr f) \<Longrightarrow> position + numBytes < 2 ^ 31" by simp
  let ?h = "of_hdr f" and ?fb = "file_bytes (disk_sector s) (of_hdr f)"
  from sdisk.WriteAt_ok [OF assms(1-4) fits, of ux yield junk] obtain s' :: "'a devices_scheme" where
    w: "WriteAt rd wr junk data numBytes position f s = Inr (int k, s')" "lone_disk sem s'"
      "file_bytes (disk_sector s') ?h = overwrite ?fb (nat position) (take k data)"
    and other: "\<forall>x. 0 \<le> x \<longrightarrow> x < NumSectors \<longrightarrow> x \<notin> set (used_sectors ?h) \<longrightarrow> disk_sector s' x = disk_sector s x"
    unfolding rd_def wr_def k_def by blast
  have len: "length ?fb = nat (fh_numBytes ?h)" by (rule sdisk.length_file_bytes [OF assms(1,2)])
  have "take k (drop (nat position) (overwrite ?fb (nat position) (take k data))) = take k data"
  proof (cases "k = 0")
    case False
    then have "nat position + k \<le> length ?fb" "k \<le> length data" using len assms(4) by (auto simp: k_def)
    then show ?thesis by (simp add: overwrite_def)
  qed simp
  with sdisk.ReadAt_ok [OF w(2) assms(2,3) fits, of ux yield] obtain s'' :: "'a devices_scheme" where
    "ReadAt rd numBytes position f s' = Inr ((int k, take k data), s'')" "lone_disk sem s''"
    unfolding rd_def w(3) Let_def k_def [symmetric] by auto
  moreover have "file_bytes (disk_sector s') g = file_bytes (disk_sector s) g"
    if "header_ok NumSectors g" "set (used_sectors g) \<inter> set (used_sectors ?h) = {}" for g
  proof -
    have "disk_sector s' x = disk_sector s x" if "x \<in> set (used_sectors g)" for x
    proof -
      have "set (used_sectors g) \<subseteq> {0..<NumSectors}"
        using \<open>header_ok NumSectors g\<close> unfolding header_ok_def Let_def used_sectors_def by blast
      with that have "0 \<le> x" "x < NumSectors" by auto
      moreover have "x \<notin> set (used_sectors ?h)" using that \<open>set (used_sectors g) \<inter> set (used_sectors ?h) = {}\<close> by blast
      ultimately show ?thesis using other by blast
    qed
    then show ?thesis by (simp add: file_bytes_def sector_data_def cong: map_cong)
  qed
  ultimately show ?thesis unfolding if_not_P [OF False] using w by blast
qed

theorem OpenFile_is_byte_array_witness:
  "\<exists>s' s''. WriteAt (SynchDisk_ReadSector (lone_P typing Inr) 4) (SynchDisk_WriteSector (lone_P typing Inr) 4) (\<lambda>_. 0)
       (replicate 20 9) 20 190 \<lparr>of_hdr = \<lparr>fh_numBytes = 200, fh_numSectors = 2, dataSectors = [5, 3] @ replicate 28 0\<rparr>,
         seekPosition = 0, of_type = 0\<rparr> lone_machine = Inr (10, s') \<and>
     ReadAt (SynchDisk_ReadSector (lone_P typing Inr) 4) 20 190 \<lparr>of_hdr = \<lparr>fh_numBytes = 200, fh_numSectors = 2,
         dataSectors = [5, 3] @ replicate 28 0\<rparr>, seekPosition = 0, of_type = 0\<rparr> s' = Inr ((10, replicate 10 9), s'')"
proof -
  let ?f = "\<lparr>of_hdr = \<lparr>fh_numBytes = 200, fh_numSectors = 2, dataSectors = [5, 3] @ replicate 28 0\<rparr>,
         seekPosition = 0, of_type = 0\<rparr>"
  have "header_ok NumSectors (of_hdr ?f)" by (simp add: header_ok_def const_defs divRoundUp_def)
  from OpenFile_is_byte_array [OF lone_machine_ok this, of 190 20 "replicate 20 9" typing Inr "\<lambda>_. 0"] show ?thesis
    by auto
qed

end
