(* ===== verification/Directory.thy ===== *)
theory Directory
  imports Synch_Disk
begin

text \<open>
  Directories: filesys/directory.h and filesys/directory.cc, with the C library's string functions they
  use. A directory is a table of entries, stored as a file that is the image of the table in memory.

  A C string is a byte list; an array of characters may hold bytes behind the terminating zero. An
  entry keeps the padding the compiler puts between its fields, because \<^verbatim>\<open>WriteBack\<close> writes it too:
  one byte \<^verbatim>\<open>inUse\<close>, three bytes, the sector, 51 characters, one byte; 60 bytes in all.
\<close>

subsection \<open>C strings\<close>

text \<open>The string in an array, \<^verbatim>\<open>strncmp(a, b, n) == 0\<close>, and \<^verbatim>\<open>strncpy(dst, src, n)\<close>.\<close>

definition c_string :: "byte list \<Rightarrow> byte list" where
  "c_string a = takeWhile (\<lambda>c. c \<noteq> 0) a"

definition strncmp_eq :: "byte list \<Rightarrow> byte list \<Rightarrow> nat \<Rightarrow> bool" where
  "strncmp_eq a b n \<longleftrightarrow> take n (c_string a) = take n (c_string b)"

definition strncpy :: "byte list \<Rightarrow> byte list \<Rightarrow> nat \<Rightarrow> byte list" where
  "strncpy dst src n = (let cs = take n (c_string src) in cs @ replicate (n - length cs) 0 @ drop n dst)"

lemma c_string_append_0: "0 \<notin> set xs \<Longrightarrow> c_string (xs @ 0 # ys) = xs"
  by (auto simp: c_string_def takeWhile_append)

lemma c_string_append: "0 \<notin> set xs \<Longrightarrow> c_string (xs @ ys) = xs @ c_string ys"
  unfolding c_string_def by (rule takeWhile_append2) auto

lemma c_string_no_0: "0 \<notin> set (c_string a)"
  by (auto simp: c_string_def dest: set_takeWhileD)

lemma c_string_id: "0 \<notin> set xs \<Longrightarrow> c_string xs = xs"
  by (auto simp: c_string_def)

lemma strncmp_eq_strncpy: "n \<le> length dst \<Longrightarrow> strncmp_eq (strncpy dst src n) b n \<longleftrightarrow> strncmp_eq src b n"
proof -
  let ?cs = "take n (c_string src)"
  have no0: "0 \<notin> set ?cs" using c_string_no_0 [of src] in_set_takeD by fastforce
  have "take n (c_string (strncpy dst src n)) = ?cs"
  proof (cases "length ?cs < n")
    case True
    then obtain k where "n - length ?cs = Suc k" by (metis Suc_diff_Suc)
    then have "strncpy dst src n = ?cs @ 0 # (replicate k 0 @ drop n dst)"
      by (simp only: strncpy_def Let_def replicate.simps append.simps)
    then show ?thesis using c_string_append_0 [OF no0] by simp
  next
    case False
    then have l: "length ?cs = n" by simp
    then have "take n (c_string (?cs @ drop n dst)) = ?cs"
      unfolding c_string_append [OF no0] by simp
    then show ?thesis using l by (simp add: strncpy_def Let_def)
  qed
  then show ?thesis by (simp add: strncmp_eq_def)
qed

lemma length_strncpy [simp]: "n \<le> length dst \<Longrightarrow> length (strncpy dst src n) = length dst"
  by (simp add: strncpy_def Let_def)

subsection \<open>Data\<close>

definition FileNameMaxLen :: nat where [const_defs]: "FileNameMaxLen = 50"

record DirectoryEntry =
  inUse :: bool
  de_pad1 :: "byte list"
  de_sector :: int
  de_name :: "byte list"
  de_pad2 :: byte

definition sizeof_DirectoryEntry :: nat where [const_defs]: "sizeof_DirectoryEntry = 60"

definition encode_entry :: "DirectoryEntry \<Rightarrow> byte list" where
  "encode_entry e = (if inUse e then 1 else 0) # de_pad1 e @ int_bytes (de_sector e) @ de_name e @ [de_pad2 e]"

definition decode_entry :: "byte list \<Rightarrow> DirectoryEntry" where
  "decode_entry bs =
     \<lparr>inUse = (bs ! 0 \<noteq> 0), de_pad1 = take 3 (drop 1 bs), de_sector = bytes_int (take 4 (drop 4 bs)),
      de_name = take 51 (drop 8 bs), de_pad2 = bs ! 59\<rparr>"

text \<open>The table as the bytes that \<^verbatim>\<open>(char *)table\<close> points to. \<open>load_table\<close> overwrites its first bytes.\<close>

definition table_bytes :: "DirectoryEntry list \<Rightarrow> byte list" where
  "table_bytes tbl = concat (map encode_entry tbl)"

definition load_table :: "DirectoryEntry list \<Rightarrow> byte list \<Rightarrow> DirectoryEntry list" where
  "load_table tbl bs =
     (let img = bs @ drop (length bs) (table_bytes tbl) in
      map (\<lambda>i. decode_entry (take sizeof_DirectoryEntry (drop (sizeof_DirectoryEntry * i) img))) [0..<length tbl])"

type_synonym directory = "DirectoryEntry list"

subsection \<open>Operations\<close>

text \<open>\<open>fresh\<close> is what the allocated entries contain.\<close>

definition Directory_new :: "(nat \<Rightarrow> DirectoryEntry) \<Rightarrow> nat \<Rightarrow> directory" where
  "Directory_new fresh size' = map (\<lambda>i. (fresh i)\<lparr>inUse := False\<rparr>) [0..<size']"

definition Directory_FetchFrom :: "'s sector_read \<Rightarrow> OpenFile \<Rightarrow> directory \<Rightarrow> 's \<Rightarrow> (directory \<times> 's) res" where
  "Directory_FetchFrom rd f tbl s =
     rbind (ReadAt rd (int (length tbl * sizeof_DirectoryEntry)) 0 f s) (\<lambda>((_, bs), s1).
     Inr (load_table tbl bs, s1))"

definition Directory_WriteBack ::
    "'s sector_read \<Rightarrow> 's sector_write \<Rightarrow> (nat \<Rightarrow> byte) \<Rightarrow> OpenFile \<Rightarrow> directory \<Rightarrow> 's \<Rightarrow> 's res" where
  "Directory_WriteBack rd wr junk f tbl s =
     rbind (WriteAt rd wr junk (table_bytes tbl) (int (length tbl * sizeof_DirectoryEntry)) 0 f s) (\<lambda>(_, s1). Inr s1)"

fun find_index :: "byte list \<Rightarrow> nat \<Rightarrow> directory \<Rightarrow> int" where
  "find_index name i [] = - 1"
| "find_index name i (e # es) =
     (if inUse e \<and> strncmp_eq (de_name e) name FileNameMaxLen then int i else find_index name (Suc i) es)"

definition FindIndex :: "byte list \<Rightarrow> directory \<Rightarrow> int" where
  "FindIndex name tbl = find_index name 0 tbl"

definition Directory_Find :: "byte list \<Rightarrow> directory \<Rightarrow> int" where
  "Directory_Find name tbl =
     (let i = FindIndex name tbl in if i \<noteq> - 1 then de_sector (tbl ! nat i) else - 1)"

fun add_loop :: "byte list \<Rightarrow> int \<Rightarrow> directory \<Rightarrow> directory option" where
  "add_loop name newSector [] = None"
| "add_loop name newSector (e # es) =
     (if \<not> inUse e
      then Some (e\<lparr>inUse := True, de_name := strncpy (de_name e) name FileNameMaxLen, de_sector := newSector\<rparr> # es)
      else map_option ((#) e) (add_loop name newSector es))"

definition Directory_Add :: "byte list \<Rightarrow> int \<Rightarrow> directory \<Rightarrow> bool \<times> directory" where
  "Directory_Add name newSector tbl =
     (if FindIndex name tbl \<noteq> - 1 then (False, tbl)
      else case add_loop name newSector tbl of Some tbl' \<Rightarrow> (True, tbl') | None \<Rightarrow> (False, tbl))"

definition Directory_Remove :: "byte list \<Rightarrow> directory \<Rightarrow> bool \<times> directory" where
  "Directory_Remove name tbl =
     (let i = FindIndex name tbl in
      if i = - 1 then (False, tbl) else (True, tbl[nat i := (tbl ! nat i)\<lparr>inUse := False\<rparr>]))"

text \<open>\<^verbatim>\<open>List\<close>: the names printed. A name of 51 characters without a terminating zero runs on behind it.\<close>

definition Directory_List :: "directory \<Rightarrow> byte list list res" where
  "Directory_List tbl =
     for_each (\<lambda>e out. if inUse e then (if 0 \<in> set (de_name e) then Inr (out @ [c_string (de_name e)]) else Inl Undefined)
                       else Inr out) tbl []"

text \<open>\<^verbatim>\<open>Print\<close>: name, sector and printed header of every file.\<close>

definition Directory_Print ::
    "'s sector_read \<Rightarrow> directory \<Rightarrow> 's \<Rightarrow> ((byte list \<times> int \<times> (int \<times> int list \<times> byte list list)) list \<times> 's) res" where
  "Directory_Print rd tbl s =
     for_each (\<lambda>e (out, s1).
         if \<not> inUse e then Inr (out, s1)
         else if 0 \<notin> set (de_name e) then Inl Undefined
         else rbind (FileHeader_FetchFrom rd (de_sector e) s1) (\<lambda>(h, s2).
              rbind (FileHeader_Print rd h s2) (\<lambda>(p, s3).
              Inr (out @ [(c_string (de_name e), de_sector e, p)], s3))))
       tbl ([], s)"

subsection \<open>A directory is a finite map\<close>

lemma Directory_Print_new: "Directory_Print rd (Directory_new fresh n) s = Inr ([], s)"
  unfolding Directory_Print_def Directory_new_def by (induction n) (simp_all add: for_each_append)

text \<open>An entry that answers to a name; a name has at most 50 significant characters.\<close>

definition hit :: "byte list \<Rightarrow> DirectoryEntry \<Rightarrow> bool" where
  "hit name e \<longleftrightarrow> inUse e \<and> strncmp_eq (de_name e) name FileNameMaxLen"

definition same_name :: "byte list \<Rightarrow> byte list \<Rightarrow> bool" where
  "same_name a b \<longleftrightarrow> strncmp_eq a b FileNameMaxLen"

lemma same_name_refl [simp]: "same_name a a"
  by (simp add: same_name_def strncmp_eq_def)

lemma same_name_sym: "same_name a b \<Longrightarrow> same_name b a"
  by (simp add: same_name_def strncmp_eq_def)

lemma hit_same: "hit a e \<Longrightarrow> hit b e \<longleftrightarrow> same_name a b"
  by (auto simp: hit_def same_name_def strncmp_eq_def)

definition dir_ok :: "directory \<Rightarrow> bool" where
  "dir_ok tbl \<longleftrightarrow>
     (\<forall>e \<in> set tbl. length (de_name e) = 51 \<and> length (de_pad1 e) = 3 \<and> word_range (de_sector e) \<and>
        (inUse e \<longrightarrow> 0 \<le> de_sector e)) \<and>
     (\<forall>i < length tbl. \<forall>j < length tbl. inUse (tbl ! i) \<longrightarrow> inUse (tbl ! j) \<longrightarrow>
        same_name (de_name (tbl ! i)) (de_name (tbl ! j)) \<longrightarrow> i = j)"

lemma find_index_spec:
  "(find_index name k tbl = - 1 \<and> (\<forall>e \<in> set tbl. \<not> hit name e)) \<or>
   (\<exists>i < length tbl. find_index name k tbl = int (k + i) \<and> hit name (tbl ! i) \<and> (\<forall>j < i. \<not> hit name (tbl ! j)))"
proof (induction tbl arbitrary: k)
  case (Cons e es)
  show ?case
  proof (cases "hit name e")
    case True
    then show ?thesis by (intro disjI2 exI [of _ 0]) (simp add: hit_def)
  next
    case False
    have step: "find_index name k (e # es) = find_index name (Suc k) es" using False by (auto simp: hit_def)
    from Cons [of "Suc k"] show ?thesis
    proof
      assume "\<exists>i < length es. find_index name (Suc k) es = int (Suc k + i) \<and> hit name (es ! i) \<and> (\<forall>j < i. \<not> hit name (es ! j))"
      then obtain i where "i < length es" "find_index name (Suc k) es = int (Suc k + i)" "hit name (es ! i)"
        "\<forall>j < i. \<not> hit name (es ! j)" by blast
      with False step show ?thesis
        by (intro disjI2 exI [of _ "Suc i"]) (auto simp: less_Suc_eq_0_disj)
    qed (use False step in simp)
  qed
qed simp

lemma Directory_Find_eq:
  "Directory_Find name tbl = (case find (hit name) tbl of None \<Rightarrow> - 1 | Some e \<Rightarrow> de_sector e)"
proof -
  consider "FindIndex name tbl = - 1" "\<forall>e \<in> set tbl. \<not> hit name e"
    | i where "i < length tbl" "FindIndex name tbl = int i" "hit name (tbl ! i)" "\<forall>j < i. \<not> hit name (tbl ! j)"
    using find_index_spec [of name 0 tbl] by (auto simp: FindIndex_def)
  then show ?thesis
  proof cases
    case 1
    then have "find (hit name) tbl = None" by (simp add: find_None_iff)
    with 1 show ?thesis by (simp add: Directory_Find_def Let_def)
  next
    case (2 i)
    then have "find (hit name) tbl = Some (tbl ! i)" by (auto simp: find_Some_iff)
    with 2 show ?thesis by (simp add: Directory_Find_def Let_def)
  qed
qed

lemma FindIndex_absent: "FindIndex name tbl = - 1 \<longleftrightarrow> (\<forall>e \<in> set tbl. \<not> hit name e)"
  using find_index_spec [of name 0 tbl] by (auto simp: FindIndex_def)

lemma find_update_other: "i < length xs \<Longrightarrow> \<not> P (xs ! i) \<Longrightarrow> \<not> P y \<Longrightarrow> find P (xs[i := y]) = find P xs"
proof (induction xs arbitrary: i)
  case (Cons x xs)
  then show ?case by (cases i) simp_all
qed simp

lemma find_update_only: "i < length xs \<Longrightarrow> \<forall>x \<in> set xs. \<not> P x \<Longrightarrow> P y \<Longrightarrow> find P (xs[i := y]) = Some y"
proof (induction xs arbitrary: i)
  case (Cons x xs)
  then show ?case by (cases i) simp_all
qed simp

lemma add_loop_spec:
  "case add_loop name newSector tbl of
     None \<Rightarrow> list_all inUse tbl
   | Some tbl' \<Rightarrow> \<exists>i < length tbl. \<not> inUse (tbl ! i) \<and>
       tbl' = tbl[i := (tbl ! i)\<lparr>inUse := True, de_name := strncpy (de_name (tbl ! i)) name FileNameMaxLen, de_sector := newSector\<rparr>]"
proof (induction tbl)
  case (Cons e es)
  show ?case
  proof (cases "inUse e")
    case True
    show ?thesis
    proof (cases "add_loop name newSector es")
      case (Some es')
      with Cons obtain i where "i < length es" "\<not> inUse (es ! i)"
        "es' = es[i := (es ! i)\<lparr>inUse := True, de_name := strncpy (de_name (es ! i)) name FileNameMaxLen, de_sector := newSector\<rparr>]"
        by auto
      with True Some show ?thesis by (auto intro!: exI [of _ "Suc i"])
    qed (use True Cons in simp)
  qed (auto intro!: exI [of _ 0])
qed simp

lemma Directory_Add_cases:
  assumes "dir_ok tbl" "0 \<le> newSector" "word_range newSector"
  obtains (refused) "Directory_Add name newSector tbl = (False, tbl)"
      "(\<exists>e \<in> set tbl. hit name e) \<or> list_all inUse tbl"
  | (added) i e where "i < length tbl" "\<not> inUse (tbl ! i)" "Directory_Add name newSector tbl = (True, tbl[i := e])"
      "\<forall>e \<in> set tbl. \<not> hit name e" "inUse e" "de_sector e = newSector" "\<And>b. hit b e \<longleftrightarrow> same_name name b"
      "length (de_name e) = 51" "length (de_pad1 e) = 3"
proof (cases "FindIndex name tbl = - 1")
  case absent: True
  show thesis
  proof (cases "add_loop name newSector tbl")
    case None
    with add_loop_spec [of tbl newSector name] have "list_all inUse tbl" by simp
    with None absent refused show thesis by (simp add: Directory_Add_def)
  next
    case (Some tbl')
    with add_loop_spec [of tbl newSector name] obtain i where i: "i < length tbl" "\<not> inUse (tbl ! i)"
      and t: "tbl' = tbl[i := (tbl ! i)\<lparr>inUse := True, de_name := strncpy (de_name (tbl ! i)) name FileNameMaxLen, de_sector := newSector\<rparr>]"
      by auto
    have len: "length (de_name (tbl ! i)) = 51" "length (de_pad1 (tbl ! i)) = 3" using assms(1) i(1) by (auto simp: dir_ok_def)
    let ?e = "(tbl ! i)\<lparr>inUse := True, de_name := strncpy (de_name (tbl ! i)) name FileNameMaxLen, de_sector := newSector\<rparr>"
    have "hit b ?e \<longleftrightarrow> same_name name b" for b
      using strncmp_eq_strncpy [of FileNameMaxLen "de_name (tbl ! i)" name b] len
      by (simp add: hit_def same_name_def const_defs)
    moreover have "length (de_name ?e) = 51" using len by (simp add: const_defs)
    ultimately show thesis
      using i t Some absent len by (intro added [of i ?e]) (auto simp: Directory_Add_def FindIndex_absent)
  qed
next
  case False
  then show thesis by (intro refused) (auto simp: Directory_Add_def FindIndex_absent)
qed

lemma dir_ok_update:
  assumes "dir_ok tbl" "i < length tbl" "length (de_name e) = 51" "length (de_pad1 e) = 3" "word_range (de_sector e)"
    and "inUse e \<Longrightarrow> 0 \<le> de_sector e" and "inUse e \<Longrightarrow> \<forall>d \<in> set tbl. \<not> hit (de_name e) d"
  shows "dir_ok (tbl[i := e])"
proof -
  have "\<forall>d \<in> set (tbl[i := e]). length (de_name d) = 51 \<and> length (de_pad1 d) = 3 \<and> word_range (de_sector d) \<and> (inUse d \<longrightarrow> 0 \<le> de_sector d)"
    using assms(1,3-6) set_update_subset_insert [of tbl i e] by (auto simp: dir_ok_def)
  moreover have "j = k" if "j < length tbl" "k < length tbl" "inUse (tbl[i := e] ! j)" "inUse (tbl[i := e] ! k)"
      "same_name (de_name (tbl[i := e] ! j)) (de_name (tbl[i := e] ! k))" for j k
  proof -
    have fresh: "inUse e \<Longrightarrow> m < length tbl \<Longrightarrow> inUse (tbl ! m) \<Longrightarrow> \<not> same_name (de_name e) (de_name (tbl ! m))" for m
      using assms(7) nth_mem [of m tbl] by (auto simp: hit_def same_name_def strncmp_eq_def)
    show ?thesis
      using that assms(1) fresh [of j] fresh [of k]
      by (cases "j = i"; cases "k = i") (auto simp: dir_ok_def dest: same_name_sym)
  qed
  ultimately show ?thesis by (auto simp: dir_ok_def)
qed

lemma Directory_Find_hits:
  assumes "dir_ok tbl"
  shows "Directory_Find name tbl = - 1 \<longleftrightarrow> (\<forall>e \<in> set tbl. \<not> hit name e)"
proof (cases "find (hit name) tbl")
  case None
  then have "\<forall>e \<in> set tbl. \<not> hit name e" by (auto simp: find_None_iff)
  with None show ?thesis by (simp add: Directory_Find_eq)
next
  case (Some e)
  then have "e \<in> set tbl" "hit name e" by (auto simp: find_Some_iff)
  with assms Some show ?thesis by (auto simp: Directory_Find_eq dir_ok_def hit_def)
qed

lemma Directory_Remove_ok:
  assumes ok: "dir_ok tbl"
  shows "case Directory_Remove name tbl of (removed, tbl') \<Rightarrow> dir_ok tbl' \<and>
    (removed \<longleftrightarrow> Directory_Find name tbl \<noteq> - 1) \<and>
    (if removed then \<forall>b. Directory_Find b tbl' = (if same_name name b then - 1 else Directory_Find b tbl)
     else tbl' = tbl)"
proof (cases "FindIndex name tbl = - 1")
  case True
  then show ?thesis using ok Directory_Find_hits [OF ok, of name] by (simp add: Directory_Remove_def FindIndex_absent)
next
  case False
  then obtain i where i: "i < length tbl" "FindIndex name tbl = int i" "hit name (tbl ! i)"
    using find_index_spec [of name 0 tbl] by (auto simp: FindIndex_def)
  let ?e = "(tbl ! i)\<lparr>inUse := False\<rparr>"
  have R: "Directory_Remove name tbl = (True, tbl[i := ?e])" using i by (simp add: Directory_Remove_def Let_def)
  have off: "\<not> hit b ?e" for b by (simp add: hit_def)
  have "Directory_Find b (tbl[i := ?e]) = (if same_name name b then - 1 else Directory_Find b tbl)" for b
  proof (cases "same_name name b")
    case True
    have "\<not> hit b d" if "d \<in> set (tbl[i := ?e])" for d
    proof
      assume h: "hit b d"
      from that obtain j where j: "j < length tbl" "d = tbl[i := ?e] ! j" by (auto simp: in_set_conv_nth)
      with h off have "j \<noteq> i" by auto
      with j h have "hit b (tbl ! j)" "inUse (tbl ! j)" by (auto simp: hit_def)
      with True i have "same_name (de_name (tbl ! i)) (de_name (tbl ! j))" "inUse (tbl ! i)"
        by (auto simp: hit_def same_name_def strncmp_eq_def)
      with ok i(1) j(1) \<open>inUse (tbl ! j)\<close> \<open>j \<noteq> i\<close> show False by (auto simp: dir_ok_def)
    qed
    then have "find (hit b) (tbl[i := ?e]) = None" by (simp add: find_None_iff)
    with True show ?thesis by (simp add: Directory_Find_eq)
  next
    case other: False
    then have "\<not> hit b (tbl ! i)" using i(3) hit_same by blast
    with i(1) off other show ?thesis by (simp add: Directory_Find_eq find_update_other)
  qed
  moreover have "dir_ok (tbl[i := ?e])"
    using ok i(1) nth_mem [OF i(1)] by (intro dir_ok_update [OF ok]) (auto simp: dir_ok_def)
  moreover have "Directory_Find name tbl \<noteq> - 1" using Directory_Find_hits [OF ok] i nth_mem [OF i(1)] by blast
  ultimately show ?thesis unfolding R by simp
qed

subsection \<open>The image of the table\<close>

lemma length_encode_entry: "length (de_name e) = 51 \<Longrightarrow> length (de_pad1 e) = 3 \<Longrightarrow> length (encode_entry e) = 60"
  by (simp add: encode_entry_def)

lemma decode_encode_entry:
  assumes "length (de_name e) = 51" "length (de_pad1 e) = 3" "word_range (de_sector e)"
  shows "decode_entry (encode_entry e) = e"
  using assms bytes_int_bytes [of "de_sector e"]
  by (simp add: decode_entry_def encode_entry_def nth_append word_range_def)

lemma length_table_bytes:
  "dir_ok tbl \<Longrightarrow> length (table_bytes tbl) = sizeof_DirectoryEntry * length tbl"
  unfolding table_bytes_def by (rule length_concat_blocks) (auto simp: dir_ok_def length_encode_entry const_defs)

lemma load_table_bytes:
  assumes "dir_ok tbl" "length tbl0 = length tbl"
    and "length (table_bytes tbl0) \<le> length (table_bytes tbl)"
  shows "load_table tbl0 (table_bytes tbl) = tbl"
proof (rule nth_equalityI)
  show "length (load_table tbl0 (table_bytes tbl)) = length tbl" using assms(2) by (simp add: load_table_def Let_def)
  fix i assume "i < length (load_table tbl0 (table_bytes tbl))"
  then have i: "i < length tbl" using assms(2) by (simp add: load_table_def Let_def)
  have "take sizeof_DirectoryEntry (drop (sizeof_DirectoryEntry * i) (table_bytes tbl)) = encode_entry (tbl ! i)"
    unfolding table_bytes_def
    by (rule block_concat [OF _ i]) (use assms(1) in \<open>auto simp: dir_ok_def length_encode_entry const_defs\<close>)
  then have "take sizeof_DirectoryEntry (drop (sizeof_DirectoryEntry * i) (table_bytes tbl @ drop (length (table_bytes tbl)) (table_bytes tbl0)))
      = encode_entry (tbl ! i)" using assms(3) by simp
  moreover have "decode_entry (encode_entry (tbl ! i)) = tbl ! i"
    using assms(1) i by (intro decode_encode_entry) (auto simp: dir_ok_def)
  ultimately show "load_table tbl0 (table_bytes tbl) ! i = tbl ! i" using i assms(2) by (simp add: load_table_def Let_def)
qed

subsection \<open>Properties\<close>

text \<open>C23. A directory is a finite map from names (their first 50 characters) to header sectors. \<^verbatim>\<open>Add\<close> of a
  name that is absent, while an entry is free, makes \<^verbatim>\<open>Find\<close> return the new sector for that name and
  leaves every other name alone; otherwise \<^verbatim>\<open>Add\<close> returns FALSE and changes nothing. \<^verbatim>\<open>Remove\<close> of a present
  name makes \<^verbatim>\<open>Find\<close> return -1 for it and leaves the others alone; of an absent name it returns FALSE.
  Both keep the table well-formed: no two entries in use have the same name.\<close>

theorem Directory_is_map:
  assumes ok: "dir_ok tbl" and sector: "0 \<le> newSector" "word_range newSector"
  shows "(case Directory_Add name newSector tbl of (added, tbl') \<Rightarrow> dir_ok tbl' \<and>
      (added \<longleftrightarrow> Directory_Find name tbl = - 1 \<and> \<not> list_all inUse tbl) \<and>
      (if added then \<forall>b. Directory_Find b tbl' = (if same_name name b then newSector else Directory_Find b tbl)
       else tbl' = tbl)) \<and>
    (case Directory_Remove name tbl of (removed, tbl') \<Rightarrow> dir_ok tbl' \<and>
      (removed \<longleftrightarrow> Directory_Find name tbl \<noteq> - 1) \<and>
      (if removed then \<forall>b. Directory_Find b tbl' = (if same_name name b then - 1 else Directory_Find b tbl)
       else tbl' = tbl))"
proof (rule conjI)
  show "case Directory_Add name newSector tbl of (added, tbl') \<Rightarrow> dir_ok tbl' \<and>
      (added \<longleftrightarrow> Directory_Find name tbl = - 1 \<and> \<not> list_all inUse tbl) \<and>
      (if added then \<forall>b. Directory_Find b tbl' = (if same_name name b then newSector else Directory_Find b tbl)
       else tbl' = tbl)"
    using ok sector
  proof (cases rule: Directory_Add_cases [where name = name])
    case refused
    then show ?thesis using ok Directory_Find_hits [OF ok, of name] by auto
  next
    case (added i e)
    have "Directory_Find b (tbl[i := e]) = (if same_name name b then newSector else Directory_Find b tbl)" for b
    proof (cases "same_name name b")
      case True
      then have "\<forall>d \<in> set tbl. \<not> hit b d" using added(4) hit_same by (metis same_name_sym)
      with True added show ?thesis by (simp add: Directory_Find_eq find_update_only)
    next
      case False
      moreover have "\<not> hit b (tbl ! i)" using added(2) by (simp add: hit_def)
      ultimately show ?thesis using added by (simp add: Directory_Find_eq find_update_other)
    qed
    moreover have "hit (de_name e) e" using added(5) by (simp add: hit_def strncmp_eq_def)
    then have "same_name name (de_name e)" using added(7) by blast
    then have "\<forall>d \<in> set tbl. \<not> hit (de_name e) d" using added(4) hit_same by (metis same_name_sym)
    then have "dir_ok (tbl[i := e])" using added sector by (intro dir_ok_update [OF ok]) auto
    moreover have "\<not> list_all inUse tbl" using added(1,2) by (auto simp: list_all_length)
    ultimately show ?thesis using added Directory_Find_hits [OF ok, of name] by simp
  qed
qed (rule Directory_Remove_ok [OF ok])

text \<open>A directory of two free entries.\<close>

definition empty_dir :: directory where
  "empty_dir = Directory_new (\<lambda>_. \<lparr>inUse = True, de_pad1 = [1, 2, 3], de_sector = 0, de_name = replicate 51 0, de_pad2 = 9\<rparr>) 2"

theorem Directory_is_map_witness:
  "dir_ok empty_dir \<and>
   (case Directory_Add [97, 98] 7 empty_dir of (added, tbl') \<Rightarrow> added \<and> Directory_Find [97, 98] tbl' = 7 \<and> Directory_Find [97] tbl' = - 1)"
proof -
  have ok: "dir_ok empty_dir" "(0 :: int) \<le> 7" "word_range 7"
    by (auto simp: dir_ok_def empty_dir_def Directory_new_def word_range_def)
  have "Directory_Find b empty_dir = - 1" for b
    by (simp add: Directory_Find_hits [OF ok(1)]) (simp add: hit_def empty_dir_def Directory_new_def)
  moreover have "\<not> list_all inUse empty_dir" "\<not> same_name [97, 98] [97]"
    by (simp_all add: empty_dir_def Directory_new_def same_name_def strncmp_eq_def c_string_def const_defs upt_rec)
  ultimately show ?thesis using Directory_is_map [OF ok, of "[97, 98]"] ok
    by (cases "Directory_Add [97, 98] 7 empty_dir") auto
qed

end
