(* ===== verification/File_System.thy ===== *)
theory File_System
  imports Directory
begin

text \<open>
  The Nachos file system: filesys/filesys.h (the branch without \<^verbatim>\<open>FILESYS_STUB\<close>) and filesys/filesys.cc,
  with the two operations of userprog/bitmap.cc that store a bitmap in a file.

  Directory and free map live in two files whose headers are in sectors 0 and 1. Every operation
  reads them into memory, works there and writes them back when everything succeeded. The record
  \<open>garbage\<close> is what freshly allocated memory contains, the two headers that formatting allocates apart. The pointer \<^verbatim>\<open>openf\<close> to the table of open files is
  not initialised by this constructor: \<open>None\<close>.
\<close>

subsection \<open>Bitmaps in files\<close>

definition word_bytes :: "int32 \<Rightarrow> byte list" where
  "word_bytes w = host_store32 HOST_IS_BIG_ENDIAN w"

definition bitmap_bytes :: "bitmap \<Rightarrow> byte list" where
  "bitmap_bytes bm = concat (map word_bytes (bmap bm))"

definition BitMap_FetchFrom :: "'s sector_read \<Rightarrow> OpenFile \<Rightarrow> bitmap \<Rightarrow> 's \<Rightarrow> (bitmap \<times> 's) res" where
  "BitMap_FetchFrom rd f bm s =
     rbind (ReadAt rd (numWords bm * 4) 0 f s) (\<lambda>((_, bs), s1).
     let img = bs @ drop (length bs) (bitmap_bytes bm) in
     Inr (bm\<lparr>bmap := map (\<lambda>i. host_load32 HOST_IS_BIG_ENDIAN (take 4 (drop (4 * i) img))) [0..<length (bmap bm)]\<rparr>, s1))"

definition BitMap_WriteBack ::
    "'s sector_read \<Rightarrow> 's sector_write \<Rightarrow> (nat \<Rightarrow> byte) \<Rightarrow> OpenFile \<Rightarrow> bitmap \<Rightarrow> 's \<Rightarrow> 's res" where
  "BitMap_WriteBack rd wr junk f bm s =
     rbind (WriteAt rd wr junk (bitmap_bytes bm) (numWords bm * 4) 0 f s) (\<lambda>(_, s1). Inr s1)"

subsection \<open>Data\<close>

definition FreeMapSector :: int where [const_defs]: "FreeMapSector = 0"
definition DirectorySector :: int where [const_defs]: "DirectorySector = 1"
definition FreeMapFileSize :: int where [const_defs]: "FreeMapFileSize = NumSectors div BitsInByte"
definition NumDirEntries :: nat where [const_defs]: "NumDirEntries = 10"
definition DirectoryFileSize :: int where [const_defs]: "DirectoryFileSize = int (sizeof_DirectoryEntry * NumDirEntries)"

record FileSystem =
  freeMapFile :: OpenFile
  directoryFile :: OpenFile
  openf :: "OpenFile option list option"

record garbage =
  g_bytes :: "nat \<Rightarrow> byte"
  g_words :: "nat \<Rightarrow> int32"
  g_entries :: "nat \<Rightarrow> DirectoryEntry"
  g_header :: FileHeader
  g_header2 :: FileHeader

subsection \<open>Operations\<close>

text \<open>\<^verbatim>\<open>ASSERT(hdr->Allocate(freeMap, size))\<close>\<close>

definition Allocate_or_abort :: "bitmap \<Rightarrow> int \<Rightarrow> FileHeader \<Rightarrow> (bitmap \<times> FileHeader) res" where
  "Allocate_or_abort fm n h =
     rbind (Allocate fm n h) (\<lambda>(ok, fm', h'). rbind (ASSERT ok) (\<lambda>_. Inr (fm', h')))"

text \<open>\<open>debug\<close> is \<^verbatim>\<open>DebugIsEnabled('f')\<close>: formatting then prints the free map and the directory. What they write
  to the terminal is not part of the state here.\<close>

definition FileSystem_new ::
    "'s sector_read \<Rightarrow> 's sector_write \<Rightarrow> garbage \<Rightarrow> bool \<Rightarrow> bool \<Rightarrow> 's \<Rightarrow> (FileSystem \<times> 's) res" where
  "FileSystem_new rd wr g debug format s =
     (if format
      then
        rbind (BitMap_new (g_words g) NumSectors) (\<lambda>fm0.
        let directory = Directory_new (g_entries g) NumDirEntries in
        rbind (BitMap_Mark FreeMapSector fm0) (\<lambda>fm1.
        rbind (BitMap_Mark DirectorySector fm1) (\<lambda>fm2.
        rbind (Allocate_or_abort fm2 FreeMapFileSize (g_header g)) (\<lambda>(fm3, mapHdr).
        rbind (Allocate_or_abort fm3 DirectoryFileSize (g_header2 g)) (\<lambda>(fm4, dirHdr).
        rbind (FileHeader_WriteBack wr FreeMapSector mapHdr s) (\<lambda>s1.
        rbind (FileHeader_WriteBack wr DirectorySector dirHdr s1) (\<lambda>s2.
        rbind (OpenFile_new rd FreeMapSector 0 s2) (\<lambda>(mapFile, s3).
        rbind (OpenFile_new rd DirectorySector 0 s3) (\<lambda>(dirFile, s4).
        rbind (BitMap_WriteBack rd wr (g_bytes g) mapFile fm4 s4) (\<lambda>s5.
        rbind (Directory_WriteBack rd wr (g_bytes g) dirFile directory s5) (\<lambda>s6.
        rbind (if debug
               then rbind (BitMap_Print fm4) (\<lambda>_.
                    rbind (Directory_Print rd directory s6) (\<lambda>(_, s7). Inr s7))
               else Inr s6) (\<lambda>s7.
        Inr (\<lparr>freeMapFile = mapFile, directoryFile = dirFile, openf = None\<rparr>, s7)))))))))))))
      else
        rbind (OpenFile_new rd FreeMapSector 0 s) (\<lambda>(mapFile, s1).
        rbind (OpenFile_new rd DirectorySector 0 s1) (\<lambda>(dirFile, s2).
        Inr (\<lparr>freeMapFile = mapFile, directoryFile = dirFile, openf = None\<rparr>, s2))))"

definition FileSystem_Create ::
    "'s sector_read \<Rightarrow> 's sector_write \<Rightarrow> garbage \<Rightarrow> byte list \<Rightarrow> int \<Rightarrow> FileSystem \<Rightarrow> 's \<Rightarrow> (bool \<times> 's) res" where
  "FileSystem_Create rd wr g name initialSize fs s =
     rbind (Directory_FetchFrom rd (directoryFile fs) (Directory_new (g_entries g) NumDirEntries) s) (\<lambda>(directory, s1).
     if Directory_Find name directory \<noteq> - 1 then Inr (False, s1)
     else
       rbind (BitMap_new (g_words g) NumSectors) (\<lambda>fm0.
       rbind (BitMap_FetchFrom rd (freeMapFile fs) fm0 s1) (\<lambda>(freeMap, s2).
       rbind (BitMap_Find freeMap) (\<lambda>(sector, freeMap1).
       if sector = - 1 then Inr (False, s2)
       else case Directory_Add name sector directory of
           (False, _) \<Rightarrow> Inr (False, s2)
         | (True, directory1) \<Rightarrow>
             rbind (Allocate freeMap1 initialSize (g_header g)) (\<lambda>(ok, freeMap2, hdr).
             if \<not> ok then Inr (False, s2)
             else
               rbind (FileHeader_WriteBack wr sector hdr s2) (\<lambda>s3.
               rbind (Directory_WriteBack rd wr (g_bytes g) (directoryFile fs) directory1 s3) (\<lambda>s4.
               rbind (BitMap_WriteBack rd wr (g_bytes g) (freeMapFile fs) freeMap2 s4) (\<lambda>s5.
               Inr (True, s5)))))))))"

text \<open>\<^verbatim>\<open>findFreeSlot\<close> follows the pointer \<^verbatim>\<open>openf\<close>.\<close>

fun free_slot :: "OpenFile option list \<Rightarrow> nat list \<Rightarrow> nat res" where
  "free_slot tbl [] = Inr 10"
| "free_slot tbl (i # is) =
     rbind (arr_get tbl (int i)) (\<lambda>f. case f of None \<Rightarrow> Inr i | Some _ \<Rightarrow> free_slot tbl is)"

definition findFreeSlot :: "FileSystem \<Rightarrow> nat res" where
  "findFreeSlot fs = (case openf fs of None \<Rightarrow> Inl Undefined | Some tbl \<Rightarrow> free_slot tbl [2..<10])"

definition FileSystem_Open ::
    "'s sector_read \<Rightarrow> garbage \<Rightarrow> byte list \<Rightarrow> int \<Rightarrow> FileSystem \<Rightarrow> 's \<Rightarrow> (OpenFile option \<times> FileSystem \<times> 's) res" where
  "FileSystem_Open rd g name type fs s =
     rbind (Directory_FetchFrom rd (directoryFile fs) (Directory_new (g_entries g) NumDirEntries) s) (\<lambda>(directory, s1).
     let sector = Directory_Find name directory in
     rbind (findFreeSlot fs) (\<lambda>freeSlot.
     case openf fs of
       None \<Rightarrow> Inl Undefined
     | Some tbl \<Rightarrow>
         rbind (if sector \<ge> 0
                then rbind (OpenFile_new rd sector type s1) (\<lambda>(f, s2).
                     rbind (arr_set tbl (int freeSlot) (Some f)) (\<lambda>tbl'. Inr (tbl', s2)))
                else Inr (tbl, s1)) (\<lambda>(tbl', s2).
         rbind (arr_get tbl' (int freeSlot)) (\<lambda>r.
         Inr (r, fs\<lparr>openf := Some tbl'\<rparr>, s2)))))"

definition FileSystem_Remove ::
    "'s sector_read \<Rightarrow> 's sector_write \<Rightarrow> garbage \<Rightarrow> byte list \<Rightarrow> FileSystem \<Rightarrow> 's \<Rightarrow> (bool \<times> 's) res" where
  "FileSystem_Remove rd wr g name fs s =
     rbind (Directory_FetchFrom rd (directoryFile fs) (Directory_new (g_entries g) NumDirEntries) s) (\<lambda>(directory, s1).
     let sector = Directory_Find name directory in
     if sector = - 1 then Inr (False, s1)
     else
       rbind (FileHeader_FetchFrom rd sector s1) (\<lambda>(fileHdr, s2).
       rbind (BitMap_new (g_words g) NumSectors) (\<lambda>fm0.
       rbind (BitMap_FetchFrom rd (freeMapFile fs) fm0 s2) (\<lambda>(freeMap, s3).
       rbind (Deallocate freeMap fileHdr) (\<lambda>freeMap1.
       rbind (BitMap_Clear sector freeMap1) (\<lambda>freeMap2.
       let directory1 = snd (Directory_Remove name directory) in
       rbind (BitMap_WriteBack rd wr (g_bytes g) (freeMapFile fs) freeMap2 s3) (\<lambda>s4.
       rbind (Directory_WriteBack rd wr (g_bytes g) (directoryFile fs) directory1 s4) (\<lambda>s5.
       Inr (True, s5)))))))))"

definition FileSystem_List :: "'s sector_read \<Rightarrow> garbage \<Rightarrow> FileSystem \<Rightarrow> 's \<Rightarrow> (byte list list \<times> 's) res" where
  "FileSystem_List rd g fs s =
     rbind (Directory_FetchFrom rd (directoryFile fs) (Directory_new (g_entries g) NumDirEntries) s) (\<lambda>(directory, s1).
     rbind (Directory_List directory) (\<lambda>names. Inr (names, s1)))"

text \<open>\<^verbatim>\<open>Print\<close>: the two headers with their contents, the marked sectors, and the directory.\<close>

definition FileSystem_Print where
  "FileSystem_Print rd g fs s =
     rbind (FileHeader_FetchFrom rd FreeMapSector s) (\<lambda>(bitHdr, s1).
     rbind (FileHeader_Print rd bitHdr s1) (\<lambda>(p1, s2).
     rbind (FileHeader_FetchFrom rd DirectorySector s2) (\<lambda>(dirHdr, s3).
     rbind (FileHeader_Print rd dirHdr s3) (\<lambda>(p2, s4).
     rbind (BitMap_new (g_words g) NumSectors) (\<lambda>fm0.
     rbind (BitMap_FetchFrom rd (freeMapFile fs) fm0 s4) (\<lambda>(freeMap, s5).
     rbind (BitMap_Print freeMap) (\<lambda>bits.
     rbind (Directory_FetchFrom rd (directoryFile fs) (Directory_new (g_entries g) NumDirEntries) s5) (\<lambda>(directory, s6).
     rbind (Directory_Print rd directory s6) (\<lambda>(p3, s7).
     Inr ((p1, p2, bits, p3), s7))))))))))"

subsection \<open>The file system on disk\<close>

definition garbage_ok :: "garbage \<Rightarrow> bool" where
  "garbage_ok g \<longleftrightarrow> (\<forall>i. length (de_name (g_entries g i)) = 51 \<and> length (de_pad1 (g_entries g i)) = 3 \<and>
       word_range (de_sector (g_entries g i))) \<and>
     header_words (g_header g) \<and> header_words (g_header2 g)"

text \<open>The disk holds the directory \<open>tbl\<close> and the free map \<open>bm\<close>, in files whose own sectors are marked.\<close>

definition stored :: "(int \<Rightarrow> byte list) \<Rightarrow> FileSystem \<Rightarrow> directory \<Rightarrow> bitmap \<Rightarrow> bool" where
  "stored sec fs tbl bm \<longleftrightarrow>
     (let dh = of_hdr (directoryFile fs); mh = of_hdr (freeMapFile fs) in
      header_ok NumSectors dh \<and> fh_numBytes dh = DirectoryFileSize \<and>
      header_ok NumSectors mh \<and> fh_numBytes mh = FreeMapFileSize \<and>
      set (used_sectors dh) \<inter> set (used_sectors mh) = {} \<and>
      set (used_sectors dh) \<union> set (used_sectors mh) \<subseteq> marked bm \<and>
      file_bytes sec dh = table_bytes tbl \<and> dir_ok tbl \<and> length tbl = NumDirEntries \<and>
      file_bytes sec mh = bitmap_bytes bm \<and> bm_wf bm \<and> numBits bm = NumSectors)"

lemma length_word_bytes [simp]: "length (word_bytes w) = 4"
  by (simp add: word_bytes_def host_store32_def Let_def)

lemma length_bitmap_bytes: "bm_wf bm \<Longrightarrow> int (length (bitmap_bytes bm)) = numWords bm * 4"
  unfolding bitmap_bytes_def by (subst length_concat_blocks [where k = 4]) (simp_all add: bm_wf_def)

lemma load_bitmap_bytes:
  assumes "length ws = length (bmap bm)"
  shows "map (\<lambda>i. host_load32 HOST_IS_BIG_ENDIAN (take 4 (drop (4 * i) (bitmap_bytes bm)))) [0..<length ws] = bmap bm"
proof (rule nth_equalityI)
  fix i assume "i < length (map (\<lambda>i. host_load32 HOST_IS_BIG_ENDIAN (take 4 (drop (4 * i) (bitmap_bytes bm)))) [0..<length ws])"
  then have i: "i < length (bmap bm)" using assms by simp
  have "take 4 (drop (4 * i) (bitmap_bytes bm)) = word_bytes (bmap bm ! i)"
    unfolding bitmap_bytes_def by (rule block_concat) (use i in simp_all)
  then show "map (\<lambda>i. host_load32 HOST_IS_BIG_ENDIAN (take 4 (drop (4 * i) (bitmap_bytes bm)))) [0..<length ws] ! i = bmap bm ! i"
    using i assms by (simp add: word_bytes_def host_store_load32)
qed (use assms in simp)

text \<open>The two open files of the file system have the right sizes and share no sector.\<close>

definition layout_ok :: "FileSystem \<Rightarrow> bool" where
  "layout_ok fs \<longleftrightarrow> header_ok NumSectors (of_hdr (directoryFile fs)) \<and> fh_numBytes (of_hdr (directoryFile fs)) = 600 \<and>
     header_ok NumSectors (of_hdr (freeMapFile fs)) \<and> fh_numBytes (of_hdr (freeMapFile fs)) = 128 \<and>
     set (used_sectors (of_hdr (directoryFile fs))) \<inter> set (used_sectors (of_hdr (freeMapFile fs))) = {}"

lemma stored_layout: "stored sec fs tbl bm \<Longrightarrow> layout_ok fs"
  by (simp add: stored_def layout_ok_def Let_def const_defs)

lemma storedD:
  assumes "stored sec fs tbl bm"
  shows "header_ok NumSectors (of_hdr (directoryFile fs))" "fh_numBytes (of_hdr (directoryFile fs)) = 600"
    "header_ok NumSectors (of_hdr (freeMapFile fs))" "fh_numBytes (of_hdr (freeMapFile fs)) = 128"
    "set (used_sectors (of_hdr (directoryFile fs))) \<inter> set (used_sectors (of_hdr (freeMapFile fs))) = {}"
    "set (used_sectors (of_hdr (directoryFile fs))) \<subseteq> marked bm" "set (used_sectors (of_hdr (freeMapFile fs))) \<subseteq> marked bm"
    "file_bytes sec (of_hdr (directoryFile fs)) = table_bytes tbl" "dir_ok tbl" "length tbl = NumDirEntries"
    "file_bytes sec (of_hdr (freeMapFile fs)) = bitmap_bytes bm" "bm_wf bm" "numBits bm = NumSectors"
  using assms by (auto simp: stored_def Let_def const_defs)

lemma dir_ok_new: "garbage_ok g \<Longrightarrow> dir_ok (Directory_new (g_entries g) n)"
  by (auto simp: dir_ok_def Directory_new_def garbage_ok_def)

lemma length_Directory_new [simp]: "length (Directory_new fresh n) = n"
  by (simp add: Directory_new_def)

lemma numWords_disk: "bm_wf bm \<Longrightarrow> numBits bm = NumSectors \<Longrightarrow> numWords bm = 32 \<and> length (bmap bm) = 32"
  by (simp add: bm_wf_def divRoundUp_def const_defs)

lemma bitmap_eqI:
  assumes "bm_wf a" "bm_wf b" "numBits a = numBits b"
  shows "a\<lparr>bmap := bmap b\<rparr> = b"
  using assms by (cases a, cases b) (simp add: bm_wf_def)

lemma file_bytes_cong: "(\<And>x. x \<in> set (used_sectors h) \<Longrightarrow> f x = g x) \<Longrightarrow> file_bytes f h = file_bytes g h"
  by (simp add: file_bytes_def sector_data_def cong: map_cong)

lemma used_sectors_range: "header_ok limit h \<Longrightarrow> x \<in> set (used_sectors h) \<Longrightarrow> 0 \<le> x \<and> x < limit"
  unfolding header_ok_def Let_def used_sectors_def by (meson atLeastLessThan_iff subsetD)

lemma overwrite_all: "length ys = length xs \<Longrightarrow> overwrite xs 0 ys = ys"
  by (simp add: overwrite_def)

subsection \<open>The operations over a sector store\<close>

context sector_store
begin

lemma fetch_directory:
  assumes "ok s" "limit = NumSectors" "stored (sec s) fs tbl bm" "garbage_ok g"
  shows "\<exists>s'. Directory_FetchFrom rd (directoryFile fs) (Directory_new (g_entries g) NumDirEntries) s = Inr (tbl, s') \<and>
    ok s' \<and> sec s' = sec s"
proof -
  note st = storedD [OF assms(3)]
  have len: "length (table_bytes tbl) = 600" using length_table_bytes [OF st(9)] st(10) by (simp add: const_defs)
  have "length (table_bytes (Directory_new (g_entries g) NumDirEntries)) = 600"
    using length_table_bytes [OF dir_ok_new [OF assms(4)]] by (simp add: const_defs)
  then have "load_table (Directory_new (g_entries g) NumDirEntries) (table_bytes tbl) = tbl"
    by (intro load_table_bytes) (simp_all add: st len)
  moreover from ReadAt_ok [OF assms(1), of "directoryFile fs" 0 600] obtain s' where
    "ReadAt rd 600 0 (directoryFile fs) s = Inr ((600, table_bytes tbl), s')" "ok s'" "sec s' = sec s"
    using st assms(2) len by (auto simp: Let_def)
  ultimately show ?thesis by (simp add: Directory_FetchFrom_def const_defs)
qed

lemma fetch_map:
  assumes "ok s" "limit = NumSectors" "stored (sec s) fs tbl bm"
  shows "\<exists>fm0 s'. BitMap_new fresh NumSectors = Inr fm0 \<and> BitMap_FetchFrom rd (freeMapFile fs) fm0 s = Inr (bm, s') \<and>
    ok s' \<and> sec s' = sec s"
proof -
  note st = storedD [OF assms(3)]
  obtain fm0 where fm0: "BitMap_new fresh NumSectors = Inr fm0" "bm_wf fm0" "numBits fm0 = NumSectors"
    using BitMap_new_ok [of NumSectors fresh] by (auto simp: const_defs)
  have w: "numWords fm0 = 32" "length (bmap fm0) = length (bmap bm)"
    using numWords_disk [OF fm0(2,3)] numWords_disk [OF st(12,13)] by simp_all
  have len: "length (bitmap_bytes bm) = 128" "length (bitmap_bytes fm0) = 128"
    using length_bitmap_bytes [OF st(12)] numWords_disk [OF st(12,13)]
      length_bitmap_bytes [OF fm0(2)] numWords_disk [OF fm0(2,3)] by simp_all
  from ReadAt_ok [OF assms(1), of "freeMapFile fs" 0 128] obtain s' where
    "ReadAt rd 128 0 (freeMapFile fs) s = Inr ((128, bitmap_bytes bm), s')" "ok s'" "sec s' = sec s"
    using st assms(2) len by (auto simp: Let_def)
  moreover have "fm0\<lparr>bmap := bmap bm\<rparr> = bm" using fm0 st by (intro bitmap_eqI) simp_all
  ultimately show ?thesis
    using fm0(1) w load_bitmap_bytes [OF w(2)] len by (auto simp: BitMap_FetchFrom_def)
qed

lemma store_directory:
  assumes "ok s" "limit = NumSectors" "header_ok NumSectors (of_hdr f)" "fh_numBytes (of_hdr f) = 600"
    and "dir_ok tbl" "length tbl = NumDirEntries"
  shows "\<exists>s'. Directory_WriteBack rd wr junk f tbl s = Inr s' \<and> ok s' \<and> file_bytes (sec s') (of_hdr f) = table_bytes tbl \<and>
    (\<forall>x. 0 \<le> x \<longrightarrow> x < NumSectors \<longrightarrow> x \<notin> set (used_sectors (of_hdr f)) \<longrightarrow> sec s' x = sec s x)"
proof -
  have len: "length (table_bytes tbl) = 600" using length_table_bytes [OF assms(5)] assms(6) by (simp add: const_defs)
  with WriteAt_ok [OF assms(1), of f 0 600 "table_bytes tbl" junk] assms(2-4) length_file_bytes [OF assms(1), of "of_hdr f"]
  obtain s' where "WriteAt rd wr junk (table_bytes tbl) 600 0 f s = Inr (600, s')" "ok s'"
    "file_bytes (sec s') (of_hdr f) = table_bytes tbl"
    "\<forall>x. 0 \<le> x \<longrightarrow> x < NumSectors \<longrightarrow> x \<notin> set (used_sectors (of_hdr f)) \<longrightarrow> sec s' x = sec s x"
    by (auto simp: overwrite_all)
  with assms(6) show ?thesis by (simp add: Directory_WriteBack_def const_defs)
qed

lemma store_map:
  assumes "ok s" "limit = NumSectors" "header_ok NumSectors (of_hdr f)" "fh_numBytes (of_hdr f) = 128"
    and "bm_wf bm" "numBits bm = NumSectors"
  shows "\<exists>s'. BitMap_WriteBack rd wr junk f bm s = Inr s' \<and> ok s' \<and> file_bytes (sec s') (of_hdr f) = bitmap_bytes bm \<and>
    (\<forall>x. 0 \<le> x \<longrightarrow> x < NumSectors \<longrightarrow> x \<notin> set (used_sectors (of_hdr f)) \<longrightarrow> sec s' x = sec s x)"
proof -
  have w: "numWords bm = 32" using numWords_disk [OF assms(5,6)] by simp
  then have len: "length (bitmap_bytes bm) = 128" using length_bitmap_bytes [OF assms(5)] by simp
  with WriteAt_ok [OF assms(1), of f 0 128 "bitmap_bytes bm" junk] assms(2-4) length_file_bytes [OF assms(1), of "of_hdr f"]
  obtain s' where "WriteAt rd wr junk (bitmap_bytes bm) 128 0 f s = Inr (128, s')" "ok s'"
    "file_bytes (sec s') (of_hdr f) = bitmap_bytes bm"
    "\<forall>x. 0 \<le> x \<longrightarrow> x < NumSectors \<longrightarrow> x \<notin> set (used_sectors (of_hdr f)) \<longrightarrow> sec s' x = sec s x"
    by (auto simp: overwrite_all)
  with w show ?thesis by (simp add: BitMap_WriteBack_def)
qed

text \<open>Writing back both tables, in either order, stores them and changes no sector outside their files.\<close>

lemma store_tables:
  assumes "ok s" "limit = NumSectors" "layout_ok fs"
    and "dir_ok tbl'" "length tbl' = NumDirEntries" "bm_wf bm'" "numBits bm' = NumSectors"
    and "set (used_sectors (of_hdr (directoryFile fs))) \<union> set (used_sectors (of_hdr (freeMapFile fs))) \<subseteq> marked bm'"
  defines "D \<equiv> set (used_sectors (of_hdr (directoryFile fs)))" and "M \<equiv> set (used_sectors (of_hdr (freeMapFile fs)))"
  shows "\<exists>s1 s2. Directory_WriteBack rd wr junk (directoryFile fs) tbl' s = Inr s1 \<and>
      BitMap_WriteBack rd wr junk (freeMapFile fs) bm' s1 = Inr s2 \<and> ok s2 \<and> stored (sec s2) fs tbl' bm' \<and>
      (\<forall>x. 0 \<le> x \<longrightarrow> x < NumSectors \<longrightarrow> x \<notin> D \<union> M \<longrightarrow> sec s2 x = sec s x)"
    and "\<exists>s1 s2. BitMap_WriteBack rd wr junk (freeMapFile fs) bm' s = Inr s1 \<and>
      Directory_WriteBack rd wr junk (directoryFile fs) tbl' s1 = Inr s2 \<and> ok s2 \<and> stored (sec s2) fs tbl' bm' \<and>
      (\<forall>x. 0 \<le> x \<longrightarrow> x < NumSectors \<longrightarrow> x \<notin> D \<union> M \<longrightarrow> sec s2 x = sec s x)"
proof -
  from assms(3) have st: "header_ok NumSectors (of_hdr (directoryFile fs))" "fh_numBytes (of_hdr (directoryFile fs)) = 600"
    "header_ok NumSectors (of_hdr (freeMapFile fs))" "fh_numBytes (of_hdr (freeMapFile fs)) = 128"
    "set (used_sectors (of_hdr (directoryFile fs))) \<inter> set (used_sectors (of_hdr (freeMapFile fs))) = {}"
    by (simp_all add: layout_ok_def)
  have rng: "x \<in> D \<union> M \<Longrightarrow> 0 \<le> x \<and> x < NumSectors" for x
    using used_sectors_range [OF st(1)] used_sectors_range [OF st(3)] by (auto simp: D_def M_def)
  have disj: "x \<in> D \<Longrightarrow> x \<notin> M" for x using st(5) by (auto simp: D_def M_def)
  obtain s1 where s1: "Directory_WriteBack rd wr junk (directoryFile fs) tbl' s = Inr s1" "ok s1"
      "file_bytes (sec s1) (of_hdr (directoryFile fs)) = table_bytes tbl'"
      "\<forall>x. 0 \<le> x \<longrightarrow> x < NumSectors \<longrightarrow> x \<notin> D \<longrightarrow> sec s1 x = sec s x"
    using store_directory [OF assms(1,2) st(1,2) assms(4,5)] unfolding D_def by blast
  obtain s2 where s2: "BitMap_WriteBack rd wr junk (freeMapFile fs) bm' s1 = Inr s2" "ok s2"
      "file_bytes (sec s2) (of_hdr (freeMapFile fs)) = bitmap_bytes bm'"
      "\<forall>x. 0 \<le> x \<longrightarrow> x < NumSectors \<longrightarrow> x \<notin> M \<longrightarrow> sec s2 x = sec s1 x"
    using store_map [OF s1(2) assms(2) st(3,4) assms(6,7)] unfolding M_def by blast
  have "file_bytes (sec s2) (of_hdr (directoryFile fs)) = table_bytes tbl'"
    using file_bytes_cong [of "of_hdr (directoryFile fs)" "sec s2" "sec s1"] s1(3) s2(4) rng disj by (auto simp: D_def)
  then have "stored (sec s2) fs tbl' bm'"
    using st s2 assms(4-8) by (auto simp: stored_def Let_def const_defs)
  with s1 s2 show "\<exists>s1 s2. Directory_WriteBack rd wr junk (directoryFile fs) tbl' s = Inr s1 \<and>
      BitMap_WriteBack rd wr junk (freeMapFile fs) bm' s1 = Inr s2 \<and> ok s2 \<and> stored (sec s2) fs tbl' bm' \<and>
      (\<forall>x. 0 \<le> x \<longrightarrow> x < NumSectors \<longrightarrow> x \<notin> D \<union> M \<longrightarrow> sec s2 x = sec s x)" by auto
  obtain t1 where t1: "BitMap_WriteBack rd wr junk (freeMapFile fs) bm' s = Inr t1" "ok t1"
      "file_bytes (sec t1) (of_hdr (freeMapFile fs)) = bitmap_bytes bm'"
      "\<forall>x. 0 \<le> x \<longrightarrow> x < NumSectors \<longrightarrow> x \<notin> M \<longrightarrow> sec t1 x = sec s x"
    using store_map [OF assms(1,2) st(3,4) assms(6,7)] unfolding M_def by blast
  obtain t2 where t2: "Directory_WriteBack rd wr junk (directoryFile fs) tbl' t1 = Inr t2" "ok t2"
      "file_bytes (sec t2) (of_hdr (directoryFile fs)) = table_bytes tbl'"
      "\<forall>x. 0 \<le> x \<longrightarrow> x < NumSectors \<longrightarrow> x \<notin> D \<longrightarrow> sec t2 x = sec t1 x"
    using store_directory [OF t1(2) assms(2) st(1,2) assms(4,5)] unfolding D_def by blast
  have "file_bytes (sec t2) (of_hdr (freeMapFile fs)) = bitmap_bytes bm'"
    using file_bytes_cong [of "of_hdr (freeMapFile fs)" "sec t2" "sec t1"] t1(3) t2(4) rng disj by (auto simp: M_def)
  then have "stored (sec t2) fs tbl' bm'"
    using st t2 assms(4-8) by (auto simp: stored_def Let_def const_defs)
  with t1 t2 show "\<exists>s1 s2. BitMap_WriteBack rd wr junk (freeMapFile fs) bm' s = Inr s1 \<and>
      Directory_WriteBack rd wr junk (directoryFile fs) tbl' s1 = Inr s2 \<and> ok s2 \<and> stored (sec s2) fs tbl' bm' \<and>
      (\<forall>x. 0 \<le> x \<longrightarrow> x < NumSectors \<longrightarrow> x \<notin> D \<union> M \<longrightarrow> sec s2 x = sec s x)" by auto
qed

end

text \<open>When \<^verbatim>\<open>Create\<close> can succeed, and the file that it makes.\<close>

definition can_create :: "byte list \<Rightarrow> int \<Rightarrow> directory \<Rightarrow> bitmap \<Rightarrow> bool" where
  "can_create name fileSize tbl bm \<longleftrightarrow> Directory_Find name tbl = - 1 \<and> \<not> list_all inUse tbl \<and>
     1 + divRoundUp fileSize SectorSize \<le> int (card ({0..<NumSectors} - marked bm))"

text \<open>File \<open>name\<close> has its header \<open>h\<close> in sector \<open>n\<close>, and these sectors belong to no other file.\<close>

definition file_at :: "(int \<Rightarrow> byte list) \<Rightarrow> FileSystem \<Rightarrow> directory \<Rightarrow> bitmap \<Rightarrow> byte list \<Rightarrow> int \<Rightarrow> FileHeader \<Rightarrow> bool" where
  "file_at sec fs tbl bm name n h \<longleftrightarrow> Directory_Find name tbl = n \<and> decode_header (sec n) = h \<and> header_ok NumSectors h \<and>
     n \<notin> set (used_sectors h) \<and> insert n (set (used_sectors h)) \<subseteq>
       marked bm - set (used_sectors (of_hdr (directoryFile fs))) - set (used_sectors (of_hdr (freeMapFile fs)))"

definition table_sectors :: "FileSystem \<Rightarrow> int set" where
  "table_sectors fs = set (used_sectors (of_hdr (directoryFile fs))) \<union> set (used_sectors (of_hdr (freeMapFile fs)))"

text \<open>From the contents \<open>sec\<close> to \<open>sec'\<close> of the disk the file \<open>name\<close> was added and nothing else changed.\<close>

definition created where
  "created sec sec' fs tbl bm name fileSize \<longleftrightarrow> (\<exists>tbl' bm' n h. stored sec' fs tbl' bm' \<and> file_at sec' fs tbl' bm' name n h \<and>
     fh_numBytes h = fileSize \<and> insert n (set (used_sectors h)) \<inter> marked bm = {} \<and>
     marked bm' = marked bm \<union> insert n (set (used_sectors h)) \<and>
     (\<forall>b. \<not> same_name name b \<longrightarrow> Directory_Find b tbl' = Directory_Find b tbl) \<and>
     (\<forall>x \<in> marked bm - table_sectors fs. sec' x = sec x))"

lemma list_all_word_range: "set xs \<subseteq> {0..<NumSectors} \<Longrightarrow> list_all word_range ys \<Longrightarrow> list_all word_range (xs @ drop k ys)"
proof -
  assume xs: "set xs \<subseteq> {0..<NumSectors}" and ys: "list_all word_range ys"
  have "word_range x" if "x \<in> {0..<NumSectors}" for x using that by (simp add: word_range_def const_defs)
  then have "list_all word_range xs" using xs by (auto simp: list_all_iff)
  moreover have "list_all word_range (drop k ys)" using ys by (auto simp: list_all_iff dest: in_set_dropD)
  ultimately show ?thesis by simp
qed

lemma new_header:
  assumes "garbage_ok g" "0 \<le> fileSize" "fileSize \<le> MaxFileSize" "int (length xs) = divRoundUp fileSize SectorSize"
    "length xs \<le> NumDirect" "distinct xs" "set xs \<subseteq> {0..<NumSectors}"
  defines "h \<equiv> (g_header g)\<lparr>fh_numBytes := fileSize, fh_numSectors := divRoundUp fileSize SectorSize,
        dataSectors := xs @ drop (length xs) (dataSectors (g_header g))\<rparr>"
  shows "header_words h" "header_ok NumSectors h" "used_sectors h = xs"
proof -
  have g: "length (dataSectors (g_header g)) = NumDirect" "list_all word_range (dataSectors (g_header g))"
    using assms(1) by (auto simp: garbage_ok_def header_words_def)
  have n: "nat (divRoundUp fileSize SectorSize) = length xs" using assms(4) by simp
  show u: "used_sectors h = xs" by (simp add: used_sectors_def h_def n)
  have "word_range fileSize" using assms(2,3) by (simp add: word_range_def const_defs)
  moreover have "word_range (divRoundUp fileSize SectorSize)"
    unfolding assms(4) [symmetric] using assms(5) by (simp add: word_range_def const_defs)
  ultimately show "header_words h"
    using g assms(5) list_all_word_range [OF assms(7) g(2)] by (simp add: header_words_def h_def)
  show "header_ok NumSectors h"
    using u g assms(2-7) by (simp add: header_ok_def Let_def used_sectors_def) (simp add: h_def)
qed

context sector_store
begin

lemma write_new_file:
  assumes "ok s" "limit = NumSectors" "stored (sec s) fs tbl bm" "garbage_ok g" "0 \<le> fileSize" "fileSize \<le> MaxFileSize"
    and n: "n \<in> {0..<NumSectors} - marked bm"
    and xs: "int (length xs) = divRoundUp fileSize SectorSize" "length xs \<le> NumDirect" "distinct xs"
      "set xs \<subseteq> {0..<NumSectors} - insert n (marked bm)"
    and bm': "bm_wf bm'" "numBits bm' = NumSectors" "marked bm' = insert n (marked bm) \<union> set xs"
    and e: "i < length tbl" "\<not> inUse (tbl ! i)" "\<forall>e \<in> set tbl. \<not> hit name e" "inUse e" "de_sector e = n"
      "\<And>b. hit b e \<longleftrightarrow> same_name name b" "length (de_name e) = 51" "length (de_pad1 e) = 3"
  defines "h \<equiv> (g_header g)\<lparr>fh_numBytes := fileSize, fh_numSectors := divRoundUp fileSize SectorSize,
        dataSectors := xs @ drop (length xs) (dataSectors (g_header g))\<rparr>"
  shows "\<exists>s3 s4 s5. wr n (encode_header h) s = Inr s3 \<and>
    Directory_WriteBack rd wr junk (directoryFile fs) (tbl[i := e]) s3 = Inr s4 \<and>
    BitMap_WriteBack rd wr junk (freeMapFile fs) bm' s4 = Inr s5 \<and> ok s5 \<and> created (sec s) (sec s5) fs tbl bm name fileSize"
proof -
  note st = storedD [OF assms(3)]
  let ?tbl = "tbl[i := e]"
  have xr: "set xs \<subseteq> {0..<NumSectors}" using xs(4) by blast
  have h: "header_words h" "header_ok NumSectors h" "used_sectors h = xs" "fh_numBytes h = fileSize"
    using new_header [OF assms(4-6) xs(1-3) xr] by (simp_all add: h_def)
  have wn: "0 \<le> n" "word_range n" "n < NumSectors" using n by (simp_all add: word_range_def const_defs)
  have "length (encode_header h) = 128" using h(1) by (simp add: length_encode_header header_words_def)
  with wr_law [OF assms(1) wn(1), of "encode_header h"] wn(3) assms(2) obtain s3 where
    s3: "wr n (encode_header h) s = Inr s3" "ok s3"
      "\<forall>m. 0 \<le> m \<longrightarrow> m < NumSectors \<longrightarrow> sec s3 m = (if m = n then encode_header h else sec s m)"
    by auto
  have tok: "dir_ok ?tbl"
    using st(9) e wn by (intro dir_ok_update) (auto simp: hit_def same_name_def strncmp_eq_def)
  have sub: "table_sectors fs \<subseteq> marked bm" using st(6,7) by (auto simp: table_sectors_def)
  have "\<exists>s4 s5. Directory_WriteBack rd wr junk (directoryFile fs) ?tbl s3 = Inr s4 \<and>
      BitMap_WriteBack rd wr junk (freeMapFile fs) bm' s4 = Inr s5 \<and> ok s5 \<and> stored (sec s5) fs ?tbl bm' \<and>
      (\<forall>x. 0 \<le> x \<longrightarrow> x < NumSectors \<longrightarrow> x \<notin> table_sectors fs \<longrightarrow> sec s5 x = sec s3 x)"
    unfolding table_sectors_def
    by (rule store_tables(1) [OF s3(2) assms(2) stored_layout [OF assms(3)] tok _ bm'(1,2)]) (use st sub bm' in \<open>auto simp: table_sectors_def\<close>)
  then obtain s4 s5 where s5: "Directory_WriteBack rd wr junk (directoryFile fs) ?tbl s3 = Inr s4"
      "BitMap_WriteBack rd wr junk (freeMapFile fs) bm' s4 = Inr s5" "ok s5" "stored (sec s5) fs ?tbl bm'"
      "\<forall>x. 0 \<le> x \<longrightarrow> x < NumSectors \<longrightarrow> x \<notin> table_sectors fs \<longrightarrow> sec s5 x = sec s3 x" by blast
  have "n \<notin> table_sectors fs" using sub n by auto
  then have "sec s5 n = encode_header h" using s5(5) s3(3) wn by auto
  moreover have "Directory_Find name ?tbl = n"
    using find_update_only [OF e(1,3)] e(5,6) by (simp add: Directory_Find_eq)
  ultimately have F: "file_at (sec s5) fs ?tbl bm' name n h"
    using h decode_encode_header [OF h(1)] xs bm'(3) n sub by (auto simp: file_at_def table_sectors_def)
  have O: "\<forall>b. \<not> same_name name b \<longrightarrow> Directory_Find b ?tbl = Directory_Find b tbl"
    using find_update_other [OF e(1)] e(2,6) by (auto simp: Directory_Find_eq hit_def)
  have U: "\<forall>x \<in> marked bm - table_sectors fs. sec s5 x = sec s x"
    using s5(5) s3(3) marked_range [of bm] st(13) n by fastforce
  have "insert n (set (used_sectors h)) \<inter> marked bm = {}" "marked bm' = marked bm \<union> insert n (set (used_sectors h))"
    using h(3) xs n bm'(3) by auto
  with s5(4) F h(4) O U have "created (sec s) (sec s5) fs tbl bm name fileSize" unfolding created_def by blast
  with s3(1) s5(1-3) show ?thesis by blast
qed

lemma Create_ok:
  assumes "ok s" "limit = NumSectors" "stored (sec s) fs tbl bm" "garbage_ok g"
    and "0 \<le> fileSize" "fileSize \<le> MaxFileSize"
  shows "\<exists>s'. FileSystem_Create rd wr g name fileSize fs s = Inr (can_create name fileSize tbl bm, s') \<and> ok s' \<and>
    (if can_create name fileSize tbl bm
     then created (sec s) (sec s') fs tbl bm name fileSize
     else sec s' = sec s)"
proof -
  note st = storedD [OF assms(3)]
  from fetch_directory [OF assms(1-4)] obtain s1 where
    s1: "Directory_FetchFrom rd (directoryFile fs) (Directory_new (g_entries g) NumDirEntries) s = Inr (tbl, s1)" "ok s1" "sec s1 = sec s"
    by blast
  from assms(3) s1(3) have "stored (sec s1) fs tbl bm" by simp
  from fetch_map [OF s1(2) assms(2) this, of "g_words g"] obtain fm0 s2 where
    s2: "BitMap_new (g_words g) NumSectors = Inr fm0" "BitMap_FetchFrom rd (freeMapFile fs) fm0 s1 = Inr (bm, s2)" "ok s2" "sec s2 = sec s"
    using s1(3) by auto
  have pos: "0 \<le> divRoundUp fileSize SectorSize" using assms(5) by (intro divRoundUp_nonneg) (simp_all add: const_defs)
  note run = s1 s2
  show ?thesis
  proof (cases "Directory_Find name tbl = - 1 \<and> marked bm \<noteq> {0..<NumSectors}")
    case False
    then have no: "\<not> can_create name fileSize tbl bm" using pos by (auto simp: can_create_def)
    show ?thesis
    proof (cases "Directory_Find name tbl = - 1")
      case True
      with False have "BitMap_Find bm = Inr (- 1, bm)" using BitMap_Find_full st(12,13) by simp
      with True no run show ?thesis by (auto simp: FileSystem_Create_def)
    qed (use no run in \<open>auto simp: FileSystem_Create_def\<close>)
  next
    case True
    then obtain n bm1 where n: "BitMap_Find bm = Inr (n, bm1)" "bm_wf bm1" "numBits bm1 = NumSectors"
        "n \<in> {0..<NumSectors} - marked bm" "marked bm1 = insert n (marked bm)"
      using BitMap_Find_ok [OF st(12)] st(13) by auto
    have free: "card ({0..<NumSectors} - marked bm1) = card ({0..<NumSectors} - marked bm) - 1"
        "0 < card ({0..<NumSectors} - marked bm)"
      using bmslots.free_insert [OF st(12), of n] bmslots.free_pos_iff [OF st(12)] n st(13) True by simp_all
    have wn: "0 \<le> n" "word_range n" "n \<noteq> - 1" "n < NumSectors" using n(4) by (simp_all add: word_range_def const_defs)
    show ?thesis
    proof (cases rule: Directory_Add_cases [OF st(9) wn(1,2), of name, case_names refused added])
      case refused
      with True have "list_all inUse tbl" using Directory_Find_hits [OF st(9)] by blast
      then have "\<not> can_create name fileSize tbl bm" by (simp add: can_create_def)
      with True run n(1) wn refused(1) show ?thesis by (auto simp: FileSystem_Create_def)
    next
      case (added i e)
      show ?thesis
      proof (cases "divRoundUp fileSize SectorSize \<le> int (card ({0..<NumSectors} - marked bm1))")
        case False
        then have "\<not> can_create name fileSize tbl bm" using free by (auto simp: can_create_def)
        with True run n wn added(3) Allocate_no_space [OF n(2), of fileSize "g_header g"] False show ?thesis
          by (auto simp: FileSystem_Create_def)
      next
        case enough: True
        have "\<not> inUse (tbl ! i)" "tbl ! i \<in> set tbl" using added(1,2) by auto
        then have yes: "can_create name fileSize tbl bm"
          using True enough free by (auto simp: can_create_def list_all_iff)
        have gh: "length (dataSectors (g_header g)) = NumDirect" using assms(4) by (simp add: garbage_ok_def header_words_def)
        from Allocate_ok [OF n(2) gh assms(5,6)] enough n(3,5) obtain xs bm2 where
          A: "Allocate bm1 fileSize (g_header g) = Inr (True, bm2, (g_header g)\<lparr>fh_numBytes := fileSize,
              fh_numSectors := divRoundUp fileSize SectorSize, dataSectors := xs @ drop (length xs) (dataSectors (g_header g))\<rparr>)"
          and xs: "int (length xs) = divRoundUp fileSize SectorSize" "length xs \<le> NumDirect" "distinct xs"
            "set xs \<subseteq> {0..<NumSectors} - insert n (marked bm)" "bm_wf bm2" "numBits bm2 = NumSectors" "marked bm2 = insert n (marked bm) \<union> set xs"
          by auto
        from assms(3) s2(4) have "stored (sec s2) fs tbl bm" by simp
        from write_new_file [OF s2(3) assms(2) this assms(4-6) n(4) xs added(1,2,4-9), of "g_bytes g"] A yes run n(1) wn added(3) True
        show ?thesis by (auto simp: FileSystem_Create_def FileHeader_WriteBack_def)
      qed
    qed
  qed
qed

lemma Remove_ok:
  assumes "ok s" "limit = NumSectors" "stored (sec s) fs tbl bm" "garbage_ok g" "file_at (sec s) fs tbl bm name n h"
  shows "\<exists>s' tbl' bm'. FileSystem_Remove rd wr g name fs s = Inr (True, s') \<and> ok s' \<and> stored (sec s') fs tbl' bm' \<and>
    marked bm' = marked bm - insert n (set (used_sectors h)) \<and>
    (\<forall>b. Directory_Find b tbl' = (if same_name name b then - 1 else Directory_Find b tbl)) \<and>
    (\<forall>x \<in> {0..<NumSectors} - table_sectors fs. sec s' x = sec s x)"
proof -
  note st = storedD [OF assms(3)]
  from assms(5) have f: "Directory_Find name tbl = n" "decode_header (sec s n) = h" "header_ok NumSectors h"
      "n \<notin> set (used_sectors h)" "insert n (set (used_sectors h)) \<subseteq> marked bm - table_sectors fs"
    by (auto simp: file_at_def table_sectors_def)
  have n: "0 \<le> n" "n < NumSectors" using f(5) marked_range [of bm] st(13) by auto
  from fetch_directory [OF assms(1-4)] obtain s1 where
    s1: "Directory_FetchFrom rd (directoryFile fs) (Directory_new (g_entries g) NumDirEntries) s = Inr (tbl, s1)" "ok s1" "sec s1 = sec s"
    by blast
  from rd_law [OF s1(2) n(1)] n(2) assms(2) obtain s2 where s2: "rd n s1 = Inr (sec s n, s2)" "ok s2" "sec s2 = sec s"
    using s1(3) by auto
  from assms(3) s2(3) have "stored (sec s2) fs tbl bm" by simp
  from fetch_map [OF s2(2) assms(2) this, of "g_words g"] obtain fm0 s3 where
    s3: "BitMap_new (g_words g) NumSectors = Inr fm0" "BitMap_FetchFrom rd (freeMapFile fs) fm0 s2 = Inr (bm, s3)" "ok s3" "sec s3 = sec s"
    using s2(3) by auto
  have "length (used_sectors h) = nat (fh_numSectors h)"
    using used_sectors_length(1) [of h] f(3) assms(2) by (metis header_ok_def)
  then have "nat (fh_numSectors h) \<le> length (dataSectors h)" by (simp add: used_sectors_def)
  moreover have "distinct (used_sectors h)" using f(3) unfolding header_ok_def Let_def used_sectors_def by blast
  moreover have "set (used_sectors h) \<subseteq> marked bm" using f(5) by blast
  ultimately obtain bm1 where
    bm1: "Deallocate bm h = Inr bm1" "bm_wf bm1" "numBits bm1 = NumSectors" "marked bm1 = marked bm - set (used_sectors h)"
    using Deallocate_eq [OF st(12), of h] unfolding used_sectors_def [symmetric] st(13) by blast
  from BitMap_Clear_ok [OF bm1(2) n(1)] n(2) bm1(3,4) obtain bm2 where
    bm2: "BitMap_Clear n bm1 = Inr bm2" "bm_wf bm2" "numBits bm2 = NumSectors" "marked bm2 = marked bm - insert n (set (used_sectors h))"
    by auto
  obtain tbl' where t: "Directory_Remove name tbl = (True, tbl')" "dir_ok tbl'" "length tbl' = length tbl"
      "\<forall>b. Directory_Find b tbl' = (if same_name name b then - 1 else Directory_Find b tbl)"
    using Directory_Remove_ok [OF st(9), of name] f(1) n(1)
    by (cases "Directory_Remove name tbl") (auto simp: Directory_Remove_def Let_def split: if_splits)
  have sub: "table_sectors fs \<subseteq> marked bm2" using st(6,7) f(5) bm2(4) by (auto simp: table_sectors_def)
  from store_tables(2) [OF s3(3) assms(2) stored_layout [OF assms(3)] t(2) _ bm2(2,3), of "g_bytes g"] sub t(3) st(10)
  obtain s4 s5 where s5: "BitMap_WriteBack rd wr (g_bytes g) (freeMapFile fs) bm2 s3 = Inr s4"
      "Directory_WriteBack rd wr (g_bytes g) (directoryFile fs) tbl' s4 = Inr s5" "ok s5" "stored (sec s5) fs tbl' bm2"
      "\<forall>x. 0 \<le> x \<longrightarrow> x < NumSectors \<longrightarrow> x \<notin> table_sectors fs \<longrightarrow> sec s5 x = sec s x"
    unfolding table_sectors_def s3(4) by auto
  have "FileSystem_Remove rd wr g name fs s = Inr (True, s5)"
    using s1 s2 s3 bm1 bm2 t s5 f n by (simp add: FileSystem_Remove_def FileHeader_FetchFrom_def Let_def)
  with s5(3-5) bm2(4) t(4) show ?thesis by (intro exI [of _ s5] exI [of _ tbl'] exI [of _ bm2]) simp
qed

lemma Remove_absent:
  assumes "ok s" "limit = NumSectors" "stored (sec s) fs tbl bm" "garbage_ok g" "Directory_Find name tbl = - 1"
  shows "\<exists>s'. FileSystem_Remove rd wr g name fs s = Inr (False, s') \<and> ok s' \<and> sec s' = sec s"
  using fetch_directory [OF assms(1-4)] assms(5) by (auto simp: FileSystem_Remove_def)

text \<open>Writing a header to a sector and opening the file there.\<close>

lemma write_header:
  assumes "ok s" "limit = NumSectors" "0 \<le> n" "n < NumSectors" "header_words h"
  shows "\<exists>s'. FileHeader_WriteBack wr n h s = Inr s' \<and> ok s' \<and> sec s' n = encode_header h \<and>
    (\<forall>m. 0 \<le> m \<longrightarrow> m < NumSectors \<longrightarrow> m \<noteq> n \<longrightarrow> sec s' m = sec s m)"
  using wr_law [OF assms(1,3), of "encode_header h"] assms(2-5)
  by (auto simp: FileHeader_WriteBack_def length_encode_header header_words_def)

lemma open_file:
  assumes "ok s" "limit = NumSectors" "0 \<le> n" "n < NumSectors" "header_words h" "sec s n = encode_header h"
  shows "\<exists>s'. OpenFile_new rd n ty s = Inr (\<lparr>of_hdr = h, seekPosition = 0, of_type = ty\<rparr>, s') \<and> ok s' \<and> sec s' = sec s"
  using rd_law [OF assms(1,3)] assms(2-6) decode_encode_header [OF assms(5)]
  by (auto simp: OpenFile_new_def FileHeader_FetchFrom_def)

text \<open>The sectors and headers chosen when a disk is formatted.\<close>

lemma format_file:
  assumes "garbage_ok g" "bm_wf fm" "numBits fm = NumSectors" "0 \<le> fileSize" "fileSize \<le> MaxFileSize"
    and "divRoundUp fileSize SectorSize + int (card (marked fm)) \<le> NumSectors"
  shows "\<exists>fm' h. Allocate_or_abort fm fileSize (g_header g) = Inr (fm', h) \<and> bm_wf fm' \<and> numBits fm' = NumSectors \<and>
    header_words h \<and> header_ok NumSectors h \<and> fh_numBytes h = fileSize \<and>
    set (used_sectors h) \<subseteq> {0..<NumSectors} - marked fm \<and> marked fm' = marked fm \<union> set (used_sectors h) \<and>
    int (card (marked fm')) = int (card (marked fm)) + divRoundUp fileSize SectorSize"
proof -
  have sub: "marked fm \<subseteq> {0..<NumSectors}" using marked_range [of fm] assms(3) by simp
  have gh: "length (dataSectors (g_header g)) = NumDirect" using assms(1) by (simp add: garbage_ok_def header_words_def)
  have "int (card ({0..<numBits fm} - marked fm)) = NumSectors - int (card (marked fm))"
    using sub assms(3) card_mono [OF _ sub] by (simp add: card_Diff_subset const_defs)
  with assms(6) have "divRoundUp fileSize SectorSize \<le> int (card ({0..<numBits fm} - marked fm))" by linarith
  from Allocate_ok [OF assms(2) gh assms(4,5) this] obtain xs fm' where
    A: "Allocate fm fileSize (g_header g) = Inr (True, fm', (g_header g)\<lparr>fh_numBytes := fileSize,
        fh_numSectors := divRoundUp fileSize SectorSize, dataSectors := xs @ drop (length xs) (dataSectors (g_header g))\<rparr>)"
      (is "_ = Inr (True, fm', ?h)")
    and xs: "int (length xs) = divRoundUp fileSize SectorSize" "length xs \<le> NumDirect" "distinct xs"
      "set xs \<subseteq> {0..<numBits fm} - marked fm" "bm_wf fm'" "numBits fm' = numBits fm" "marked fm' = marked fm \<union> set xs" by blast
  have "card (marked fm') = card (marked fm) + length xs"
    unfolding xs(7) using xs(3,4) by (subst card_Un_disjoint) (auto simp: distinct_card)
  moreover have "set xs \<subseteq> {0..<NumSectors}" using xs(4) assms(3) by auto
  from new_header [OF assms(1,4,5) xs(1-3) this] have "header_words ?h" "header_ok NumSectors ?h" "used_sectors ?h = xs" by blast+
  ultimately show ?thesis
    using A xs assms(3) by (intro exI [of _ fm'] exI [of _ ?h]) (simp add: Allocate_or_abort_def)
qed

lemma format_tables:
  assumes "garbage_ok g"
  shows "\<exists>fm0 fm1 fm2 fm3 fm4 mh dh. BitMap_new (g_words g) NumSectors = Inr fm0 \<and> BitMap_Mark FreeMapSector fm0 = Inr fm1 \<and>
    BitMap_Mark DirectorySector fm1 = Inr fm2 \<and> Allocate_or_abort fm2 FreeMapFileSize (g_header g) = Inr (fm3, mh) \<and>
    Allocate_or_abort fm3 DirectoryFileSize (g_header2 g) = Inr (fm4, dh) \<and> bm_wf fm4 \<and> numBits fm4 = NumSectors \<and>
    header_words mh \<and> header_ok NumSectors mh \<and> fh_numBytes mh = 128 \<and>
    header_words dh \<and> header_ok NumSectors dh \<and> fh_numBytes dh = 600 \<and>
    set (used_sectors dh) \<inter> set (used_sectors mh) = {} \<and> {0, 1} \<inter> (set (used_sectors dh) \<union> set (used_sectors mh)) = {} \<and>
    marked fm4 = {0, 1} \<union> set (used_sectors dh) \<union> set (used_sectors mh) \<and> card (marked fm4) = 8"
proof -
  obtain fm0 where fm0: "BitMap_new (g_words g) NumSectors = Inr fm0" "bm_wf fm0" "numBits fm0 = NumSectors" "marked fm0 = {}"
    using BitMap_new_ok [of NumSectors "g_words g"] by (auto simp: const_defs)
  obtain fm1 where fm1: "BitMap_Mark FreeMapSector fm0 = Inr fm1" "bm_wf fm1" "numBits fm1 = NumSectors" "marked fm1 = {0}"
    using BitMap_Mark_ok [OF fm0(2), of FreeMapSector] fm0(3,4) by (auto simp: const_defs)
  obtain fm2 where fm2: "BitMap_Mark DirectorySector fm1 = Inr fm2" "bm_wf fm2" "numBits fm2 = NumSectors" "marked fm2 = {0, 1}"
    using BitMap_Mark_ok [OF fm1(2), of DirectorySector] fm1(3,4) by (auto simp: const_defs)
  have D: "divRoundUp FreeMapFileSize SectorSize = 1" "divRoundUp DirectoryFileSize SectorSize = 5" "0 \<le> FreeMapFileSize" "FreeMapFileSize \<le> MaxFileSize"
      "0 \<le> DirectoryFileSize" "DirectoryFileSize \<le> MaxFileSize" "NumSectors = 1024"
    by (simp_all add: divRoundUp_def const_defs)
  have "divRoundUp FreeMapFileSize SectorSize + int (card (marked fm2)) \<le> NumSectors" using fm2(4) D by simp
  from format_file [OF assms fm2(2,3) D(3,4) this] obtain fm3 mh where
    A: "Allocate_or_abort fm2 FreeMapFileSize (g_header g) = Inr (fm3, mh)" "bm_wf fm3" "numBits fm3 = NumSectors"
    and mh: "header_words mh" "header_ok NumSectors mh" "fh_numBytes mh = FreeMapFileSize" "set (used_sectors mh) \<subseteq> {0..<NumSectors} - {0, 1}"
      "marked fm3 = {0, 1} \<union> set (used_sectors mh)" and c3: "card (marked fm3) = 3"
    using fm2(4) D(1) by auto
  have "divRoundUp DirectoryFileSize SectorSize + int (card (marked fm3)) \<le> NumSectors" using c3 D by simp
  moreover have "garbage_ok (g\<lparr>g_header := g_header2 g\<rparr>)" using assms by (simp add: garbage_ok_def)
  ultimately obtain fm4 dh where
    B: "Allocate_or_abort fm3 DirectoryFileSize (g_header2 g) = Inr (fm4, dh)" "bm_wf fm4" "numBits fm4 = NumSectors"
    and dh: "header_words dh" "header_ok NumSectors dh" "fh_numBytes dh = DirectoryFileSize" "set (used_sectors dh) \<subseteq> {0..<NumSectors} - marked fm3"
      "marked fm4 = marked fm3 \<union> set (used_sectors dh)" and c4: "card (marked fm4) = 8"
    using c3 D(2) format_file [OF _ A(2,3) D(5,6), of "g\<lparr>g_header := g_header2 g\<rparr>"] by auto
  have "set (used_sectors dh) \<inter> set (used_sectors mh) = {}" "{0, 1} \<inter> (set (used_sectors dh) \<union> set (used_sectors mh)) = {}"
      "marked fm4 = {0, 1} \<union> set (used_sectors dh) \<union> set (used_sectors mh)"
    using mh(4,5) dh(4,5) by auto
  moreover have "FreeMapFileSize = 128" "DirectoryFileSize = 600" by (simp_all add: const_defs)
  ultimately show ?thesis using fm0(1) fm1(1) fm2(1) A(1) B mh(1-3) dh(1-3) c4 by metis
qed

lemma format_ok:
  assumes "ok s" "limit = NumSectors" "garbage_ok g"
  shows "\<exists>fs s' bm. FileSystem_new rd wr g debug True s = Inr (fs, s') \<and> ok s' \<and>
    stored (sec s') fs (Directory_new (g_entries g) NumDirEntries) bm \<and> card ({0..<NumSectors} - marked bm) = 1016 \<and>
    (\<exists>s''. FileSystem_new rd wr g' debug' False s' = Inr (fs, s'') \<and> ok s'' \<and> sec s'' = sec s')"
proof -
  from format_tables [OF assms(3)] obtain fm0 fm1 fm2 fm3 fm4 mh dh where
    fm: "BitMap_new (g_words g) NumSectors = Inr fm0" "BitMap_Mark FreeMapSector fm0 = Inr fm1"
      "BitMap_Mark DirectorySector fm1 = Inr fm2" "Allocate_or_abort fm2 FreeMapFileSize (g_header g) = Inr (fm3, mh)"
      "Allocate_or_abort fm3 DirectoryFileSize (g_header2 g) = Inr (fm4, dh)" "bm_wf fm4" "numBits fm4 = NumSectors"
    and mh: "header_words mh" "header_ok NumSectors mh" "fh_numBytes mh = 128"
    and dh: "header_words dh" "header_ok NumSectors dh" "fh_numBytes dh = 600"
    and S: "set (used_sectors dh) \<inter> set (used_sectors mh) = {}" "{0, 1} \<inter> (set (used_sectors dh) \<union> set (used_sectors mh)) = {}"
      "marked fm4 = {0, 1} \<union> set (used_sectors dh) \<union> set (used_sectors mh)" "card (marked fm4) = 8"
    by metis
  let ?fs = "\<lparr>freeMapFile = \<lparr>of_hdr = mh, seekPosition = 0, of_type = 0\<rparr>,
      directoryFile = \<lparr>of_hdr = dh, seekPosition = 0, of_type = 0\<rparr>, openf = None\<rparr>"
  have c: "(0 :: int) \<le> FreeMapSector" "FreeMapSector < NumSectors" "(0 :: int) \<le> DirectorySector" "DirectorySector < NumSectors" "FreeMapSector \<noteq> DirectorySector"
    by (simp_all add: const_defs)
  from write_header [OF assms(1,2) c(1,2) mh(1)] obtain s1 where
    s1: "FileHeader_WriteBack wr FreeMapSector mh s = Inr s1" "ok s1" "sec s1 FreeMapSector = encode_header mh" by blast
  from write_header [OF s1(2) assms(2) c(3,4) dh(1)] s1(3) c obtain s2 where
    s2: "FileHeader_WriteBack wr DirectorySector dh s1 = Inr s2" "ok s2" "sec s2 DirectorySector = encode_header dh"
      "sec s2 FreeMapSector = encode_header mh" by metis
  from open_file [OF s2(2) assms(2) c(1,2) mh(1) s2(4)] obtain s3 where
    s3: "OpenFile_new rd FreeMapSector 0 s2 = Inr (\<lparr>of_hdr = mh, seekPosition = 0, of_type = 0\<rparr>, s3)" "ok s3" "sec s3 = sec s2" by blast
  from open_file [OF s3(2) assms(2) c(3,4) dh(1)] s2(3) s3(3) obtain s4 where
    s4: "OpenFile_new rd DirectorySector 0 s3 = Inr (\<lparr>of_hdr = dh, seekPosition = 0, of_type = 0\<rparr>, s4)" "ok s4" "sec s4 = sec s2" by metis
  have lay: "layout_ok ?fs" using mh dh S by (simp add: layout_ok_def)
  from store_tables(2) [OF s4(2) assms(2) lay dir_ok_new [OF assms(3)] length_Directory_new fm(6,7), of "g_bytes g"] S(3) obtain s5 s6 where
    s6: "BitMap_WriteBack rd wr (g_bytes g) (freeMapFile ?fs) fm4 s4 = Inr s5"
      "Directory_WriteBack rd wr (g_bytes g) (directoryFile ?fs) (Directory_new (g_entries g) NumDirEntries) s5 = Inr s6" "ok s6"
      "stored (sec s6) ?fs (Directory_new (g_entries g) NumDirEntries) fm4"
      "\<forall>x. 0 \<le> x \<longrightarrow> x < NumSectors \<longrightarrow> x \<notin> set (used_sectors dh) \<union> set (used_sectors mh) \<longrightarrow> sec s6 x = sec s2 x"
    unfolding s4(3) by auto
  have F: "FileSystem_new rd wr g debug True s = Inr (?fs, s6)"
    using fm s1(1) s2(1) s3(1) s4(1) s6(1,2) BitMap_Print_ok [OF fm(6)] Directory_Print_new [of rd "g_entries g" NumDirEntries s6]
    by (simp add: FileSystem_new_def Let_def)
  have keep: "sec s6 FreeMapSector = encode_header mh" "sec s6 DirectorySector = encode_header dh"
    using s6(5) S(2) s2(3,4) by (auto simp: const_defs)
  from open_file [OF s6(3) assms(2) c(1,2) mh(1) keep(1)] obtain t1 where
    t1: "OpenFile_new rd FreeMapSector 0 s6 = Inr (\<lparr>of_hdr = mh, seekPosition = 0, of_type = 0\<rparr>, t1)" "ok t1" "sec t1 = sec s6" by blast
  from open_file [OF t1(2) assms(2) c(3,4) dh(1)] keep(2) t1(3) obtain t2 where
    t2: "OpenFile_new rd DirectorySector 0 t1 = Inr (\<lparr>of_hdr = dh, seekPosition = 0, of_type = 0\<rparr>, t2)" "ok t2" "sec t2 = sec s6" by metis
  have "marked fm4 \<subseteq> {0..<NumSectors}" using marked_range [of fm4] fm(7) by simp
  then have "card ({0..<NumSectors} - marked fm4) = 1016" using S(4) by (simp add: card_Diff_subset const_defs)
  moreover have "FileSystem_new rd wr g' debug' False s6 = Inr (?fs, t2)" using t1(1) t2(1) by (simp add: FileSystem_new_def)
  ultimately show ?thesis using F s6(3,4) t2(2,3) by blast
qed

end

subsection \<open>Properties\<close>

lemma no_file_new: "garbage_ok g \<Longrightarrow> Directory_Find b (Directory_new (g_entries g) n) = - 1"
  by (simp add: Directory_Find_hits [OF dir_ok_new]) (auto simp: hit_def Directory_new_def)

text \<open>What fresh memory contains in the examples.\<close>

definition blank :: garbage where
  "blank = \<lparr>g_bytes = \<lambda>_. 0, g_words = \<lambda>_. 0,
     g_entries = \<lambda>_. \<lparr>inUse = True, de_pad1 = [0, 0, 0], de_sector = 0, de_name = replicate 51 0, de_pad2 = 0\<rparr>,
     g_header = \<lparr>fh_numBytes = 0, fh_numSectors = 0, dataSectors = replicate 30 0\<rparr>,
     g_header2 = \<lparr>fh_numBytes = 7, fh_numSectors = 7, dataSectors = replicate 30 7\<rparr>\<rparr>"

lemma blank_ok: "garbage_ok blank"
  by (simp add: garbage_ok_def blank_def header_words_def word_range_def const_defs list_all_iff)

text \<open>C25. Formatting a disk succeeds whatever the disk and the allocated memory contained: afterwards the disk
  holds an empty directory and a free map in which exactly the two headers and the six sectors of the
  two files are taken, with the debug output switched on or off. Starting the kernel again without formatting finds the same two files there.\<close>

theorem FileSystem_format:
  fixes s :: "'a devices_scheme" and ux :: unix and yield :: "'a devices_scheme \<Rightarrow> 'a devices_scheme res"
  assumes "lone_disk sem s" and "garbage_ok g"
  defines "rd \<equiv> SynchDisk_ReadSector (lone_P ux yield) sem" and "wr \<equiv> SynchDisk_WriteSector (lone_P ux yield) sem"
  shows "\<exists>fs (s' :: 'a devices_scheme) tbl bm. FileSystem_new rd wr g debug True s = Inr (fs, s') \<and> lone_disk sem s' \<and>
    stored (disk_sector s') fs tbl bm \<and> (\<forall>name. Directory_Find name tbl = - 1) \<and>
    card ({0..<NumSectors} - marked bm) = nat NumSectors - 8 \<and>
    (\<exists>s'' :: 'a devices_scheme. FileSystem_new rd wr g' debug' False s' = Inr (fs, s'') \<and> disk_sector s'' = disk_sector s')"
  using sdisk.format_ok [OF assms(1) refl assms(2), of ux yield debug g' debug'] no_file_new [OF assms(2)]
  unfolding rd_def wr_def by (fastforce simp: const_defs)

theorem FileSystem_format_witness:
  "\<exists>fs s'. FileSystem_new (SynchDisk_ReadSector (lone_P typing Inr) 4) (SynchDisk_WriteSector (lone_P typing Inr) 4) blank True True lone_machine
     = Inr (fs, s') \<and> lone_disk 4 s'"
  using FileSystem_format [OF lone_machine_ok blank_ok, of typing Inr True blank False] by blast

text \<open>C8. For a size of at least 0 and at most \<^verbatim>\<open>MaxFileSize\<close> bytes, the most that the sectors listed in one header
  hold, \<^verbatim>\<open>FileSystem::Create\<close> returns TRUE exactly when the name is not in the directory, the directory has a
  free entry and there are free sectors for the header and the data. Then the name leads to a new header
  of the requested size, stored on the disk in a sector that was free, as were the sectors it lists; these
  are now marked, every other name keeps its sector and no sector of another file is changed. Otherwise
  the contents of the disk stay as they were.\<close>

theorem FileSystem_Create_spec:
  fixes s :: "'a devices_scheme" and ux :: unix and yield :: "'a devices_scheme \<Rightarrow> 'a devices_scheme res" and name :: "byte list"
  assumes "lone_disk sem s" and "stored (disk_sector s) fs tbl bm" and "garbage_ok g"
    and "0 \<le> fileSize" and "fileSize \<le> MaxFileSize"
  defines "rd \<equiv> SynchDisk_ReadSector (lone_P ux yield) sem" and "wr \<equiv> SynchDisk_WriteSector (lone_P ux yield) sem"
    and "fits \<equiv> Directory_Find name tbl = - 1 \<and> \<not> list_all inUse tbl \<and>
      1 + divRoundUp fileSize SectorSize \<le> int (card ({0..<NumSectors} - marked bm))"
  shows "\<exists>s' :: 'a devices_scheme. FileSystem_Create rd wr g name fileSize fs s = Inr (fits, s') \<and> lone_disk sem s' \<and>
    (if fits then \<exists>tbl' bm' n h. stored (disk_sector s') fs tbl' bm' \<and> file_at (disk_sector s') fs tbl' bm' name n h \<and>
       fh_numBytes h = fileSize \<and> insert n (set (used_sectors h)) \<inter> marked bm = {} \<and>
       marked bm' = marked bm \<union> insert n (set (used_sectors h)) \<and>
       (\<forall>b. \<not> same_name name b \<longrightarrow> Directory_Find b tbl' = Directory_Find b tbl) \<and>
       (\<forall>x \<in> marked bm - table_sectors fs. disk_sector s' x = disk_sector s x)
     else disk_sector s' = disk_sector s)"
  using sdisk.Create_ok [OF assms(1) refl assms(2-5), of ux yield name]
  unfolding can_create_def created_def fits_def rd_def wr_def .

lemma success_branch:
  "\<exists>s. m = Inr (P, s) \<and> A s \<and> (if P then B s else C s) \<Longrightarrow> P \<Longrightarrow> \<exists>s. m = Inr (True, s) \<and> B s"
  by auto

theorem FileSystem_Create_spec_witness:
  "\<exists>fs (s :: devices) s' h. lone_disk 4 s \<and> FileSystem_Create (SynchDisk_ReadSector (lone_P typing Inr) 4) (SynchDisk_WriteSector (lone_P typing Inr) 4)
     blank [102] 200 fs s = Inr (True, s') \<and> fh_numBytes h = 200 \<and> (\<exists>tbl bm n. file_at (disk_sector s') fs tbl bm [102] n h)"
proof -
  from sdisk.format_ok [OF lone_machine_ok refl blank_ok, of typing Inr True blank False] obtain fs bm and s :: devices where
    s: "lone_disk 4 s" "stored (disk_sector s) fs (Directory_new (g_entries blank) NumDirEntries) bm"
      "card ({0..<NumSectors} - marked bm) = 1016" by blast
  have "\<not> list_all inUse (Directory_new (g_entries blank) NumDirEntries)"
    by (simp add: Directory_new_def list_all_iff const_defs upt_rec)
  then have fits: "Directory_Find [102] (Directory_new (g_entries blank) NumDirEntries) = - 1 \<and>
      \<not> list_all inUse (Directory_new (g_entries blank) NumDirEntries) \<and>
      1 + divRoundUp 200 SectorSize \<le> int (card ({0..<NumSectors} - marked bm))"
    using s(3) no_file_new [OF blank_ok] by (simp add: divRoundUp_def SectorSize_def)
  have "(0 :: int) \<le> 200" "200 \<le> MaxFileSize" by (simp_all add: const_defs)
  from success_branch [OF FileSystem_Create_spec [OF s(1,2) blank_ok this, of typing Inr "[102]"] fits]
  obtain s' tbl' bm' n h where "FileSystem_Create (SynchDisk_ReadSector (lone_P typing Inr) 4)
      (SynchDisk_WriteSector (lone_P typing Inr) 4) blank [102] 200 fs s = Inr (True, s')"
      "file_at (disk_sector s') fs tbl' bm' [102] n h" "fh_numBytes h = 200"
    by (elim exE conjE) (rule that)
  with s(1) show ?thesis by blast
qed

text \<open>C24. A file that was created can be removed: \<^verbatim>\<open>FileSystem::Remove\<close> then returns TRUE, the name is no longer
  found, every other name keeps its sector and the free map has exactly its old contents. Removing a name
  that is not in the directory returns FALSE and leaves the disk as it was.\<close>

theorem FileSystem_Create_Remove:
  fixes s :: "'a devices_scheme" and ux :: unix and yield :: "'a devices_scheme \<Rightarrow> 'a devices_scheme res"
  assumes "lone_disk sem s" and "stored (disk_sector s) fs tbl bm" and "garbage_ok g" "garbage_ok g'"
    and "0 \<le> fileSize" and "fileSize \<le> MaxFileSize" and "Directory_Find name tbl = - 1"
  defines "rd \<equiv> SynchDisk_ReadSector (lone_P ux yield) sem" and "wr \<equiv> SynchDisk_WriteSector (lone_P ux yield) sem"
  shows "\<exists>success (s1 :: 'a devices_scheme) (s2 :: 'a devices_scheme) tbl' bm'.
    FileSystem_Create rd wr g name fileSize fs s = Inr (success, s1) \<and>
    FileSystem_Remove rd wr g' name fs s1 = Inr (success, s2) \<and> lone_disk sem s2 \<and> stored (disk_sector s2) fs tbl' bm' \<and>
    marked bm' = marked bm \<and> (\<forall>b. Directory_Find b tbl' = Directory_Find b tbl)"
proof -
  from sdisk.Create_ok [OF assms(1) refl assms(2,3,5,6), of ux yield name] obtain s1 :: "'a devices_scheme" where
    s1: "FileSystem_Create rd wr g name fileSize fs s = Inr (can_create name fileSize tbl bm, s1)" "lone_disk sem s1"
      "if can_create name fileSize tbl bm then created (disk_sector s) (disk_sector s1) fs tbl bm name fileSize
       else disk_sector s1 = disk_sector s" unfolding rd_def wr_def by blast
  show ?thesis
  proof (cases "can_create name fileSize tbl bm")
    case False
    with s1(3) assms(2) have "stored (disk_sector s1) fs tbl bm" by simp
    with sdisk.Remove_absent [OF s1(2) refl _ assms(4,7), of fs bm ux yield] s1 False show ?thesis
      unfolding rd_def wr_def by fastforce
  next
    case True
    with s1(3) obtain tbl1 bm1 n h where c: "stored (disk_sector s1) fs tbl1 bm1" "file_at (disk_sector s1) fs tbl1 bm1 name n h"
        "insert n (set (used_sectors h)) \<inter> marked bm = {}" "marked bm1 = marked bm \<union> insert n (set (used_sectors h))"
        "\<forall>b. \<not> same_name name b \<longrightarrow> Directory_Find b tbl1 = Directory_Find b tbl" by (auto simp: created_def)
    from sdisk.Remove_ok [OF s1(2) refl c(1) assms(4) c(2), of ux yield] obtain s2 :: "'a devices_scheme" and tbl2 bm2 where
      r: "FileSystem_Remove rd wr g' name fs s1 = Inr (True, s2)" "lone_disk sem s2" "stored (disk_sector s2) fs tbl2 bm2"
        "marked bm2 = marked bm1 - insert n (set (used_sectors h))"
        "\<forall>b. Directory_Find b tbl2 = (if same_name name b then - 1 else Directory_Find b tbl1)" unfolding rd_def wr_def by blast
    have "marked bm2 = marked bm" using r(4) c(3,4) by blast
    moreover have "Directory_Find b tbl2 = Directory_Find b tbl" for b
    proof (cases "same_name name b")
      case True
      then have "hit b = hit name" by (auto simp: hit_def same_name_def strncmp_eq_def fun_eq_iff)
      then have "Directory_Find b tbl = - 1" using assms(7) by (simp add: Directory_Find_eq)
      with True r(5) show ?thesis by simp
    qed (use r(5) c(5) in simp)
    ultimately show ?thesis using s1(1) True r(1-3) by auto
  qed
qed

theorem FileSystem_Create_Remove_witness:
  "\<exists>fs (s :: devices) success s1 s2. lone_disk 4 s \<and>
     FileSystem_Create (SynchDisk_ReadSector (lone_P typing Inr) 4) (SynchDisk_WriteSector (lone_P typing Inr) 4) blank [102] 200 fs s
       = Inr (success, s1) \<and>
     FileSystem_Remove (SynchDisk_ReadSector (lone_P typing Inr) 4) (SynchDisk_WriteSector (lone_P typing Inr) 4) blank [102] fs s1
       = Inr (success, s2)"
proof -
  from sdisk.format_ok [OF lone_machine_ok refl blank_ok, of typing Inr True blank False] obtain fs bm and s :: devices where
    s: "lone_disk 4 s" "stored (disk_sector s) fs (Directory_new (g_entries blank) NumDirEntries) bm" by blast
  have "(0 :: int) \<le> 200" "200 \<le> MaxFileSize" by (simp_all add: const_defs)
  from FileSystem_Create_Remove [OF s blank_ok blank_ok this no_file_new [OF blank_ok], of typing Inr "[102]"] s(1)
  show ?thesis by blast
qed

text \<open>No file can ever be opened: the constructor of this file system does not set the table of open files
  that \<^verbatim>\<open>Open\<close> searches for a free slot, so that after either way of starting it \<^verbatim>\<open>Open\<close> follows a pointer
  that was never initialised, and does not return.\<close>

theorem FileSystem_Open_undefined:
  assumes "FileSystem_new rd wr g debug format s = Inr (fs, s0)"
  shows "FileSystem_Open rd g' name type fs s1 \<noteq> Inr r"
proof -
  from assms have "openf fs = None"
    by (auto simp: FileSystem_new_def Let_def rbind_eq_Inr split: if_splits prod.splits)
  then show ?thesis by (auto simp: FileSystem_Open_def findFreeSlot_def Let_def rbind_eq_Inr split: prod.splits)
qed

theorem FileSystem_Open_undefined_witness:
  "\<exists>fs s0. FileSystem_new (SynchDisk_ReadSector (lone_P typing Inr) 4) (SynchDisk_WriteSector (lone_P typing Inr) 4) blank True True lone_machine
       = Inr (fs, s0) \<and>
     (\<forall>r. FileSystem_Open (SynchDisk_ReadSector (lone_P typing Inr) 4) blank [102] 0 fs s0 \<noteq> Inr r)"
proof -
  from sdisk.format_ok [OF lone_machine_ok refl blank_ok, of typing Inr True blank False] obtain fs s where
    s: "FileSystem_new (SynchDisk_ReadSector (lone_P typing Inr) 4) (SynchDisk_WriteSector (lone_P typing Inr) 4) blank True True lone_machine
       = Inr (fs, s)" by blast
  show ?thesis by (intro exI conjI allI, rule s) (rule FileSystem_Open_undefined [OF s])
qed

end
