(* ===== verification/Post_Office.thy ===== *)
theory Post_Office
  imports Devices
begin

text \<open>
  The post office: network/post.h, network/post.cc and the synchronised list of threads/synchlist.h and
  threads/synchlist.cc (configuration \<^verbatim>\<open>NETWORK\<close>). The record \<open>office\<close> extends the devices by the mailboxes
  and the two semaphores that the network interrupts signal.

  A mailbox is a \<^verbatim>\<open>SynchList\<close> of messages. The list elements of every box live in a part of the heap of their
  own; \<open>next_cell\<close> is the next address that \<^verbatim>\<open>new ListElement\<close> returns. Messages are reached through one list
  element only and are kept in it. \<^verbatim>\<open>Lock\<close> and \<^verbatim>\<open>Condition\<close> are the dummies of threads/synch.cc.

  The postal worker's loop \<open>PostalDelivery\<close> never returns; one turn of it is \<open>deliver\<close> behind the wait for the
  semaphore. \<open>P\<close> is \<^verbatim>\<open>Semaphore::P\<close> as the calling thread sees it.
\<close>

subsection \<open>Data\<close>

record MailHeader =
  mh_to :: int32
  mh_from :: int32
  mh_length :: int32

definition MaxMailSize :: int where [const_defs]: "MaxMailSize = MaxPacketSize - 12"

record Mail =
  ml_pktHdr :: PacketHeader
  ml_mailHdr :: MailHeader
  ml_data :: "byte list"

record 'm SynchList =
  sl_cells :: "'m cells"
  sl_list :: nlist

record office = devices +
  boxes :: "Mail SynchList list"
  netAddr :: int32
  numBoxes :: int
  messageAvailable :: nat
  messageSent :: nat
  next_cell :: nat

subsection \<open>The synchronised list\<close>

definition SynchList_new :: "'m SynchList" where
  "SynchList_new = \<lparr>sl_cells = Map.empty, sl_list = List_new\<rparr>"

definition SynchList_delete :: "'m SynchList \<Rightarrow> 'm SynchList res" where
  "SynchList_delete l =
     rbind (returns (List_delete (sl_cells l, sl_list l))) (\<lambda>(h, n). Inr \<lparr>sl_cells = h, sl_list = n\<rparr>)"

text \<open>The list of box \<open>b\<close>, for the operations that follow.\<close>

definition set_box :: "int \<Rightarrow> Mail cells \<times> nlist \<Rightarrow> 'a office_scheme \<Rightarrow> 'a office_scheme res" where
  "set_box b x s = rbind (arr_set (boxes s) b \<lparr>sl_cells = fst x, sl_list = snd x\<rparr>) (\<lambda>bs. Inr (s\<lparr>boxes := bs\<rparr>))"

definition SynchList_Append :: "int \<Rightarrow> Mail \<Rightarrow> 'a office_scheme \<Rightarrow> 'a office_scheme res" where
  "SynchList_Append b item s =
     (let s1 = Lock_Acquire s in
      rbind (arr_get (boxes s1) b) (\<lambda>l.
      rbind (List_Append (next_cell s1) (Some item) (sl_cells l, sl_list l)) (\<lambda>x.
      rbind (set_box b x (s1\<lparr>next_cell := Suc (next_cell s1)\<rparr>)) (\<lambda>s2.
      Inr (Lock_Release (Condition_Signal s2))))))"

text \<open>The loop \<^verbatim>\<open>while (list->IsEmpty()) listEmpty->Wait(lock)\<close>.\<close>

partial_function (option) wait_nonempty :: "int \<Rightarrow> 'a office_scheme \<Rightarrow> 'a office_scheme res option" where
  "wait_nonempty b s =
     (case arr_get (boxes s) b of
        Inl e \<Rightarrow> Some (Inl e)
      | Inr l \<Rightarrow>
          if List_IsEmpty (sl_list l)
          then (case Condition_Wait s of Inl e \<Rightarrow> Some (Inl e) | Inr s1 \<Rightarrow> wait_nonempty b s1)
          else Some (Inr s))"

definition SynchList_Remove :: "int \<Rightarrow> 'a office_scheme \<Rightarrow> (Mail \<times> 'a office_scheme) res" where
  "SynchList_Remove b s =
     rbind (returns (wait_nonempty b (Lock_Acquire s))) (\<lambda>s1.
     rbind (arr_get (boxes s1) b) (\<lambda>l.
     rbind (List_Remove (sl_cells l, sl_list l)) (\<lambda>(item, x).
     rbind (set_box b x s1) (\<lambda>s2.
     case item of None \<Rightarrow> Inl Aborted | Some mail \<Rightarrow> Inr (mail, Lock_Release s2)))))"

definition SynchList_Mapcar :: "int \<Rightarrow> 'a office_scheme \<Rightarrow> (Mail option list \<times> 'a office_scheme) res" where
  "SynchList_Mapcar b s =
     (let s1 = Lock_Acquire s in
      rbind (arr_get (boxes s1) b) (\<lambda>l.
      rbind (returns (List_Mapcar (sl_cells l, sl_list l))) (\<lambda>items. Inr (items, Lock_Release s1))))"

subsection \<open>Messages and mailboxes\<close>

text \<open>\<^verbatim>\<open>bcopy(src, dst, n)\<close> to the start of the array \<open>dst\<close>.\<close>

definition bcopy :: "byte list \<Rightarrow> byte list \<Rightarrow> nat \<Rightarrow> byte list res" where
  "bcopy src dst n = (if n \<le> length src \<and> n \<le> length dst then Inr (take n src @ drop n dst) else Inl Undefined)"

definition Mail_new :: "byte list \<Rightarrow> PacketHeader \<Rightarrow> MailHeader \<Rightarrow> byte list \<Rightarrow> Mail res" where
  "Mail_new junk pktH mailH msgData =
     rbind (ASSERT (uint (mh_length mailH) \<le> MaxMailSize)) (\<lambda>_.
     rbind (bcopy msgData junk (unat (mh_length mailH))) (\<lambda>d.
     Inr \<lparr>ml_pktHdr = pktH, ml_mailHdr = mailH, ml_data = d\<rparr>))"

definition MailBox_new :: "Mail SynchList" where
  "MailBox_new = SynchList_new"

definition MailBox_delete :: "Mail SynchList \<Rightarrow> Mail SynchList res" where
  "MailBox_delete box = SynchList_delete box"

definition MailBox_Put ::
    "byte list \<Rightarrow> int \<Rightarrow> PacketHeader \<Rightarrow> MailHeader \<Rightarrow> byte list \<Rightarrow> 'a office_scheme \<Rightarrow> 'a office_scheme res" where
  "MailBox_Put junk b pktHdr mailHdr data s =
     rbind (Mail_new junk pktHdr mailHdr data) (\<lambda>mail. SynchList_Append b mail s)"

text \<open>The headers and the caller's buffer after the call.\<close>

definition MailBox_Get ::
    "int \<Rightarrow> byte list \<Rightarrow> 'a office_scheme \<Rightarrow> ((PacketHeader \<times> MailHeader \<times> byte list) \<times> 'a office_scheme) res" where
  "MailBox_Get b data s =
     rbind (SynchList_Remove b s) (\<lambda>(mail, s1).
     rbind (bcopy (ml_data mail) data (unat (mh_length (ml_mailHdr mail)))) (\<lambda>d.
     Inr ((ml_pktHdr mail, ml_mailHdr mail, d), s1)))"

subsection \<open>The post office\<close>

text \<open>A mail header as the twelve bytes of its three words.\<close>

definition mail_header_bytes :: "MailHeader \<Rightarrow> byte list" where
  "mail_header_bytes h = host_store32 False (mh_to h) @ host_store32 False (mh_from h) @ host_store32 False (mh_length h)"

definition bytes_mail_header :: "byte list \<Rightarrow> MailHeader" where
  "bytes_mail_header bs = \<lparr>mh_to = host_load32 False (take 4 bs), mh_from = host_load32 False (take 4 (drop 4 bs)),
     mh_length = host_load32 False (take 4 (drop 8 bs))\<rparr>"

text \<open>The constructor: \<open>oneTick\<close> is the clock of \<^verbatim>\<open>Fork\<close>, \<open>ma\<close>, \<open>ms\<close> and \<open>t\<close> are the addresses of the new semaphores and
  of the worker's thread, \<open>junk\<close> its fresh register array, \<open>hdr\<close> and \<open>inb\<close> the network's fresh receive buffer.\<close>

definition PostOffice_new ::
    "('a office_scheme \<Rightarrow> 'a office_scheme res) \<Rightarrow> nat \<Rightarrow> nat \<Rightarrow> nat \<Rightarrow> int32 list \<Rightarrow> PacketHeader \<Rightarrow> byte list \<Rightarrow>
     int32 \<Rightarrow> rat \<Rightarrow> int \<Rightarrow> 'a office_scheme \<Rightarrow> 'a office_scheme res" where
  "PostOffice_new oneTick ma ms t junk hdr inb addr reliability nBoxes s =
     (let s1 = (put_sem ms (Semaphore_new ''message sent'' 0) (put_sem ma (Semaphore_new ''message available'' 0) s))
                 \<lparr>messageAvailable := ma, messageSent := ms, netAddr := addr, numBoxes := nBoxes\<rparr> in
      if nBoxes < 0 then Inl Undefined
      else
        rbind (Network_new addr reliability (Signal ma) (Signal ms) hdr inb
                 (s1\<lparr>boxes := replicate (nat nBoxes) MailBox_new\<rparr>)) (\<lambda>s2.
        Thread_Fork oneTick PostalHelper 0 t (put_thread t (Thread_new ''postal worker'' junk) s2)))"

definition PostOffice_delete :: "'a office_scheme \<Rightarrow> 'a office_scheme res" where
  "PostOffice_delete s =
     rbind (for_each (\<lambda>l bs. rbind (MailBox_delete l) (\<lambda>l'. Inr (bs @ [l']))) (boxes s) []) (\<lambda>_.
     rbind (Semaphore_delete (messageAvailable s) (s\<lparr>the_network := None, boxes := []\<rparr>)) (\<lambda>s1.
     Semaphore_delete (messageSent s1) s1))"

text \<open>One turn of the postal worker, behind \<^verbatim>\<open>messageAvailable->P()\<close>: \<open>buffer\<close> is its packet buffer.\<close>

definition deliver :: "byte list \<Rightarrow> byte list \<Rightarrow> 'a office_scheme \<Rightarrow> (byte list \<times> 'a office_scheme) res" where
  "deliver junk buffer s =
     rbind (Network_Receive buffer s) (\<lambda>((pktHdr, buffer1), s1).
     let mailHdr = bytes_mail_header buffer1 in
     rbind (ASSERT (0 \<le> sint (mh_to mailHdr) \<and> sint (mh_to mailHdr) < numBoxes s1)) (\<lambda>_.
     rbind (ASSERT (uint (mh_length mailHdr) \<le> MaxMailSize)) (\<lambda>_.
     rbind (MailBox_Put junk (sint (mh_to mailHdr)) pktHdr mailHdr (drop 12 buffer1) s1) (\<lambda>s2. Inr (buffer1, s2)))))"

partial_function (option) PostalDelivery ::
    "(nat \<Rightarrow> 'a office_scheme \<Rightarrow> 'a office_scheme res) \<Rightarrow> byte list \<Rightarrow> byte list \<Rightarrow> 'a office_scheme \<Rightarrow> 'a office_scheme res option" where
  "PostalDelivery P junk buffer s =
     (case rbind (P (messageAvailable s) s) (deliver junk buffer) of
        Inl e \<Rightarrow> Some (Inl e)
      | Inr (buffer1, s1) \<Rightarrow> PostalDelivery P junk buffer1 s1)"

text \<open>What \<^verbatim>\<open>Send\<close> hands to the network: the packet header with its fields filled in, and the buffer.\<close>

definition mail_packet :: "byte list \<Rightarrow> PacketHeader \<Rightarrow> MailHeader \<Rightarrow> byte list \<Rightarrow> 'a office_scheme \<Rightarrow> (PacketHeader \<times> byte list) res" where
  "mail_packet fresh pktHdr mailHdr data s =
     rbind (ASSERT (uint (mh_length mailHdr) \<le> MaxMailSize)) (\<lambda>_.
     rbind (ASSERT (0 \<le> sint (mh_to mailHdr) \<and> sint (mh_to mailHdr) < numBoxes s)) (\<lambda>_.
     rbind (bcopy (mail_header_bytes mailHdr) fresh 12) (\<lambda>b1.
     rbind (bcopy data (drop 12 b1) (unat (mh_length mailHdr))) (\<lambda>b2.
     Inr (pktHdr\<lparr>pk_from := netAddr s, pk_length := mh_length mailHdr + 12\<rparr>, take 12 b1 @ b2)))))"

text \<open>\<open>fresh\<close> and \<open>wire\<close> are the fresh buffers of this function and of \<^verbatim>\<open>Network::Send\<close>.\<close>

definition PostOffice_Send ::
    "(nat \<Rightarrow> 'a office_scheme \<Rightarrow> 'a office_scheme res) \<Rightarrow> unix \<Rightarrow> byte list \<Rightarrow> byte list \<Rightarrow> PacketHeader \<Rightarrow> MailHeader \<Rightarrow> byte list \<Rightarrow>
     'a office_scheme \<Rightarrow> 'a office_scheme res" where
  "PostOffice_Send P ux fresh wire pktHdr mailHdr data s =
     rbind (mail_packet fresh pktHdr mailHdr data s) (\<lambda>(hdr, buffer).
     rbind (Network_Send ux wire hdr buffer (Lock_Acquire s)) (\<lambda>s1.
     rbind (P (messageSent s1) s1) (\<lambda>s2. Inr (Lock_Release s2))))"

definition PostOffice_Receive ::
    "int \<Rightarrow> byte list \<Rightarrow> 'a office_scheme \<Rightarrow> ((PacketHeader \<times> MailHeader \<times> byte list) \<times> 'a office_scheme) res" where
  "PostOffice_Receive box data s =
     rbind (ASSERT (box \<ge> 0 \<and> box < numBoxes s)) (\<lambda>_.
     rbind (MailBox_Get box data s) (\<lambda>((pktHdr, mailHdr, d), s1).
     rbind (ASSERT (uint (mh_length mailHdr) \<le> MaxMailSize)) (\<lambda>_.
     Inr ((pktHdr, mailHdr, d), s1))))"

text \<open>The interrupt handlers, registered with the network as \<open>Signal\<close> of the two semaphores.\<close>

definition IncomingPacket :: "'a office_scheme \<Rightarrow> 'a office_scheme res" where
  "IncomingPacket s = Semaphore_V (\<lambda>_. Inl Undefined) (messageAvailable s) s"

definition PacketSent :: "'a office_scheme \<Rightarrow> 'a office_scheme res" where
  "PacketSent s = Semaphore_V (\<lambda>_. Inl Undefined) (messageSent s) s"

subsection \<open>The contract of a collection of mailboxes\<close>

locale mailboxes =
  fixes holds :: "'s \<Rightarrow> (nat \<Rightarrow> 'm list) \<Rightarrow> bool"
    and count :: "'s \<Rightarrow> nat"
    and put :: "nat \<Rightarrow> 'm \<Rightarrow> 's \<Rightarrow> 's res"
    and get :: "nat \<Rightarrow> 's \<Rightarrow> ('m \<times> 's) res"
  assumes put_law: "holds s f \<Longrightarrow> b < count s \<Longrightarrow>
      \<exists>s'. put b m s = Inr s' \<and> holds s' (f(b := f b @ [m])) \<and> count s' = count s"
    and get_law: "holds s f \<Longrightarrow> b < count s \<Longrightarrow> f b = m # ms \<Longrightarrow>
      \<exists>s'. get b s = Inr (m, s') \<and> holds s' (f(b := ms)) \<and> count s' = count s"
begin

text \<open>A sequence of arrivals leaves every message in its box, behind the messages that were there.\<close>

lemma arrivals:
  "holds s f \<Longrightarrow> list_all (\<lambda>(b, m). b < count s) xs \<Longrightarrow>
   \<exists>s'. for_each (\<lambda>(b, m). put b m) xs s = Inr s' \<and>
     holds s' (\<lambda>b. f b @ map snd (filter (\<lambda>x. fst x = b) xs)) \<and> count s' = count s"
proof (induction xs arbitrary: s f)
  case (Cons x xs)
  obtain b m where x: "x = (b, m)" by (cases x)
  with put_law [of s f b m] Cons.prems obtain t where
    t: "put b m s = Inr t" "holds t (f(b := f b @ [m]))" "count t = count s" by auto
  from Cons.IH [OF t(2)] Cons.prems(2) t(3) obtain s' where
    s': "for_each (\<lambda>(b, m). put b m) xs t = Inr s'" "count s' = count s"
      "holds s' (\<lambda>c. (f(b := f b @ [m])) c @ map snd (filter (\<lambda>x. fst x = c) xs))" by auto
  moreover have "(\<lambda>c. (f(b := f b @ [m])) c @ map snd (filter (\<lambda>x. fst x = c) xs)) =
      (\<lambda>c. f c @ map snd (filter (\<lambda>y. fst y = c) (x # xs)))" by (auto simp: x)
  ultimately show ?case using t(1) by (auto simp: x)
qed simp

text \<open>Taking messages out of one box returns them in order and leaves the other boxes alone.\<close>

lemma drain:
  "holds s f \<Longrightarrow> b < count s \<Longrightarrow> f b = ms @ rest \<Longrightarrow>
   \<exists>s'. for_each (\<lambda>_ (out, u). rbind (get b u) (\<lambda>(m, u'). Inr (out @ [m], u'))) [0..<length ms] ([], s) = Inr (ms, s') \<and>
     holds s' (f(b := rest)) \<and> count s' = count s"
proof (induction ms arbitrary: rest rule: rev_induct)
  case Nil
  then have "f(b := rest) = f" by auto
  with Nil show ?case by simp
next
  case (snoc m ms)
  then obtain t where t: "for_each (\<lambda>_ (out, u). rbind (get b u) (\<lambda>(m, u'). Inr (out @ [m], u'))) [0..<length ms] ([], s) = Inr (ms, t)"
    "holds t (f(b := m # rest))" "count t = count s" by fastforce
  from get_law [OF t(2), of b m rest] snoc.prems(2) t(3) obtain u where
    u: "get b t = Inr (m, u)" "holds u (f(b := rest))" "count u = count s" by auto
  from t(1) u(1) have "for_each (\<lambda>_ (out, u). rbind (get b u) (\<lambda>(m, u'). Inr (out @ [m], u'))) [0..<length (ms @ [m])] ([], s) =
      Inr (ms @ [m], u)" by (simp add: for_each_append)
  with u(2,3) show ?case by blast
qed

end

subsection \<open>The boxes of the post office\<close>

lemma List_Append_dom:
  assumes "List_Append a it (h, l) = Inr (h', l')"
  shows "dom h' \<subseteq> insert a (dom h)"
  using assms by (auto simp: List_Append_def Let_def set_next_def rbind_eq_Inr split: if_splits option.splits)

lemma List_Remove_dom:
  assumes "List_Remove (h, l) = Inr (it, (h', l'))"
  shows "dom h' \<subseteq> dom h"
  using assms by (auto simp: List_Remove_def List_SortedRemove_def Let_def rbind_eq_Inr split: if_splits)

definition box_queue :: "'a office_scheme \<Rightarrow> nat \<Rightarrow> Mail cells \<times> nlist" where
  "box_queue s b = (sl_cells (boxes s ! b), sl_list (boxes s ! b))"

definition mail_in :: "'a office_scheme \<Rightarrow> (nat \<Rightarrow> Mail list) \<Rightarrow> bool" where
  "mail_in s f \<longleftrightarrow> numBoxes s = int (length (boxes s)) \<and>
     (\<forall>b < length (boxes s). queue_at (box_queue s b) (f b) \<and> dom (fst (box_queue s b)) \<subseteq> {..<next_cell s})"

lemma mail_inD:
  assumes "mail_in s f" "b < length (boxes s)"
  shows "queue_at (box_queue s b) (f b)" "fst (box_queue s b) (next_cell s) = None"
  using assms by (auto simp: mail_in_def)

lemma mail_in_set_box:
  assumes "mail_in s f" "b < length (boxes s)" "queue_at x xs" "dom (fst x) \<subseteq> {..<n}" "next_cell s \<le> n"
  shows "\<exists>s'. set_box (int b) x (s\<lparr>next_cell := n\<rparr>) = Inr s' \<and> mail_in s' (f(b := xs)) \<and> length (boxes s') = length (boxes s)"
  using assms by (fastforce simp: set_box_def mail_in_def box_queue_def nth_list_update)

lemma queue_at_IsEmpty: "queue_at (h, l) xs \<Longrightarrow> List_IsEmpty l \<longleftrightarrow> xs = []"
  by (auto simp: queue_at_def IsEmpty_list_at)

lemma SynchList_Append_ok:
  assumes "mail_in s f" "b < length (boxes s)"
  shows "\<exists>s'. SynchList_Append (int b) m s = Inr s' \<and> mail_in s' (f(b := f b @ [m])) \<and> length (boxes s') = length (boxes s)"
proof -
  from nq.append_law [OF mail_inD [OF assms], of m] obtain x where
    x: "List_Append (next_cell s) (Some m) (box_queue s b) = Inr x" "queue_at x (f b @ [m])" by blast
  have "dom (fst x) \<subseteq> {..<Suc (next_cell s)}"
    using List_Append_dom [of "next_cell s" "Some m" "fst (box_queue s b)" "snd (box_queue s b)" "fst x" "snd x"] x(1) assms
    by (fastforce simp: mail_in_def)
  from mail_in_set_box [OF assms x(2) this] x(1) assms(2) show ?thesis
    by (auto simp: SynchList_Append_def Lock_Acquire_def Lock_Release_def Condition_Signal_def Let_def box_queue_def)
qed

lemma wait_nonempty_ok:
  assumes "mail_in s f" "b < length (boxes s)"
  shows "wait_nonempty (int b) s = Some (if f b = [] then Inl Aborted else Inr s)"
  using assms mail_inD(1) [OF assms] queue_at_IsEmpty [of _ "sl_list (boxes s ! b)" "f b"]
  by (subst wait_nonempty.simps) (auto simp: Condition_Wait_def box_queue_def)

lemma SynchList_Remove_ok:
  assumes "mail_in s f" "b < length (boxes s)" "f b = m # ms"
  shows "\<exists>s'. SynchList_Remove (int b) s = Inr (m, s') \<and> mail_in s' (f(b := ms)) \<and> length (boxes s') = length (boxes s)"
proof -
  from mail_inD(1) [OF assms(1,2)] assms(3) nq.remove_law obtain x where
    x: "List_Remove (box_queue s b) = Inr (Some m, x)" "queue_at x ms" by fastforce
  have "dom (fst x) \<subseteq> {..<next_cell s}"
    using List_Remove_dom [of "fst (box_queue s b)" "snd (box_queue s b)" "Some m" "fst x" "snd x"] x(1) assms
    by (fastforce simp: mail_in_def)
  from mail_in_set_box [OF assms(1,2) x(2) this] x(1) assms wait_nonempty_ok [OF assms(1,2)] show ?thesis
    by (auto simp: SynchList_Remove_def Lock_Acquire_def Lock_Release_def returns_def box_queue_def)
qed

lemma SynchList_Remove_empty:
  assumes "mail_in s f" "b < length (boxes s)" "f b = []"
  shows "SynchList_Remove (int b) s = Inl Aborted"
  using wait_nonempty_ok [OF assms(1,2)] assms(3) by (simp add: SynchList_Remove_def Lock_Acquire_def returns_def)

interpretation post: mailboxes mail_in "\<lambda>s. length (boxes s)" "\<lambda>b. SynchList_Append (int b)" "\<lambda>b. SynchList_Remove (int b)"
  by unfold_locales (rule SynchList_Append_ok SynchList_Remove_ok; assumption)+

subsection \<open>Messages on the wire\<close>

lemma mail_header_roundtrip [simp]: "bytes_mail_header (mail_header_bytes h @ rest) = h"
  using host_store_load32 [of False]
  by (simp add: bytes_mail_header_def mail_header_bytes_def) (simp add: host_store32_def)

lemma length_mail_header_bytes [simp]: "length (mail_header_bytes h) = 12"
  by (simp add: mail_header_bytes_def host_store32_def Let_def)

lemma mail_length:
  assumes "uint (mh_length h) \<le> MaxMailSize"
  shows "unat (mh_length h) \<le> 40" "unat (mh_length h + 12) = unat (mh_length h) + 12"
proof -
  have "int (unat (mh_length h)) \<le> 40" using assms by (simp add: const_defs)
  then show n: "unat (mh_length h) \<le> 40" by linarith
  then show "unat (mh_length h + 12) = unat (mh_length h) + 12" by (subst unat_plus_if') simp
qed

text \<open>The packet that \<^verbatim>\<open>Send\<close> makes of a message.\<close>

definition addressed :: "int32 \<Rightarrow> PacketHeader \<Rightarrow> MailHeader \<Rightarrow> PacketHeader" where
  "addressed me p m = p\<lparr>pk_from := me, pk_length := mh_length m + 12\<rparr>"

lemma mail_packet_ok:
  assumes "uint (mh_length m) \<le> MaxMailSize" "0 \<le> sint (mh_to m)" "sint (mh_to m) < numBoxes s"
    "length data = unat (mh_length m)" "length fresh = 52"
  shows "mail_packet fresh p m data s = Inr (addressed (netAddr s) p m, mail_header_bytes m @ data @ drop (12 + unat (mh_length m)) fresh)"
  using assms mail_length [OF assms(1)] by (simp add: mail_packet_def bcopy_def addressed_def add.commute)

lemma addressed_ok:
  assumes "uint (mh_length m) \<le> MaxMailSize"
  shows "unat (pk_length (addressed me p m)) = unat (mh_length m) + 12" "0 < uint (pk_length (addressed me p m))"
    "uint (pk_length (addressed me p m)) \<le> MaxPacketSize"
proof -
  note n = mail_length [OF assms]
  show u: "unat (pk_length (addressed me p m)) = unat (mh_length m) + 12" using n by (simp add: addressed_def)
  have "uint (pk_length (addressed me p m)) = int (unat (mh_length m) + 12)" unfolding u [symmetric] by simp
  then show "0 < uint (pk_length (addressed me p m))" "uint (pk_length (addressed me p m)) \<le> MaxPacketSize"
    using n(1) unfolding const_defs by linarith+
qed

lemma Network_Send_prefix:
  assumes "length d = unat (pk_length hdr)"
  shows "Network_Send ux junk hdr (d @ rest) s = Network_Send ux junk hdr d s"
proof -
  have "(length (d @ rest) < unat (pk_length hdr)) = (length d < unat (pk_length hdr))"
    "take (unat (pk_length hdr)) (d @ rest) = take (unat (pk_length hdr)) d" using assms by simp_all
  then show ?thesis by (simp only: Network_Send_def)
qed

text \<open>A \<^verbatim>\<open>V\<close> of an interrupt handler: one more token, and the first waiting thread is ready.\<close>

lemma V_section_wakes:
  fixes s :: "'a office_scheme"
  assumes "semaphores s sm = Some x" "\<forall>w \<in> set (sem_queue x). threads s w \<noteq> None" "word_range (sem_value x + 1)"
  shows "\<exists>s' :: 'a office_scheme. V_section sm s = Inr s' \<and>
    semaphores s' = (semaphores s)(sm \<mapsto> x\<lparr>sem_value := sem_value x + 1, sem_queue := tl (sem_queue x)\<rparr>) \<and>
    readyList s' = readyList s @ take 1 (sem_queue x) \<and> the_network s' = the_network s \<and>
    boxes s' = boxes s \<and> numBoxes s' = numBoxes s \<and> next_cell s' = next_cell s"
proof (cases "sem_queue x")
  case Nil
  then show ?thesis using assms by (cases x) (simp add: V_section_def sem_at_def put_sem_def)
next
  case (Cons w ws)
  with assms(2) obtain th where "threads s w = Some th" by auto
  with Cons show ?thesis using assms(1,3)
    by (cases x) (simp add: V_section_def sem_at_def put_sem_def ReadyToRun_def setStatus_def thread_at_def put_thread_def)
qed

text \<open>The arrival of a packet.\<close>

lemma packet_arrives:
  fixes s :: "'a office_scheme"
  assumes "the_network s = Some nw" "pk_length (inHdr nw) = 0" "poll_socket ux (nat (now s))"
    "net_in nw = buffer # rest" "length buffer = 64" "bytes_header buffer = hdr" "pk_to hdr = ident nw"
    "uint (pk_length hdr) \<le> MaxPacketSize" "nw_readHandler nw = Signal sm" "level s = IntOff"
    "semaphores s sm = Some x" "\<forall>w \<in> set (sem_queue x). threads s w \<noteq> None" "word_range (sem_value x + 1)"
  shows "\<exists>s' :: 'a office_scheme. CheckPktAvail ux s = Inr s' \<and>
    the_network s' = Some (nw\<lparr>net_in := rest, inHdr := hdr,
       inbox := take (unat (pk_length hdr)) (drop 12 buffer) @ drop (unat (pk_length hdr)) (inbox nw)\<rparr>) \<and>
    semaphores s' = (semaphores s)(sm \<mapsto> x\<lparr>sem_value := sem_value x + 1, sem_queue := tl (sem_queue x)\<rparr>) \<and>
    readyList s' = readyList s @ take 1 (sem_queue x) \<and>
    boxes s' = boxes s \<and> numBoxes s' = numBoxes s \<and> next_cell s' = next_cell s"
proof -
  let ?w = "now s + NetworkTime"
  let ?t = "bump (\<lambda>st. st\<lparr>numPacketsRecvd := numPacketsRecvd st + 1\<rparr>)
     (s\<lparr>pending := kinsert (?w, PendingInterrupt_new NetworkReadPoll 0 ?w NetworkRecvInt) (pending s),
        the_network := Some (nw\<lparr>net_in := rest,
      inHdr := hdr, inbox := take (unat (pk_length hdr)) (drop 12 buffer) @ drop (unat (pk_length hdr)) (inbox nw)\<rparr>)\<rparr>)"
  have t: "level ?t = IntOff" "semaphores ?t sm = Some x" "\<forall>w \<in> set (sem_queue x). threads ?t w \<noteq> None"
    using assms by (simp_all add: bump_def)
  have "CheckPktAvail ux s = run_callback (Signal sm) ?t"
    using assms unfolding CheckPktAvail_def by (simp add: dev_def Let_def now_def MaxWireSize_def Schedule_def const_defs)
  also have "\<dots> = V_section sm ?t" using t Semaphore_V_in_handler [OF t(1)] by (simp add: run_callback_def)
  finally show ?thesis using V_section_wakes [OF t(2,3) assms(13)] by (auto simp: bump_def)
qed

text \<open>The postal worker takes it to the mailbox.\<close>

lemma deliver_ok:
  fixes s :: "'a office_scheme"
  assumes "mail_in s f" "the_network s = Some nw" "inHdr nw = hdr" "pk_length hdr = mh_length m + 12"
    "take (unat (mh_length m) + 12) (inbox nw) = mail_header_bytes m @ data" "length data = unat (mh_length m)"
    "uint (mh_length m) \<le> MaxMailSize" "sint (mh_to m) = int b" "b < length (boxes s)"
    "length (inbox nw) = 52" "length buffer = 52" "length junk = 40"
  shows "\<exists>buffer' s'.  deliver junk buffer s = Inr (buffer', s' :: 'a office_scheme) \<and> length buffer' = 52 \<and>
    mail_in s' (f(b := f b @ [\<lparr>ml_pktHdr = hdr, ml_mailHdr = m, ml_data = data @ drop (length data) junk\<rparr>])) \<and>
    length (boxes s') = length (boxes s)"
proof -
  let ?s1 = "s\<lparr>the_network := Some (nw\<lparr>inHdr := hdr\<lparr>pk_length := 0\<rparr>\<rparr>)\<rparr>"
  let ?m = "\<lparr>ml_pktHdr = hdr, ml_mailHdr = m, ml_data = data @ drop (length data) junk\<rparr>"
  note n = mail_length [OF assms(7)]
  have nz: "mh_length m + 12 \<noteq> 0" using n(2) by (metis add_is_0 unat_eq_zero zero_neq_numeral)
  have r: "Network_Receive buffer s = Inr ((hdr, mail_header_bytes m @ data @ drop (unat (mh_length m) + 12) buffer), ?s1)"
    using assms n nz by (simp add: Network_Receive_def dev_def Let_def)
  have b: "numBoxes s = int (length (boxes s))" using assms(1) by (simp add: mail_in_def)
  have "mail_in ?s1 f" using assms(1) by (simp add: mail_in_def box_queue_def)
  from SynchList_Append_ok [OF this, of b ?m] assms(9) obtain s' where
    s': "SynchList_Append (int b) ?m ?s1 = Inr s'" "mail_in s' (f(b := f b @ [?m]))" "length (boxes s') = length (boxes s)" by auto
  have "Mail_new junk hdr m (data @ drop (unat (mh_length m) + 12) buffer) = Inr ?m"
    using assms(6,7,12) n by (simp add: Mail_new_def bcopy_def)
  then show ?thesis
    using r s' assms(6-9,11) b n
    by (simp add: deliver_def MailBox_Put_def Let_def)
qed

lemma PostOffice_Receive_ok:
  fixes s :: "'a office_scheme"
  assumes "mail_in s f" "b < length (boxes s)" "f b = m # ms" "uint (mh_length (ml_mailHdr m)) \<le> MaxMailSize"
    "length (ml_data m) = 40" "unat (mh_length (ml_mailHdr m)) \<le> length into"
  shows "\<exists>s' :: 'a office_scheme. PostOffice_Receive (int b) into s =
      Inr ((ml_pktHdr m, ml_mailHdr m, take (unat (mh_length (ml_mailHdr m))) (ml_data m) @ drop (unat (mh_length (ml_mailHdr m))) into), s') \<and>
    mail_in s' (f(b := ms))"
proof -
  have "numBoxes s = int (length (boxes s))" using assms(1) by (simp add: mail_in_def)
  with SynchList_Remove_ok [OF assms(1-3)] assms(2,4-6) mail_length [OF assms(4)] show ?thesis
    by (auto simp: PostOffice_Receive_def MailBox_Get_def bcopy_def)
qed

subsection \<open>Properties\<close>

text \<open>C30. Every mailbox is a first-in first-out queue of its own, although all boxes are linked lists behind a \<^verbatim>\<open>SynchList\<close>.
  After any sequence of arrivals for any boxes, box \<open>b\<close> holds the messages it had before and behind them exactly those
  that arrived for it, in the order of their arrival; taking that many messages out returns them in this order and leaves the
  box empty and every other box as it was.\<close>

theorem Mailboxes_are_queues:
  fixes s :: "'a office_scheme"
  assumes "mail_in s f" and "list_all (\<lambda>(c, m). c < length (boxes s)) xs" and "b < length (boxes s)"
  shows "let mine = f b @ map snd (filter (\<lambda>x. fst x = b) xs) in
    \<exists>s1 s2 :: 'a office_scheme. for_each (\<lambda>(c, m). SynchList_Append (int c) m) xs s = Inr s1 \<and>
      for_each (\<lambda>_ (out, u). rbind (SynchList_Remove (int b) u) (\<lambda>(m, u'). Inr (out @ [m], u'))) [0..<length mine] ([], s1) = Inr (mine, s2) \<and>
      mail_in s2 (\<lambda>c. if c = b then [] else f c @ map snd (filter (\<lambda>x. fst x = c) xs))"
proof -
  let ?g = "\<lambda>c. f c @ map snd (filter (\<lambda>x. fst x = c) xs)"
  from post.arrivals [OF assms(1,2)] obtain s1 where
    s1: "for_each (\<lambda>(c, m). SynchList_Append (int c) m) xs s = Inr s1" "mail_in s1 ?g" "length (boxes s1) = length (boxes s)" by blast
  from post.drain [OF s1(2), of b "?g b" "[]"] s1(3) assms(3) obtain s2 where
    s2: "for_each (\<lambda>_ (out, u). rbind (SynchList_Remove (int b) u) (\<lambda>(m, u'). Inr (out @ [m], u'))) [0..<length (?g b)] ([], s1) = Inr (?g b, s2)"
      "mail_in s2 (?g(b := []))" "length (boxes s2) = length (boxes s)" by auto
  have "?g(b := []) = (\<lambda>c. if c = b then [] else ?g c)" by auto
  then show ?thesis using s1(1) s2(1,2) unfolding Let_def by (intro exI [of _ s1] exI [of _ s2] conjI) simp_all
qed

definition office_machine :: "int32 \<Rightarrow> office" where
  "office_machine addr = devices.extend (net_machine addr)
     \<lparr>boxes = replicate 3 MailBox_new, netAddr = addr, numBoxes = 3, messageAvailable = 6, messageSent = 5, next_cell = 0\<rparr>"

lemma office_machine_empty: "mail_in (office_machine a) (\<lambda>_. [])"
  by (auto simp: mail_in_def box_queue_def queue_at_def office_machine_def devices.defs MailBox_new_def SynchList_new_def List_new_def
      list_at_def nth_Cons less_Suc_eq numeral_3_eq_3)

lemma office_machine_simps [simp]:
  "the_network (office_machine a) = the_network (net_machine a)" "level (office_machine a) = level (net_machine a)"
  "semaphores (office_machine a) = semaphores (net_machine a)" "random_calls (office_machine a) = random_calls (net_machine a)"
  "netAddr (office_machine a) = a" "numBoxes (office_machine a) = 3" "length (boxes (office_machine a)) = 3"
  by (simp_all add: office_machine_def devices.defs)

theorem Mailboxes_are_queues_witness:
  "\<exists>m :: Mail. \<exists>s1 s2 :: office. SynchList_Append 1 m (office_machine 2) = Inr s1 \<and> SynchList_Remove 1 s1 = Inr (m, s2)"
proof -
  let ?m = "\<lparr>ml_pktHdr = \<lparr>pk_to = 2, pk_from = 1, pk_length = 12\<rparr>, ml_mailHdr = \<lparr>mh_to = 1, mh_from = 0, mh_length = 0\<rparr>, ml_data = []\<rparr>"
  from Mailboxes_are_queues [OF office_machine_empty [of 2], of "[(1, ?m)]" 1] show ?thesis
    by (force simp: Let_def rbind_eq_Inr)
qed

text \<open>C17. Mail is delivered. A message that \<^verbatim>\<open>PostOffice::Send\<close> accepts on one machine, and that the simulated network does not
  drop, leaves as one packet behind the packet and mail headers (after which \<^verbatim>\<open>Send\<close> waits for the interrupt). When the packet
  reaches the machine it is addressed to, the network interrupt signals the postal worker and makes it ready if it waits; its
  next turn (the count of messages, a C \<^verbatim>\<open>int\<close>, does not overflow) appends the message to the mailbox named in the mail header and changes no other box; and when the box was
  empty, \<^verbatim>\<open>Receive\<close> on it returns the sender's address, the mail header and exactly the bytes of the message.\<close>

theorem Mail_delivered:
  fixes sa sb :: "'a office_scheme"
  assumes m: "uint (mh_length m) \<le> MaxMailSize" "sint (mh_to m) = int b" "length data = unat (mh_length m)"
    and a: "int b < numBoxes sa" "the_network sa = Some na" "\<not> sendBusy na" "ident na = netAddr sa"
      "of_int (rand uxa (random_calls sa) smod 100) < chanceToWork na * 100" "length fresh = 52" "length wire = 64"
    and b: "mail_in sb f" "b < length (boxes sb)" "the_network sb = Some nb" "pk_length (inHdr nb) = 0"
      "poll_socket uxb (nat (now sb))" "ident nb = pk_to p" "length (inbox nb) = 52" "nw_readHandler nb = Signal sm"
      "level sb = IntOff" "semaphores sb sm = Some x" "\<forall>w \<in> set (sem_queue x). threads sb w \<noteq> None" "word_range (sem_value x + 1)"
    and buf: "length buffer = 52" "length junk = 40" "unat (mh_length m) \<le> length into"
  shows "let hdr = p\<lparr>pk_from := netAddr sa, pk_length := mh_length m + 12\<rparr>;
             mail = \<lparr>ml_pktHdr = hdr, ml_mailHdr = m, ml_data = data @ drop (length data) junk\<rparr> in
    \<exists>packet na' buffer' sa' sb1 sb2 sb3.
      PostOffice_Send P uxa fresh wire p m data sa = rbind (P (messageSent sa') sa') Inr \<and>
      the_network sa' = Some na' \<and> net_out na' = net_out na @ [(pk_to p, packet)] \<and>
      CheckPktAvail uxb (sb\<lparr>the_network := Some (nb\<lparr>net_in := [packet]\<rparr>)\<rparr>) = Inr sb1 \<and>
      semaphores sb1 sm = Some (x\<lparr>sem_value := sem_value x + 1, sem_queue := tl (sem_queue x)\<rparr>) \<and>
      readyList sb1 = readyList sb @ take 1 (sem_queue x) \<and>
      deliver junk buffer sb1 = Inr (buffer', sb2) \<and> mail_in sb2 (f(b := f b @ [mail])) \<and>
      (f b = [] \<longrightarrow> PostOffice_Receive (int b) into sb2 = Inr ((hdr, m, data @ drop (length data) into), sb3) \<and> mail_in sb3 f)"
proof -
  let ?h = "addressed (netAddr sa) p m" and ?n = "unat (mh_length m)"
  let ?d = "mail_header_bytes m @ data" and ?m = "\<lparr>ml_pktHdr = addressed (netAddr sa) p m, ml_mailHdr = m, ml_data = data @ drop (length data) junk\<rparr>"
  note n = mail_length [OF m(1)] and h = addressed_ok [OF m(1), of "netAddr sa" p]
  have d: "length ?d = unat (pk_length ?h)" using h(1) m(3) by simp
  have pt: "pk_from ?h = ident na" "pk_to ?h = pk_to p" "pk_length ?h = mh_length m + 12" using a(4) by (simp_all add: addressed_def)
  let ?w = "wire_packet wire ?h ?d"
  from Network_Send_eq [OF a(2,3) pt(1) h(2,3) d a(5), of wire] pt(2)
  obtain sa' where sa': "Network_Send uxa wire ?h ?d sa = Inr sa'"
    "the_network sa' = Some (na\<lparr>net_out := net_out na @ [(pk_to p, ?w)]\<rparr>)" by auto
  have send: "PostOffice_Send P uxa fresh wire p m data sa = rbind (P (messageSent sa') sa') Inr"
    using sa' mail_packet_ok [OF m(1) _ _ m(3) a(6), of sa p] m(2) a(1) Network_Send_prefix [OF d, of uxa wire _ sa]
    by (simp add: PostOffice_Send_def Lock_Acquire_def Lock_Release_def)
  have w: "length ?w = 64" "bytes_header ?w = ?h" "take (unat (pk_length ?h)) (drop 12 ?w) = ?d"
    using d h(1) n a(7) by (simp_all add: wire_packet_def header_roundtrip)
  let ?sb = "sb\<lparr>the_network := Some (nb\<lparr>net_in := [?w]\<rparr>)\<rparr>" and ?in = "?d @ drop (?n + 12) (inbox nb)"
  from packet_arrives [of ?sb "nb\<lparr>net_in := [?w]\<rparr>" uxb ?w "[]" ?h sm x] b w h pt(2)
  obtain sb1 where sb1: "CheckPktAvail uxb ?sb = Inr sb1" "the_network sb1 = Some (nb\<lparr>net_in := [], inHdr := ?h, inbox := ?in\<rparr>)"
      "semaphores sb1 = (semaphores sb)(sm \<mapsto> x\<lparr>sem_value := sem_value x + 1, sem_queue := tl (sem_queue x)\<rparr>)"
      "readyList sb1 = readyList sb @ take 1 (sem_queue x)"
      "boxes sb1 = boxes sb" "numBoxes sb1 = numBoxes sb" "next_cell sb1 = next_cell sb" by (auto simp: now_def)
  have "mail_in sb1 f" using b(1) sb1 by (simp add: mail_in_def box_queue_def)
  from deliver_ok [OF this sb1(2), of ?h m data b buffer junk] m pt(3) n b(2,7) buf sb1(5)
  obtain buffer' sb2 where sb2: "deliver junk buffer sb1 = Inr (buffer', sb2)" "mail_in sb2 (f(b := f b @ [?m]))"
    "length (boxes sb2) = length (boxes sb)" by auto
  obtain sb3 where "f b = [] \<longrightarrow> PostOffice_Receive (int b) into sb2 = Inr ((?h, m, data @ drop (length data) into), sb3) \<and> mail_in sb3 f"
  proof (cases "f b = []")
    case True
    then have "(f(b := f b @ [?m]))(b := []) = f" by auto
    with PostOffice_Receive_ok [OF sb2(2), of b ?m "[]" into] True sb2(3) b(2) m n buf(2,3) that show ?thesis by auto
  qed (use that in simp)
  with send sa'(2) sb1(1,3,4) sb2(1,2) show ?thesis unfolding Let_def addressed_def [symmetric]
    by (intro exI [of _ ?w] exI [of _ "na\<lparr>net_out := net_out na @ [(pk_to p, ?w)]\<rparr>"] exI [of _ buffer'] exI [of _ sa']
        exI [of _ sb1] exI [of _ sb2] exI [of _ sb3] conjI) simp_all
qed

theorem Mail_delivered_witness:
  "\<exists>packet na' sa' sb1 sb2 sb3 buffer' :: byte list.
      PostOffice_Send (\<lambda>_. Inr) typing (replicate 52 0) (replicate 64 0) \<lparr>pk_to = 2, pk_from = 0, pk_length = 0\<rparr>
        \<lparr>mh_to = 1, mh_from = 0, mh_length = 3\<rparr> [7, 8, 9] (office_machine 1) = Inr sa' \<and>
      the_network sa' = Some na' \<and> net_out na' = [(2, packet)] \<and>
      CheckPktAvail (typing\<lparr>poll_socket := (\<lambda>_. True)\<rparr>)
        ((office_machine 2)\<lparr>the_network := Some ((the (the_network (net_machine 2)))\<lparr>net_in := [packet]\<rparr>)\<rparr>) = Inr sb1 \<and>
      deliver (replicate 40 0) (replicate 52 0) sb1 = Inr (buffer', sb2) \<and>
      PostOffice_Receive 1 (replicate 40 0) sb2 =
        Inr ((\<lparr>pk_to = 2, pk_from = 1, pk_length = 15\<rparr>, \<lparr>mh_to = 1, mh_from = 0, mh_length = 3\<rparr>, [7, 8, 9] @ replicate 37 0), sb3)"
proof -
  let ?m = "\<lparr>mh_to = 1, mh_from = 0, mh_length = 3\<rparr> :: MailHeader" and ?p = "\<lparr>pk_to = 2, pk_from = 0, pk_length = 0\<rparr> :: PacketHeader"
  let ?nw = "\<lambda>a. the (the_network (net_machine a))" and ?x = "\<lparr>sem_name = ''message available'', sem_value = 0, sem_queue = []\<rparr>"
  have nw: "the_network (office_machine a) = Some (?nw a)" for a by (simp add: net_machine_def)
  have m: "uint (mh_length ?m) \<le> MaxMailSize" "sint (mh_to ?m) = int 1" "length [7, 8, 9 :: byte] = unat (mh_length ?m)"
    by (simp_all add: const_defs)
  have r: "of_int (rand typing (random_calls (office_machine 1)) smod 100) < chanceToWork (?nw 1) * 100" by (simp add: typing_def net_machine_def)
  have sem: "level (office_machine 2) = IntOff" "semaphores (office_machine 2) 6 = Some ?x"
    by (simp_all add: net_machine_def console_machine_def)
  have v: "word_range (sem_value ?x + 1)" by (simp add: word_range_def)
  have d: "drop (length [7, 8, 9 :: byte]) (replicate 40 0) = (replicate 37 0 :: byte list)" by (simp add: drop_replicate)
  from Mail_delivered [OF m _ nw _ _ r _ _ office_machine_empty [of 2] _ nw _ _ _ _ _ sem _ v, of "replicate 52 0" "replicate 64 0"
      "typing\<lparr>poll_socket := (\<lambda>_. True)\<rparr>" ?p "replicate 52 0" "replicate 40 0" "replicate 40 0" "\<lambda>_. Inr"]
  show ?thesis unfolding d nw option.sel Let_def by (force simp: net_machine_def)
qed

end
