(* ===== verification/Os_State.thy ===== *)
theory Os_State
  imports Devices Mips_Safety Directory
begin

text \<open>
  The state of the kernel that runs user programs (threads/system.cc, the configuration
  \<^verbatim>\<open>USER_PROGRAM\<close> with \<^verbatim>\<open>FILESYS_STUB\<close> of userprog/Makefile), and the UNIX files that this
  configuration uses.

  The record \<open>os\<close> extends the devices by the global objects of threads/system.cc: the map of physical
  pages, the process table and the semaphore table with their bitmaps, the semaphores of the console
  and the table of open files. Objects that are reached through one pointer only (a \<^verbatim>\<open>PCB\<close>, a \<^verbatim>\<open>Sem\<close>, an
  \<^verbatim>\<open>OpenFile\<close>) are kept in the slot of that pointer; threads, semaphores, address spaces and page tables
  are in the stores of the lower layers, and \<open>next_addr\<close> is the next address that \<^verbatim>\<open>new\<close> returns there.

  The record \<open>env\<close> holds what an operation gets from outside: the semaphore and thread operations as
  the calling thread sees them (\<open>real_env\<close> fills them in with the definitions of the theory
  \<open>Threads\<close>), which paths the host lets the kernel open, and what fresh memory contains.

  UNIX files follow POSIX: a name leads to an inode, an open file is a position in an inode, \<^verbatim>\<open>open\<close>
  returns the lowest free descriptor (0, 1 and 2 are the terminal's), writing behind the end fills the gap
  with zeros.
\<close>

subsection \<open>UNIX files\<close>

record unixfs =
  u_names :: "byte list \<rightharpoonup> nat"
  u_inodes :: "nat \<Rightarrow> byte list"
  u_fds :: "(nat \<times> int) option list"
  u_next :: nat

definition new_fd :: "nat \<Rightarrow> unixfs \<Rightarrow> int \<times> unixfs" where
  "new_fd i u =
     (let k = length (takeWhile (\<lambda>x. x \<noteq> None) (u_fds u)) in
      (int k + 3, u\<lparr>u_fds := (if k < length (u_fds u) then (u_fds u)[k := Some (i, 0)] else u_fds u @ [Some (i, 0)])\<rparr>))"

definition u_open :: "bool \<Rightarrow> bool \<Rightarrow> byte list \<Rightarrow> unixfs \<Rightarrow> int \<times> unixfs" where
  "u_open allowed creat name u =
     (if \<not> allowed then (- 1, u)
      else case u_names u name of
          Some i \<Rightarrow> new_fd i (if creat then u\<lparr>u_inodes := (u_inodes u)(i := [])\<rparr> else u)
        | None \<Rightarrow>
            if creat
            then new_fd (u_next u) (u\<lparr>u_names := (u_names u)(name \<mapsto> u_next u),
                   u_inodes := (u_inodes u)(u_next u := []), u_next := Suc (u_next u)\<rparr>)
            else (- 1, u))"

definition fd_at :: "int \<Rightarrow> unixfs \<Rightarrow> (nat \<times> int) option" where
  "fd_at fd u = (if 3 \<le> fd \<and> fd < int (length (u_fds u)) + 3 then u_fds u ! nat (fd - 3) else None)"

definition set_fd :: "int \<Rightarrow> (nat \<times> int) option \<Rightarrow> unixfs \<Rightarrow> unixfs" where
  "set_fd fd x u = u\<lparr>u_fds := (u_fds u)[nat (fd - 3) := x]\<rparr>"

definition u_lseek :: "int \<Rightarrow> int \<Rightarrow> int \<Rightarrow> unixfs \<Rightarrow> int \<times> unixfs" where
  "u_lseek fd offset whence u =
     (case fd_at fd u of
        None \<Rightarrow> (- 1, u)
      | Some (i, pos) \<Rightarrow>
          let new = (if whence = 0 then offset else if whence = 1 then pos + offset
                     else int (length (u_inodes u i)) + offset) in
          if new < 0 then (- 1, u) else (new, set_fd fd (Some (i, new)) u))"

definition u_read :: "int \<Rightarrow> nat \<Rightarrow> unixfs \<Rightarrow> (int \<times> byte list) \<times> unixfs" where
  "u_read fd n u =
     (case fd_at fd u of
        None \<Rightarrow> ((- 1, []), u)
      | Some (i, pos) \<Rightarrow>
          let bs = take n (drop (nat pos) (u_inodes u i)) in
          ((int (length bs), bs), set_fd fd (Some (i, pos + int (length bs))) u))"

definition u_write :: "int \<Rightarrow> byte list \<Rightarrow> unixfs \<Rightarrow> int \<times> unixfs" where
  "u_write fd bs u =
     (case fd_at fd u of
        None \<Rightarrow> (- 1, u)
      | Some (i, pos) \<Rightarrow>
          (int (length bs), set_fd fd (Some (i, pos + int (length bs)))
             (if bs = [] then u else u\<lparr>u_inodes := (u_inodes u)(i := file_write (u_inodes u i) (nat pos) bs)\<rparr>)))"

definition u_close :: "int \<Rightarrow> unixfs \<Rightarrow> int \<times> unixfs" where
  "u_close fd u = (case fd_at fd u of None \<Rightarrow> (- 1, u) | Some _ \<Rightarrow> (0, set_fd fd None u))"

definition u_unlink :: "byte list \<Rightarrow> unixfs \<Rightarrow> int \<times> unixfs" where
  "u_unlink name u =
     (case u_names u name of None \<Rightarrow> (- 1, u) | Some _ \<Rightarrow> (0, u\<lparr>u_names := (u_names u)(name := None)\<rparr>))"

subsection \<open>The kernel's objects\<close>

record StubFile =
  sf_file :: int
  sf_currentOffset :: int
  sf_type :: int

record Sem =
  sem_label :: "byte list"
  sem_ptr :: nat

record PCB =
  process_name :: "byte list"
  process_id :: int
  parent_id :: int
  numwait :: int
  exitcode :: int
  pcb_thread :: "nat option"
  joinsem :: nat
  exitsem :: nat
  multex :: nat

record os = devices +
  hostfs :: unixfs
  open_files :: "StubFile option list"
  gPhysPageBitmap :: bitmap
  addrLock :: nat
  pcbs :: "PCB option list"
  pt_bm :: bitmap
  bmsem :: nat
  st_bm :: bitmap
  semtab :: "Sem option list"
  synchReadAvail :: nat
  synchWriteAvail :: nat
  RLineBlock :: nat
  WLineBlock :: nat
  next_addr :: nat

record 's env =
  opP :: "nat \<Rightarrow> 's \<Rightarrow> 's res"
  opV :: "nat \<Rightarrow> 's \<Rightarrow> 's res"
  opFork :: "kfunc \<Rightarrow> int \<Rightarrow> nat \<Rightarrow> 's \<Rightarrow> 's res"
  opFinish :: "nat \<Rightarrow> 's \<Rightarrow> 's res"
  may_open :: "byte list \<Rightarrow> bool"
  fresh_byte :: "nat \<Rightarrow> byte"
  fresh_word :: "nat \<Rightarrow> int32"

definition real_env ::
    "'a os_scheme switch \<Rightarrow> unix \<Rightarrow> ('a os_scheme \<Rightarrow> 'a os_scheme res) \<Rightarrow> (byte list \<Rightarrow> bool) \<Rightarrow> (nat \<Rightarrow> byte) \<Rightarrow> (nat \<Rightarrow> int32) \<Rightarrow>
     'a os_scheme env" where
  "real_env SWITCH ux yield allowed junk wjunk =
     (let tick = OneTick (call_handler ux) yield in
      \<lparr>opP = Semaphore_P SWITCH (call_handler ux) tick, opV = Semaphore_V tick, opFork = Thread_Fork tick,
       opFinish = Thread_Finish SWITCH (call_handler ux) tick, may_open = allowed, fresh_byte = junk, fresh_word = wjunk\<rparr>)"

subsection \<open>Allocation\<close>

definition new_semaphore :: "string \<Rightarrow> int \<Rightarrow> 'a os_scheme \<Rightarrow> nat \<times> 'a os_scheme" where
  "new_semaphore name v s =
     (next_addr s, (put_sem (next_addr s) (Semaphore_new name v) s)\<lparr>next_addr := Suc (next_addr s)\<rparr>)"

definition new_thread :: "int32 list \<Rightarrow> string \<Rightarrow> 'a os_scheme \<Rightarrow> nat \<times> 'a os_scheme" where
  "new_thread junk name s =
     (next_addr s, (put_thread (next_addr s) (Thread_new name junk) s)\<lparr>next_addr := Suc (next_addr s)\<rparr>)"

text \<open>C strings as the strings that name threads and semaphores.\<close>

definition chars :: "byte list \<Rightarrow> string" where
  "chars bs = map (\<lambda>b. char_of (unat b)) (c_string bs)"

definition char_bytes :: "string \<Rightarrow> byte list" where
  "char_bytes cs = map (\<lambda>c. of_nat (of_char c)) cs"

lemma char_bytes_chars [simp]: "char_bytes (chars bs) = c_string bs"
proof -
  have "(of_nat (of_char (char_of (unat b) :: char)) :: byte) = b" for b :: byte
  proof -
    have "of_char (char_of (unat b) :: char) = unat b mod 256" by simp
    also have "\<dots> = unat b" using unsigned_less [of b, where 'a = nat] by simp
    finally show ?thesis by simp
  qed
  then show ?thesis by (simp add: char_bytes_def chars_def o_def)
qed

end
