(* ===== verification/Stub_Files.thy ===== *)
theory Stub_Files
  imports Os_State
begin

text \<open>
  Files in the configuration \<^verbatim>\<open>FILESYS_STUB\<close>: the wrappers of machine/sysdep.cc around the UNIX file
  calls, and the classes \<^verbatim>\<open>OpenFile\<close> and \<^verbatim>\<open>FileSystem\<close> of filesys/openfile.h and filesys/filesys.h that
  hand every operation on to UNIX. A read returns the number of bytes and the bytes; the caller
  stores them in its buffer.
\<close>

subsection \<open>Wrappers of the UNIX calls\<close>

definition OpenForWrite :: "'a os_scheme env \<Rightarrow> byte list \<Rightarrow> 'a os_scheme \<Rightarrow> (int \<times> 'a os_scheme) res" where
  "OpenForWrite e name s =
     (let (fd, u) = u_open (may_open e name) True name (hostfs s) in
      rbind (ASSERT (fd \<ge> 0)) (\<lambda>_. Inr (fd, s\<lparr>hostfs := u\<rparr>)))"

definition OpenForReadWrite :: "'a os_scheme env \<Rightarrow> byte list \<Rightarrow> bool \<Rightarrow> 'a os_scheme \<Rightarrow> (int \<times> 'a os_scheme) res" where
  "OpenForReadWrite e name crashOnError s =
     (let (fd, u) = u_open (may_open e name) False name (hostfs s) in
      rbind (ASSERT (\<not> crashOnError \<or> fd \<ge> 0)) (\<lambda>_. Inr (fd, s\<lparr>hostfs := u\<rparr>)))"

text \<open>A negative number of bytes becomes a huge unsigned one; the model does not follow it.\<close>

definition ReadPartial :: "int \<Rightarrow> int \<Rightarrow> 'a os_scheme \<Rightarrow> ((int \<times> byte list) \<times> 'a os_scheme) res" where
  "ReadPartial fd nBytes s =
     (if nBytes < 0 then Inl Undefined
      else let (r, u) = u_read fd (nat nBytes) (hostfs s) in Inr (r, s\<lparr>hostfs := u\<rparr>))"

definition sys_WriteFile :: "int \<Rightarrow> byte list \<Rightarrow> 'a os_scheme \<Rightarrow> 'a os_scheme res" where
  "sys_WriteFile fd bs s =
     (let (retVal, u) = u_write fd bs (hostfs s) in
      rbind (ASSERT (retVal = int (length bs))) (\<lambda>_. Inr (s\<lparr>hostfs := u\<rparr>)))"

definition Lseek :: "int \<Rightarrow> int \<Rightarrow> int \<Rightarrow> 'a os_scheme \<Rightarrow> 'a os_scheme res" where
  "Lseek fd offset whence s =
     (let (retVal, u) = u_lseek fd offset whence (hostfs s) in
      rbind (ASSERT (retVal \<ge> 0)) (\<lambda>_. Inr (s\<lparr>hostfs := u\<rparr>)))"

definition Tell :: "int \<Rightarrow> 'a os_scheme \<Rightarrow> int \<times> 'a os_scheme" where
  "Tell fd s = (let (retVal, u) = u_lseek fd 0 1 (hostfs s) in (retVal, s\<lparr>hostfs := u\<rparr>))"

definition sys_Close :: "int \<Rightarrow> 'a os_scheme \<Rightarrow> 'a os_scheme res" where
  "sys_Close fd s =
     (let (retVal, u) = u_close fd (hostfs s) in
      rbind (ASSERT (retVal \<ge> 0)) (\<lambda>_. Inr (s\<lparr>hostfs := u\<rparr>)))"

text \<open>\<^verbatim>\<open>Unlink\<close> returns the result of the call as a \<^verbatim>\<open>bool\<close>.\<close>

definition Unlink :: "byte list \<Rightarrow> 'a os_scheme \<Rightarrow> bool \<times> 'a os_scheme" where
  "Unlink name s = (let (retVal, u) = u_unlink name (hostfs s) in (retVal \<noteq> 0, s\<lparr>hostfs := u\<rparr>))"

subsection \<open>Open files\<close>

definition StubFile_new :: "int \<Rightarrow> int \<Rightarrow> StubFile" where
  "StubFile_new f t = \<lparr>sf_file = f, sf_currentOffset = 0, sf_type = t\<rparr>"

definition StubFile_delete :: "StubFile \<Rightarrow> 'a os_scheme \<Rightarrow> 'a os_scheme res" where
  "StubFile_delete f s = sys_Close (sf_file f) s"

definition StubFile_ReadAt :: "int \<Rightarrow> int \<Rightarrow> StubFile \<Rightarrow> 'a os_scheme \<Rightarrow> ((int \<times> byte list) \<times> 'a os_scheme) res" where
  "StubFile_ReadAt numBytes position f s =
     rbind (Lseek (sf_file f) position 0 s) (ReadPartial (sf_file f) numBytes)"

definition StubFile_WriteAt :: "byte list \<Rightarrow> int \<Rightarrow> int \<Rightarrow> StubFile \<Rightarrow> 'a os_scheme \<Rightarrow> (int \<times> 'a os_scheme) res" where
  "StubFile_WriteAt buf numBytes position f s =
     rbind (Lseek (sf_file f) position 0 s) (\<lambda>s1.
     if numBytes < 0 \<or> numBytes > int (length buf) then Inl Undefined
     else rbind (sys_WriteFile (sf_file f) (take (nat numBytes) buf) s1) (\<lambda>s2. Inr (numBytes, s2)))"

definition StubFile_Read :: "int \<Rightarrow> StubFile \<Rightarrow> 'a os_scheme \<Rightarrow> ((int \<times> byte list) \<times> StubFile \<times> 'a os_scheme) res" where
  "StubFile_Read numBytes f s =
     rbind (StubFile_ReadAt numBytes (sf_currentOffset f) f s) (\<lambda>((numRead, bs), s1).
     Inr ((numRead, bs), f\<lparr>sf_currentOffset := sf_currentOffset f + numRead\<rparr>, s1))"

definition StubFile_Write :: "byte list \<Rightarrow> int \<Rightarrow> StubFile \<Rightarrow> 'a os_scheme \<Rightarrow> (int \<times> StubFile \<times> 'a os_scheme) res" where
  "StubFile_Write buf numBytes f s =
     rbind (StubFile_WriteAt buf numBytes (sf_currentOffset f) f s) (\<lambda>(numWritten, s1).
     Inr (numWritten, f\<lparr>sf_currentOffset := sf_currentOffset f + numWritten\<rparr>, s1))"

definition StubFile_Length :: "StubFile \<Rightarrow> 'a os_scheme \<Rightarrow> (int \<times> 'a os_scheme) res" where
  "StubFile_Length f s =
     rbind (Lseek (sf_file f) 0 2 s) (\<lambda>s1.
     let (len, s2) = Tell (sf_file f) s1 in
     rbind (Lseek (sf_file f) (sf_currentOffset f) 0 s2) (\<lambda>s3. Inr (len, s3)))"

definition StubFile_GetCurrentPos :: "StubFile \<Rightarrow> 'a os_scheme \<Rightarrow> int \<times> StubFile \<times> 'a os_scheme" where
  "StubFile_GetCurrentPos f s =
     (let (p, s1) = Tell (sf_file f) s in (p, f\<lparr>sf_currentOffset := p\<rparr>, s1))"

definition StubFile_Seek :: "int \<Rightarrow> StubFile \<Rightarrow> 'a os_scheme \<Rightarrow> (int \<times> StubFile \<times> 'a os_scheme) res" where
  "StubFile_Seek pos f s =
     rbind (Lseek (sf_file f) pos 0 s) (\<lambda>s1.
     let (p, s2) = Tell (sf_file f) s1 in Inr (p, f\<lparr>sf_currentOffset := p\<rparr>, s2))"

subsection \<open>The file system\<close>

fun stub_slot :: "StubFile option list \<Rightarrow> nat list \<Rightarrow> nat res" where
  "stub_slot tbl [] = Inr 10"
| "stub_slot tbl (i # is) =
     rbind (arr_get tbl (int i)) (\<lambda>f. case f of None \<Rightarrow> Inr i | Some _ \<Rightarrow> stub_slot tbl is)"

definition StubFS_findFreeSlot :: "'a os_scheme \<Rightarrow> nat res" where
  "StubFS_findFreeSlot s = stub_slot (open_files s) [2..<10]"

definition StubFS_Create :: "'a os_scheme env \<Rightarrow> byte list \<Rightarrow> int \<Rightarrow> 'a os_scheme \<Rightarrow> (bool \<times> 'a os_scheme) res" where
  "StubFS_Create e name initialSize s =
     rbind (OpenForWrite e name s) (\<lambda>(fileDescriptor, s1).
     if fileDescriptor = - 1 then Inr (False, s1)
     else rbind (sys_Close fileDescriptor s1) (\<lambda>s2. Inr (True, s2)))"

text \<open>\<^verbatim>\<open>Open(name)\<close> opens with type 0, like \<^verbatim>\<open>Open(name, 0)\<close>.\<close>

definition StubFS_Open :: "'a os_scheme env \<Rightarrow> byte list \<Rightarrow> int \<Rightarrow> 'a os_scheme \<Rightarrow> (StubFile option \<times> 'a os_scheme) res" where
  "StubFS_Open e name type s =
     rbind (OpenForReadWrite e name False s) (\<lambda>(fileDescriptor, s1).
     if fileDescriptor = - 1 then Inr (None, s1) else Inr (Some (StubFile_new fileDescriptor type), s1))"

definition StubFS_Remove :: "byte list \<Rightarrow> 'a os_scheme \<Rightarrow> bool \<times> 'a os_scheme" where
  "StubFS_Remove name s = (let (r, s1) = Unlink name s in (\<not> r, s1))"

definition name_stdin :: "byte list" where "name_stdin = char_bytes ''stdin''"
definition name_stdout :: "byte list" where "name_stdout = char_bytes ''stdout''"

definition StubFS_new :: "'a os_scheme env \<Rightarrow> 'a os_scheme \<Rightarrow> 'a os_scheme res" where
  "StubFS_new e s =
     (let s0 = s\<lparr>open_files := replicate 10 None\<rparr> in
      rbind (StubFS_Create e name_stdin 0 s0) (\<lambda>(_, s1).
      rbind (StubFS_Create e name_stdout 0 s1) (\<lambda>(_, s2).
      rbind (StubFS_Open e name_stdin 2 s2) (\<lambda>(f0, s3).
      rbind (arr_set (open_files s3) 0 f0) (\<lambda>t0.
      rbind (StubFS_Open e name_stdout 3 (s3\<lparr>open_files := t0\<rparr>)) (\<lambda>(f1, s4).
      rbind (arr_set (open_files s4) 1 f1) (\<lambda>t1.
      Inr (s4\<lparr>open_files := t1\<rparr>))))))))"

definition StubFS_delete :: "'a os_scheme \<Rightarrow> 'a os_scheme res" where
  "StubFS_delete s =
     for_each (\<lambda>i s1. rbind (arr_get (open_files s1) (int i)) (\<lambda>f.
         case f of None \<Rightarrow> Inr s1 | Some x \<Rightarrow> StubFile_delete x s1)) [0..<10] s"

end
