(* ===== verification/Addr_Space.thy ===== *)
theory Addr_Space
  imports Stub_Files
begin

text \<open>
  Address spaces: userprog/addrspace.h, userprog/addrspace.cc and the file format of bin/noff.h. An
  address space is an object in the store \<open>spaces\<close> that points to its page table in the store \<open>tables\<close>;
  the frames come from the bitmap \<open>gPhysPageBitmap\<close>.

  The header of the executable is read as the ten words that the file starts with; bytes behind the
  end of a short file are what the uninitialised local variable contained. Sizes are added as unsigned
  words, the segment arithmetic is on signed integers, as in the code.
\<close>

subsection \<open>The executable\<close>

definition NOFFMAGIC :: int32 where [const_defs]: "NOFFMAGIC = 0xbadfad"
definition UserStackSize :: int where [const_defs]: "UserStackSize = 1024"

record Segment =
  sg_virtualAddr :: int32
  sg_inFileAddr :: int32
  sg_size :: int32

record NoffHeader =
  noffMagic :: int32
  nf_code :: Segment
  nf_initData :: Segment
  nf_uninitData :: Segment

definition noff_word :: "byte list \<Rightarrow> nat \<Rightarrow> int32" where
  "noff_word bs i = host_load32 HOST_IS_BIG_ENDIAN (take 4 (drop (4 * i) bs))"

definition noff_segment :: "byte list \<Rightarrow> nat \<Rightarrow> Segment" where
  "noff_segment bs i = \<lparr>sg_virtualAddr = noff_word bs i, sg_inFileAddr = noff_word bs (i + 1), sg_size = noff_word bs (i + 2)\<rparr>"

definition noff_header :: "byte list \<Rightarrow> NoffHeader" where
  "noff_header bs = \<lparr>noffMagic = noff_word bs 0, nf_code = noff_segment bs 1, nf_initData = noff_segment bs 4,
     nf_uninitData = noff_segment bs 7\<rparr>"

definition swap_segment :: "Segment \<Rightarrow> Segment" where
  "swap_segment sg = \<lparr>sg_virtualAddr = WordToHost HOST_IS_BIG_ENDIAN (sg_virtualAddr sg),
     sg_inFileAddr = WordToHost HOST_IS_BIG_ENDIAN (sg_inFileAddr sg), sg_size = WordToHost HOST_IS_BIG_ENDIAN (sg_size sg)\<rparr>"

definition SwapHeader :: "NoffHeader \<Rightarrow> NoffHeader" where
  "SwapHeader h = \<lparr>noffMagic = WordToHost HOST_IS_BIG_ENDIAN (noffMagic h), nf_code = swap_segment (nf_code h),
     nf_initData = swap_segment (nf_initData h), nf_uninitData = swap_segment (nf_uninitData h)\<rparr>"

definition native_header :: "NoffHeader \<Rightarrow> NoffHeader" where
  "native_header h =
     (if noffMagic h \<noteq> NOFFMAGIC \<and> WordToHost HOST_IS_BIG_ENDIAN (noffMagic h) = NOFFMAGIC then SwapHeader h else h)"

text \<open>The number of pages the header asks for, in the unsigned arithmetic of the code.\<close>

definition noff_pages :: "NoffHeader \<Rightarrow> int32" where
  "noff_pages h =
     (let size = sg_size (nf_code h) + sg_size (nf_initData h) + sg_size (nf_uninitData h) + of_int UserStackSize in
      size div of_int PageSize + (if size mod of_int PageSize > 0 then 1 else 0))"

subsection \<open>Loading\<close>

text \<open>Bytes stored at an address of main memory.\<close>

definition mem_put :: "int \<Rightarrow> byte list \<Rightarrow> (nat \<Rightarrow> byte) \<Rightarrow> (nat \<Rightarrow> byte) res" where
  "mem_put a bs mem =
     (if 0 \<le> a \<and> a + int (length bs) \<le> MemorySize
      then Inr (\<lambda>j. if nat a \<le> j \<and> j < nat a + length bs then bs ! (j - nat a) else mem j)
      else Inl Undefined)"

text \<open>\<^verbatim>\<open>executable->ReadAt(&machine->mainMemory[a], numBytes, position)\<close>\<close>

definition ReadInto :: "int \<Rightarrow> int \<Rightarrow> int \<Rightarrow> StubFile \<Rightarrow> 'a os_scheme \<Rightarrow> 'a os_scheme res" where
  "ReadInto a numBytes position f s =
     rbind (StubFile_ReadAt numBytes position f s) (\<lambda>((_, bs), s1).
     rbind (mem_put a bs (mainMemory s1)) (\<lambda>m. Inr (s1\<lparr>mainMemory := m\<rparr>)))"

definition frame_of :: "nat \<Rightarrow> int \<Rightarrow> 'a os_scheme \<Rightarrow> int res" where
  "frame_of pt i s = rbind (table_at s (Some pt)) (\<lambda>es. rbind (arr_get es i) (\<lambda>te. Inr (sint (physicalPage te))))"

definition load_page :: "nat \<Rightarrow> int \<Rightarrow> int \<Rightarrow> int \<Rightarrow> StubFile \<Rightarrow> 'a os_scheme \<Rightarrow> 'a os_scheme res" where
  "load_page pt i numBytes position f s =
     rbind (frame_of pt i s) (\<lambda>pp. rbind (cint position) (\<lambda>pos. ReadInto (pp * PageSize) numBytes pos f s))"

text \<open>One segment: its part of the first page, its part of the last page, the pages between.\<close>

definition load_segment :: "nat \<Rightarrow> Segment \<Rightarrow> StubFile \<Rightarrow> 'a os_scheme \<Rightarrow> 'a os_scheme res" where
  "load_segment pt sg f s =
     (let size = sint (sg_size sg); va = sint (sg_virtualAddr sg); inFileAddr = sint (sg_inFileAddr sg) in
      if size > 0
      then
        let firstPage = va sdiv PageSize; tempPageSize = PageSize - va smod PageSize in
        rbind (if tempPageSize < size
               then rbind (cint (va + size)) (\<lambda>e. Inr (tempPageSize, e sdiv PageSize, e smod PageSize))
               else Inr (size, firstPage + 1, 0)) (\<lambda>(firstPageSize, lastPage, lastPageSize).
        rbind (frame_of pt firstPage s) (\<lambda>pp.
        rbind (ReadInto (pp * PageSize + PageSize - tempPageSize) firstPageSize inFileAddr f s) (\<lambda>s1.
        rbind (if lastPageSize \<noteq> 0
               then load_page pt lastPage lastPageSize (inFileAddr + firstPageSize + (lastPage - firstPage - 1) * PageSize) f s1
               else Inr s1) (\<lambda>s2.
        for_each (\<lambda>i. load_page pt i PageSize (inFileAddr + firstPageSize + (i - firstPage - 1) * PageSize) f)
          [firstPage + 1..lastPage - 1] s2))))
      else Inr s)"

text \<open>The loop that takes a frame for every page and clears it.\<close>

definition map_page :: "nat \<Rightarrow> nat \<Rightarrow> 'a os_scheme \<Rightarrow> 'a os_scheme res" where
  "map_page pt i s =
     rbind (table_at s (Some pt)) (\<lambda>es.
     rbind (BitMap_Find (gPhysPageBitmap s)) (\<lambda>(pp, bm).
     rbind (arr_set es (int i) \<lparr>virtualPage = of_nat i, physicalPage = word_of_int pp, valid = True, readOnly = False,
        te_use = False, dirty = False\<rparr>) (\<lambda>es1.
     rbind (mem_put (pp * PageSize) (replicate (nat PageSize) 0) (mainMemory s)) (\<lambda>m.
     Inr (s\<lparr>gPhysPageBitmap := bm, tables := (tables s)(pt \<mapsto> es1), mainMemory := m\<rparr>)))))"

text \<open>The contents of the allocated page table are overwritten in that loop.\<close>

definition AddrSpace_new :: "'a os_scheme env \<Rightarrow> StubFile \<Rightarrow> 'a os_scheme \<Rightarrow> (nat \<times> 'a os_scheme) res" where
  "AddrSpace_new e f s =
     rbind (opP e (addrLock s) s) (\<lambda>s1.
     rbind (StubFile_ReadAt 40 0 f s1) (\<lambda>((_, bs), s2).
     let h0 = noff_header (bs @ drop (length bs) (map (fresh_byte e) [0..<40]));
         h = native_header h0 in
     rbind (ASSERT (noffMagic h = NOFFMAGIC)) (\<lambda>_.
     let numPages = noff_pages h in
     rbind (BitMap_NumClear (gPhysPageBitmap s2)) (\<lambda>n.
     rbind (ASSERT (numPages \<le> word_of_int n)) (\<lambda>_.
     let pt = next_addr s2;
         s3 = s2\<lparr>tables := (tables s2)(pt \<mapsto> replicate (unat numPages)
                  \<lparr>virtualPage = fresh_word e 0, physicalPage = fresh_word e 1, valid = False, readOnly = False, te_use = False, dirty = False\<rparr>),
                next_addr := Suc pt\<rparr> in
     rbind (for_each (map_page pt) [0..<unat numPages] s3) (\<lambda>s4.
     rbind (load_segment pt (nf_code h) f s4) (\<lambda>s5.
     rbind (load_segment pt (nf_initData h) f s5) (\<lambda>s6.
     rbind (opV e (addrLock s6) s6) (\<lambda>s7.
     Inr (next_addr s7, s7\<lparr>spaces := (spaces s7)(next_addr s7 \<mapsto> \<lparr>as_pageTable = pt, as_numPages = numPages\<rparr>),
                           next_addr := Suc (next_addr s7)\<rparr>))))))))))"

definition AddrSpace_delete :: "nat \<Rightarrow> 'a os_scheme \<Rightarrow> 'a os_scheme res" where
  "AddrSpace_delete sp s =
     (case spaces s sp of
        None \<Rightarrow> Inl Undefined
      | Some as \<Rightarrow>
          rbind (for_each (\<lambda>i u.
              rbind (frame_of (as_pageTable as) (int i) u) (\<lambda>pp.
              rbind (BitMap_Clear pp (gPhysPageBitmap u)) (\<lambda>bm. Inr (u\<lparr>gPhysPageBitmap := bm\<rparr>))))
            [0..<unat (as_numPages as)] s) (\<lambda>s1.
          Inr (s1\<lparr>tables := (tables s1)(as_pageTable as := None), spaces := (spaces s1)(sp := None)\<rparr>)))"

definition InitRegisters :: "nat \<Rightarrow> 'a os_scheme \<Rightarrow> 'a os_scheme res" where
  "InitRegisters sp s =
     (case spaces s sp of
        None \<Rightarrow> Inl Undefined
      | Some as \<Rightarrow>
          rbind (for_each (\<lambda>i. WriteRegister (int i) 0) [0..<NumTotalRegs] s) (\<lambda>s1.
          rbind (WriteRegister PCReg 0 s1) (\<lambda>s2.
          rbind (WriteRegister NextPCReg 4 s2) (\<lambda>s3.
          WriteRegister StackReg (as_numPages as * of_int PageSize - 16) s3))))"

end
