(* ===== verification/Process_Table.thy ===== *)
theory Process_Table
  imports Addr_Space
begin

text \<open>
  Processes: threads/pcb.h, threads/pcb.cc, threads/ptable.h and threads/ptable.cc. A process control
  block lives in its slot of the table \<open>pcbs\<close>; a method reads the block again after every operation that
  can give up the processor. NULL pointers are \<open>None\<close>.
\<close>

subsection \<open>Process control blocks\<close>

definition pcb_at :: "int \<Rightarrow> 'a os_scheme \<Rightarrow> PCB res" where
  "pcb_at i s = rbind (arr_get (pcbs s) i) (\<lambda>p. case p of None \<Rightarrow> Inl Undefined | Some x \<Rightarrow> Inr x)"

definition set_pcb :: "int \<Rightarrow> PCB option \<Rightarrow> 'a os_scheme \<Rightarrow> 'a os_scheme res" where
  "set_pcb i p s = rbind (arr_set (pcbs s) i p) (\<lambda>t. Inr (s\<lparr>pcbs := t\<rparr>))"

definition PCB_new :: "'a os_scheme env \<Rightarrow> 'a os_scheme \<Rightarrow> PCB \<times> 'a os_scheme" where
  "PCB_new e s =
     (let (j, s1) = new_semaphore ''joinsem'' 0 s; (x, s2) = new_semaphore ''exitsem'' 0 s1;
          (m, s3) = new_semaphore ''multex'' 1 s2 in
      (\<lparr>process_name = (map (fresh_byte e) [0..<50])[0 := 0], process_id = - 1, parent_id = - 1, numwait = 0,
        exitcode = 0, pcb_thread = None, joinsem = j, exitsem = x, multex = m\<rparr>, s3))"

definition PCB_delete :: "PCB \<Rightarrow> 'a os_scheme \<Rightarrow> 'a os_scheme res" where
  "PCB_delete p s =
     rbind (case pcb_thread p of None \<Rightarrow> Inr s | Some t \<Rightarrow> Thread_delete t s) (\<lambda>s1.
     rbind (Semaphore_delete (joinsem p) s1) (\<lambda>s2.
     rbind (Semaphore_delete (exitsem p) s2) (\<lambda>s3.
     Semaphore_delete (multex p) s3)))"

definition set_space :: "nat \<Rightarrow> nat option \<Rightarrow> 'a os_scheme \<Rightarrow> 'a os_scheme res" where
  "set_space t sp s = rbind (thread_at t s) (\<lambda>th. Inr (put_thread t (th\<lparr>th_space := sp\<rparr>) s))"

text \<open>\<^verbatim>\<open>init_func\<close>: the first thing a forked process does; \<open>run\<close> is \<^verbatim>\<open>machine->Run()\<close>.\<close>

definition init_func_body :: "('a os_scheme \<Rightarrow> 'a os_scheme res) \<Rightarrow> 'a os_scheme \<Rightarrow> 'a os_scheme res" where
  "init_func_body run s =
     rbind (thread_at (currentThread s) s) (\<lambda>th. case th_space th of
         None \<Rightarrow> Inl Undefined
       | Some sp \<Rightarrow> rbind (InitRegisters sp s) (\<lambda>s1. rbind (RestoreState sp s1) run))"

text \<open>The part of \<^verbatim>\<open>Exec\<close> that makes the new thread: the first process takes over the thread that runs,
  every other process is forked.\<close>

definition start_process :: "'a os_scheme env \<Rightarrow> int \<Rightarrow> nat \<Rightarrow> nat \<Rightarrow> 'a os_scheme \<Rightarrow> 'a os_scheme res" where
  "start_process e ppid t sp s =
     (if ppid = - 1
      then
        let old_thread = currentThread s in
        rbind (setStatus RUNNING t (s\<lparr>currentThread := t\<rparr>)) (\<lambda>s1.
        rbind (Thread_delete old_thread s1) (\<lambda>s2.
        rbind (InitRegisters sp s2) (RestoreState sp)))
      else opFork e init_func 0 t s)"

definition PCB_Exec ::
    "'a os_scheme env \<Rightarrow> byte list option \<Rightarrow> int \<Rightarrow> int \<Rightarrow> int \<Rightarrow> 'a os_scheme \<Rightarrow> (int \<times> 'a os_scheme) res" where
  "PCB_Exec e name pid ppid i s =
     rbind (pcb_at i s) (\<lambda>p0.
     rbind (opP e (multex p0) s) (\<lambda>s1.
     let fail = (\<lambda>u. rbind (pcb_at i u) (\<lambda>p. rbind (opV e (multex p) u) (\<lambda>v. Inr (- 1, v)))) in
     case name of
       None \<Rightarrow> fail s1
     | Some nm \<Rightarrow>
         if pid < 0 then fail s1
         else rbind (pcb_at i s1) (\<lambda>p1.
           if pcb_thread p1 \<noteq> None then fail s1
           else
             let p2 = p1\<lparr>process_id := pid, parent_id := ppid, process_name := strncpy (process_name p1) nm 50\<rparr> in
             rbind (set_pcb i (Some p2) s1) (\<lambda>s2.
             rbind (StubFS_Open e (c_string nm) 0 s2) (\<lambda>(obj, s3). case obj of
                 None \<Rightarrow> fail s3
               | Some f \<Rightarrow>
                   let (t, s4) = new_thread (map (fresh_word e) [0..<NumTotalRegs]) (chars (process_name p2)) s3 in
                   rbind (set_pcb i (Some (p2\<lparr>pcb_thread := Some t\<rparr>)) s4) (\<lambda>s5.
                   rbind (AddrSpace_new e f s5) (\<lambda>(sp, s6).
                   rbind (set_space t (Some sp) s6) (\<lambda>s7.
                   rbind (start_process e ppid t sp s7) (\<lambda>s8.
                   rbind (StubFile_delete f s8) (\<lambda>s9.
                   rbind (pcb_at i s9) (\<lambda>p. rbind (opV e (multex p) s9) (\<lambda>s10. Inr (0, s10)))))))))))))"

definition JoinWait :: "'a os_scheme env \<Rightarrow> int \<Rightarrow> 'a os_scheme \<Rightarrow> 'a os_scheme res" where
  "JoinWait e i s =
     rbind (pcb_at i s) (\<lambda>p.
     rbind (set_pcb i (Some (p\<lparr>numwait := numwait p + 1\<rparr>)) s) (opP e (joinsem p)))"

definition ExitWait :: "'a os_scheme env \<Rightarrow> int \<Rightarrow> 'a os_scheme \<Rightarrow> 'a os_scheme res" where
  "ExitWait e i s =
     rbind (pcb_at i s) (\<lambda>p.
     rbind (set_pcb i (Some (p\<lparr>numwait := numwait p + 1\<rparr>)) s) (opP e (exitsem p)))"

definition JoinRelease :: "'a os_scheme env \<Rightarrow> int \<Rightarrow> 'a os_scheme \<Rightarrow> 'a os_scheme res" where
  "JoinRelease e i s =
     rbind (pcb_at i s) (\<lambda>p.
     rbind (set_pcb i (Some (p\<lparr>numwait := numwait p - 1\<rparr>)) s) (opV e (joinsem p)))"

definition ExitRelease :: "'a os_scheme env \<Rightarrow> int \<Rightarrow> 'a os_scheme \<Rightarrow> 'a os_scheme res" where
  "ExitRelease e i s =
     rbind (pcb_at i s) (\<lambda>p.
     rbind (set_pcb i (Some (p\<lparr>numwait := numwait p - 1\<rparr>)) s) (opV e (exitsem p)))"

definition SetExitCode :: "int \<Rightarrow> int \<Rightarrow> 'a os_scheme \<Rightarrow> 'a os_scheme res" where
  "SetExitCode ec i s = rbind (pcb_at i s) (\<lambda>p. set_pcb i (Some (p\<lparr>exitcode := ec\<rparr>)) s)"

definition SetName :: "byte list \<Rightarrow> PCB \<Rightarrow> PCB" where
  "SetName name p = p\<lparr>process_name := strncpy (process_name p) name 50\<rparr>"

subsection \<open>The table\<close>

definition MAX_PROCESS :: nat where [const_defs]: "MAX_PROCESS = 10"

definition Ptable_new :: "'a os_scheme env \<Rightarrow> 'a os_scheme \<Rightarrow> 'a os_scheme res" where
  "Ptable_new e s =
     rbind (BitMap_new (fresh_word e) (int MAX_PROCESS)) (\<lambda>bm.
     let (b, s1) = new_semaphore ''bmsem'' 1 s in
     Inr (s1\<lparr>pt_bm := bm, bmsem := b, pcbs := replicate MAX_PROCESS None\<rparr>))"

definition Ptable_delete :: "'a os_scheme \<Rightarrow> 'a os_scheme res" where
  "Ptable_delete s =
     rbind (Semaphore_delete (bmsem s) s) (\<lambda>s1.
     for_each (\<lambda>i u. rbind (arr_get (pcbs u) (int i)) (\<lambda>p. case p of
         None \<Rightarrow> Inr u | Some x \<Rightarrow> rbind (PCB_delete x u) (set_pcb (int i) None)))
     [0..<MAX_PROCESS] s1)"

text \<open>The search loops: the first slot whose block satisfies a test.\<close>

fun pcb_search :: "(PCB \<Rightarrow> bool) \<Rightarrow> PCB option list \<Rightarrow> nat list \<Rightarrow> nat option res" where
  "pcb_search test tbl [] = Inr None"
| "pcb_search test tbl (i # is) =
     rbind (arr_get tbl (int i)) (\<lambda>p. case p of
         Some x \<Rightarrow> if test x then Inr (Some i) else pcb_search test tbl is
       | None \<Rightarrow> pcb_search test tbl is)"

definition Ptable_GetName :: "int \<Rightarrow> 'a os_scheme \<Rightarrow> byte list option res" where
  "Ptable_GetName pid s =
     (if pid < 0 then Inr None
      else rbind (pcb_search (\<lambda>p. process_id p = pid) (pcbs s) [0..<MAX_PROCESS]) (\<lambda>r. case r of
          None \<Rightarrow> Inr None | Some i \<Rightarrow> rbind (pcb_at (int i) s) (\<lambda>p. Inr (Some (process_name p)))))"

definition Ptable_GetFreeSlot :: "'a os_scheme \<Rightarrow> (int \<times> 'a os_scheme) res" where
  "Ptable_GetFreeSlot s = rbind (BitMap_Find (pt_bm s)) (\<lambda>(i, bm). Inr (i, s\<lparr>pt_bm := bm\<rparr>))"

definition isExist :: "int \<Rightarrow> 'a os_scheme \<Rightarrow> bool res" where
  "isExist pid s =
     (if pid < 0 then Inr False
      else rbind (pcb_search (\<lambda>p. process_id p = pid) (pcbs s) [0..<MAX_PROCESS]) (\<lambda>r. Inr (r \<noteq> None)))"

text \<open>\<^verbatim>\<open>delete pcb[i]; pcb[i] = NULL; bm->Clear(i)\<close>\<close>

definition drop_pcb :: "int \<Rightarrow> 'a os_scheme \<Rightarrow> 'a os_scheme res" where
  "drop_pcb i s =
     rbind (pcb_at i s) (\<lambda>p.
     rbind (PCB_delete p s) (\<lambda>s1.
     rbind (set_pcb i None s1) (\<lambda>s2.
     rbind (BitMap_Clear i (pt_bm s2)) (\<lambda>bm. Inr (s2\<lparr>pt_bm := bm\<rparr>)))))"

definition Ptable_Remove :: "int \<Rightarrow> 'a os_scheme \<Rightarrow> 'a os_scheme res" where
  "Ptable_Remove pid s =
     (if pid < 0 then Inr s
      else rbind (pcb_search (\<lambda>p. process_id p = pid) (pcbs s) [0..<MAX_PROCESS]) (\<lambda>r. case r of
          None \<Rightarrow> Inr s | Some i \<Rightarrow> drop_pcb (int i) s))"

definition find_current :: "'a os_scheme \<Rightarrow> nat option res" where
  "find_current s = pcb_search (\<lambda>p. pcb_thread p = Some (currentThread s)) (pcbs s) [0..<MAX_PROCESS]"

text \<open>The slot and the parent of the new process, or failure (\<open>None\<close>).\<close>

definition choose_slot :: "byte list \<Rightarrow> 'a os_scheme \<Rightarrow> ((int \<times> int) option \<times> 'a os_scheme) res" where
  "choose_slot name s =
     rbind (BitMap_NumClear (pt_bm s)) (\<lambda>n.
     if n = int MAX_PROCESS
     then rbind (BitMap_Mark 0 (pt_bm s)) (\<lambda>bm. Inr (Some (0, - 1), s\<lparr>pt_bm := bm\<rparr>))
     else
       rbind (thread_at (currentThread s) s) (\<lambda>th.
       if strncmp_eq (char_bytes (th_name th)) name 49 then Inr (None, s)
       else
         rbind (find_current s) (\<lambda>r. case r of
             None \<Rightarrow> Inr (None, s)
           | Some ppid \<Rightarrow>
               rbind (Ptable_GetFreeSlot s) (\<lambda>(pid, s1).
               if pid = - 1 then Inr (None, s1) else Inr (Some (pid, int ppid), s1)))))"

definition ExecUpdate :: "'a os_scheme env \<Rightarrow> byte list option \<Rightarrow> 'a os_scheme \<Rightarrow> (int \<times> 'a os_scheme) res" where
  "ExecUpdate e name s =
     rbind (opP e (bmsem s) s) (\<lambda>s1.
     let fail = (\<lambda>u. rbind (opV e (bmsem u) u) (\<lambda>v. Inr (- 1, v))) in
     case name of
       None \<Rightarrow> fail s1
     | Some nm \<Rightarrow>
         rbind (choose_slot nm s1) (\<lambda>(r, s2). case r of
             None \<Rightarrow> fail s2
           | Some (pid, ppid) \<Rightarrow>
               let (p, s3) = PCB_new e s2 in
               rbind (set_pcb pid (Some p) s3) (\<lambda>s4.
               rbind (PCB_Exec e name pid ppid pid s4) (\<lambda>(rslt, s5).
               if rslt = - 1
               then rbind (BitMap_Clear pid (pt_bm s5)) (\<lambda>bm.
                    rbind (pcb_at pid s5) (\<lambda>p1.
                    rbind (PCB_delete p1 (s5\<lparr>pt_bm := bm\<rparr>)) (\<lambda>s6.
                    rbind (set_pcb pid None s6) fail)))
               else rbind (opV e (bmsem s5) s5) (\<lambda>s6. Inr (pid, s6))))))"

definition JoinUpdate :: "'a os_scheme env \<Rightarrow> int \<Rightarrow> 'a os_scheme \<Rightarrow> (int \<times> 'a os_scheme) res" where
  "JoinUpdate e pid s =
     (if pid < 0 \<or> pid \<ge> 10 then Inr (- 1, s)
      else
        rbind (find_current s) (\<lambda>r. case r of
            None \<Rightarrow> Inr (- 1, s)
          | Some which \<Rightarrow>
              rbind (arr_get (pcbs s) pid) (\<lambda>c.
              if (case c of None \<Rightarrow> True | Some x \<Rightarrow> parent_id x \<noteq> int which) then Inr (- 1, s)
              else
                rbind (JoinWait e (int which) s) (\<lambda>s1.
                rbind (pcb_at (int which) s1) (\<lambda>p. Inr (exitcode p, s1))))))"

definition ExitUpdate :: "'a os_scheme env \<Rightarrow> int \<Rightarrow> 'a os_scheme \<Rightarrow> (int \<times> 'a os_scheme) res" where
  "ExitUpdate e ecd s =
     rbind (find_current s) (\<lambda>r. case r of
         None \<Rightarrow> Inr (- 1, s)
       | Some which \<Rightarrow>
           rbind (pcb_at (int which) s) (\<lambda>p.
           let ppid = parent_id p in
           if ppid = - 1 then Halt s
           else
             rbind (SetExitCode ecd ppid s) (\<lambda>s1.
             rbind (JoinRelease e ppid s1) (\<lambda>s2.
             rbind (thread_at (currentThread s2) s2) (\<lambda>th.
             rbind (case th_space th of None \<Rightarrow> Inr s2 | Some sp \<Rightarrow> AddrSpace_delete sp s2) (\<lambda>s3.
             rbind (opFinish e (currentThread s3) s3) (\<lambda>s4.
             rbind (drop_pcb (int which) s4) (\<lambda>s5. Inr (0, s5)))))))))"

end
