(* ===== verification/Semaphore_Table.thy ===== *)
theory Semaphore_Table
  imports Os_State
begin

text \<open>
  User semaphores: threads/sem.h, threads/sem.cc, threads/stable.h and threads/stable.cc. A table of ten
  named semaphores with a bitmap of the slots in use. A NULL name is \<open>None\<close>.
\<close>

subsection \<open>A named semaphore\<close>

text \<open>\<open>junk\<close> is what the array \<^verbatim>\<open>sem_name\<close> contained.\<close>

definition Sem_new :: "byte list \<Rightarrow> byte list \<Rightarrow> int \<Rightarrow> 'a os_scheme \<Rightarrow> Sem \<times> 'a os_scheme" where
  "Sem_new junk name iv s =
     (let (a, s1) = new_semaphore (chars name) iv s in
      (\<lparr>sem_label = strncpy junk name 50, sem_ptr = a\<rparr>, s1))"

definition Sem_delete :: "Sem \<Rightarrow> 'a os_scheme \<Rightarrow> 'a os_scheme res" where
  "Sem_delete x s = Semaphore_delete (sem_ptr x) s"

definition Sem_Wait :: "'a os_scheme env \<Rightarrow> Sem \<Rightarrow> 'a os_scheme \<Rightarrow> 'a os_scheme res" where
  "Sem_Wait e x s = opP e (sem_ptr x) s"

definition Sem_Signal :: "'a os_scheme env \<Rightarrow> Sem \<Rightarrow> 'a os_scheme \<Rightarrow> 'a os_scheme res" where
  "Sem_Signal e x s = opV e (sem_ptr x) s"

subsection \<open>The table\<close>

definition MAX_SEMAPHORE :: nat where [const_defs]: "MAX_SEMAPHORE = 10"

definition Stable_new :: "'a os_scheme env \<Rightarrow> 'a os_scheme \<Rightarrow> 'a os_scheme res" where
  "Stable_new e s =
     rbind (BitMap_new (fresh_word e) (int MAX_SEMAPHORE)) (\<lambda>bm.
     Inr (s\<lparr>st_bm := bm, semtab := replicate MAX_SEMAPHORE None\<rparr>))"

definition Stable_delete :: "'a os_scheme \<Rightarrow> 'a os_scheme res" where
  "Stable_delete s =
     for_each (\<lambda>i u. rbind (arr_get (semtab u) (int i)) (\<lambda>x. case x of
         None \<Rightarrow> Inr u
       | Some y \<Rightarrow> rbind (Sem_delete y u) (\<lambda>u1. rbind (arr_set (semtab u1) (int i) None) (\<lambda>t. Inr (u1\<lparr>semtab := t\<rparr>)))))
     [0..<MAX_SEMAPHORE] s"

definition Stable_FindFreeSlot :: "'a os_scheme \<Rightarrow> (int \<times> 'a os_scheme) res" where
  "Stable_FindFreeSlot s = rbind (BitMap_Find (st_bm s)) (\<lambda>(i, bm). Inr (i, s\<lparr>st_bm := bm\<rparr>))"

text \<open>The search for a name in the slots, first to last.\<close>

fun sem_search :: "byte list \<Rightarrow> Sem option list \<Rightarrow> nat list \<Rightarrow> nat option res" where
  "sem_search name tbl [] = Inr None"
| "sem_search name tbl (i # is) =
     rbind (arr_get tbl (int i)) (\<lambda>x. case x of
         Some y \<Rightarrow> if strncmp_eq (sem_label y) name 49 then Inr (Some i) else sem_search name tbl is
       | None \<Rightarrow> sem_search name tbl is)"

definition Stable_Create :: "'a os_scheme env \<Rightarrow> byte list option \<Rightarrow> int \<Rightarrow> 'a os_scheme \<Rightarrow> (int \<times> 'a os_scheme) res" where
  "Stable_Create e name iv s =
     (case name of
        None \<Rightarrow> Inr (- 1, s)
      | Some nm \<Rightarrow>
          if iv < 0 then Inr (- 1, s)
          else
            rbind (sem_search nm (semtab s) [0..<MAX_SEMAPHORE]) (\<lambda>r. case r of
                Some _ \<Rightarrow> Inr (- 1, s)
              | None \<Rightarrow>
                  rbind (Stable_FindFreeSlot s) (\<lambda>(slot, s1).
                  if slot = - 1 then Inr (- 1, s1)
                  else
                    let (x, s2) = Sem_new (map (fresh_byte e) [0..<50]) nm iv s1 in
                    rbind (arr_set (semtab s2) slot (Some x)) (\<lambda>t. Inr (0, s2\<lparr>semtab := t\<rparr>)))))"

definition Stable_Wait :: "'a os_scheme env \<Rightarrow> byte list option \<Rightarrow> 'a os_scheme \<Rightarrow> (int \<times> 'a os_scheme) res" where
  "Stable_Wait e name s =
     (case name of
        None \<Rightarrow> Inr (- 1, s)
      | Some nm \<Rightarrow>
          rbind (sem_search nm (semtab s) [0..<MAX_SEMAPHORE]) (\<lambda>r. case r of
              None \<Rightarrow> Inr (- 1, s)
            | Some i \<Rightarrow> (case semtab s ! i of None \<Rightarrow> Inl Undefined
                         | Some x \<Rightarrow> rbind (Sem_Wait e x s) (\<lambda>s1. Inr (0, s1)))))"

definition Stable_Signal :: "'a os_scheme env \<Rightarrow> byte list option \<Rightarrow> 'a os_scheme \<Rightarrow> (int \<times> 'a os_scheme) res" where
  "Stable_Signal e name s =
     (case name of
        None \<Rightarrow> Inr (- 1, s)
      | Some nm \<Rightarrow>
          rbind (sem_search nm (semtab s) [0..<MAX_SEMAPHORE]) (\<lambda>r. case r of
              None \<Rightarrow> Inr (- 1, s)
            | Some i \<Rightarrow> (case semtab s ! i of None \<Rightarrow> Inl Undefined
                         | Some x \<Rightarrow> rbind (Sem_Signal e x s) (\<lambda>s1. Inr (0, s1)))))"

end
