(* ===== verification/Synch_Console.thy ===== *)
theory Synch_Console
  imports Stub_Files Synch_Disk
begin

text \<open>
  The synchronous console: threads/synchcons.h and threads/synchcons.cc. A caller holds the line
  (\<^verbatim>\<open>RLineBlock\<close>, \<^verbatim>\<open>WLineBlock\<close>) while it moves characters one by one, waiting for the console device's
  interrupt after each.
\<close>

subsection \<open>Operations\<close>

text \<open>The callbacks \<^verbatim>\<open>SynchReadFunct\<close> and \<^verbatim>\<open>SynchWriteFunct\<close> signal the semaphores that the constructor
  allocates after the console.\<close>

definition SynchConsole_new :: "byte list \<Rightarrow> 'a os_scheme \<Rightarrow> 'a os_scheme res" where
  "SynchConsole_new input s =
     rbind (Console_new input (Signal (next_addr s)) (Signal (Suc (next_addr s))) s) (\<lambda>s0.
     let (r, s1) = new_semaphore ''Synch Read Avail'' 0 s0;
         (w, s2) = new_semaphore ''Synch Write Avail'' 0 s1;
         (rl, s3) = new_semaphore ''Read Synch Line Block'' 1 s2;
         (wl, s4) = new_semaphore ''Write Synch Line Block'' 1 s3 in
     Inr (s4\<lparr>synchReadAvail := r, synchWriteAvail := w, RLineBlock := rl, WLineBlock := wl\<rparr>))"

definition SynchConsole_delete :: "'a os_scheme \<Rightarrow> 'a os_scheme res" where
  "SynchConsole_delete s =
     rbind (Semaphore_delete (synchReadAvail s) (s\<lparr>the_console := None\<rparr>)) (\<lambda>s1.
     rbind (Semaphore_delete (synchWriteAvail s1) s1) (\<lambda>s2.
     rbind (Semaphore_delete (RLineBlock s2) s2) (\<lambda>s3.
     Semaphore_delete (WLineBlock s3) s3)))"

text \<open>One character: \<^verbatim>\<open>PutChar\<close>, then wait until it is written.\<close>

definition put_char :: "'a os_scheme env \<Rightarrow> byte \<Rightarrow> 'a os_scheme \<Rightarrow> 'a os_scheme res" where
  "put_char e c s = rbind (PutChar c s) (\<lambda>s1. opP e (synchWriteAvail s1) s1)"

definition SynchConsole_Write :: "'a os_scheme env \<Rightarrow> byte list \<Rightarrow> int \<Rightarrow> 'a os_scheme \<Rightarrow> (int \<times> 'a os_scheme) res" where
  "SynchConsole_Write e buf numBytes s =
     rbind (opP e (WLineBlock s) s) (\<lambda>s1.
     rbind (for_each (\<lambda>i u. rbind (arr_get buf (int i)) (\<lambda>c. put_char e c u)) [0..<nat numBytes] s1) (\<lambda>s2.
     rbind (opV e (WLineBlock s2) s2) (\<lambda>s3. Inr (numBytes, s3))))"

text \<open>The inner loop waits for a character that is not \<^verbatim>\<open>EOF\<close>.\<close>

partial_function (option) get_char :: "'a os_scheme env \<Rightarrow> 'a os_scheme \<Rightarrow> (byte \<times> 'a os_scheme) res option" where
  "get_char e s =
     (case rbind (opP e (synchReadAvail s) s) GetChar of
        Inl x \<Rightarrow> Some (Inl x)
      | Inr (c, s1) \<Rightarrow> if c = EOF then get_char e s1 else Some (Inr (c, s1)))"

text \<open>The outer loop, with \<open>k\<close> places left in the buffer. The last component is the variable \<^verbatim>\<open>ch\<close>, not
  initialised before the first character.\<close>

fun read_line ::
    "'a os_scheme env \<Rightarrow> nat \<Rightarrow> byte list \<Rightarrow> int \<Rightarrow> byte option \<Rightarrow> 'a os_scheme \<Rightarrow>
     (byte list \<times> int \<times> byte option \<times> 'a os_scheme) res" where
  "read_line e 0 into lp ch s = Inr (into, lp, ch, s)"
| "read_line e (Suc k) into lp ch s =
     rbind (returns (get_char e s)) (\<lambda>(c, s1).
     if c = 10 \<or> c = 1 then Inr (into, lp, Some c, s1)
     else rbind (arr_set into lp c) (\<lambda>into1. read_line e k into1 (lp + 1) (Some c) s1))"

definition SynchConsole_Read ::
    "'a os_scheme env \<Rightarrow> byte list \<Rightarrow> int \<Rightarrow> 'a os_scheme \<Rightarrow> (int \<times> byte list \<times> 'a os_scheme) res" where
  "SynchConsole_Read e into numBytes s =
     rbind (for_each (\<lambda>i b. arr_set b (int i) 0) [0..<nat numBytes] into) (\<lambda>into0.
     rbind (opP e (RLineBlock s) s) (\<lambda>s1.
     rbind (read_line e (nat numBytes) into0 0 None s1) (\<lambda>(into1, lp, ch, s2).
     rbind (opV e (RLineBlock s2) s2) (\<lambda>s3.
     case ch of None \<Rightarrow> Inl Undefined | Some c \<Rightarrow> Inr (if c = 1 then - 1 else lp, into1, s3)))))"

subsection \<open>Waiting for the console\<close>

text \<open>No delayed load is in progress: the machine is in the kernel because of an exception.\<close>

definition quiet :: "'a machine_scheme \<Rightarrow> bool" where
  "quiet s \<longleftrightarrow> length (registers s) = NumTotalRegs \<and> registers s ! 0 = 0 \<and> registers s ! 37 = 0 \<and> registers s ! 38 = 0"

lemma DelayedLoad_quiet: "quiet s \<Longrightarrow> DelayedLoad 0 0 s = Inr s"
proof -
  assume q: "quiet s"
  have "(registers s)[0 := 0] = registers s" "(registers s)[37 := 0] = registers s" "(registers s)[38 := 0] = registers s"
    using q list_update_id [of "registers s"] by (metis quiet_def)+
  then show ?thesis using q by (simp add: DelayedLoad_def reg_def set_reg_def quiet_def const_defs)
qed

text \<open>The two interrupts of the console.\<close>

definition poll_at :: "int \<Rightarrow> int \<times> PendingInterrupt" where
  "poll_at t = (t, PendingInterrupt_new ConsoleReadPoll 0 t ConsoleReadInt)"

definition done_at :: "int \<Rightarrow> int \<times> PendingInterrupt" where
  "done_at t = (t, PendingInterrupt_new ConsoleWriteDone 0 t ConsoleWriteInt)"

lemma entry_simps [simp]:
  "fst (poll_at t) = t" "pi_handler (snd (poll_at t)) = ConsoleReadPoll" "pi_type (snd (poll_at t)) = ConsoleReadInt"
  "fst (done_at t) = t" "pi_handler (snd (done_at t)) = ConsoleWriteDone" "pi_type (snd (done_at t)) = ConsoleWriteInt"
  "poll_at t \<noteq> done_at u"
  by (simp_all add: poll_at_def done_at_def PendingInterrupt_new_def)

lemma entry_pair: "poll_at t = (t, snd (poll_at t))" "done_at t = (t, snd (done_at t))"
  by (simp_all add: poll_at_def done_at_def)

text \<open>Nobody types, or a character that was typed has not been fetched yet.\<close>

definition no_input :: "unix \<Rightarrow> console \<Rightarrow> bool" where
  "no_input ux cs \<longleftrightarrow> incoming cs \<noteq> EOF \<or> (\<forall>t. \<not> poll_file ux t)"

lemma fire_poll:
  fixes s :: "'a devices_scheme"
  assumes "pending s = poll_at t # ps" "the_console s = Some cs" "no_input ux cs" "quiet s" "inHandler s = False"
  shows "fire (call_handler ux) (snd (poll_at t)) s = Inr (s\<lparr>pending := kinsert (poll_at (now s + ConsoleTime)) ps\<rparr>)"
proof -
  have "quiet (s\<lparr>pending := ps\<rparr>)" using assms(4) by (simp add: quiet_def)
  from DelayedLoad_quiet [OF this] show ?thesis using assms
    by (auto simp: fire_def call_handler_def CheckCharAvail_def dev_def Schedule_def Let_def no_input_def poll_at_def now_def
        ConsoleTime_def PendingInterrupt_new_def)
qed

text \<open>The interrupt of a finished write wakes up the thread that waits for it.\<close>

lemma fire_done:
  fixes s :: "'a devices_scheme"
  assumes "pending s = done_at t # ps" "the_console s = Some cs" "cs_writeHandler cs = Signal sem" "quiet s" "inHandler s = False"
    and "level s = IntOff" "semaphores s sem = Some x" "sem_queue x = [c]" "threads s c = Some th"
    and "word_range (sem_value x + 1)"
  shows "fire (call_handler ux) (snd (done_at t)) s =
    Inr (s\<lparr>pending := ps, stats := (stats s)\<lparr>numConsoleCharsWritten := numConsoleCharsWritten (stats s) + 1\<rparr>,
       the_console := Some (cs\<lparr>putBusy := False\<rparr>), threads := (threads s)(c \<mapsto> th\<lparr>th_status := READY\<rparr>),
       readyList := readyList s @ [c], semaphores := (semaphores s)(sem \<mapsto> x\<lparr>sem_queue := [], sem_value := sem_value x + 1\<rparr>)\<rparr>)"
proof -
  have "quiet (s\<lparr>pending := ps\<rparr>)" using assms(4) by (simp add: quiet_def)
  from DelayedLoad_quiet [OF this] show ?thesis using assms
    by (simp add: fire_def call_handler_def WriteDone_def dev_def run_callback_def Semaphore_V_in_handler bump_def
        V_section_def sem_at_def ReadyToRun_def setStatus_def thread_at_def put_sem_def put_thread_def)
qed

definition wake_writer :: "nat \<Rightarrow> console \<Rightarrow> nat \<Rightarrow> thread \<Rightarrow> semaphore \<Rightarrow> Statistics \<Rightarrow> 'a devices_scheme \<Rightarrow> 'a devices_scheme" where
  "wake_writer sem cs c th x st s =
     s\<lparr>stats := st, the_console := Some (cs\<lparr>putBusy := False\<rparr>), threads := (threads s)(c \<mapsto> th\<lparr>th_status := READY\<rparr>),
       readyList := readyList s @ [c], semaphores := (semaphores s)(sem \<mapsto> x\<lparr>sem_queue := [], sem_value := sem_value x + 1\<rparr>)\<rparr>"

text \<open>A thread waits on the semaphore of the writer; nothing but the interrupts of the console is to come.\<close>

definition writer_waits :: "unix \<Rightarrow> nat \<Rightarrow> console \<Rightarrow> nat \<Rightarrow> thread \<Rightarrow> semaphore \<Rightarrow> 'a devices_scheme \<Rightarrow> bool" where
  "writer_waits ux sem cs c th x s \<longleftrightarrow> the_console s = Some cs \<and> cs_writeHandler cs = Signal sem \<and> no_input ux cs \<and> quiet s \<and>
     inHandler s = False \<and> level s = IntOff \<and> semaphores s sem = Some x \<and> sem_queue x = [c] \<and> threads s c = Some th \<and>
     readyList s = [] \<and> word_range (sem_value x + 1)"

lemma writer_waits_updates [simp]:
  "writer_waits ux sem cs c th x (s\<lparr>status := st\<rparr>) = writer_waits ux sem cs c th x s"
  "writer_waits ux sem cs c th x (s\<lparr>stats := st'\<rparr>) = writer_waits ux sem cs c th x s"
  "writer_waits ux sem cs c th x (s\<lparr>pending := ps\<rparr>) = writer_waits ux sem cs c th x s"
  "writer_waits ux sem cs c th x (s\<lparr>yieldOnReturn := y\<rparr>) = writer_waits ux sem cs c th x s"
  "writer_waits ux sem cs c th x (skip_to w s) = writer_waits ux sem cs c th x s"
  by (simp_all add: writer_waits_def quiet_def skip_to_def)

lemma now_updates [simp]:
  "now (s\<lparr>status := a\<rparr>) = now s" "now (s\<lparr>pending := ps\<rparr>) = now s" "now (s\<lparr>level := l\<rparr>) = now s"
  "now (s\<lparr>stats := st\<rparr>) = totalTicks st"
  by (simp_all add: now_def)

lemma skip_to_now [simp]: "now s \<le> w \<Longrightarrow> now (skip_to w s) = w"
  by (auto simp: skip_to_def now_def)

lemma fire_write:
  fixes s :: "'a devices_scheme"
  assumes "writer_waits ux sem cs c th x s" "pending s = done_at t # ps"
  shows "\<exists>st. totalTicks st = now s \<and>
    fire (call_handler ux) (snd (done_at t)) s = Inr ((wake_writer sem cs c th x st s)\<lparr>pending := ps\<rparr>)"
  using fire_done [OF assms(2), of cs sem x c th ux] assms(1)
  by (auto simp: writer_waits_def wake_writer_def now_def
      intro!: exI [of _ "(stats s)\<lparr>numConsoleCharsWritten := numConsoleCharsWritten (stats s) + 1\<rparr>"])

lemma due_loop_none:
  assumes "level s = IntOff" "pending s = [e]" "now s < fst e"
  shows "due_loop call s = Some (Inr s)"
proof -
  have "due s = []" "put_back s = s" using assms by (auto simp: due_def put_back_def)
  then show ?thesis using CheckIfDue_stop [OF assms(1), of call] by (simp add: due_loop.simps [of call s])
qed

lemma skip_fields [simp]:
  "pending (skip_to w s) = pending s" "level (skip_to w s) = level s" "status (skip_to w s) = status s"
  by (simp_all add: skip_to_def)

lemma skip_stats: "now s \<le> w \<Longrightarrow> \<exists>st. totalTicks st = w \<and> skip_to w s = s\<lparr>stats := st\<rparr>"
  by (cases "now s = w") (auto simp: skip_to_def now_def
      intro: exI [of _ "(stats s)\<lparr>idleTicks := idleTicks (stats s) + (w - totalTicks (stats s)), totalTicks := w\<rparr>"]
        exI [of _ "stats s"])

text \<open>The three ways the idle loop goes on.\<close>

lemma Idle_poll:
  fixes s :: "'a devices_scheme"
  assumes "writer_waits ux sem cs c th x s" "pending s = [poll_at t, done_at w]" "now s \<le> t" "t < w" "w < t + ConsoleTime"
  shows "\<exists>st. totalTicks st = t \<and> Idle (call_handler ux) s =
    Inr (s\<lparr>stats := st, pending := [done_at w, poll_at (t + ConsoleTime)], yieldOnReturn := False, status := SystemMode\<rparr>)"
proof -
  let ?i = "s\<lparr>status := IdleMode\<rparr>" and ?ps = "[done_at w, poll_at (t + ConsoleTime)]"
  obtain st where st: "totalTicks st = t" "skip_to t ?i = ?i\<lparr>stats := st\<rparr>" using skip_stats [of ?i t] assms(3) by auto
  have l: "level s = IntOff" using assms(1) by (simp add: writer_waits_def)
  have "fire (call_handler ux) (snd (poll_at t)) (skip_to t ?i) = Inr ((skip_to t ?i)\<lparr>pending := ?ps\<rparr>)"
    using fire_poll [of "skip_to t ?i" t "[done_at w]" cs ux] assms st
    by (simp add: writer_waits_def quiet_def now_def kinsert_front)
  then have "CheckIfDue (call_handler ux) True ?i = Inr (True, (skip_to t ?i)\<lparr>pending := ?ps\<rparr>)"
    using CheckIfDue_advance [of ?i t "snd (poll_at t)" "[done_at w]" "call_handler ux"] l assms(2) entry_pair(1) [of t] by simp
  moreover have "due_loop (call_handler ux) ((skip_to t ?i)\<lparr>pending := ?ps\<rparr>) = Some (Inr ((skip_to t ?i)\<lparr>pending := ?ps\<rparr>))"
  proof -
    let ?u = "(skip_to t ?i)\<lparr>pending := ?ps\<rparr>"
    have "due ?u = []" "put_back ?u = ?u" using assms st by (auto simp: due_def put_back_def now_def)
    then show ?thesis using CheckIfDue_stop [of ?u "call_handler ux"] l by (simp add: due_loop.simps [of _ ?u])
  qed
  ultimately show ?thesis using st by (auto simp: Idle_def)
qed

lemma Idle_done:
  fixes s :: "'a devices_scheme"
  assumes "writer_waits ux sem cs c th x s" "pending s = [done_at w, poll_at u]" "now s \<le> w" "w < u"
  shows "\<exists>st. totalTicks st = w \<and> Idle (call_handler ux) s =
    Inr ((wake_writer sem cs c th x st s)\<lparr>pending := [poll_at u], yieldOnReturn := False, status := SystemMode\<rparr>)"
proof -
  let ?i = "s\<lparr>status := IdleMode\<rparr>"
  have l: "level s = IntOff" using assms(1) by (simp add: writer_waits_def)
  have wt: "writer_waits ux sem cs c th x (skip_to w ?i)" using assms(1) by simp
  obtain st where st: "totalTicks st = w" and f: "fire (call_handler ux) (snd (done_at w)) (skip_to w ?i) =
      Inr ((wake_writer sem cs c th x st (skip_to w ?i))\<lparr>pending := [poll_at u]\<rparr>)"
    using fire_write [OF wt, of w "[poll_at u]"] assms(2,3) by auto
  let ?v = "(wake_writer sem cs c th x st (skip_to w ?i))\<lparr>pending := [poll_at u]\<rparr>"
  have v: "?v = (wake_writer sem cs c th x st s)\<lparr>status := IdleMode, pending := [poll_at u]\<rparr>"
    by (auto simp: wake_writer_def skip_to_def)
  have "CheckIfDue (call_handler ux) True ?i = Inr (True, ?v)"
    using CheckIfDue_advance [of ?i w "snd (done_at w)" "[poll_at u]" "call_handler ux"] l assms(2) entry_pair(2) [of w] f by simp
  moreover have "due_loop (call_handler ux) ?v = Some (Inr ?v)"
    by (rule due_loop_none [of _ "poll_at u"]) (use l st assms(4) in \<open>simp_all add: wake_writer_def now_def\<close>)
  ultimately show ?thesis using st unfolding v by (auto simp: Idle_def wake_writer_def)
qed

lemma Idle_both:
  fixes s :: "'a devices_scheme"
  assumes "writer_waits ux sem cs c th x s" "pending s = [poll_at t, done_at t]" "now s \<le> t"
  shows "\<exists>st. totalTicks st = t \<and> Idle (call_handler ux) s =
    Inr ((wake_writer sem cs c th x st s)\<lparr>pending := [poll_at (t + ConsoleTime)], yieldOnReturn := False, status := SystemMode\<rparr>)"
proof -
  let ?i = "s\<lparr>status := IdleMode\<rparr>" and ?ps = "[done_at t, poll_at (t + ConsoleTime)]"
  let ?u = "(skip_to t ?i)\<lparr>pending := ?ps\<rparr>"
  have l: "level s = IntOff" using assms(1) by (simp add: writer_waits_def)
  have n: "now (skip_to t ?i) = t" using assms(3) by simp
  have "fire (call_handler ux) (snd (poll_at t)) (skip_to t ?i) = Inr ?u"
  proof -
    have "writer_waits ux sem cs c th x (skip_to t ?i)" using assms(1) by simp
    then show ?thesis using fire_poll [of "skip_to t ?i" t "[done_at t]" cs ux] assms(2) n
      by (simp add: writer_waits_def kinsert_front ConsoleTime_def)
  qed
  then have c1: "CheckIfDue (call_handler ux) True ?i = Inr (True, ?u)"
    using CheckIfDue_advance [of ?i t "snd (poll_at t)" "[done_at t]" "call_handler ux"] l assms(2) entry_pair(1) [of t] by simp
  have wt: "writer_waits ux sem cs c th x ?u" using assms(1) by simp
  obtain st where st: "totalTicks st = t" and f: "fire (call_handler ux) (snd (done_at t)) ?u =
      Inr ((wake_writer sem cs c th x st ?u)\<lparr>pending := [poll_at (t + ConsoleTime)]\<rparr>)"
    using fire_write [OF wt, of t "[poll_at (t + ConsoleTime)]"] n by auto
  let ?v = "(wake_writer sem cs c th x st ?u)\<lparr>pending := [poll_at (t + ConsoleTime)]\<rparr>"
  have v: "?v = (wake_writer sem cs c th x st s)\<lparr>status := IdleMode, pending := [poll_at (t + ConsoleTime)]\<rparr>"
    by (auto simp: wake_writer_def skip_to_def)
  have "CheckIfDue (call_handler ux) False ?u = Inr (True, ?v)"
    using CheckIfDue_due [of ?u t "snd (done_at t)" "[poll_at (t + ConsoleTime)]" "call_handler ux" False] l n entry_pair(2) [of t] f
    by (simp add: only_timer_def)
  moreover have "due_loop (call_handler ux) ?v = Some (Inr ?v)"
    by (rule due_loop_none [of _ "poll_at (t + ConsoleTime)"]) (use l st in \<open>simp_all add: wake_writer_def now_def ConsoleTime_def\<close>)
  ultimately have "due_loop (call_handler ux) ?u = Some (Inr ?v)" by (simp add: due_loop.simps [of _ ?u])
  with c1 show ?thesis using st unfolding v by (auto simp: Idle_def wake_writer_def)
qed

lemma sleep_console:
  fixes s :: "'a devices_scheme"
  assumes "writer_waits ux sem cs c th x s" "pending s = [poll_at t, done_at w]" "now s \<le> t" "t \<le> w" "w < t + ConsoleTime"
  shows "\<exists>st. totalTicks st = w \<and> sleep_loop (Idle (call_handler ux)) s =
    Some (Inr (c, (wake_writer sem cs c th x st s)\<lparr>readyList := [], pending := [poll_at (t + ConsoleTime)],
      yieldOnReturn := False, status := SystemMode\<rparr>))"
proof -
  let ?f = "\<lambda>st u. (wake_writer sem cs c th x st u)\<lparr>pending := [poll_at (t + ConsoleTime)], yieldOnReturn := False, status := SystemMode\<rparr>"
  have r: "readyList s = []" using assms(1) by (simp add: writer_waits_def)
  have awake: "sleep_loop (Idle (call_handler ux)) (?f st u) = Some (Inr (c, (?f st u)\<lparr>readyList := []\<rparr>))"
    if "readyList u = []" for st and u :: "'a devices_scheme"
    using that by (subst sleep_loop.simps) (simp add: FindNextToRun_def wake_writer_def)
  show ?thesis
  proof (cases "t = w")
    case True
    from Idle_both [OF assms(1), of t] assms(2,3) True obtain st where
      "totalTicks st = w" "Idle (call_handler ux) s = Inr (?f st s)" by auto
    with r awake [OF r, of st] show ?thesis
      by (auto simp: sleep_loop.simps [of _ s] FindNextToRun_def wake_writer_def)
  next
    case False
    with assms(4) have "t < w" by simp
    from Idle_poll [OF assms(1-3) this assms(5)] obtain st0 where
      st0: "totalTicks st0 = t" and i: "Idle (call_handler ux) s =
        Inr (s\<lparr>stats := st0, pending := [done_at w, poll_at (t + ConsoleTime)], yieldOnReturn := False, status := SystemMode\<rparr>)"
      by blast
    define u where "u = s\<lparr>stats := st0, pending := [done_at w, poll_at (t + ConsoleTime)], yieldOnReturn := False, status := SystemMode\<rparr>"
    have wu: "writer_waits ux sem cs c th x u" using assms(1) by (simp add: u_def)
    have u: "pending u = [done_at w, poll_at (t + ConsoleTime)]" "now u \<le> w" "readyList u = []"
      using st0 assms(4) r by (simp_all add: u_def now_def)
    from Idle_done [OF wu u(1,2) assms(5)] obtain st where st: "totalTicks st = w" "Idle (call_handler ux) u = Inr (?f st u)" by blast
    have "sleep_loop (Idle (call_handler ux)) s = sleep_loop (Idle (call_handler ux)) u"
      using i r by (simp add: sleep_loop.simps [of _ s] FindNextToRun_def flip: u_def)
    also have "\<dots> = sleep_loop (Idle (call_handler ux)) (?f st u)"
      using st(2) u(3) by (simp add: sleep_loop.simps [of _ u] FindNextToRun_def)
    also have "\<dots> = Some (Inr (c, (?f st u)\<lparr>readyList := []\<rparr>))" by (rule awake [OF u(3)])
    also have "(?f st u)\<lparr>readyList := []\<rparr> = (?f st s)\<lparr>readyList := []\<rparr>" by (simp add: u_def wake_writer_def)
    finally show ?thesis using st(1) by (auto simp: wake_writer_def)
  qed
qed

text \<open>The thread's own context: its stack is intact, and if it runs a user program the machine uses its page table.\<close>

definition own_context :: "thread \<Rightarrow> 'a kernel_scheme \<Rightarrow> bool" where
  "own_context th s \<longleftrightarrow> th_stack th \<in> {None, Some STACK_FENCEPOST} \<and>
     (case th_space th of None \<Rightarrow> True
      | Some sp \<Rightarrow> length (userRegisters th) = NumTotalRegs \<and>
          (\<exists>as. spaces s sp = Some as \<and> pageTable s = Some (as_pageTable as) \<and> pageTableSize s = as_numPages as))"

lemma own_context_updates [simp]:
  "own_context th (s\<lparr>stats := st\<rparr>) = own_context th s" "own_context th (s\<lparr>pending := ps\<rparr>) = own_context th s"
  "own_context th (s\<lparr>semaphores := sm\<rparr>) = own_context th s" "own_context th (s\<lparr>threads := ths\<rparr>) = own_context th s"
  "own_context th (s\<lparr>level := l\<rparr>) = own_context th s" "own_context th (s\<lparr>status := m\<rparr>) = own_context th s"
  "own_context th (s\<lparr>readyList := r\<rparr>) = own_context th s" "own_context th (s\<lparr>yieldOnReturn := y\<rparr>) = own_context th s"
  "own_context th (d\<lparr>the_console := c\<rparr>) = own_context th d" "own_context (th\<lparr>th_status := ts\<rparr>) s = own_context th s"
  "own_context th (s\<lparr>tables := tb\<rparr>) = own_context th s" "own_context th (o1\<lparr>next_addr := na\<rparr>) = own_context th o1"
  "own_context th (o1\<lparr>synchReadAvail := na\<rparr>) = own_context th o1" "own_context th (o1\<lparr>synchWriteAvail := na\<rparr>) = own_context th o1"
  "own_context th (o1\<lparr>RLineBlock := na\<rparr>) = own_context th o1" "own_context th (o1\<lparr>WLineBlock := na\<rparr>) = own_context th o1"
  by (simp_all add: own_context_def split: option.split)

lemma Run_self:
  assumes "threads s (currentThread s) = Some th" "own_context th s" "threadToBeDestroyed s = None" "length (registers s) = NumTotalRegs"
  shows "\<exists>th'. Scheduler_Run self_switch (currentThread s) s = Inr (s\<lparr>threads := (threads s)(currentThread s \<mapsto> th')\<rparr>) \<and>
    own_context th' s \<and> th_space th' = th_space th"
proof (cases "th_space th")
  case None
  then show ?thesis using assms
    by (auto simp: own_context_def Scheduler_Run_def Run_before_def Run_after_def thread_at_def CheckOverflow_def setStatus_def
        self_switch_def Let_def put_thread_def)
next
  case (Some sp)
  with assms(2) obtain as where as: "spaces s sp = Some as" "pageTable s = Some (as_pageTable as)" "pageTableSize s = as_numPages as"
    and l: "length (userRegisters th) = NumTotalRegs" and st: "th_stack th \<in> {None, Some STACK_FENCEPOST}"
    by (auto simp: own_context_def)
  let ?th = "th\<lparr>userRegisters := registers s, th_status := RUNNING\<rparr>"
  define u where "u = s\<lparr>threads := (threads s)(currentThread s \<mapsto> ?th)\<rparr>"
  have "Run_before (currentThread s) s = Inr u"
    using Run_before_user [OF assms(1) Some st assms(4) l as(1), of "currentThread s"] by (simp add: setStatus_def thread_at_def put_thread_def u_def)
  moreover have "RestoreUserState (currentThread s) u = Inr u"
    using RestoreUserState_eq [of u "currentThread s" ?th] assms(4) by (simp add: u_def)
  then have "Run_after u = Inr u"
    using Some as assms(3) by (simp add: Run_after_def thread_at_def RestoreState_def u_def)
  ultimately have "Scheduler_Run self_switch (currentThread s) s = Inr u" by (simp add: Scheduler_Run_def self_switch_def)
  then show ?thesis using Some as st assms(4) by (auto simp: u_def own_context_def)
qed

text \<open>The clock ticks while only the poll of the keyboard is pending.\<close>

definition poll_soon :: "int \<Rightarrow> Statistics \<Rightarrow> bool" where
  "poll_soon t st \<longleftrightarrow> totalTicks st < t \<and> t \<le> totalTicks st + ConsoleTime"

lemma tick_poll:
  fixes s :: "'a devices_scheme"
  assumes "status s = SystemMode" "pending s = [poll_at t]" "poll_soon t (stats s)" "the_console s = Some cs" "no_input ux cs" "quiet s"
    and "inHandler s = False" "yieldOnReturn s = False"
  shows "\<exists>st t'. OneTick (call_handler ux) yield s = Inr (s\<lparr>stats := st, pending := [poll_at t'], level := IntOn\<rparr>) \<and> poll_soon t' st"
proof -
  define st where "st = (stats s)\<lparr>totalTicks := totalTicks (stats s) + SystemTick, systemTicks := systemTicks (stats s) + SystemTick\<rparr>"
  define s0 where "s0 = s\<lparr>stats := st, level := IntOff\<rparr>"
  have s0: "(tick_clock s)\<lparr>level := IntOff\<rparr> = s0" using assms(1) by (simp add: s0_def st_def tick_clock_def Let_def)
  have eq: "OneTick (call_handler ux) yield s = rbind (for_each (\<lambda>x. fire (call_handler ux) (snd x)) (due s0) s0) (\<lambda>s1.
      let s2 = (put_back s1)\<lparr>level := IntOn\<rparr> in
      if yieldOnReturn s2
      then rbind (yield (s2\<lparr>yieldOnReturn := False, status := SystemMode\<rparr>)) (\<lambda>s3. Inr (s3\<lparr>status := status s\<rparr>))
      else Inr s2)"
    using dev_handlers.OneTick_eq [of s ux yield] assms(1,2) by (simp add: s0)
  show ?thesis
  proof (cases "t \<le> totalTicks st")
    case True
    have "fire (call_handler ux) (snd (poll_at t)) s0 = Inr (s0\<lparr>pending := [poll_at (totalTicks st + ConsoleTime)]\<rparr>)"
      using fire_poll [of s0 t "[]" cs ux] assms by (simp add: s0_def quiet_def now_def)
    moreover have "due s0 = [poll_at t]" using True assms(2) by (simp add: due_def s0_def now_def)
    ultimately have "OneTick (call_handler ux) yield s = Inr (s\<lparr>stats := st, pending := [poll_at (totalTicks st + ConsoleTime)], level := IntOn\<rparr>)"
      using assms(8) by (simp add: eq put_back_def s0_def)
    moreover have "poll_soon (totalTicks st + ConsoleTime) st" by (simp add: poll_soon_def ConsoleTime_def)
    ultimately show ?thesis by blast
  next
    case False
    then have "due s0 = []" using assms(2) by (simp add: due_def s0_def now_def)
    then have "OneTick (call_handler ux) yield s = Inr (s\<lparr>stats := st, pending := [poll_at t], level := IntOn\<rparr>)"
      using assms(2,8) by (simp add: eq put_back_def s0_def)
    moreover have "poll_soon t st" using False assms(3) by (simp add: poll_soon_def st_def SystemTick_def)
    ultimately show ?thesis by blast
  qed
qed

text \<open>Kernel code runs in system mode with interrupts enabled, nothing is to come but the polls of the console. Other threads may be ready.\<close>

definition at_rest :: "unix \<Rightarrow> console \<Rightarrow> 'a devices_scheme \<Rightarrow> bool" where
  "at_rest ux cs s \<longleftrightarrow> level s = IntOn \<and> status s = SystemMode \<and> inHandler s = False \<and> yieldOnReturn s = False \<and>
     threadToBeDestroyed s = None \<and> quiet s \<and> (\<exists>th. threads s (currentThread s) = Some th \<and> own_context th s) \<and>
     the_console s = Some cs \<and> no_input ux cs \<and> (\<exists>t. pending s = [poll_at t] \<and> poll_soon t (stats s))"

text \<open>What the console may change.\<close>

definition only_io :: "'a devices_scheme \<Rightarrow> 'a devices_scheme \<Rightarrow> bool" where
  "only_io s s' \<longleftrightarrow> (\<exists>st ps sm th cs. s' = s\<lparr>stats := st, pending := ps, semaphores := sm,
     threads := (threads s)(currentThread s := th), the_console := cs\<rparr>)"

lemma only_io_refl [simp, intro]: "only_io s s"
  unfolding only_io_def
  by (intro exI [of _ "stats s"] exI [of _ "pending s"] exI [of _ "semaphores s"] exI [of _ "threads s (currentThread s)"]
      exI [of _ "the_console s"]) simp

lemma only_io_trans [trans]: "only_io s t \<Longrightarrow> only_io t u \<Longrightarrow> only_io s u"
  unfolding only_io_def by (elim exE, simp) (intro exI, rule refl)

lemma lone_P_eq:
  fixes s :: "'a devices_scheme"
  assumes "level s = IntOn" "inHandler s = False"
    and "P_loop (\<lambda>s. Thread_Sleep self_switch (call_handler ux) (currentThread s) s) m (s\<lparr>level := IntOff\<rparr>) = Some (Inr s1)"
    and "semaphores s1 m = Some y" "level s1 = IntOff" "inHandler s1 = False"
  shows "lone_P ux yield m s =
    OneTick (call_handler ux) yield (s1\<lparr>semaphores := (semaphores s1)(m \<mapsto> y\<lparr>sem_value := sem_value y - 1\<rparr>), level := IntOn\<rparr>)"
  using assms
  by (simp add: lone_P_def Semaphore_P_def SetLevel_def ChangeLevel_def Let_def sem_decrement_def sem_at_def put_sem_def rbind_assoc)
    (simp add: rbind_def split: sum.split)

lemma lone_V_eq:
  fixes s :: "'a devices_scheme"
  assumes "level s = IntOn" "inHandler s = False" "semaphores s m = Some y" "sem_queue y = []" "word_range (sem_value y + 1)"
  shows "Semaphore_V (OneTick (call_handler ux) yield) m s =
    OneTick (call_handler ux) yield (s\<lparr>semaphores := (semaphores s)(m \<mapsto> y\<lparr>sem_value := sem_value y + 1\<rparr>)\<rparr>)"
proof -
  let ?d = "s\<lparr>semaphores := (semaphores s)(m \<mapsto> y\<lparr>sem_value := sem_value y + 1\<rparr>)\<rparr>"
  have "Semaphore_V (OneTick (call_handler ux) yield) m s = OneTick (call_handler ux) yield (?d\<lparr>level := IntOn\<rparr>)"
    using assms
    by (simp add: Semaphore_V_def SetLevel_def ChangeLevel_def Let_def V_section_def sem_at_def put_sem_def rbind_assoc)
      (simp add: rbind_def split: sum.split)
  also have "?d\<lparr>level := IntOn\<rparr> = ?d" using assms(1) by simp
  finally show ?thesis .
qed

text \<open>A semaphore changes, then the clock ticks.\<close>

lemma tick_at_rest:
  fixes s :: "'a devices_scheme"
  assumes "at_rest ux cs s"
  shows "\<exists>s' :: 'a devices_scheme. OneTick (call_handler ux) yield (s\<lparr>semaphores := sm\<rparr>) = Inr s' \<and> at_rest ux cs s' \<and> only_io s s' \<and>
    semaphores s' = sm \<and> threads s' = threads s"
proof -
  from assms obtain t th where t: "pending s = [poll_at t]" "poll_soon t (stats s)"
      and th: "threads s (currentThread s) = Some th" "own_context th s" by (auto simp: at_rest_def)
  define d where "d = s\<lparr>semaphores := sm\<rparr>"
  have "quiet d" using assms by (simp add: d_def at_rest_def quiet_def)
  then obtain st t' where tk: "OneTick (call_handler ux) yield d = Inr (d\<lparr>stats := st, pending := [poll_at t'], level := IntOn\<rparr>)"
      "poll_soon t' st"
    using tick_poll [of d t cs ux yield] assms t by (auto simp: d_def at_rest_def)
  define s' where "s' = d\<lparr>stats := st, pending := [poll_at t']\<rparr>"
  have "d\<lparr>stats := st, pending := [poll_at t'], level := IntOn\<rparr> = s'"
    using assms by (simp add: s'_def d_def at_rest_def)
  moreover have "at_rest ux cs s'" using assms tk(2) th by (auto simp: s'_def d_def at_rest_def quiet_def)
  moreover have "only_io s s'" unfolding only_io_def s'_def d_def using th(1)
    by (intro exI [of _ st] exI [of _ "[poll_at t']"] exI [of _ sm] exI [of _ "Some th"] exI [of _ "the_console s"])
      (simp add: fun_upd_idem)
  ultimately show ?thesis using tk(1) by (auto simp: s'_def d_def)
qed

lemma P_free:
  fixes s :: "'a devices_scheme"
  assumes "at_rest ux cs s" "semaphores s m = Some y" "sem_value y \<noteq> 0"
  shows "\<exists>s' :: 'a devices_scheme. lone_P ux yield m s = Inr s' \<and> at_rest ux cs s' \<and> only_io s s' \<and>
    semaphores s' = (semaphores s)(m \<mapsto> y\<lparr>sem_value := sem_value y - 1\<rparr>) \<and> threads s' = threads s"
proof -
  have "P_loop sleep m (s\<lparr>level := IntOff\<rparr>) = Some (Inr (s\<lparr>level := IntOff\<rparr>))" for sleep
    using assms(2,3) by (simp add: P_loop.simps [of sleep m "s\<lparr>level := IntOff\<rparr>"] sem_at_def)
  from lone_P_eq [OF _ _ this, where y = y and yield = yield and ux = ux]
  have "lone_P ux yield m s = OneTick (call_handler ux) yield
      (s\<lparr>level := IntOff, semaphores := (semaphores s)(m \<mapsto> y\<lparr>sem_value := sem_value y - 1\<rparr>), level := IntOn\<rparr>)"
    using assms by (simp add: at_rest_def)
  moreover have "s\<lparr>level := IntOff, semaphores := (semaphores s)(m \<mapsto> y\<lparr>sem_value := sem_value y - 1\<rparr>), level := IntOn\<rparr> =
      s\<lparr>semaphores := (semaphores s)(m \<mapsto> y\<lparr>sem_value := sem_value y - 1\<rparr>)\<rparr>"
    using assms(1) by (simp add: at_rest_def)
  ultimately show ?thesis using tick_at_rest [OF assms(1), of yield "(semaphores s)(m \<mapsto> y\<lparr>sem_value := sem_value y - 1\<rparr>)"] by simp
qed

lemma V_free:
  fixes s :: "'a devices_scheme"
  assumes "at_rest ux cs s" "semaphores s m = Some y" "sem_queue y = []" "word_range (sem_value y + 1)"
  shows "\<exists>s' :: 'a devices_scheme. Semaphore_V (OneTick (call_handler ux) yield) m s = Inr s' \<and> at_rest ux cs s' \<and> only_io s s' \<and>
    semaphores s' = (semaphores s)(m \<mapsto> y\<lparr>sem_value := sem_value y + 1\<rparr>) \<and> threads s' = threads s"
  using lone_V_eq [OF _ _ assms(2-4), of ux yield] assms(1)
    tick_at_rest [OF assms(1), of yield "(semaphores s)(m \<mapsto> y\<lparr>sem_value := sem_value y + 1\<rparr>)"]
  by (simp add: at_rest_def)

text \<open>A counter that has no room for one more.\<close>

lemma V_overflow:
  fixes s :: "'a devices_scheme"
  assumes "at_rest ux cs s" "semaphores s m = Some y" "sem_queue y = []" "\<not> word_range (sem_value y + 1)"
  shows "Semaphore_V (OneTick (call_handler ux) yield) m s = Inl Undefined"
  using assms by (simp add: at_rest_def Semaphore_V_def SetLevel_def ChangeLevel_def Let_def V_section_def sem_at_def cint_def)

text \<open>A thread goes to sleep, no other one is ready, and nothing but the polls of the keyboard is to come: the
  idle loop polls for ever.\<close>

definition starving :: "unix \<Rightarrow> console \<Rightarrow> 'a devices_scheme \<Rightarrow> bool" where
  "starving ux cs s \<longleftrightarrow> the_console s = Some cs \<and> no_input ux cs \<and> quiet s \<and> inHandler s = False \<and> level s = IntOff \<and>
     readyList s = [] \<and> (\<exists>t. pending s = [poll_at t] \<and> now s \<le> t)"

lemma Idle_starving:
  fixes s :: "'a devices_scheme"
  assumes "starving ux cs s"
  shows "\<exists>s' :: 'a devices_scheme. Idle (call_handler ux) s = Inr s' \<and> starving ux cs s'"
proof -
  from assms obtain t where t: "pending s = [poll_at t]" "now s \<le> t" by (auto simp: starving_def)
  let ?i = "s\<lparr>status := IdleMode\<rparr>"
  let ?u = "(skip_to t ?i)\<lparr>pending := [poll_at (t + ConsoleTime)]\<rparr>"
  obtain st where st: "totalTicks st = t" "skip_to t ?i = ?i\<lparr>stats := st\<rparr>" using skip_stats [of ?i t] t(2) by auto
  have l: "level s = IntOff" using assms by (simp add: starving_def)
  have "fire (call_handler ux) (snd (poll_at t)) (skip_to t ?i) = Inr ?u"
    using fire_poll [of "skip_to t ?i" t "[]" cs ux] assms t st by (simp add: starving_def quiet_def now_def)
  then have "CheckIfDue (call_handler ux) True ?i = Inr (True, ?u)"
    using CheckIfDue_advance [of ?i t "snd (poll_at t)" "[]" "call_handler ux"] l t(1) entry_pair(1) [of t] by simp
  moreover have "due_loop (call_handler ux) ?u = Some (Inr ?u)"
    by (rule due_loop_none [of _ "poll_at (t + ConsoleTime)"]) (use l st in \<open>simp_all add: now_def ConsoleTime_def\<close>)
  ultimately have "Idle (call_handler ux) s = Inr (?u\<lparr>yieldOnReturn := False, status := SystemMode\<rparr>)" by (simp add: Idle_def)
  moreover have "starving ux cs (?u\<lparr>yieldOnReturn := False, status := SystemMode\<rparr>)"
    using assms st by (auto simp: starving_def quiet_def now_def ConsoleTime_def)
  ultimately show ?thesis by blast
qed

lemma sleep_starving:
  fixes s :: "'a devices_scheme"
  assumes "sleep_loop idle s = Some r"
  shows "idle = Idle (call_handler ux) \<longrightarrow> \<not> starving ux cs s"
proof (rule sleep_loop.raw_induct [OF _ assms], intro impI notI)
  fix f idle r and s :: "'a devices_scheme"
  assume IH: "\<And>idle s r. f idle s = Some r \<Longrightarrow> idle = Idle (call_handler ux) \<longrightarrow> \<not> starving ux cs s"
    and body: "(case FindNextToRun s of (None, s1) \<Rightarrow> (case idle s1 of Inl e \<Rightarrow> Some (Inl e) | Inr s2 \<Rightarrow> f idle s2)
        | (Some t, s1) \<Rightarrow> Some (Inr (t, s1))) = Some r"
    and i: "idle = Idle (call_handler ux)" and s: "starving ux cs s"
  from Idle_starving [OF s] obtain s' :: "'a devices_scheme" where
    "Idle (call_handler ux) s = Inr s'" "starving ux cs s'" by blast
  moreover have "FindNextToRun s = (None, s)" using s by (simp add: FindNextToRun_def starving_def)
  ultimately show False using IH body i by auto
qed

lemma P_starves:
  fixes s :: "'a devices_scheme"
  assumes "at_rest ux cs s" "semaphores s m = Some y" "sem_value y = 0" "readyList s = []"
  shows "lone_P ux yield m s = Inl Diverged"
proof -
  let ?c = "currentThread s"
  from assms(1) obtain t th where t: "pending s = [poll_at t]" "now s \<le> t" and th: "threads s ?c = Some th"
    by (auto simp: at_rest_def poll_soon_def now_def)
  define q where "q = s\<lparr>level := IntOff, semaphores := (semaphores s)(m \<mapsto> y\<lparr>sem_queue := sem_queue y @ [?c]\<rparr>)\<rparr>"
  have "starving ux cs (q\<lparr>threads := (threads s)(?c \<mapsto> th\<lparr>th_status := BLOCKED\<rparr>)\<rparr>)"
    using assms(1,4) t by (auto simp: starving_def q_def at_rest_def quiet_def now_def)
  then have "sleep_loop (Idle (call_handler ux)) (q\<lparr>threads := (threads s)(?c \<mapsto> th\<lparr>th_status := BLOCKED\<rparr>)\<rparr>) = None"
    using sleep_starving by (metis not_Some_eq)
  then have "Thread_Sleep self_switch (call_handler ux) ?c q = Inl Diverged"
    using th by (simp add: Thread_Sleep_def setStatus_def thread_at_def put_thread_def q_def returns_def)
  then have "P_loop (\<lambda>s. Thread_Sleep self_switch (call_handler ux) (currentThread s) s) m (s\<lparr>level := IntOff\<rparr>) = Some (Inl Diverged)"
    using assms(2,3) by (simp add: P_loop.simps [of _ m "s\<lparr>level := IntOff\<rparr>"] sem_at_def sem_enqueue_def put_sem_def flip: q_def) (simp add: q_def)
  then show ?thesis using assms(1) by (simp add: lone_P_def Semaphore_P_def SetLevel_def ChangeLevel_def Let_def at_rest_def returns_def)
qed

text \<open>A new thread is put behind the ready ones, and the calling thread goes on.\<close>

definition forked :: "kfunc \<Rightarrow> int \<Rightarrow> nat \<Rightarrow> thread \<Rightarrow> 'a kernel_scheme \<Rightarrow> 'a kernel_scheme" where
  "forked f a t th s = s\<lparr>threads := (threads s)(t \<mapsto> th\<lparr>th_stack := Some STACK_FENCEPOST, th_point := Fresh f a, th_status := READY\<rparr>),
     readyList := readyList s @ [t]\<rparr>"

lemma Fork_free:
  fixes s :: "'a devices_scheme"
  assumes "at_rest ux cs s" "threads s t = Some th" "t \<noteq> currentThread s"
  shows "\<exists>s' :: 'a devices_scheme. Thread_Fork (OneTick (call_handler ux) yield) f a t s = Inr s' \<and> at_rest ux cs s' \<and> only_io (forked f a t th s) s' \<and>
    semaphores s' = semaphores s \<and> threads s' = threads (forked f a t th s)"
proof -
  let ?d = "forked f a t th s"
  have l: "level s = IntOn" "inHandler s = False" using assms(1) by (simp_all add: at_rest_def)
  have "Thread_Fork (OneTick (call_handler ux) yield) f a t s = OneTick (call_handler ux) yield (?d\<lparr>level := IntOn\<rparr>)"
    using assms(2) l
    by (simp add: Thread_Fork_def StackAllocate_def thread_at_def put_thread_def SetLevel_def ChangeLevel_def Let_def ReadyToRun_def setStatus_def
        rbind_assoc forked_def)
      (simp add: rbind_def split: sum.split)
  also have "?d\<lparr>level := IntOn\<rparr> = ?d\<lparr>semaphores := semaphores s\<rparr>" using l(1) by (simp add: forked_def)
  finally have f: "Thread_Fork (OneTick (call_handler ux) yield) f a t s = OneTick (call_handler ux) yield (?d\<lparr>semaphores := semaphores s\<rparr>)" .
  have "at_rest ux cs ?d" using assms(1,3) by (auto simp: at_rest_def forked_def quiet_def)
  from tick_at_rest [OF this, of yield "semaphores s"] f show ?thesis by auto
qed

text \<open>Sleeping until the character is out: the thread runs again, and only the console has moved.\<close>

lemma Sleep_console:
  fixes s :: "'a devices_scheme"
  assumes "writer_waits ux sem cs (currentThread s) th x s" "own_context th s" "threadToBeDestroyed s = None"
    and "pending s = [poll_at t, done_at w]" "now s \<le> t" "t \<le> w" "w < t + ConsoleTime"
  shows "\<exists>st th'. totalTicks st = w \<and> own_context th' s \<and>
    Thread_Sleep self_switch (call_handler ux) (currentThread s) s =
      Inr (s\<lparr>stats := st, the_console := Some (cs\<lparr>putBusy := False\<rparr>), threads := (threads s)(currentThread s \<mapsto> th'),
        semaphores := (semaphores s)(sem \<mapsto> x\<lparr>sem_queue := [], sem_value := sem_value x + 1\<rparr>),
        pending := [poll_at (t + ConsoleTime)], yieldOnReturn := False, status := SystemMode\<rparr>)"
proof -
  let ?c = "currentThread s" and ?B = "th\<lparr>th_status := BLOCKED\<rparr>"
  have th: "threads s ?c = Some th" "level s = IntOff" "readyList s = []" "quiet s" using assms(1) by (auto simp: writer_waits_def)
  define b where "b = s\<lparr>threads := (threads s)(?c \<mapsto> ?B)\<rparr>"
  have wb: "writer_waits ux sem cs ?c ?B x b" using assms(1) by (simp add: writer_waits_def b_def quiet_def)
  from sleep_console [OF wb, of t w] assms(4-7) obtain st where st: "totalTicks st = w" and
    l: "sleep_loop (Idle (call_handler ux)) b = Some (Inr (?c, (wake_writer sem cs ?c ?B x st b)\<lparr>readyList := [],
        pending := [poll_at (t + ConsoleTime)], yieldOnReturn := False, status := SystemMode\<rparr>))"
    by (auto simp: b_def now_def)
  define v where "v = (wake_writer sem cs ?c ?B x st b)\<lparr>readyList := [],
        pending := [poll_at (t + ConsoleTime)], yieldOnReturn := False, status := SystemMode\<rparr>"
  have v: "threads v ?c = Some (?B\<lparr>th_status := READY\<rparr>)" "currentThread v = ?c" "threadToBeDestroyed v = None"
      "length (registers v) = NumTotalRegs" "own_context (?B\<lparr>th_status := READY\<rparr>) v"
    using assms(2,3) th(4) by (simp_all add: v_def wake_writer_def b_def quiet_def)
  from Run_self [of v] v obtain th' where r: "Scheduler_Run self_switch ?c v = Inr (v\<lparr>threads := (threads v)(?c \<mapsto> th')\<rparr>)"
      "own_context th' v" by auto
  have "own_context th' s" using r(2) by (simp add: v_def wake_writer_def b_def)
  moreover have "v\<lparr>threads := (threads v)(?c \<mapsto> th')\<rparr> =
      s\<lparr>stats := st, the_console := Some (cs\<lparr>putBusy := False\<rparr>), threads := (threads s)(?c \<mapsto> th'),
        semaphores := (semaphores s)(sem \<mapsto> x\<lparr>sem_queue := [], sem_value := sem_value x + 1\<rparr>),
        pending := [poll_at (t + ConsoleTime)], yieldOnReturn := False, status := SystemMode\<rparr>"
    using th(3) by (simp add: v_def wake_writer_def b_def)
  moreover have "setStatus BLOCKED ?c s = Inr b" using th(1) by (simp add: setStatus_def thread_at_def put_thread_def b_def)
  then have "Thread_Sleep self_switch (call_handler ux) ?c s = Scheduler_Run self_switch ?c v"
    using th(2) l by (simp add: Thread_Sleep_def v_def)
  ultimately show ?thesis using st r(1) by metis
qed

lemma put_char_returns:
  fixes s :: "'a devices_scheme"
  assumes "at_rest ux cs s" "\<not> putBusy cs" "cs_writeHandler cs = Signal sem"
    and "semaphores s sem = Some x" "sem_queue x = []" "sem_value x = 0" "readyList s = []"
  shows "\<exists>s' :: 'a devices_scheme. rbind (PutChar ch s) (lone_P ux yield sem) = Inr s' \<and>
    at_rest ux (cs\<lparr>display := display cs @ [ch]\<rparr>) s' \<and> only_io s s' \<and> semaphores s' = semaphores s"
proof -
  let ?c = "currentThread s" and ?w = "now s + ConsoleTime" and ?cs1 = "cs\<lparr>display := display cs @ [ch], putBusy := True\<rparr>"
  from assms(1) obtain t th where t: "pending s = [poll_at t]" "now s < t" "t \<le> ?w"
      and th: "threads s ?c = Some th" "own_context th s" and lv: "level s = IntOn" "inHandler s = False"
    by (auto simp: at_rest_def poll_soon_def now_def)
  define s1 where "s1 = s\<lparr>the_console := Some ?cs1, pending := [poll_at t, done_at ?w]\<rparr>"
  have pc: "PutChar ch s = Inr s1"
    using assms(1,2) t by (simp add: PutChar_def dev_def at_rest_def Schedule_def Let_def s1_def poll_at_def done_at_def now_def
        ConsoleTime_def)
  define q where "q = s1\<lparr>level := IntOff, semaphores := (semaphores s)(sem \<mapsto> x\<lparr>sem_queue := [?c]\<rparr>)\<rparr>"
  have cur: "currentThread q = ?c" by (simp add: q_def s1_def)
  have wq: "writer_waits ux sem ?cs1 ?c th (x\<lparr>sem_queue := [?c]\<rparr>) q"
    using assms(1,3,6,7) th by (simp add: writer_waits_def q_def s1_def at_rest_def quiet_def no_input_def)
  have "own_context th q" "threadToBeDestroyed q = None" "pending q = [poll_at t, done_at ?w]" "now q \<le> t" "t \<le> ?w" "?w < t + ConsoleTime"
    using th(2) assms(1) t by (simp_all add: q_def s1_def at_rest_def now_def)
  from Sleep_console [OF wq [folded cur] this] obtain st th' where st: "totalTicks st = ?w" and th': "own_context th' q"
    and sl: "Thread_Sleep self_switch (call_handler ux) ?c q = Inr (q\<lparr>stats := st, the_console := Some (?cs1\<lparr>putBusy := False\<rparr>),
        threads := (threads q)(?c \<mapsto> th'), semaphores := (semaphores q)(sem \<mapsto> x\<lparr>sem_queue := [?c], sem_queue := [], sem_value := sem_value x + 1\<rparr>),
        pending := [poll_at (t + ConsoleTime)], yieldOnReturn := False, status := SystemMode\<rparr>)"
    unfolding cur by auto
  define z where "z = s\<lparr>stats := st, the_console := Some (cs\<lparr>display := display cs @ [ch]\<rparr>), threads := (threads s)(?c \<mapsto> th'),
      pending := [poll_at (t + ConsoleTime)]\<rparr>"
  have cs2: "?cs1\<lparr>putBusy := False\<rparr> = cs\<lparr>display := display cs @ [ch]\<rparr>" using assms(2) by simp
  have x0: "x\<lparr>sem_queue := [], sem_value := 0\<rparr> = x" using assms(5,6) by simp
  define r where "r = z\<lparr>level := IntOff, semaphores := (semaphores s)(sem \<mapsto> x\<lparr>sem_value := 1\<rparr>)\<rparr>"
  have x1: "x\<lparr>sem_queue := [], sem_value := 1\<rparr> = x\<lparr>sem_value := 1\<rparr>" using assms(5) by simp
  have zr: "Thread_Sleep self_switch (call_handler ux) ?c q = Inr r"
    using sl assms(1,6) x1 unfolding cs2 by (simp add: r_def z_def q_def s1_def at_rest_def)
  have rest: "at_rest ux (cs\<lparr>display := display cs @ [ch]\<rparr>) z"
    using assms(1) th' t st by (auto simp: at_rest_def z_def q_def s1_def quiet_def no_input_def poll_soon_def)
  let ?sleep = "\<lambda>s. Thread_Sleep self_switch (call_handler ux) (currentThread s) s"
  have "P_loop ?sleep sem r = Some (Inr r)" by (subst P_loop.simps) (simp add: sem_at_def r_def)
  moreover have "sem_enqueue sem (s1\<lparr>level := IntOff\<rparr>) = Inr q"
    using assms(4,5) by (simp add: sem_enqueue_def sem_at_def put_sem_def q_def s1_def)
  ultimately have "P_loop ?sleep sem (s1\<lparr>level := IntOff\<rparr>) = Some (Inr r)"
    using zr assms(4,6) cur by (simp add: P_loop.simps [of _ _ "s1\<lparr>level := IntOff\<rparr>"] sem_at_def) (simp add: s1_def)
  from lone_P_eq [OF _ _ this, where y = "x\<lparr>sem_value := 1\<rparr>" and yield = yield]
  have "lone_P ux yield sem s1 = OneTick (call_handler ux) yield (r\<lparr>semaphores := (semaphores s)(sem \<mapsto> x\<lparr>sem_value := 0\<rparr>), level := IntOn\<rparr>)"
    using lv by (simp add: s1_def r_def z_def)
  also have "r\<lparr>semaphores := (semaphores s)(sem \<mapsto> x\<lparr>sem_value := 0\<rparr>), level := IntOn\<rparr> = z\<lparr>semaphores := semaphores s\<rparr>"
    using x0 assms(4-6) lv by (simp add: r_def z_def fun_upd_idem)
  finally have "lone_P ux yield sem s1 = OneTick (call_handler ux) yield (z\<lparr>semaphores := semaphores s\<rparr>)" .
  moreover obtain s' :: "'a devices_scheme" where "OneTick (call_handler ux) yield (z\<lparr>semaphores := semaphores s\<rparr>) = Inr s'"
      "at_rest ux (cs\<lparr>display := display cs @ [ch]\<rparr>) s'" "only_io z s'" "semaphores s' = semaphores s"
    using tick_at_rest [OF rest, of yield "semaphores s"] by blast
  moreover have "only_io s z" unfolding only_io_def z_def
    by (intro exI [of _ st] exI [of _ "[poll_at (t + ConsoleTime)]"] exI [of _ "semaphores s"] exI [of _ "Some th'"]
        exI [of _ "Some (cs\<lparr>display := display cs @ [ch]\<rparr>)"]) simp
  ultimately show ?thesis using pc by (auto intro: only_io_trans)
qed

subsection \<open>Writing a line\<close>

text \<open>The process that runs is alone, the console is idle and its line is free.\<close>

definition console_ok :: "unix \<Rightarrow> 'a os_scheme \<Rightarrow> bool" where
  "console_ok ux s \<longleftrightarrow>
     readyList s = [] \<and> (\<exists>cs. at_rest ux cs s \<and> \<not> putBusy cs \<and> cs_writeHandler cs = Signal (synchWriteAvail s)) \<and>
     (\<exists>x. semaphores s (synchWriteAvail s) = Some x \<and> sem_queue x = [] \<and> sem_value x = 0) \<and>
     (\<exists>y. semaphores s (WLineBlock s) = Some y \<and> sem_queue y = [] \<and> sem_value y = 1)"

definition display_of :: "'a devices_scheme \<Rightarrow> byte list" where
  "display_of s = (case the_console s of None \<Rightarrow> [] | Some cs \<Rightarrow> display cs)"

lemma only_io_os:
  fixes s :: "'a os_scheme"
  assumes "only_io s s'"
  shows "synchWriteAvail s' = synchWriteAvail s" "WLineBlock s' = WLineBlock s" "readyList s' = readyList s"
  using assms by (auto simp: only_io_def)

text \<open>All that the console and the semaphores leave alone.\<close>

lemma only_io_keeps:
  fixes s :: "'a os_scheme"
  assumes "only_io s s'"
  shows "mainMemory s' = mainMemory s" "tables s' = tables s" "spaces s' = spaces s" "hostfs s' = hostfs s"
    "gPhysPageBitmap s' = gPhysPageBitmap s" "addrLock s' = addrLock s" "next_addr s' = next_addr s" "registers s' = registers s"
    "pageTable s' = pageTable s" "pageTableSize s' = pageTableSize s" "tlb s' = tlb s" "currentThread s' = currentThread s"
    "pcbs s' = pcbs s" "pt_bm s' = pt_bm s" "bmsem s' = bmsem s" "st_bm s' = st_bm s" "semtab s' = semtab s" "open_files s' = open_files s"
    "readyList s' = readyList s"
  using assms by (auto simp: only_io_def)

lemma real_env_simps [simp]:
  "opP (real_env self_switch ux yield al jb jw) = lone_P ux yield"
  "opV (real_env self_switch ux yield al jb jw) = Semaphore_V (OneTick (call_handler ux) yield)"
  "fresh_byte (real_env sw ux yield al jb jw) = jb" "fresh_word (real_env sw ux yield al jb jw) = jw"
  "may_open (real_env sw ux yield al jb jw) = al"
  by (simp_all add: real_env_def Let_def lone_P_def)

lemma console_loop:
  fixes s :: "'a os_scheme"
  assumes "at_rest ux cs s" "\<not> putBusy cs" "cs_writeHandler cs = Signal (synchWriteAvail s)"
    and "semaphores s (synchWriteAvail s) = Some x" "sem_queue x = []" "sem_value x = 0" and "n \<le> length buf" and "readyList s = []"
  shows "\<exists>s' :: 'a os_scheme. for_each (\<lambda>i u. rbind (arr_get buf (int i)) (\<lambda>c. put_char (real_env self_switch ux yield al jb jw) c u)) [0..<n] s = Inr s' \<and>
    at_rest ux (cs\<lparr>display := display cs @ take n buf\<rparr>) s' \<and> only_io s s' \<and> semaphores s' = semaphores s"
proof (rule for_each_upt_inv [where I = "\<lambda>i u. at_rest ux (cs\<lparr>display := display cs @ take i buf\<rparr>) u \<and> only_io s u \<and> semaphores u = semaphores s"])
  show "at_rest ux (cs\<lparr>display := display cs @ take 0 buf\<rparr>) s \<and> only_io s s \<and> semaphores s = semaphores s"
    using assms(1) by simp
next
  fix i and u :: "'a os_scheme"
  let ?cs = "\<lambda>i. cs\<lparr>display := display cs @ take i buf\<rparr>"
  assume i: "i < n" and u: "at_rest ux (?cs i) u \<and> only_io s u \<and> semaphores u = semaphores s"
  then have w: "synchWriteAvail u = synchWriteAvail s" using only_io_os(1) by blast
  have "\<exists>u' :: 'a os_scheme. rbind (PutChar (buf ! i) u) (lone_P ux yield (synchWriteAvail s)) = Inr u' \<and>
      at_rest ux ((?cs i)\<lparr>display := display (?cs i) @ [buf ! i]\<rparr>) u' \<and> only_io u u' \<and> semaphores u' = semaphores u"
    by (rule put_char_returns [where x = x]) (use u assms(2-6,8) only_io_os(3) [of s u] in auto)
  then obtain u' :: "'a os_scheme" where u': "rbind (PutChar (buf ! i) u) (lone_P ux yield (synchWriteAvail s)) = Inr u'"
      "at_rest ux ((?cs i)\<lparr>display := display (?cs i) @ [buf ! i]\<rparr>) u'" "only_io u u'" "semaphores u' = semaphores u" by blast
  have "put_char (real_env self_switch ux yield al jb jw) (buf ! i) u = Inr u'"
    using u'(1) w by (auto simp: put_char_def rbind_eq_Inr PutChar_def Schedule_def Let_def)
  moreover have "(?cs i)\<lparr>display := display (?cs i) @ [buf ! i]\<rparr> = ?cs (Suc i)"
    using i assms(7) by (simp add: take_Suc_conv_app_nth)
  ultimately show "\<exists>u'. rbind (arr_get buf (int i)) (\<lambda>c. put_char (real_env self_switch ux yield al jb jw) c u) = Inr u' \<and>
      at_rest ux (?cs (Suc i)) u' \<and> only_io s u' \<and> semaphores u' = semaphores s"
    using i assms(7) u u' by (auto intro: only_io_trans)
qed

lemma SynchConsole_Write_ok:
  fixes s :: "'a os_scheme"
  assumes "console_ok ux s" "nat n \<le> length buf"
  shows "\<exists>s' :: 'a os_scheme. SynchConsole_Write (real_env self_switch ux yield al jb jw) buf n s = Inr (n, s') \<and> console_ok ux s' \<and>
    display_of s' = display_of s @ take (nat n) buf \<and> only_io s s'"
proof -
  from assms(1) obtain cs x y where cs: "at_rest ux cs s" "\<not> putBusy cs" "cs_writeHandler cs = Signal (synchWriteAvail s)"
    and x: "semaphores s (synchWriteAvail s) = Some x" "sem_queue x = []" "sem_value x = 0"
    and y: "semaphores s (WLineBlock s) = Some y" "sem_queue y = []" "sem_value y = 1"
    and r: "readyList s = []" by (auto simp: console_ok_def)
  have ne: "synchWriteAvail s \<noteq> WLineBlock s" using x y by auto
  obtain s1 :: "'a os_scheme" where s1: "lone_P ux yield (WLineBlock s) s = Inr s1" "at_rest ux cs s1" "only_io s s1"
      "semaphores s1 = (semaphores s)(WLineBlock s \<mapsto> y\<lparr>sem_value := 0\<rparr>)"
    using P_free [OF cs(1) y(1), of yield] y(3) by auto
  note f1 = only_io_os [OF s1(3)]
  obtain s2 :: "'a os_scheme" where s2: "for_each (\<lambda>i u. rbind (arr_get buf (int i)) (\<lambda>c. put_char (real_env self_switch ux yield al jb jw) c u)) [0..<nat n] s1 = Inr s2"
      "at_rest ux (cs\<lparr>display := display cs @ take (nat n) buf\<rparr>) s2" "only_io s1 s2" "semaphores s2 = semaphores s1"
    using console_loop [OF s1(2) cs(2), of x "nat n" buf yield al jb jw] cs(3) x r ne s1(4) f1 assms(2) by auto
  note f2 = only_io_os [OF s2(3)]
  have y2: "semaphores s2 (WLineBlock s2) = Some (y\<lparr>sem_value := 0\<rparr>)" using s1(4) s2(4) f1 f2 by simp
  obtain s3 :: "'a os_scheme" where s3: "Semaphore_V (OneTick (call_handler ux) yield) (WLineBlock s2) s2 = Inr s3"
      "at_rest ux (cs\<lparr>display := display cs @ take (nat n) buf\<rparr>) s3" "only_io s2 s3"
      "semaphores s3 = (semaphores s2)(WLineBlock s2 \<mapsto> y\<lparr>sem_value := 1\<rparr>)"
    using V_free [OF s2(2) y2, of yield] y(2) by auto
  note f3 = only_io_os [OF s3(3)]
  have "y\<lparr>sem_value := 1\<rparr> = y" using y(3) by simp
  then have "semaphores s3 = semaphores s" using s3(4) s2(4) s1(4) f1 f2 y(1) by (simp add: fun_upd_idem)
  moreover have d: "the_console s3 = Some (cs\<lparr>display := display cs @ take (nat n) buf\<rparr>)" "the_console s = Some cs"
    using s3(2) cs(1) by (simp_all add: at_rest_def)
  ultimately have "console_ok ux s3" using s3(2) cs x y r f1 f2 f3 by (auto simp: console_ok_def)
  moreover have "only_io s s3" using s1(3) s2(3) s3(3) by (blast intro: only_io_trans)
  ultimately show ?thesis
    using s1(1) s2(1) s3(1) d by (simp add: SynchConsole_Write_def display_of_def)
qed

text \<open>What a caller of \<^verbatim>\<open>SynchConsole::Write\<close> relies on: the call returns, the bytes are on the display, and
  nothing else has changed.\<close>

locale console_writer =
  fixes e :: "'a os_scheme env" and ok :: "'a os_scheme \<Rightarrow> bool"
  assumes write_law: "ok s \<Longrightarrow> nat n \<le> length buf \<Longrightarrow>
      \<exists>s' :: 'a os_scheme. SynchConsole_Write e buf n s = Inr (n, s') \<and> ok s' \<and> display_of s' = display_of s @ take (nat n) buf \<and> only_io s s'"
    and ok_tables: "ok s \<Longrightarrow> ok (s\<lparr>tables := ts\<rparr>)"
begin

lemma write_one:
  assumes "ok s"
  shows "\<exists>s' :: 'a os_scheme. SynchConsole_Write e [c] 1 s = Inr (1, s') \<and> ok s' \<and> display_of s' = display_of s @ [c] \<and> only_io s s'"
  using write_law [OF assms, of 1 "[c]"] by simp

end

lemma at_rest_tables: "at_rest ux cs s \<Longrightarrow> at_rest ux cs (s\<lparr>tables := ts\<rparr>)"
  by (auto simp: at_rest_def quiet_def)

interpretation lone_console: console_writer "real_env self_switch ux yield al jb jw" "console_ok ux" for ux yield al jb jw
proof
  fix s :: "'a os_scheme" and n and buf :: "byte list"
  assume "console_ok ux s" "nat n \<le> length buf"
  then show "\<exists>s'. SynchConsole_Write (real_env self_switch ux yield al jb jw) buf n s = Inr (n, s') \<and> console_ok ux s' \<and>
      display_of s' = display_of s @ take (nat n) buf \<and> only_io s s'"
    by (rule SynchConsole_Write_ok)
next
  fix s :: "'a os_scheme" and ts
  assume "console_ok ux s"
  then show "console_ok ux (s\<lparr>tables := ts\<rparr>)"
    unfolding console_ok_def by (auto intro: at_rest_tables)
qed

subsection \<open>One process in the kernel\<close>

text \<open>The parts of the machine that scheduling and interrupts depend on are the same.\<close>

definition same_processor :: "'a devices_scheme \<Rightarrow> 'a devices_scheme \<Rightarrow> bool" where
  "same_processor s s' \<longleftrightarrow> level s' = level s \<and> status s' = status s \<and> inHandler s' = inHandler s \<and> yieldOnReturn s' = yieldOnReturn s \<and>
     threadToBeDestroyed s' = threadToBeDestroyed s \<and> registers s' = registers s \<and>
     currentThread s' = currentThread s \<and> threads s' (currentThread s) = threads s (currentThread s) \<and>
     the_console s' = the_console s \<and> pending s' = pending s \<and> stats s' = stats s \<and> pageTable s' = pageTable s \<and>
     pageTableSize s' = pageTableSize s \<and> spaces s \<subseteq>\<^sub>m spaces s'"

lemma same_processor_refl [simp]: "same_processor s s"
  by (simp add: same_processor_def)

text \<open>What kernel code relies on when it runs for the only process: a semaphore with a positive value lets it pass,
  \<^verbatim>\<open>V\<close> without a waiting thread returns as long as the value stays an \<^verbatim>\<open>int\<close>, and neither changes anything but the semaphore, the clock and the devices. With nobody else to run, waiting at a semaphore whose
  value is 0 never ends; \<^verbatim>\<open>V\<close> at the largest \<^verbatim>\<open>int\<close> is undefined.\<close>

locale lone_kernel =
  fixes e :: "'a os_scheme env" and ok :: "'a os_scheme \<Rightarrow> bool"
  assumes P_law: "ok s \<Longrightarrow> semaphores s m = Some y \<Longrightarrow> sem_value y \<noteq> 0 \<Longrightarrow>
      \<exists>s' :: 'a os_scheme. opP e m s = Inr s' \<and> ok s' \<and> only_io s s' \<and> semaphores s' = (semaphores s)(m \<mapsto> y\<lparr>sem_value := sem_value y - 1\<rparr>) \<and>
        threads s' = threads s"
    and V_law: "ok s \<Longrightarrow> semaphores s m = Some y \<Longrightarrow> sem_queue y = [] \<Longrightarrow> word_range (sem_value y + 1) \<Longrightarrow>
      \<exists>s' :: 'a os_scheme. opV e m s = Inr s' \<and> ok s' \<and> only_io s s' \<and> semaphores s' = (semaphores s)(m \<mapsto> y\<lparr>sem_value := sem_value y + 1\<rparr>) \<and>
        threads s' = threads s"
    and P_starve_law: "ok s \<Longrightarrow> semaphores s m = Some y \<Longrightarrow> sem_value y = 0 \<Longrightarrow> readyList s = [] \<Longrightarrow> opP e m s = Inl Diverged"
    and V_overflow_law: "ok s \<Longrightarrow> semaphores s m = Some y \<Longrightarrow> sem_queue y = [] \<Longrightarrow> \<not> word_range (sem_value y + 1) \<Longrightarrow> opV e m s = Inl Undefined"
    and ok_same: "ok s \<Longrightarrow> same_processor s s' \<Longrightarrow> ok s'"

definition resting :: "unix \<Rightarrow> 'a devices_scheme \<Rightarrow> bool" where
  "resting ux s \<longleftrightarrow> (\<exists>cs. at_rest ux cs s)"

lemma at_rest_same:
  assumes "at_rest ux cs s" "same_processor s s'"
  shows "at_rest ux cs s'"
proof -
  from assms(1) obtain th where th: "threads s (currentThread s) = Some th" "own_context th s" by (auto simp: at_rest_def)
  have "spaces s' a = Some as" if "spaces s a = Some as" for a as
    using that assms(2) unfolding same_processor_def map_le_def by (metis domI)
  then have "own_context th s'"
    using th(2) assms(2) unfolding own_context_def same_processor_def by (cases "th_space th") auto
  then show ?thesis using assms th(1) by (auto simp: at_rest_def same_processor_def quiet_def)
qed

interpretation lone: lone_kernel "real_env self_switch ux yield al jb jw" "resting ux" for ux yield al jb jw
proof
  fix s :: "'a os_scheme" and m y
  assume "resting ux s" and y: "semaphores s m = Some y" "sem_value y \<noteq> 0"
  then show "\<exists>s'. opP (real_env self_switch ux yield al jb jw) m s = Inr s' \<and> resting ux s' \<and> only_io s s' \<and>
      semaphores s' = (semaphores s)(m \<mapsto> y\<lparr>sem_value := sem_value y - 1\<rparr>) \<and> threads s' = threads s"
    using P_free [OF _ y, of ux _ yield] by (fastforce simp: resting_def)
next
  fix s :: "'a os_scheme" and m y
  assume "resting ux s" and y: "semaphores s m = Some y" "sem_queue y = []" "word_range (sem_value y + 1)"
  then show "\<exists>s'. opV (real_env self_switch ux yield al jb jw) m s = Inr s' \<and> resting ux s' \<and> only_io s s' \<and>
      semaphores s' = (semaphores s)(m \<mapsto> y\<lparr>sem_value := sem_value y + 1\<rparr>) \<and> threads s' = threads s"
    using V_free [OF _ y, of ux _ yield] by (fastforce simp: resting_def)
next
  fix s :: "'a os_scheme" and m y
  assume "resting ux s" "semaphores s m = Some y" "sem_value y = 0" "readyList s = []"
  then show "opP (real_env self_switch ux yield al jb jw) m s = Inl Diverged"
    using P_starves by (auto simp: resting_def)
next
  fix s :: "'a os_scheme" and m y
  assume "resting ux s" "semaphores s m = Some y" "sem_queue y = []" "\<not> word_range (sem_value y + 1)"
  then show "opV (real_env self_switch ux yield al jb jw) m s = Inl Undefined"
    using V_overflow by (auto simp: resting_def)
next
  fix s s' :: "'a os_scheme"
  assume "resting ux s" "same_processor s s'"
  then show "resting ux s'" unfolding resting_def using at_rest_same by blast
qed

subsection \<open>The constructor\<close>

text \<open>A kernel in which one thread runs and nothing is pending.\<close>

definition booting :: "'a devices_scheme \<Rightarrow> bool" where
  "booting s \<longleftrightarrow> level s = IntOn \<and> status s = SystemMode \<and> inHandler s = False \<and> yieldOnReturn s = False \<and> readyList s = [] \<and>
     threadToBeDestroyed s = None \<and> quiet s \<and> (\<exists>th. threads s (currentThread s) = Some th \<and> own_context th s) \<and> pending s = []"

lemma SynchConsole_new_ok:
  fixes s :: "'a os_scheme"
  assumes "booting s" "\<forall>t. \<not> poll_file ux t"
  shows "\<exists>s' :: 'a os_scheme. SynchConsole_new input s = Inr s' \<and> console_ok ux s' \<and> display_of s' = []"
proof -
  define t where "t = now s + ConsoleTime"
  let ?a = "next_addr s"
  define cs where "cs = \<lparr>keyboard = input, display = [], cs_writeHandler = Signal (Suc ?a), cs_readHandler = Signal ?a, putBusy = False, incoming = EOF\<rparr>"
  define s' where "s' = s\<lparr>the_console := Some cs, pending := [poll_at t],
     semaphores := (semaphores s)(?a \<mapsto> Semaphore_new ''Synch Read Avail'' 0, Suc ?a \<mapsto> Semaphore_new ''Synch Write Avail'' 0,
       Suc (Suc ?a) \<mapsto> Semaphore_new ''Read Synch Line Block'' 1, Suc (Suc (Suc ?a)) \<mapsto> Semaphore_new ''Write Synch Line Block'' 1),
     next_addr := ?a + 4, synchReadAvail := ?a, synchWriteAvail := Suc ?a, RLineBlock := Suc (Suc ?a), WLineBlock := Suc (Suc (Suc ?a))\<rparr>"
  have "SynchConsole_new input s = Inr s'"
    using assms(1)
    by (simp add: SynchConsole_new_def Console_new_def Schedule_def Let_def new_semaphore_def put_sem_def ConsoleTime_def booting_def
        s'_def cs_def t_def poll_at_def now_def)
  moreover have "at_rest ux cs s'"
    using assms by (auto simp: at_rest_def booting_def s'_def quiet_def no_input_def poll_soon_def t_def now_def ConsoleTime_def)
  then have "console_ok ux s'" using assms(1)
    by (auto simp: console_ok_def booting_def s'_def cs_def Semaphore_new_def)
  moreover have "display_of s' = []" by (simp add: display_of_def s'_def cs_def)
  ultimately show ?thesis by blast
qed

subsection \<open>Properties\<close>

text \<open>C21. \<^verbatim>\<open>SynchConsole::Write\<close> returns and has displayed the bytes. The process that calls it is the only one,
  the console is idle and no key is pressed meanwhile (or a key already pressed has not been fetched). Then the
  call blocks on every character, the idle loop runs the pending interrupts of the console in the order of their
  times, the write interrupt wakes the process up, and in the end the call returns the number of bytes, the display
  has received exactly these bytes in order, the console is ready for the next line, and except for the
  clock, the pending interrupts, the process's own thread object and the console nothing has changed:
  no register, no memory, no table of the kernel.\<close>

theorem SynchConsole_Write_displays:
  fixes s :: "'a os_scheme"
  assumes "console_ok ux s" and "0 \<le> n" and "nat n \<le> length buf"
  shows "\<exists>s' :: 'a os_scheme. SynchConsole_Write (real_env self_switch ux yield al jb jw) buf n s = Inr (n, s') \<and> console_ok ux s' \<and>
    display_of s' = display_of s @ take (nat n) buf \<and> only_io s s'"
  by (rule lone_console.write_law [OF assms(1,3)])

definition silence :: unix where
  "silence = \<lparr>poll_file = (\<lambda>_. False), poll_socket = (\<lambda>_. False), rand = (\<lambda>_. 0)\<rparr>"

definition os_machine :: os where
  "os_machine =
     \<lparr>registers = replicate NumTotalRegs 0, mainMemory = (\<lambda>_. 0), tables = Map.empty, tlb = None,
      pageTable = None, pageTableSize = 0, singleStep = False, runUntilTime = 0,
      stats = Statistics_new, level = IntOn, pending = [], inHandler = False, yieldOnReturn = False, status = SystemMode,
      threads = [0 \<mapsto> (Thread_new ''main'' [])\<lparr>th_status := RUNNING\<rparr>], currentThread = 0, threadToBeDestroyed = None, readyList = [],
      semaphores = Map.empty, spaces = Map.empty, the_timer = None, the_console = None, the_disk = None, the_network = None,
      random_calls = 0, hostfs = \<lparr>u_names = Map.empty, u_inodes = (\<lambda>_. []), u_fds = [], u_next = 0\<rparr>,
      open_files = replicate 10 None, gPhysPageBitmap = \<lparr>numBits = 0, numWords = 0, bmap = []\<rparr>, addrLock = 0, pcbs = [],
      pt_bm = \<lparr>numBits = 0, numWords = 0, bmap = []\<rparr>, bmsem = 0, st_bm = \<lparr>numBits = 0, numWords = 0, bmap = []\<rparr>, semtab = [],
      synchReadAvail = 0, synchWriteAvail = 0, RLineBlock = 0, WLineBlock = 0, next_addr = 1\<rparr>"

lemma os_machine_booting: "booting os_machine"
  by (simp add: booting_def os_machine_def quiet_def own_context_def Thread_new_def const_defs)

theorem SynchConsole_Write_displays_witness:
  "\<exists>s s'. SynchConsole_new [] os_machine = Inr s \<and>
     SynchConsole_Write (real_env self_switch silence Inr (\<lambda>_. True) (\<lambda>_. 0) (\<lambda>_. 0)) [72, 105, 10] 2 s = Inr (2, s') \<and> display_of s' = [72, 105]"
proof -
  from SynchConsole_new_ok [OF os_machine_booting, of silence "[]"] obtain s :: os where
    s: "SynchConsole_new [] os_machine = Inr s" "console_ok silence s" "display_of s = []" by (auto simp: silence_def)
  from SynchConsole_Write_displays [OF s(2), of 2 "[72, 105, 10]" Inr "\<lambda>_. True" "\<lambda>_. 0" "\<lambda>_. 0"] s(1,3)
  show ?thesis by auto
qed

end
