(* ===== verification/Syscalls.thy ===== *)
theory Syscalls
  imports Process_Table Semaphore_Table Synch_Console
begin

text \<open>
  The trap handler: userprog/exception.cc with the constants of userprog/syscall.h. There is one
  definition for each case of the switch over the system call code, and \<open>ExceptionHandler\<close> selects the
  case, advances the program counters after it, and treats every other exception.

  The copies between user and kernel space go through \<^verbatim>\<open>ReadMem\<close> and \<^verbatim>\<open>WriteMem\<close>, which may themselves
  raise a fault; such a nested exception is never a system call, so it is handled by \<open>fault_handler\<close>, the
  part of the handler below that switch. A buffer is a list of its bytes; an access outside it is \<open>Undefined\<close>.
\<close>

subsection \<open>Faults\<close>

definition advance_counters :: "'a machine_scheme \<Rightarrow> 'a machine_scheme res" where
  "advance_counters s =
     rbind (reg s PCReg) (\<lambda>pc.
     rbind (set_reg PrevPCReg pc s) (\<lambda>s1.
     rbind (reg s1 NextPCReg) (\<lambda>npc.
     rbind (set_reg PCReg npc s1) (\<lambda>s2.
     rbind (reg s2 NextPCReg) (\<lambda>n.
     set_reg NextPCReg (n + 4) s2)))))"

definition fault_handler :: "'a hardware_scheme handler" where
  "fault_handler which s =
     (case which of
        NoException \<Rightarrow> advance_counters s
      | SyscallException \<Rightarrow> Inl Undefined
      | PageFaultException \<Rightarrow> Halt s
      | ReadOnlyException \<Rightarrow> Halt s
      | BusErrorException \<Rightarrow> Halt s
      | AddressErrorException \<Rightarrow> Halt s
      | OverflowException \<Rightarrow> Halt s
      | IllegalInstrException \<Rightarrow> Halt s
      | NumExceptionTypes \<Rightarrow> Halt s)"

subsection \<open>Copies between user and kernel space\<close>

definition MaxFileLength :: int where [const_defs]: "MaxFileLength = 32"
definition MAX_INT_LENGTH :: int where [const_defs]: "MAX_INT_LENGTH = 10"
definition LIMIT :: int where [const_defs]: "LIMIT = 255"

text \<open>\<open>k\<close> iterations are left; \<open>i\<close> is the index. The result of a failed \<^verbatim>\<open>ReadMem\<close> would be an
  uninitialised variable.\<close>

fun u2s_loop :: "int32 \<Rightarrow> nat \<Rightarrow> nat \<Rightarrow> byte list \<Rightarrow> 'a hardware_scheme \<Rightarrow> (byte list \<times> 'a hardware_scheme) res" where
  "u2s_loop virtAddr i 0 kernelBuf s = Inr (kernelBuf, s)"
| "u2s_loop virtAddr i (Suc k) kernelBuf s =
     rbind (ReadMem fault_handler (virtAddr + of_nat i) 1 s) (\<lambda>(r, s1). case r of
         None \<Rightarrow> Inl Undefined
       | Some oneChar \<Rightarrow>
           rbind (arr_set kernelBuf (int i) (ucast oneChar)) (\<lambda>buf.
           if oneChar = 0 then Inr (buf, s1) else u2s_loop virtAddr (Suc i) k buf s1))"

definition User2System :: "int32 \<Rightarrow> int \<Rightarrow> 'a hardware_scheme \<Rightarrow> (byte list \<times> 'a hardware_scheme) res" where
  "User2System virtAddr limit s =
     rbind (cint (limit + 1)) (\<lambda>size.
     if size < 0 then Inl Undefined
     else u2s_loop virtAddr 0 (nat limit) (replicate (nat size) 0) s)"

fun s2u_loop :: "int32 \<Rightarrow> nat \<Rightarrow> nat \<Rightarrow> byte list \<Rightarrow> 'a hardware_scheme \<Rightarrow> (int \<times> 'a hardware_scheme) res" where
  "s2u_loop virtAddr i 0 buffer s = Inr (int i, s)"
| "s2u_loop virtAddr i (Suc k) buffer s =
     rbind (arr_get buffer (int i)) (\<lambda>oneChar.
     rbind (WriteMem fault_handler (virtAddr + of_nat i) 1 (scast oneChar) s) (\<lambda>(_, s1).
     if oneChar \<noteq> 0 then s2u_loop virtAddr (Suc i) k buffer s1 else Inr (int (Suc i), s1)))"

definition System2User :: "int32 \<Rightarrow> int \<Rightarrow> byte list \<Rightarrow> 'a hardware_scheme \<Rightarrow> (int \<times> 'a hardware_scheme) res" where
  "System2User virtAddr len buffer s =
     (if len < 0 then Inr (- 1, s)
      else if len = 0 then Inr (len, s)
      else s2u_loop virtAddr 0 (nat len) buffer s)"

subsection \<open>Console input and output\<close>

text \<open>The argument registers, and the result register.\<close>

definition arg_int :: "int \<Rightarrow> 'a machine_scheme \<Rightarrow> int res" where
  "arg_int r s = rbind (ReadRegister r s) (\<lambda>w. Inr (sint w))"

definition result :: "int \<Rightarrow> 'a machine_scheme \<Rightarrow> 'a machine_scheme res" where
  "result v s = WriteRegister 2 (word_of_int v) s"

definition fresh_buffer :: "'a os_scheme env \<Rightarrow> int \<Rightarrow> byte list res" where
  "fresh_buffer e n = (if n < 0 then Inl Undefined else Inr (map (fresh_byte e) [0..<nat n]))"

function skip_blanks :: "byte list \<Rightarrow> int \<Rightarrow> int res" where
  "skip_blanks buffer i =
     rbind (arr_get buffer i) (\<lambda>c. if c = 32 \<or> c = 9 then skip_blanks buffer (i + 1) else Inr i)"
  by pat_completeness auto
termination
  by (relation "measure (\<lambda>(buffer, i). nat (int (length buffer) - i))") (auto simp: arr_get_eq_Inr)

text \<open>The digits: \<open>None\<close> when one of the characters is not a digit.\<close>

function read_digits :: "byte list \<Rightarrow> int \<Rightarrow> int \<Rightarrow> int \<Rightarrow> int option res" where
  "read_digits buffer nDigit i number =
     (if i < nDigit
      then rbind (arr_get buffer i) (\<lambda>c.
           if 48 \<le> c \<and> c \<le> 57
           then rbind (cint (number * 10)) (\<lambda>n10.
                rbind (cint (n10 + uint (c AND 0xF))) (\<lambda>n. read_digits buffer nDigit (i + 1) n))
           else Inr None)
      else Inr (Some number))"
  by pat_completeness auto
termination
  by (relation "measure (\<lambda>(buffer, nDigit, i, number). nat (nDigit - i))") auto

definition parse_int :: "byte list \<Rightarrow> int \<Rightarrow> int res" where
  "parse_int buffer nDigit =
     rbind (skip_blanks buffer 0) (\<lambda>i.
     rbind (arr_get buffer i) (\<lambda>c.
     let negative = (c = 45) in
     rbind (read_digits buffer nDigit (if negative then i + 1 else i) 0) (\<lambda>r. case r of
         None \<Rightarrow> Inr 0
       | Some number \<Rightarrow> Inr (if negative then - number else number))))"

definition do_ReadInt :: "'a os_scheme env \<Rightarrow> 'a os_scheme \<Rightarrow> 'a os_scheme res" where
  "do_ReadInt e s =
     rbind (fresh_buffer e MAX_INT_LENGTH) (\<lambda>buffer0.
     rbind (SynchConsole_Read e buffer0 MAX_INT_LENGTH s) (\<lambda>(nDigit, buffer, s1).
     rbind (parse_int buffer nDigit) (\<lambda>number. result number s1)))"

text \<open>The digits of \<open>n\<close>, last digit first, stored from index \<open>i\<close> on.\<close>

function put_digits :: "byte list \<Rightarrow> int \<Rightarrow> int \<Rightarrow> (byte list \<times> int) res" where
  "put_digits buf i n =
     rbind (arr_set buf i (of_int (n smod 10 + 48))) (\<lambda>buf1.
     if n sdiv 10 > 0 then put_digits buf1 (i + 1) (n sdiv 10) else Inr (buf1, i + 1))"
  by pat_completeness auto
termination
proof (relation "measure (\<lambda>(buf, i, n). nat n)")
  fix buf :: "byte list" and i n :: int and buf1
  assume "n sdiv 10 > 0"
  then have "0 < n" by (cases "0 \<le> n") (auto simp: signed_divide_int_def sgn_if split: if_splits)
  then show "((buf1, i + 1, n sdiv 10), buf, i, n) \<in> measure (\<lambda>(buf, i, n). nat n)" by simp
qed simp

text \<open>The loop \<^verbatim>\<open>while (i-- > mid)\<close> that reverses the first \<open>sz\<close> characters: \<open>i\<close> before the test.\<close>

function swap_ends :: "int \<Rightarrow> int \<Rightarrow> int \<Rightarrow> byte list \<Rightarrow> byte list res" where
  "swap_ends sz mid i buf =
     (if i > mid
      then
        let j = i - 1 in
        rbind (arr_get buf (sz - j - 1)) (\<lambda>tmp.
        rbind (arr_get buf j) (\<lambda>c.
        rbind (arr_set buf (sz - j - 1) c) (\<lambda>buf1.
        rbind (arr_set buf1 j tmp) (\<lambda>buf2. swap_ends sz mid j buf2))))
      else Inr buf)"
  by pat_completeness auto
termination
  by (relation "measure (\<lambda>(sz, mid, i, buf). nat (i - mid))") auto

definition int_chars :: "byte list \<Rightarrow> int \<Rightarrow> (byte list \<times> int) res" where
  "int_chars buf n =
     rbind (put_digits buf 0 n) (\<lambda>(buf1, sz).
     rbind (arr_set buf1 sz 10) (\<lambda>buf2.
     rbind (swap_ends sz (sz sdiv 2) sz buf2) (\<lambda>buf3. Inr (buf3, sz))))"

definition do_PrintInt :: "'a os_scheme env \<Rightarrow> 'a os_scheme \<Rightarrow> 'a os_scheme res" where
  "do_PrintInt e s =
     rbind (fresh_buffer e MAX_INT_LENGTH) (\<lambda>buf0.
     rbind (arg_int 4 s) (\<lambda>n0.
     rbind (if n0 < 0
            then rbind (SynchConsole_Write e [45] 1 s) (\<lambda>(_, s1). rbind (cint (- n0)) (\<lambda>n. Inr (n, s1)))
            else Inr (n0, s)) (\<lambda>(n, s1).
     rbind (int_chars buf0 n) (\<lambda>(buf, sz).
     rbind (SynchConsole_Write e buf sz s1) (\<lambda>(_, s2). Inr s2)))))"

definition do_ReadChar :: "'a os_scheme env \<Rightarrow> 'a os_scheme \<Rightarrow> 'a os_scheme res" where
  "do_ReadChar e s =
     rbind (fresh_buffer e MAX_INT_LENGTH) (\<lambda>buf0.
     rbind (SynchConsole_Read e buf0 MAX_INT_LENGTH s) (\<lambda>(sz, buf, s1).
     rbind (arr_get buf (sz - 1)) (\<lambda>c. WriteRegister 2 (scast c) s1)))"

definition do_PrintChar :: "'a os_scheme env \<Rightarrow> 'a os_scheme \<Rightarrow> 'a os_scheme res" where
  "do_PrintChar e s =
     rbind (ReadRegister 4 s) (\<lambda>w.
     rbind (SynchConsole_Write e [ucast w] 1 s) (\<lambda>(_, s1). Inr s1))"

definition do_ReadString :: "'a os_scheme env \<Rightarrow> 'a os_scheme \<Rightarrow> 'a os_scheme res" where
  "do_ReadString e s =
     rbind (fresh_buffer e LIMIT) (\<lambda>buf0.
     rbind (ReadRegister 4 s) (\<lambda>bufAddrUser.
     rbind (arg_int 5 s) (\<lambda>len.
     rbind (SynchConsole_Read e buf0 len s) (\<lambda>(sz, buf, s1).
     rbind (System2User bufAddrUser sz buf s1) (\<lambda>(_, s2). Inr s2)))))"

text \<open>The loop that writes a string one character at a time, from index \<open>i\<close> to the terminating zero.\<close>

function put_string :: "'a os_scheme env \<Rightarrow> byte list \<Rightarrow> int \<Rightarrow> 'a os_scheme \<Rightarrow> (int \<times> 'a os_scheme) res" where
  "put_string e buf i s =
     rbind (arr_get buf i) (\<lambda>c.
     if c \<noteq> 0
     then rbind (SynchConsole_Write e [c] 1 s) (\<lambda>(_, s1). put_string e buf (i + 1) s1)
     else Inr (i, s))"
  by pat_completeness auto
termination
  by (relation "measure (\<lambda>(e, buf, i, s). nat (int (length buf) - i))") (auto simp: arr_get_eq_Inr)

declare skip_blanks.simps [simp del] read_digits.simps [simp del] put_digits.simps [simp del] swap_ends.simps [simp del]
  put_string.simps [simp del]

definition do_PrintString :: "'a os_scheme env \<Rightarrow> 'a os_scheme \<Rightarrow> 'a os_scheme res" where
  "do_PrintString e s =
     rbind (ReadRegister 4 s) (\<lambda>bufAddr.
     rbind (User2System bufAddr LIMIT s) (\<lambda>(buf, s1).
     rbind (put_string e buf 0 s1) (\<lambda>(_, s2). Inr s2)))"

subsection \<open>Files\<close>

text \<open>\<^verbatim>\<open>SC_Create\<close> returns from the handler without advancing the program counters when it fails: the first
  component says whether the case ends with \<^verbatim>\<open>break\<close>.\<close>

definition do_Create :: "'a os_scheme env \<Rightarrow> 'a os_scheme \<Rightarrow> (bool \<times> 'a os_scheme) res" where
  "do_Create e s =
     rbind (ReadRegister 4 s) (\<lambda>virtAddr.
     rbind (User2System virtAddr (MaxFileLength + 1) s) (\<lambda>(filename, s1).
     rbind (StubFS_Create e (c_string filename) 0 s1) (\<lambda>(ok, s2).
     if \<not> ok then rbind (result (- 1) s2) (\<lambda>s3. Inr (False, s3))
     else rbind (result 0 s2) (\<lambda>s3. Inr (True, s3)))))"

definition do_CreateFile :: "'a os_scheme env \<Rightarrow> 'a os_scheme \<Rightarrow> 'a os_scheme res" where
  "do_CreateFile e s =
     rbind (ReadRegister 4 s) (\<lambda>bufAddr.
     rbind (User2System bufAddr LIMIT s) (\<lambda>(buf, s1).
     rbind (StubFS_Create e (c_string buf) 0 s1) (\<lambda>(ok, s2).
     if \<not> ok then result (- 1) s2 else result 0 s2)))"

definition set_file :: "int \<Rightarrow> StubFile option \<Rightarrow> 'a os_scheme \<Rightarrow> 'a os_scheme res" where
  "set_file m f s = rbind (arr_set (open_files s) m f) (\<lambda>t. Inr (s\<lparr>open_files := t\<rparr>))"

definition do_OpenFileID :: "'a os_scheme env \<Rightarrow> 'a os_scheme \<Rightarrow> 'a os_scheme res" where
  "do_OpenFileID e s =
     rbind (ReadRegister 4 s) (\<lambda>bufAddr.
     rbind (arg_int 5 s) (\<lambda>type.
     rbind (StubFS_findFreeSlot s) (\<lambda>freeSlot.
     if freeSlot \<ge> 10 then result (- 1) s
     else
       rbind (User2System bufAddr LIMIT s) (\<lambda>(buf, s1).
       if c_string buf = name_stdin then result 0 s1
       else if c_string buf = name_stdout then result 1 s1
       else
         rbind (StubFS_Open e (c_string buf) type s1) (\<lambda>(f, s2).
         rbind (set_file (int freeSlot) f s2) (\<lambda>s3.
         if f \<noteq> None then result (int freeSlot) s3 else result (- 1) s3))))))"

definition do_SeekFile :: "'a os_scheme \<Rightarrow> 'a os_scheme res" where
  "do_SeekFile s =
     rbind (arg_int 4 s) (\<lambda>pos0.
     rbind (arg_int 5 s) (\<lambda>m_index.
     if m_index < 0 \<or> m_index \<ge> 10 then result (- 1) s
     else
       rbind (arr_get (open_files s) m_index) (\<lambda>fo. case fo of
           None \<Rightarrow> result (- 1) s
         | Some f \<Rightarrow>
             rbind (if pos0 = - 1 then StubFile_Length f s else Inr (pos0, s)) (\<lambda>(pos, s1).
             rbind (StubFile_Length f s1) (\<lambda>(len, s2).
             if pos > len \<or> pos < 0 then result (- 1) s2
             else
               rbind (StubFile_Seek pos f s2) (\<lambda>(_, f1, s3).
               rbind (set_file m_index (Some f1) s3) (result pos)))))))"

definition do_ReadFile :: "'a os_scheme env \<Rightarrow> 'a os_scheme \<Rightarrow> 'a os_scheme res" where
  "do_ReadFile e s =
     rbind (ReadRegister 4 s) (\<lambda>bufAddr.
     rbind (arg_int 5 s) (\<lambda>NumBuf.
     rbind (arg_int 6 s) (\<lambda>m_index.
     rbind (fresh_buffer e NumBuf) (\<lambda>_.
     if m_index < 0 \<or> m_index \<ge> 10 then result (- 1) s
     else
       rbind (arr_get (open_files s) m_index) (\<lambda>fo. case fo of
           None \<Rightarrow> result (- 1) s
         | Some f \<Rightarrow>
             let (OldPos, f1, s1) = StubFile_GetCurrentPos f s in
             rbind (set_file m_index (Some f1) s1) (\<lambda>s2.
             rbind (User2System bufAddr NumBuf s2) (\<lambda>(buf, s3).
             if sf_type f1 = 2
             then
               rbind (SynchConsole_Read e buf NumBuf s3) (\<lambda>(sz, buf1, s4).
               rbind (System2User bufAddr sz buf1 s4) (\<lambda>(_, s5). result sz s5))
             else
               rbind (StubFile_Read NumBuf f1 s3) (\<lambda>((n, bs), f2, s4).
               rbind (set_file m_index (Some f2) s4) (\<lambda>s5.
               if n > 0
               then
                 let (NewPos, f3, s6) = StubFile_GetCurrentPos f2 s5 in
                 rbind (set_file m_index (Some f3) s6) (\<lambda>s7.
                 rbind (System2User bufAddr (NewPos - OldPos + 1) (bs @ drop (length bs) buf) s7) (\<lambda>(_, s8).
                 result (NewPos - OldPos + 1) s8))
               else result (- 1) s5)))))))))"

text \<open>The branch \<^verbatim>\<open>else if (type == 1)\<close> is nested in the branch for the types 0 and 3 and cannot be taken.\<close>

definition do_WriteFile :: "'a os_scheme env \<Rightarrow> 'a os_scheme \<Rightarrow> 'a os_scheme res" where
  "do_WriteFile e s =
     rbind (ReadRegister 4 s) (\<lambda>bufAddr.
     rbind (arg_int 5 s) (\<lambda>NumBuf.
     rbind (arg_int 6 s) (\<lambda>m_index.
     rbind (fresh_buffer e NumBuf) (\<lambda>_.
     if m_index < 0 \<or> m_index \<ge> 10 then result (- 1) s
     else
       rbind (arr_get (open_files s) m_index) (\<lambda>fo. case fo of
           None \<Rightarrow> result (- 1) s
         | Some f \<Rightarrow>
             let (OldPos, f1, s1) = StubFile_GetCurrentPos f s in
             rbind (set_file m_index (Some f1) s1) (\<lambda>s2.
             rbind (User2System bufAddr NumBuf s2) (\<lambda>(buf, s3).
             rbind (if sf_type f1 = 0 \<or> sf_type f1 = 3
                    then
                      rbind (StubFile_Write buf NumBuf f1 s3) (\<lambda>(n, f2, s4).
                      rbind (set_file m_index (Some f2) s4) (\<lambda>s5.
                      if n > 0
                      then
                        let (NewPos, f3, s6) = StubFile_GetCurrentPos f2 s5 in
                        rbind (set_file m_index (Some f3) s6) (\<lambda>s7.
                        rbind (result (NewPos - OldPos + 1) s7) (\<lambda>s8. Inr (False, s8)))
                      else if sf_type f2 = 1 then rbind (result (- 1) s5) (\<lambda>s6. Inr (True, s6))
                      else Inr (False, s5)))
                    else Inr (False, s3)) (\<lambda>(broke, s9).
             if broke then Inr s9
             else if sf_type f1 = 3
             then rbind (put_string e buf 0 s9) (\<lambda>(i, s10). result (i - 1) s10)
             else Inr s9))))))))"

definition do_CloseFile :: "'a os_scheme \<Rightarrow> 'a os_scheme res" where
  "do_CloseFile s =
     rbind (arg_int 4 s) (\<lambda>m_index.
     rbind (arr_get (open_files s) m_index) (\<lambda>fo. case fo of
         None \<Rightarrow> Inr s
       | Some f \<Rightarrow> rbind (StubFile_delete f s) (set_file m_index None)))"

subsection \<open>Processes and semaphores\<close>

text \<open>The system calls that pass a name of at most 49 characters.\<close>

definition with_name ::
    "int32 \<Rightarrow> (byte list option \<Rightarrow> 'a os_scheme \<Rightarrow> (int \<times> 'a os_scheme) res) \<Rightarrow> 'a os_scheme \<Rightarrow> 'a os_scheme res" where
  "with_name name call s =
     rbind (User2System name 49 s) (\<lambda>(namebuf, s1).
     rbind (call (Some namebuf) s1) (\<lambda>(rslt, s2). result rslt s2))"

definition do_ExecProcess :: "'a os_scheme env \<Rightarrow> 'a os_scheme \<Rightarrow> 'a os_scheme res" where
  "do_ExecProcess e s =
     rbind (ReadRegister 4 s) (\<lambda>name. if name = 0 then result (- 1) s else with_name name (ExecUpdate e) s)"

definition do_JoinProcess :: "'a os_scheme env \<Rightarrow> 'a os_scheme \<Rightarrow> 'a os_scheme res" where
  "do_JoinProcess e s =
     rbind (arg_int 4 s) (\<lambda>pid. rbind (JoinUpdate e pid s) (\<lambda>(rslt, s1). result rslt s1))"

definition do_ExitProcess :: "'a os_scheme env \<Rightarrow> 'a os_scheme \<Rightarrow> 'a os_scheme res" where
  "do_ExitProcess e s =
     rbind (arg_int 4 s) (\<lambda>pid. rbind (ExitUpdate e pid s) (\<lambda>(rslt, s1). result rslt s1))"

definition do_CreateSem :: "'a os_scheme env \<Rightarrow> 'a os_scheme \<Rightarrow> 'a os_scheme res" where
  "do_CreateSem e s =
     rbind (ReadRegister 4 s) (\<lambda>name.
     rbind (arg_int 5 s) (\<lambda>sval.
     if name = 0 \<or> sval < 0 then result (- 1) s
     else with_name name (\<lambda>nm. Stable_Create e nm sval) s))"

definition do_Wait :: "'a os_scheme env \<Rightarrow> 'a os_scheme \<Rightarrow> 'a os_scheme res" where
  "do_Wait e s =
     rbind (ReadRegister 4 s) (\<lambda>name. if name = 0 then result (- 1) s else with_name name (Stable_Wait e) s)"

definition do_Signal :: "'a os_scheme env \<Rightarrow> 'a os_scheme \<Rightarrow> 'a os_scheme res" where
  "do_Signal e s =
     rbind (ReadRegister 4 s) (\<lambda>name. if name = 0 then result (- 1) s else with_name name (Stable_Signal e) s)"

subsection \<open>The handler\<close>

definition syscall :: "'a os_scheme env \<Rightarrow> int \<Rightarrow> 'a os_scheme \<Rightarrow> (bool \<times> 'a os_scheme) res" where
  "syscall e type s =
     (let break = (\<lambda>m. rbind m (\<lambda>s1. Inr (True, s1))) in
      if type = 0 then Halt s
      else if type = 4 then do_Create e s
      else if type = 11 then break (do_ReadInt e s)
      else if type = 12 then break (do_PrintInt e s)
      else if type = 13 then break (do_ReadChar e s)
      else if type = 14 then break (do_PrintChar e s)
      else if type = 15 then break (do_ReadString e s)
      else if type = 16 then break (do_PrintString e s)
      else if type = 17 then break (do_CreateFile e s)
      else if type = 18 then break (do_OpenFileID e s)
      else if type = 22 then break (do_SeekFile s)
      else if type = 20 then break (do_ReadFile e s)
      else if type = 21 then break (do_WriteFile e s)
      else if type = 19 then break (do_CloseFile s)
      else if type = 23 then break (do_ExecProcess e s)
      else if type = 24 then break (do_JoinProcess e s)
      else if type = 25 then break (do_ExitProcess e s)
      else if type = 26 then break (do_CreateSem e s)
      else if type = 27 then break (do_Wait e s)
      else if type = 28 then break (do_Signal e s)
      else if type = 1 then Halt s
      else Halt s)"

definition ExceptionHandler :: "'a os_scheme env \<Rightarrow> 'a os_scheme handler" where
  "ExceptionHandler e which s =
     rbind (arg_int 2 s) (\<lambda>type.
     if which = SyscallException
     then rbind (syscall e type s) (\<lambda>(advance, s1). if advance then advance_counters s1 else Inr s1)
     else fault_handler which s)"

subsection \<open>The handler and the processor\<close>

lemma arg_int_ok: "core_ok s \<Longrightarrow> 0 \<le> r \<Longrightarrow> r < 40 \<Longrightarrow> arg_int r s = Inr (sint (registers s ! nat r))"
  by (simp add: arg_int_def ReadRegister_def core_ok_def NumTotalRegs_def)

lemma advance_counters_ok:
  "core_ok s \<Longrightarrow> advance_counters s =
     Inr (s\<lparr>registers := (registers s)[36 := registers s ! 34, 34 := registers s ! 35, 35 := registers s ! 35 + 4]\<rparr>)"
  by (simp add: advance_counters_def reg_def set_reg_def core_okD)

lemma fault_halts: "which \<notin> {NoException, SyscallException} \<Longrightarrow> fault_handler which s = Inl Halted"
  by (cases which) (simp_all add: fault_handler_def Halt_def)

text \<open>Every fault of a user program ends in the kernel's \<^verbatim>\<open>Halt\<close>.\<close>

interpretation kernel_traps: trap_handler "ExceptionHandler e" "{Halted}" for e :: "'a os_scheme env"
proof
  fix s :: "'a os_scheme" and which
  assume ok: "cpu_ok s" and which: "which \<noteq> SyscallException"
  then have c: "core_ok s" by (simp add: cpu_ok_def)
  have "ExceptionHandler e which s = fault_handler which s"
    using which arg_int_ok [OF c, of 2] by (simp add: ExceptionHandler_def)
  moreover have "allows {Halted} cpu_ok (fault_handler which s)"
  proof (cases "which = NoException")
    case True
    then show ?thesis using ok c by (simp add: fault_handler_def advance_counters_ok cpu_ok_def core_ok_def)
  next
    case False
    then show ?thesis using fault_halts [of which s] which by simp
  qed
  ultimately show "allows {Halted} cpu_ok (ExceptionHandler e which s)" by simp
qed

subsection \<open>Properties\<close>

text \<open>C12. A user program is contained. On a well-formed processor (all registers present, R0 zero, the MMU set up)
  one instruction that is not a system call, run by the simulator with the kernel's own exception handler,
  either leaves the processor well-formed or ends with \<^verbatim>\<open>Halt\<close>: no instruction word and no address
  brings the kernel to an undefined step, except the division of the smallest integer by minus one, which traps on the
  host, and the unaligned partial word accesses, on which the simulator's own assertion fails.\<close>

theorem user_instruction_contained:
  fixes s :: "'a os_scheme"
  assumes "cpu_ok s" and "\<And>i. fetched s = Some i \<Longrightarrow> opCode i \<noteq> OP_SYSCALL"
  shows "allows ({Halted} \<union> (case fetched s of None \<Rightarrow> {} | Some i \<Rightarrow> faulting i s)) cpu_ok (OneInstruction (ExceptionHandler e) s)"
  using assms by (rule kernel_traps.OneInstruction_allows)

definition running_machine :: os where
  "running_machine = os_machine\<lparr>tables := tables user_machine, pageTable := Some 7, pageTableSize := 2,
     mainMemory := mainMemory user_machine, registers := registers user_machine\<rparr>"

theorem user_instruction_contained_witness:
  "cpu_ok running_machine \<and>
   allows {Halted} cpu_ok (OneInstruction (ExceptionHandler (real_env self_switch silence Inr (\<lambda>_. True) (\<lambda>_. 0) (\<lambda>_. 0))) running_machine)"
proof -
  have ok: "cpu_ok running_machine"
    by (simp add: running_machine_def os_machine_def user_machine_def cpu_ok_def core_ok_def mmu_ok_def const_defs)
  have "accessible running_machine 0 4 False" "registers running_machine ! 34 = 0"
    by (simp_all add: accessible_def aligned_def page_entry_def running_machine_def os_machine_def user_machine_def const_defs)
  moreover have "vload running_machine 0 4 = 0x24020007"
    by (simp add: vload_def vbyte_def phys_of_def page_entry_def running_machine_def os_machine_def user_machine_def user_program_def
        le_bytes_def le_value_def upt_rec)
  ultimately have f: "fetched running_machine = (case Decode 0x24020007 of Inr i \<Rightarrow> Some i | Inl _ \<Rightarrow> None)"
    by (simp add: fetched_def)
  obtain i where i: "Decode 0x24020007 = Inr i" "opCode i = OP_ADDIU"
    by (auto simp: Decode_def opTable_def arr_get_def)
  from user_instruction_contained [OF ok, of "real_env self_switch silence Inr (\<lambda>_. True) (\<lambda>_. 0) (\<lambda>_. 0)"] f i ok
  show ?thesis by (simp add: faulting_def)
qed

end
