(* ===== verification/Int_Text.thy ===== *)
theory Int_Text
  imports Syscalls
begin

text \<open>
  The conversions of \<^verbatim>\<open>SC_PrintInt\<close> and \<^verbatim>\<open>SC_ReadInt\<close> (userprog/exception.cc) against a reference
  definition: the decimal digits of a number, most significant first. Inside the ten bytes of the
  buffer printing gives exactly these digits and reading gives the number back; numbers of ten digits do not
  fit, because the code stores a newline behind the digits.
\<close>

subsection \<open>The reference\<close>

fun decimal :: "nat \<Rightarrow> byte list" where
  "decimal n = (if n < 10 then [of_nat (48 + n)] else decimal (n div 10) @ [of_nat (48 + n mod 10)])"

declare decimal.simps [simp del]

fun decimal_value :: "nat \<Rightarrow> byte list \<Rightarrow> nat" where
  "decimal_value acc [] = acc"
| "decimal_value acc (c # cs) = decimal_value (acc * 10 + (unat c - 48)) cs"

definition is_digit :: "byte \<Rightarrow> bool" where
  "is_digit c \<longleftrightarrow> 48 \<le> c \<and> c \<le> 57"

lemma length_decimal: "n < 10 ^ Suc k \<Longrightarrow> length (decimal n) \<le> Suc k"
proof (induction k arbitrary: n)
  case 0
  then show ?case by (subst decimal.simps) simp
next
  case (Suc k)
  then have "n div 10 < 10 ^ Suc k" by (simp add: less_mult_imp_div_less mult.commute)
  with Suc.IH show ?case by (subst decimal.simps) simp
qed

lemma length_decimal_ge: "10 ^ k \<le> n \<Longrightarrow> k < length (decimal n)"
proof (induction k arbitrary: n)
  case 0
  then show ?case by (subst decimal.simps) simp
next
  case (Suc k)
  then have "10 ^ k \<le> n div 10" by (metis div_le_mono nonzero_mult_div_cancel_left power_Suc zero_neq_numeral)
  moreover have "10 \<le> n" using Suc.prems by (meson le_trans one_le_power one_le_numeral self_le_power zero_less_Suc)
  ultimately show ?case using Suc.IH by (subst decimal.simps) simp
qed

lemma decimal_nonempty [simp]: "decimal n \<noteq> []"
  by (subst decimal.simps) simp

lemma digit_of_nat: "d < 10 \<Longrightarrow> unat (of_nat (48 + d) :: byte) = 48 + d"
  by (simp add: unsigned_of_nat take_bit_nat_def del: of_nat_add)

lemma is_digit_of_nat: "d < 10 \<Longrightarrow> is_digit (of_nat (48 + d))"
  by (simp add: is_digit_def word_le_nat_alt digit_of_nat del: of_nat_add)

lemma decimal_digits: "c \<in> set (decimal n) \<Longrightarrow> is_digit c"
proof (induction n rule: decimal.induct)
  case (1 n)
  from "1.prems" show ?case
    by (subst (asm) decimal.simps) (auto simp: is_digit_of_nat simp del: of_nat_add split: if_splits dest: "1.IH")
qed

lemma decimal_value_append: "decimal_value acc (xs @ [c]) = decimal_value acc xs * 10 + (unat c - 48)"
  by (induction xs arbitrary: acc) simp_all

lemma decimal_value_decimal: "decimal_value 0 (decimal n) = n"
proof (induction n rule: decimal.induct)
  case (1 n)
  show ?case
  proof (cases "n < 10")
    case True
    then show ?thesis by (subst decimal.simps) (simp add: digit_of_nat del: of_nat_add)
  next
    case False
    then show ?thesis using 1
      by (subst decimal.simps) (simp add: digit_of_nat decimal_value_append del: of_nat_add)
  qed
qed

subsection \<open>Printing\<close>

lemma put_digits_step:
  assumes "k < length buf"
  shows "put_digits buf (int k) (int n) =
     (let b = buf[k := of_nat (48 + n mod 10)] in
      if n < 10 then Inr (b, int (Suc k)) else put_digits b (int (Suc k)) (int (n div 10)))"
proof -
  have z: "int (n div 10) > 0 \<longleftrightarrow> \<not> n < 10" by (simp add: div_greater_zero_iff not_less)
  have d: "int n smod 10 = int (n mod 10)" "int n sdiv 10 = int (n div 10)" by (simp_all add: zdiv_int zmod_int)
  have c: "(of_int (int d + 48) :: byte) = of_nat (48 + d)" for d by simp
  show ?thesis
    using assms by (subst put_digits.simps, unfold d c z) (simp add: Let_def add.commute del: of_nat_add of_nat_div of_nat_mod)
qed

lemma put_digits_ok:
  "k + length (decimal n) \<le> length buf \<Longrightarrow>
   put_digits buf (int k) (int n) =
     Inr (take k buf @ rev (decimal n) @ drop (k + length (decimal n)) buf, int (k + length (decimal n)))"
proof (induction n arbitrary: k buf rule: decimal.induct)
  case (1 n)
  have D: "decimal n = (if n < 10 then [of_nat (48 + n)] else decimal (n div 10) @ [of_nat (48 + n mod 10)])"
    by (rule decimal.simps)
  have k: "k < length buf" using "1.prems" decimal_nonempty [of n] by (cases "decimal n") auto
  note S = put_digits_step [OF k, of n]
  show ?case
  proof (cases "n < 10")
    case True
    with k show ?thesis
      by (simp add: S D Let_def upd_conv_take_nth_drop)
  next
    case False
    let ?b = "buf[k := of_nat (48 + n mod 10)]"
    have p: "Suc k + length (decimal (n div 10)) \<le> length ?b" using "1.prems" False D by simp
    have "put_digits ?b (int (Suc k)) (int (n div 10)) =
        Inr (take (Suc k) ?b @ rev (decimal (n div 10)) @ drop (Suc k + length (decimal (n div 10))) ?b,
             int (Suc k + length (decimal (n div 10))))"
      using "1.IH" [OF False p] .
    moreover have "take (Suc k) ?b = take k buf @ [of_nat (48 + n mod 10)]"
      using k by (simp add: take_Suc_conv_app_nth)
    ultimately show ?thesis using False k
      by (simp add: S D Let_def)
  qed
qed

lemma put_digits_overrun:
  "k \<le> length buf \<Longrightarrow> length buf < k + length (decimal n) \<Longrightarrow> put_digits buf (int k) (int n) = Inl Undefined"
proof (induction n arbitrary: k buf rule: decimal.induct)
  case (1 n)
  have D: "decimal n = (if n < 10 then [of_nat (48 + n)] else decimal (n div 10) @ [of_nat (48 + n mod 10)])"
    by (rule decimal.simps)
  show ?case
  proof (cases "k < length buf")
    case False
    then show ?thesis by (subst put_digits.simps) (simp add: arr_set_def)
  next
    case True
    with "1.prems" D have big: "\<not> n < 10" by (auto split: if_splits)
    have "put_digits buf (int k) (int n) = put_digits (buf[k := of_nat (48 + n mod 10)]) (int (Suc k)) (int (n div 10))"
      using big by (simp add: put_digits_step [OF True] Let_def)
    then show ?thesis using "1.IH" [OF big, of "Suc k" "buf[k := of_nat (48 + n mod 10)]"] "1.prems" True big D by simp
  qed
qed

text \<open>The reversal: what the loop has exchanged when it is at index \<open>i\<close>.\<close>

definition mirrored :: "nat \<Rightarrow> nat \<Rightarrow> nat \<Rightarrow> byte list \<Rightarrow> byte list" where
  "mirrored sz mid i buf =
     map (\<lambda>k. if k < sz \<and> (mid \<le> k \<and> k < i \<or> mid \<le> sz - 1 - k \<and> sz - 1 - k < i) then buf ! (sz - 1 - k) else buf ! k)
       [0..<length buf]"

lemma swap_ends_ok:
  "sz \<le> length buf \<Longrightarrow> i \<le> sz \<Longrightarrow> sz \<le> 2 * mid + 1 \<Longrightarrow>
   swap_ends (int sz) (int mid) (int i) buf = Inr (mirrored sz mid i buf)"
proof (induction i arbitrary: buf)
  case 0
  have "mirrored sz mid 0 buf = buf" by (intro nth_equalityI) (auto simp: mirrored_def)
  then show ?case by (subst swap_ends.simps) simp
next
  case (Suc j)
  show ?case
  proof (cases "mid \<le> j")
    case False
    then have "mirrored sz mid (Suc j) buf = buf" by (intro nth_equalityI) (auto simp: mirrored_def)
    with False show ?thesis by (subst swap_ends.simps) simp
  next
    case True
    let ?m = "sz - 1 - j" and ?b = "buf[sz - 1 - j := buf ! j, j := buf ! (sz - 1 - j)]"
    have ix: "int sz - int j - 1 = int ?m" "nat (int sz - int j - 1) = ?m" "?m \<le> j" "j < length buf" "?m < length buf"
      using Suc.prems True by auto
    have "swap_ends (int sz) (int mid) (int (Suc j)) buf = swap_ends (int sz) (int mid) (int j) ?b"
      using True ix by (subst swap_ends.simps) (simp add: Let_def)
    also have "\<dots> = Inr (mirrored sz mid j ?b)" using Suc.IH [of ?b] Suc.prems by simp
    also have "mirrored sz mid j ?b = mirrored sz mid (Suc j) buf"
    proof (intro nth_equalityI)
      fix k assume "k < length (mirrored sz mid j ?b)"
      then have k: "k < length buf" by (simp add: mirrored_def)
      consider "k = j" | "k = ?m" "k \<noteq> j" | "k \<noteq> j" "k \<noteq> ?m" by blast
      then show "mirrored sz mid j ?b ! k = mirrored sz mid (Suc j) buf ! k"
      proof cases
        case 1
        then show ?thesis using k ix Suc.prems True by (simp add: mirrored_def nth_list_update) arith
      next
        case 2
        then show ?thesis using k ix Suc.prems True by (simp add: mirrored_def nth_list_update)
      next
        case 3
        then have "?b ! k = buf ! k" by simp
        moreover have "k < sz \<Longrightarrow> ?b ! (sz - 1 - k) = buf ! (sz - 1 - k)" using 3 Suc.prems by simp
        ultimately show ?thesis using 3 k ix Suc.prems by (simp add: mirrored_def) arith
      qed
    qed (simp add: mirrored_def)
    finally show ?thesis .
  qed
qed

lemma mirrored_all:
  "length xs = sz \<Longrightarrow> mirrored sz (sz div 2) sz (xs @ ys) = rev xs @ ys"
  by (intro nth_equalityI) (auto simp: mirrored_def nth_append rev_nth)

lemma int_chars_ok:
  assumes "length (decimal n) < length buf"
  shows "int_chars buf (int n) =
    Inr (decimal n @ 10 # drop (Suc (length (decimal n))) buf, int (length (decimal n)))"
proof -
  let ?z = "length (decimal n)"
  have "put_digits buf 0 (int n) = Inr (rev (decimal n) @ drop ?z buf, int ?z)"
    using put_digits_ok [of 0 n buf] assms by simp
  moreover have "(rev (decimal n) @ drop ?z buf)[?z := 10] = rev (decimal n) @ 10 # drop (Suc ?z) buf"
    using assms by (simp add: list_update_append Cons_nth_drop_Suc [symmetric])
  moreover have "swap_ends (int ?z) (int (?z div 2)) (int ?z) (rev (decimal n) @ 10 # drop (Suc ?z) buf) =
      Inr (mirrored ?z (?z div 2) ?z (rev (decimal n) @ 10 # drop (Suc ?z) buf))"
    by (rule swap_ends_ok) (use assms in auto)
  moreover have "mirrored ?z (?z div 2) ?z (rev (decimal n) @ 10 # drop (Suc ?z) buf) =
      decimal n @ 10 # drop (Suc ?z) buf"
    using mirrored_all [of "rev (decimal n)" ?z] by simp
  ultimately show ?thesis using assms by (simp add: int_chars_def of_nat_div)
qed

lemma int_chars_overrun:
  assumes "length buf \<le> length (decimal n)"
  shows "int_chars buf (int n) = Inl Undefined"
proof (cases "length buf < length (decimal n)")
  case True
  then show ?thesis using put_digits_overrun [of 0 buf n] by (simp add: int_chars_def)
next
  case False
  with assms show ?thesis using put_digits_ok [of 0 n buf] by (simp add: int_chars_def arr_set_def)
qed

subsection \<open>Reading\<close>

lemma is_digit_range: "is_digit c \<Longrightarrow> 48 \<le> unat c \<and> unat c \<le> 57"
  by (simp add: is_digit_def word_le_nat_alt)

lemma digit_and_mask: "is_digit c \<Longrightarrow> uint (c AND 0xF) = int (unat c - 48)"
proof -
  assume c: "is_digit c"
  have "c AND 0xF = take_bit 4 c" by (simp add: take_bit_eq_mask mask_numeral)
  then have "uint (c AND 0xF) = take_bit 4 (uint c)" by (simp only: unsigned_take_bit_eq)
  then have m: "uint (c AND 0xF) = uint c mod 16" by (simp add: take_bit_eq_mod)
  obtain d where d: "unat c = 48 + d" "d < 10"
    using is_digit_range [OF c] that [of "unat c - 48"] by arith
  then have "uint c = 48 + int d" by (metis int_plus of_nat_numeral uint_nat)
  moreover have "(48 + int d) mod 16 = int d" using d(2) by presburger
  ultimately show ?thesis using m d by simp
qed

lemma decimal_value_mono: "acc \<le> decimal_value acc cs"
proof (induction cs arbitrary: acc)
  case (Cons c cs)
  have "acc \<le> acc * 10 + (unat c - 48)" by simp
  also have "\<dots> \<le> decimal_value (acc * 10 + (unat c - 48)) cs" by (rule Cons.IH)
  finally show ?case by simp
qed simp

lemma read_digits_ok:
  "list_all is_digit (drop k (take m buf)) \<Longrightarrow> k \<le> m \<Longrightarrow> m \<le> length buf \<Longrightarrow>
   decimal_value acc (drop k (take m buf)) < 2 ^ 31 \<Longrightarrow>
   read_digits buf (int m) (int k) (int acc) = Inr (Some (int (decimal_value acc (drop k (take m buf)))))"
proof (induction "m - k" arbitrary: k acc)
  case 0
  then show ?case by (subst read_digits.simps) simp
next
  case (Suc d)
  then have k: "k < m" "k < length buf" by auto
  have D: "drop k (take m buf) = buf ! k # drop (Suc k) (take m buf)"
    using k by (metis Cons_nth_drop_Suc length_take min_less_iff_conj nth_take)
  let ?a = "acc * 10 + (unat (buf ! k) - 48)"
  have dig: "is_digit (buf ! k)" using Suc.prems(1) D by simp
  have bound: "?a < 2 ^ 31" using Suc.prems(4) D decimal_value_mono [of ?a "drop (Suc k) (take m buf)"] by simp
  have wr: "word_range (int acc * 10)" "word_range (int acc * 10 + int (unat (buf ! k) - 48))"
    using bound by (auto simp: word_range_def)
  have "read_digits buf (int m) (int k) (int acc) = read_digits buf (int m) (int (Suc k)) (int ?a)"
    using k dig wr by (subst read_digits.simps) (simp add: digit_and_mask is_digit_def add.commute)
  also have "\<dots> = Inr (Some (int (decimal_value ?a (drop (Suc k) (take m buf)))))"
    using Suc.hyps(1) [of "Suc k" ?a] Suc.hyps(2) Suc.prems D by simp
  finally show ?case using D by simp
qed

lemma skip_no_blank: "k < length buf \<Longrightarrow> buf ! k \<noteq> 32 \<Longrightarrow> buf ! k \<noteq> 9 \<Longrightarrow> skip_blanks buf (int k) = Inr (int k)"
  by (subst skip_blanks.simps) simp

lemma parse_digits:
  assumes "list_all is_digit cs" and "cs \<noteq> []" and "decimal_value 0 cs < 2 ^ 31"
  shows "parse_int (cs @ rest) (int (length cs)) = Inr (int (decimal_value 0 cs))"
    and "parse_int (45 # cs @ rest) (int (Suc (length cs))) = Inr (- int (decimal_value 0 cs))"
proof -
  obtain c ds where cs: "cs = c # ds" using assms(2) by (cases cs) auto
  have c: "is_digit c" using assms(1) cs by simp
  then have nb: "c \<noteq> 32" "c \<noteq> 9" "c \<noteq> 45" using is_digit_range [of c] by auto
  have "skip_blanks (cs @ rest) 0 = Inr 0" using skip_no_blank [of 0 "cs @ rest"] cs nb by simp
  moreover have "read_digits (cs @ rest) (int (length cs)) (int 0) (int 0) = Inr (Some (int (decimal_value 0 cs)))"
    using read_digits_ok [of 0 "length cs" "cs @ rest" 0] assms by simp
  ultimately show "parse_int (cs @ rest) (int (length cs)) = Inr (int (decimal_value 0 cs))"
    using cs nb by (simp add: parse_int_def)
  have "skip_blanks (45 # cs @ rest) 0 = Inr 0" using skip_no_blank [of 0 "45 # cs @ rest"] by simp
  moreover have "read_digits (45 # cs @ rest) (int (Suc (length cs))) (int 1) (int 0) = Inr (Some (int (decimal_value 0 cs)))"
    using read_digits_ok [of 1 "Suc (length cs)" "45 # cs @ rest" 0] assms by simp
  ultimately show "parse_int (45 # cs @ rest) (int (Suc (length cs))) = Inr (- int (decimal_value 0 cs))"
    by (simp add: parse_int_def)
qed

subsection \<open>Printing to the console\<close>

definition int_text :: "int \<Rightarrow> byte list" where
  "int_text n = (if n < 0 then 45 # decimal (nat (- n)) else decimal (nat n))"

lemma fresh_buffer_10: "fresh_buffer e MAX_INT_LENGTH = Inr (map (fresh_byte e) [0..<10])"
  by (simp add: fresh_buffer_def MAX_INT_LENGTH_def)

lemma length_decimal_10: "n < 10 ^ 9 \<longleftrightarrow> length (decimal n) < 10"
  using length_decimal [of n 8] length_decimal_ge [of 9 n] by (cases "n < 10 ^ 9") auto

lemma ten_digits:
  assumes "10 ^ 9 \<le> n" "n < 10 ^ 10" "length buf = 10"
  shows "\<exists>b. put_digits buf 0 (int n) = Inr (b, 10) \<and> arr_set b 10 10 = Inl Undefined"
proof -
  have "length (decimal n) = 10" using length_decimal [of n 9] length_decimal_10 [of n] assms(1,2) by simp
  then show ?thesis using put_digits_ok [of 0 n buf] assms(3) by (simp add: arr_set_def)
qed

context console_writer
begin

lemma print_digits:
  assumes "ok s" "n < 10 ^ 9"
  shows "\<exists>buf s' :: 'a os_scheme. int_chars (map (fresh_byte e) [0..<10]) (int n) = Inr (buf, int (length (decimal n))) \<and>
    SynchConsole_Write e buf (int (length (decimal n))) s = Inr (int (length (decimal n)), s') \<and> ok s' \<and>
    display_of s' = display_of s @ decimal n \<and> only_io s s'"
proof -
  let ?junk = "map (fresh_byte e) [0..<10]"
  let ?buf = "decimal n @ 10 # drop (Suc (length (decimal n))) ?junk"
  have "int_chars ?junk (int n) = Inr (?buf, int (length (decimal n)))"
    by (rule int_chars_ok) (use assms(2) length_decimal_10 [of n] in simp)
  with write_law [OF assms(1), of "int (length (decimal n))" ?buf] show ?thesis by auto
qed

lemma PrintInt_ok:
  assumes "ok s" "arg_int 4 s = Inr n" "\<bar>n\<bar> < 10 ^ 9"
  shows "\<exists>s' :: 'a os_scheme. do_PrintInt e s = Inr s' \<and> ok s' \<and> display_of s' = display_of s @ int_text n \<and> only_io s s'"
proof (cases "n < 0")
  case False
  then obtain m where m: "n = int m" by (metis nonneg_int_cases not_less)
  then have "m < 10 ^ 9" using assms(3) by simp
  from print_digits [OF assms(1) this] show ?thesis
    using m assms(2) by (auto simp: do_PrintInt_def fresh_buffer_10 int_text_def)
next
  case True
  then obtain m where m: "- n = int m" by (metis nonneg_int_cases neg_0_le_iff_le less_imp_le)
  then have m9: "m < 10 ^ 9" and wr: "word_range (- n)" using assms(3) True by (auto simp: word_range_def)
  obtain s1 :: "'a os_scheme" where s1: "SynchConsole_Write e [45] 1 s = Inr (1, s1)" "ok s1" "display_of s1 = display_of s @ [45]" "only_io s s1"
    using write_one [OF assms(1)] by blast
  from print_digits [OF s1(2) m9] show ?thesis
    using m s1 wr assms(2) True by (auto simp: do_PrintInt_def fresh_buffer_10 int_text_def intro: only_io_trans)
qed

lemma PrintInt_overrun:
  assumes "ok s" "arg_int 4 s = Inr n" "10 ^ 9 \<le> \<bar>n\<bar>"
  shows "do_PrintInt e s = Inl Undefined"
proof -
  have over: "int_chars (map (fresh_byte e) [0..<10]) m = Inl Undefined" if "10 ^ 9 \<le> m" for m
  proof -
    from that have m: "m = int (nat m)" and "\<not> nat m < 10 ^ 9" by auto
    then have "10 \<le> length (decimal (nat m))" using length_decimal_10 [of "nat m"] by simp
    then show ?thesis by (subst m) (rule int_chars_overrun, simp)
  qed
  show ?thesis
  proof (cases "n < 0")
    case True
    from write_one [OF assms(1)] obtain s1 :: "'a os_scheme" where "SynchConsole_Write e [45] 1 s = Inr (1, s1)" by blast
    with True assms(2,3) over [of "- n"] show ?thesis by (simp add: do_PrintInt_def fresh_buffer_10 cint_def)
  next
    case False
    with assms(2,3) over [of n] show ?thesis by (simp add: do_PrintInt_def fresh_buffer_10)
  qed
qed

end

subsection \<open>Properties\<close>

text \<open>C36. \<^verbatim>\<open>SC_ReadInt\<close> inverts \<^verbatim>\<open>SC_PrintInt\<close>. For every number below ten to the ninth, the conversion loop of the
  one stores the decimal digits at the start of its buffer, and when exactly these characters are what \<^verbatim>\<open>Read\<close> has put
  into the zeroed buffer of the other, alone or behind a minus sign, the number or its negative is read; all
  of it inside the ten bytes of the buffers.\<close>

theorem ReadInt_inverts_PrintInt:
  assumes "length buf = nat MAX_INT_LENGTH" and "n < 10 ^ 9"
  shows "\<exists>b sz. int_chars buf (int n) = Inr (b, int sz) \<and> take sz b = decimal n \<and> sz < 10 \<and>
    parse_int (take sz b @ replicate (10 - sz) 0) (int sz) = Inr (int n) \<and>
    parse_int (45 # take sz b @ replicate (9 - sz) 0) (int (Suc sz)) = Inr (- int n)"
proof -
  let ?b = "decimal n @ 10 # drop (Suc (length (decimal n))) buf"
  have l: "length (decimal n) < 10" using assms(2) length_decimal_10 by blast
  then have "int_chars buf (int n) = Inr (?b, int (length (decimal n)))"
    using int_chars_ok [of n buf] assms(1) by (simp add: MAX_INT_LENGTH_def)
  moreover have "list_all is_digit (decimal n)" by (simp add: list_all_iff decimal_digits)
  ultimately show ?thesis
    using parse_digits [of "decimal n"] l assms(2) decimal_value_decimal [of n] by (intro exI [of _ ?b] exI [of _ "length (decimal n)"]) simp
qed

theorem ReadInt_inverts_PrintInt_witness:
  "\<exists>b sz. int_chars (replicate 10 0) 4711 = Inr (b, int sz) \<and> take sz b = [52, 55, 49, 49] \<and>
     parse_int (45 # take sz b @ replicate (9 - sz) 0) (int (Suc sz)) = Inr (- 4711)"
proof -
  have "decimal 4711 = [52, 55, 49, 49]" by (simp add: decimal.simps)
  with ReadInt_inverts_PrintInt [of "replicate 10 0" 4711] show ?thesis by (auto simp: MAX_INT_LENGTH_def)
qed

text \<open>C40. What \<^verbatim>\<open>SC_PrintInt\<close> does with every number in register 4. Between minus and plus 999999999 it displays the decimal
  notation, with a minus sign for a negative number, and returns: the digits are produced last first, reversed in place and written through the
  console, and nothing but the console, the clock and the caller's thread object changes. A number of ten digits has no defined
  result: its digits fill the buffer of ten bytes, and the newline behind them is stored at index 10 of it, outside; the smallest
  integer has no negation already.\<close>

theorem PrintInt_exact:
  fixes s :: "'a os_scheme" and ux :: unix and yield :: "'a os_scheme \<Rightarrow> 'a os_scheme res" and al jb jw
  assumes "console_ok ux s"
  defines "e \<equiv> real_env self_switch ux yield al jb jw" and "n \<equiv> sint (registers s ! 4)"
  shows "if \<bar>n\<bar> < 10 ^ 9
    then \<exists>s' :: 'a os_scheme. do_PrintInt e s = Inr s' \<and> console_ok ux s' \<and> display_of s' = display_of s @ int_text n \<and> only_io s s'
    else do_PrintInt e s = Inl Undefined \<and>
      (if n = - (2 ^ 31) then cint (- n) = Inl Undefined
       else \<exists>buf. put_digits (map jb [0..<10]) 0 \<bar>n\<bar> = Inr (buf, 10) \<and> arr_set buf 10 10 = Inl Undefined)"
proof -
  have "length (registers s) = NumTotalRegs" using assms(1) by (auto simp: console_ok_def at_rest_def quiet_def)
  then have a: "arg_int 4 s = Inr n" by (simp add: n_def arg_int_def ReadRegister_def const_defs)
  have r: "- (2 ^ 31) \<le> n" "n < 2 ^ 31" using sint_range_size [of "registers s ! 4"] by (simp_all add: n_def word_size)
  show ?thesis
  proof (cases "\<bar>n\<bar> < 10 ^ 9")
    case True
    with lone_console.PrintInt_ok [OF assms(1) a True, of yield al jb jw] show ?thesis by (simp add: e_def)
  next
    case False
    with lone_console.PrintInt_overrun [OF assms(1) a, of yield al jb jw] have "do_PrintInt e s = Inl Undefined" by (simp add: e_def)
    moreover have "\<exists>buf. put_digits (map jb [0..<10]) 0 \<bar>n\<bar> = Inr (buf, 10) \<and> arr_set buf 10 10 = Inl Undefined" if "n \<noteq> - (2 ^ 31)"
      using ten_digits [of "nat \<bar>n\<bar>" "map jb [0..<10]"] False r that by simp
    ultimately show ?thesis unfolding if_not_P [OF False] by (simp add: cint_def word_range_def)
  qed
qed

definition printing_machine :: "int32 \<Rightarrow> os" where
  "printing_machine w = os_machine\<lparr>registers := (replicate NumTotalRegs 0)[4 := w]\<rparr>"

lemma printing_machine_console:
  "\<exists>s :: os. SynchConsole_new [] (printing_machine w) = Inr s \<and> console_ok silence s \<and> display_of s = [] \<and> registers s ! 4 = w"
proof -
  have b: "booting (printing_machine w)"
    by (simp add: printing_machine_def booting_def os_machine_def quiet_def own_context_def Thread_new_def const_defs)
  from SynchConsole_new_ok [OF b, of silence "[]"] obtain s :: os where
    s: "SynchConsole_new [] (printing_machine w) = Inr s" "console_ok silence s" "display_of s = []" by (auto simp: silence_def)
  moreover have "registers s ! 4 = w" using s(1)
    by (auto simp: SynchConsole_new_def rbind_eq_Inr Console_new_def Schedule_def Let_def new_semaphore_def put_sem_def
        printing_machine_def const_defs)
  ultimately show ?thesis by blast
qed

theorem PrintInt_exact_witness:
  "\<exists>s s' u. SynchConsole_new [] (printing_machine 12345) = Inr s \<and>
     do_PrintInt (real_env self_switch silence Inr (\<lambda>_. True) (\<lambda>_. 0) (\<lambda>_. 0)) s = Inr s' \<and> display_of s' = [49, 50, 51, 52, 53] \<and>
     SynchConsole_new [] (printing_machine 1234567890) = Inr u \<and>
     do_PrintInt (real_env self_switch silence Inr (\<lambda>_. True) (\<lambda>_. 0) (\<lambda>_. 0)) u = Inl Undefined"
proof -
  let ?e = "real_env self_switch silence Inr (\<lambda>_. True) (\<lambda>_. 0) (\<lambda>_. 0) :: os env"
  from printing_machine_console [of 12345] obtain s :: os where
    s: "SynchConsole_new [] (printing_machine 12345) = Inr s" "console_ok silence s" "display_of s = []" "registers s ! 4 = 12345" by blast
  from printing_machine_console [of 1234567890] obtain u :: os where
    u: "SynchConsole_new [] (printing_machine 1234567890) = Inr u" "console_ok silence u" "registers u ! 4 = 1234567890" by blast
  have "decimal 12345 = [49, 50, 51, 52, 53]" by (simp add: decimal.simps)
  with PrintInt_exact [OF s(2), of Inr "\<lambda>_. True" "\<lambda>_. 0" "\<lambda>_. 0"] s(3,4) obtain s' where
    "do_PrintInt ?e s = Inr s'" "display_of s' = [49, 50, 51, 52, 53]" by (auto simp: int_text_def)
  moreover from PrintInt_exact [OF u(2), of Inr "\<lambda>_. True" "\<lambda>_. 0" "\<lambda>_. 0"] u(3) have "do_PrintInt ?e u = Inl Undefined" by simp
  ultimately show ?thesis using s(1) u(1) by blast
qed

end
