(* ===== verification/Loading.thy ===== *)
theory Loading
  imports Addr_Space Synch_Console
begin

text \<open>
  What the constructor of \<^verbatim>\<open>AddrSpace\<close> (userprog/addrspace.cc) builds: the new space has frames of its own that
  were free before, and through its page table a user program sees the image that the executable
  describes. The memory of all other spaces stays as it was. The destructor gives the frames back.

  \<open>vmem es m\<close> is main memory \<open>m\<close> seen through the page table \<open>es\<close>; a step of the loader is described by the
  virtual addresses that it fills (\<open>filled\<close>), so that the three parts of a segment (first page, last page,
  pages between) are composed by a union.
\<close>

subsection \<open>Memory seen through a page table\<close>

definition frame :: "TranslationEntry list \<Rightarrow> nat \<Rightarrow> nat" where
  "frame es i = unat (physicalPage (es ! i))"

definition frames_ok :: "TranslationEntry list \<Rightarrow> bool" where
  "frames_ok es \<longleftrightarrow> (\<forall>i < length es. frame es i < 128) \<and> inj_on (frame es) {..<length es}"

definition paddr :: "TranslationEntry list \<Rightarrow> nat \<Rightarrow> nat" where
  "paddr es x = frame es (x div 128) * 128 + x mod 128"

definition vmem :: "TranslationEntry list \<Rightarrow> (nat \<Rightarrow> byte) \<Rightarrow> nat \<Rightarrow> byte" where
  "vmem es m x = m (paddr es x)"

definition own_bytes :: "TranslationEntry list \<Rightarrow> nat set" where
  "own_bytes es = paddr es ` {..<128 * length es}"

text \<open>\<open>A\<close> has been filled from the file, \<open>d\<close> bytes off; nothing outside the space has changed.\<close>

definition filled :: "TranslationEntry list \<Rightarrow> byte list \<Rightarrow> int \<Rightarrow> nat set \<Rightarrow> (nat \<Rightarrow> byte) \<Rightarrow> (nat \<Rightarrow> byte) \<Rightarrow> bool" where
  "filled es prog d A m m' \<longleftrightarrow>
     (\<forall>x < 128 * length es. vmem es m' x = (if x \<in> A then prog ! nat (int x + d) else vmem es m x)) \<and>
     (\<forall>j. j \<notin> own_bytes es \<longrightarrow> m' j = m j)"

lemma filled_refl [simp]: "filled es prog d {} m m"
  by (simp add: filled_def)

lemma filled_trans: "filled es prog d A m m1 \<Longrightarrow> filled es prog d B m1 m2 \<Longrightarrow> filled es prog d (A \<union> B) m m2"
  by (auto simp: filled_def)

lemma page_bound: "x < 128 * n \<Longrightarrow> x div 128 < (n :: nat)"
  by (simp add: less_mult_imp_div_less mult.commute)

lemma paddr_inj:
  assumes "frames_ok es" "x < 128 * length es" "y < 128 * length es" "paddr es x = paddr es y"
  shows "x = y"
proof -
  have "frame es (x div 128) = paddr es x div 128" "x mod 128 = paddr es x mod 128" for x
    by (simp_all add: paddr_def)
  with assms(4) have "frame es (x div 128) = frame es (y div 128)" "x mod 128 = y mod 128" by metis+
  moreover have "x div 128 < length es" "y div 128 < length es" using assms(2,3) by (simp_all add: page_bound)
  ultimately have "x div 128 = y div 128" using assms(1) by (auto simp: frames_ok_def dest: inj_onD)
  with \<open>x mod 128 = y mod 128\<close> show ?thesis by (metis div_mult_mod_eq)
qed

text \<open>Bytes of the file stored inside one page.\<close>

lemma mem_put_page:
  assumes es: "frames_ok es" "i < length es" and b: "off + n \<le> 128" and p: "p + n \<le> length prog"
  shows "\<exists>m'. mem_put (int (frame es i) * 128 + int off) (take n (drop p prog)) m = Inr m' \<and>
    filled es prog (int p - int (i * 128 + off)) {i * 128 + off..<i * 128 + off + n} m m'"
proof -
  let ?a = "frame es i * 128 + off" and ?bs = "take n (drop p prog)"
  have len: "length ?bs = n" using p by simp
  have f: "frame es i < 128" using es by (simp add: frames_ok_def)
  define m' where "m' = (\<lambda>j. if ?a \<le> j \<and> j < ?a + n then ?bs ! (j - ?a) else m j)"
  have a: "nat (int (frame es i) * 128 + int off) = ?a" by simp
  have "mem_put (int (frame es i) * 128 + int off) ?bs m = Inr m'"
    unfolding mem_put_def a len m'_def using f b by (simp add: const_defs)
  moreover have pa: "paddr es x = ?a + (x - (i * 128 + off))" if "x \<in> {i * 128 + off..<i * 128 + off + n}" for x
  proof -
    define k where "k = x - (i * 128 + off)"
    with that b have k: "x = i * 128 + (off + k)" "off + k < 128" by auto
    then have "x div 128 = i" "x mod 128 = off + k" by simp_all
    then show ?thesis using k by (simp add: paddr_def)
  qed
  have inside: "vmem es m' x = prog ! nat (int x + (int p - int (i * 128 + off)))" if "x \<in> {i * 128 + off..<i * 128 + off + n}" for x
  proof -
    define k where "k = x - (i * 128 + off)"
    with that have k: "x = i * 128 + off + k" "k < n" by auto
    then have "paddr es x = ?a + k" using pa [OF that] by simp
    moreover have "nat (int x + (int p - int (i * 128 + off))) = p + k" using k by simp
    ultimately show ?thesis using k p by (simp add: vmem_def m'_def)
  qed
  have hit: "j \<in> paddr es ` {i * 128 + off..<i * 128 + off + n}" if "?a \<le> j" "j < ?a + n" for j
  proof -
    define k where "k = j - ?a"
    have k: "j = ?a + k" "i * 128 + off + k \<in> {i * 128 + off..<i * 128 + off + n}" using that by (auto simp: k_def)
    then have "paddr es (i * 128 + off + k) = j" using pa [OF k(2)] by simp
    with k(2) show ?thesis by blast
  qed
  have page: "i * 128 + 128 \<le> 128 * length es" using es(2) by simp
  then have small: "{i * 128 + off..<i * 128 + off + n} \<subseteq> {..<128 * length es}" using b by auto
  have outside: "m' (paddr es x) = m (paddr es x)" if "x < 128 * length es" "x \<notin> {i * 128 + off..<i * 128 + off + n}" for x
  proof -
    have "\<not> (?a \<le> paddr es x \<and> paddr es x < ?a + n)"
    proof
      assume "?a \<le> paddr es x \<and> paddr es x < ?a + n"
      then obtain y where y: "y \<in> {i * 128 + off..<i * 128 + off + n}" "paddr es x = paddr es y" using hit [of "paddr es x"] by auto
      then have "x = y" using paddr_inj [OF es(1) that(1)] small by auto
      with y that show False by simp
    qed
    then show ?thesis unfolding m'_def by auto
  qed
  have "m' j = m j" if "j \<notin> own_bytes es" for j
    using hit [of j] small that by (auto simp: m'_def own_bytes_def)
  with inside outside have "filled es prog (int p - int (i * 128 + off)) {i * 128 + off..<i * 128 + off + n} m m'"
    by (simp add: filled_def vmem_def)
  ultimately show ?thesis by blast
qed

subsection \<open>Reading from the executable\<close>

text \<open>The file is open on \<open>prog\<close>, and the new page table is in place.\<close>

definition opened :: "byte list \<Rightarrow> StubFile \<Rightarrow> unixfs \<Rightarrow> bool" where
  "opened prog f u \<longleftrightarrow> (\<exists>i pos. fd_at (sf_file f) u = Some (i, pos) \<and> u_inodes u i = prog)"

definition reading :: "nat \<Rightarrow> TranslationEntry list \<Rightarrow> byte list \<Rightarrow> StubFile \<Rightarrow> 'a os_scheme \<Rightarrow> bool" where
  "reading pt es prog f s \<longleftrightarrow> tables s pt = Some es \<and> opened prog f (hostfs s)"

text \<open>Loading changes main memory and the position of the file.\<close>

definition loads :: "'a os_scheme \<Rightarrow> 'a os_scheme \<Rightarrow> bool" where
  "loads s s' \<longleftrightarrow> (\<exists>m fds. s' = s\<lparr>mainMemory := m, hostfs := (hostfs s)\<lparr>u_fds := fds\<rparr>\<rparr>)"

lemma loads_refl [simp, intro]: "loads s s"
  unfolding loads_def by (intro exI [of _ "mainMemory s"] exI [of _ "u_fds (hostfs s)"]) simp

lemma loads_trans: "loads s t \<Longrightarrow> loads t u \<Longrightarrow> loads s u"
  unfolding loads_def by (elim exE, simp) (intro exI, rule refl)

lemma fd_at_set: "fd_at fd u \<noteq> None \<Longrightarrow> fd_at fd (set_fd fd x u) = x"
  by (auto simp: fd_at_def set_fd_def split: if_splits)

lemma stub_ReadAt_ok:
  fixes s :: "'a os_scheme"
  assumes "opened prog f (hostfs s)" "n + p \<le> length prog"
  shows "\<exists>fds. StubFile_ReadAt (int n) (int p) f s = Inr ((int n, take n (drop p prog)), s\<lparr>hostfs := (hostfs s)\<lparr>u_fds := fds\<rparr>\<rparr>) \<and>
    opened prog f ((hostfs s)\<lparr>u_fds := fds\<rparr>)"
proof -
  from assms(1) obtain i pos where f: "fd_at (sf_file f) (hostfs s) = Some (i, pos)" "u_inodes (hostfs s) i = prog"
    by (auto simp: opened_def)
  let ?u1 = "set_fd (sf_file f) (Some (i, int p)) (hostfs s)"
  let ?u2 = "set_fd (sf_file f) (Some (i, int p + int n)) ?u1"
  have at1: "fd_at (sf_file f) ?u1 = Some (i, int p)" using f(1) by (simp add: fd_at_set)
  then have at2: "fd_at (sf_file f) ?u2 = Some (i, int p + int n)" by (simp add: fd_at_set)
  have bs: "length (take n (drop p prog)) = n" using assms(2) by simp
  have ino: "u_inodes ?u1 i = prog" "u_inodes ?u2 i = prog" using f(2) by (simp_all add: set_fd_def)
  have "u_lseek (sf_file f) (int p) 0 (hostfs s) = (int p, ?u1)" using f(1) by (simp add: u_lseek_def Let_def)
  moreover have "u_read (sf_file f) n ?u1 = ((int n, take n (drop p prog)), ?u2)"
    unfolding u_read_def at1 using ino bs by (simp add: Let_def)
  ultimately have "StubFile_ReadAt (int n) (int p) f s = Inr ((int n, take n (drop p prog)), s\<lparr>hostfs := ?u2\<rparr>)"
    by (simp add: StubFile_ReadAt_def Lseek_def ReadPartial_def)
  moreover have "?u2 = (hostfs s)\<lparr>u_fds := u_fds ?u2\<rparr>" by (simp add: set_fd_def)
  moreover have "opened prog f ?u2" using at2 ino by (auto simp: opened_def)
  ultimately show ?thesis by metis
qed

lemma ReadInto_page:
  fixes s :: "'a os_scheme"
  assumes "reading pt es prog f s" "frames_ok es" "i < length es" "off + n \<le> 128" "n + p \<le> length prog"
  shows "\<exists>s'. ReadInto (int (frame es i) * 128 + int off) (int n) (int p) f s = Inr s' \<and> reading pt es prog f s' \<and> loads s s' \<and>
    filled es prog (int p - int (i * 128 + off)) {i * 128 + off..<i * 128 + off + n} (mainMemory s) (mainMemory s')"
proof -
  from stub_ReadAt_ok [OF _ assms(5)] assms(1) obtain fds where
    r: "StubFile_ReadAt (int n) (int p) f s = Inr ((int n, take n (drop p prog)), s\<lparr>hostfs := (hostfs s)\<lparr>u_fds := fds\<rparr>\<rparr>)"
      "opened prog f ((hostfs s)\<lparr>u_fds := fds\<rparr>)" by (auto simp: reading_def)
  from mem_put_page [OF assms(2-4), of p prog "mainMemory s"] assms(5) obtain m where
    m: "mem_put (int (frame es i) * 128 + int off) (take n (drop p prog)) (mainMemory s) = Inr m"
      "filled es prog (int p - int (i * 128 + off)) {i * 128 + off..<i * 128 + off + n} (mainMemory s) m" by auto
  let ?s = "s\<lparr>hostfs := (hostfs s)\<lparr>u_fds := fds\<rparr>, mainMemory := m\<rparr>"
  have "ReadInto (int (frame es i) * 128 + int off) (int n) (int p) f s = Inr ?s" using r(1) m(1) by (simp add: ReadInto_def)
  moreover have "reading pt es prog f ?s" using r(2) assms(1) by (simp add: reading_def)
  moreover have "loads s ?s" unfolding loads_def by (intro exI [of _ m] exI [of _ fds]) simp
  ultimately show ?thesis using m(2) by (intro exI [of _ ?s]) simp
qed

lemma frame_of_ok:
  assumes "tables s pt = Some es" "frames_ok es" "i < length es"
  shows "frame_of pt (int i) s = Inr (int (frame es i))"
proof -
  have "frame es i < 128" using assms(2,3) by (simp add: frames_ok_def)
  then have "sint (physicalPage (es ! i)) = int (frame es i)" by (simp add: frame_def sint_small)
  then show ?thesis using assms by (simp add: frame_of_def table_at_def)
qed

lemma load_page_ok:
  fixes s :: "'a os_scheme"
  assumes "reading pt es prog f s" "frames_ok es" "i < length es" "n \<le> 128"
    and "position = int p" "n + p \<le> length prog" "word_range position" "d = position - int (i * 128)"
  shows "\<exists>s'. load_page pt (int i) (int n) position f s = Inr s' \<and> reading pt es prog f s' \<and> loads s s' \<and>
    filled es prog d {i * 128..<i * 128 + n} (mainMemory s) (mainMemory s')"
proof -
  have "frame_of pt (int i) s = Inr (int (frame es i))"
    by (rule frame_of_ok) (use assms in \<open>auto simp: reading_def\<close>)
  moreover have "PageSize = 128" by (simp add: const_defs)
  ultimately show ?thesis
    using ReadInto_page [OF assms(1-3), of 0 n p] assms(4-) by (simp add: load_page_def)
qed

lemma load_pages_ok:
  fixes s :: "'a os_scheme"
  assumes "reading pt es prog f s" "frames_ok es"
    and "\<forall>i \<in> set is. 0 \<le> i \<and> nat i < length es \<and> 0 \<le> i * 128 + d \<and> i * 128 + d + 128 \<le> int (length prog) \<and> word_range (i * 128 + d)"
    and "\<And>i. position i = i * 128 + d"
  shows "\<exists>s'. for_each (\<lambda>i. load_page pt i 128 (position i) f) is s = Inr s' \<and> reading pt es prog f s' \<and> loads s s' \<and>
    filled es prog d (\<Union>i \<in> set is. {nat i * 128..<nat i * 128 + 128}) (mainMemory s) (mainMemory s')"
  using assms(1,3)
proof (induction "is" arbitrary: s)
  case Nil
  then show ?case by auto
next
  case (Cons i "is")
  have i: "0 \<le> i" "nat i < length es" "0 \<le> i * 128 + d" "i * 128 + d + 128 \<le> int (length prog)" "word_range (i * 128 + d)"
    using Cons.prems(2) by auto
  have "\<exists>s1. load_page pt (int (nat i)) (int 128) (position i) f s = Inr s1 \<and> reading pt es prog f s1 \<and> loads s s1 \<and>
      filled es prog d {nat i * 128..<nat i * 128 + 128} (mainMemory s) (mainMemory s1)"
    by (rule load_page_ok [where p = "nat (i * 128 + d)"]) (use Cons.prems(1) assms(2,4) i in auto)
  then obtain s1 where s1: "load_page pt i 128 (position i) f s = Inr s1" "reading pt es prog f s1" "loads s s1"
      "filled es prog d {nat i * 128..<nat i * 128 + 128} (mainMemory s) (mainMemory s1)" using i(1) by auto
  from Cons.IH [OF s1(2)] Cons.prems(2) obtain s2 where
    s2: "for_each (\<lambda>i. load_page pt i 128 (position i) f) is s1 = Inr s2" "reading pt es prog f s2" "loads s1 s2"
      "filled es prog d (\<Union>i \<in> set is. {nat i * 128..<nat i * 128 + 128}) (mainMemory s1) (mainMemory s2)" by auto
  show ?case
    using s1 s2 filled_trans [OF s1(4) s2(4)] loads_trans [OF s1(3) s2(3)] by auto
qed

subsection \<open>A segment\<close>

abbreviation seg_va :: "Segment \<Rightarrow> int" where "seg_va sg \<equiv> sint (sg_virtualAddr sg)"
abbreviation seg_pos :: "Segment \<Rightarrow> int" where "seg_pos sg \<equiv> sint (sg_inFileAddr sg)"
abbreviation seg_size :: "Segment \<Rightarrow> int" where "seg_size sg \<equiv> sint (sg_size sg)"

text \<open>The segment lies inside the space of \<open>n\<close> pages and inside the file.\<close>

definition seg_ok :: "nat \<Rightarrow> byte list \<Rightarrow> Segment \<Rightarrow> bool" where
  "seg_ok n prog sg \<longleftrightarrow> seg_size sg \<le> 0 \<or>
     0 \<le> seg_va sg \<and> seg_va sg + seg_size sg \<le> int (128 * n) \<and> 0 \<le> seg_pos sg \<and> seg_pos sg + seg_size sg \<le> int (length prog)"

definition seg_addrs :: "Segment \<Rightarrow> nat set" where
  "seg_addrs sg = (if seg_size sg \<le> 0 then {} else {nat (seg_va sg)..<nat (seg_va sg + seg_size sg)})"

text \<open>The page that the segment ends in, and the pages between the first and the last.\<close>

lemma load_last_ok:
  fixes s :: "'a os_scheme"
  assumes "reading pt es prog f s" "frames_ok es" "r < 128" "r \<noteq> 0 \<longrightarrow> l < length es"
    and "0 \<le> int l * 128 + d" "int l * 128 + d + int r \<le> int (length prog)" "word_range (int l * 128 + d)"
  shows "\<exists>s'. (if r \<noteq> 0 then load_page pt (int l) (int r) (int l * 128 + d) f s else Inr s) = Inr s' \<and> reading pt es prog f s' \<and> loads s s' \<and>
    filled es prog d {l * 128..<l * 128 + r} (mainMemory s) (mainMemory s')"
proof (cases "r = 0")
  case True
  then show ?thesis using assms(1) by auto
next
  case False
  have "\<exists>s'. load_page pt (int l) (int r) (int l * 128 + d) f s = Inr s' \<and> reading pt es prog f s' \<and> loads s s' \<and>
      filled es prog d {l * 128..<l * 128 + r} (mainMemory s) (mainMemory s')"
    by (rule load_page_ok [where p = "nat (int l * 128 + d)"]) (use assms False in auto)
  then show ?thesis using False by simp
qed

lemma pages_between: "(\<Union>j \<in> set [int i + 1..int l - 1]. {nat j * 128..<nat j * 128 + 128}) = {(i + 1) * 128..<l * 128}"
proof (intro equalityI subsetI)
  fix x assume "x \<in> {(i + 1) * 128..<l * 128}"
  then have "int (x div 128) \<in> set [int i + 1..int l - 1]" "x \<in> {nat (int (x div 128)) * 128..<nat (int (x div 128)) * 128 + 128}"
    by (auto simp: div_less_iff_less_mult less_eq_div_iff_mult_less_eq)
  then show "x \<in> (\<Union>j \<in> set [int i + 1..int l - 1]. {nat j * 128..<nat j * 128 + 128})" by blast
next
  fix x assume "x \<in> (\<Union>j \<in> set [int i + 1..int l - 1]. {nat j * 128..<nat j * 128 + 128})"
  then obtain j where "int i + 1 \<le> j" "j \<le> int l - 1" "nat j * 128 \<le> x" "x < nat j * 128 + 128" by auto
  then show "x \<in> {(i + 1) * 128..<l * 128}" by auto
qed

lemma load_between_ok:
  fixes s :: "'a os_scheme"
  assumes "reading pt es prog f s" "frames_ok es" "l \<le> length es" "0 \<le> int i * 128 + 128 + d" "int l * 128 + d \<le> int (length prog)"
    and "int (length prog) < 2 ^ 31"
  shows "\<exists>s'. for_each (\<lambda>j. load_page pt j 128 (j * 128 + d) f) [int i + 1..int l - 1] s = Inr s' \<and> reading pt es prog f s' \<and> loads s s' \<and>
    filled es prog d {(i + 1) * 128..<l * 128} (mainMemory s) (mainMemory s')"
  unfolding pages_between [symmetric]
proof (rule load_pages_ok [OF assms(1,2)])
  have "0 \<le> j \<and> nat j < length es \<and> 0 \<le> j * 128 + d \<and> j * 128 + d + 128 \<le> int (length prog) \<and> word_range (j * 128 + d)"
    if "int i + 1 \<le> j" "j \<le> int l - 1" for j
    using that assms(3-6) unfolding word_range_def by (intro conjI) linarith+
  then show "\<forall>j \<in> set [int i + 1..int l - 1]. 0 \<le> j \<and> nat j < length es \<and> 0 \<le> j * 128 + d \<and>
      j * 128 + d + 128 \<le> int (length prog) \<and> word_range (j * 128 + d)" by simp
qed simp

lemma load_segment_ok:
  fixes s :: "'a os_scheme"
  assumes "reading pt es prog f s" "frames_ok es" "seg_ok (length es) prog sg" "length es \<le> 128" "int (length prog) < 2 ^ 31"
  shows "\<exists>s'. load_segment pt sg f s = Inr s' \<and> reading pt es prog f s' \<and> loads s s' \<and>
    filled es prog (seg_pos sg - seg_va sg) (seg_addrs sg) (mainMemory s) (mainMemory s')"
proof (cases "seg_size sg \<le> 0")
  case True
  then show ?thesis using assms(1) by (auto simp: load_segment_def seg_addrs_def Let_def)
next
  case False
  define va p z where "va = nat (seg_va sg)" and "p = nat (seg_pos sg)" and "z = nat (seg_size sg)"
  have v: "seg_va sg = int va" "seg_pos sg = int p" "seg_size sg = int z" "0 < z" "va + z \<le> 128 * length es" "p + z \<le> length prog"
    using False assms(3) by (auto simp: seg_ok_def va_def p_def z_def)
  define i off where "i = va div 128" and "off = va mod 128"
  have io: "va = i * 128 + off" "off < 128" by (auto simp: i_def off_def)
  have il: "i < length es" using v(4,5) by (simp add: i_def page_bound)
  let ?d = "int p - int va"
  have fr: "frame_of pt (int i) s = Inr (int (frame es i))"
    by (rule frame_of_ok) (use assms il in \<open>auto simp: reading_def\<close>)
  have ps: "PageSize = 128" by (simp add: const_defs)
  have addr: "int (frame es i) * 128 + 128 - (128 - int off) = int (frame es i) * 128 + int off" by simp
  have va_div: "int va sdiv 128 = int i" "int va smod 128 = int off" by (simp_all add: i_def off_def zdiv_int zmod_int)
  show ?thesis
  proof (cases "128 - int off < int z")
    case False
    then have one: "off + z \<le> 128" by simp
    from ReadInto_page [OF assms(1,2) il one, of p] v(6) obtain s1 where
      s1: "ReadInto (int (frame es i) * 128 + int off) (int z) (int p) f s = Inr s1" "reading pt es prog f s1" "loads s s1"
        "filled es prog (int p - int (i * 128 + off)) {i * 128 + off..<i * 128 + off + z} (mainMemory s) (mainMemory s1)"
      by (auto simp: add.commute)
    have "load_segment pt sg f s = Inr s1"
      using False v(4) fr s1(1) unfolding load_segment_def Let_def v ps va_div by (simp add: addr)
    moreover have "seg_addrs sg = {va..<va + z}" using v by (simp add: seg_addrs_def nat_int_add)
    ultimately show ?thesis using s1 unfolding v io(1) [symmetric] by auto
  next
    case True
    let ?n1 = "128 - off"
    define e l r where "e = va + z" and "l = e div 128" and "r = e mod 128"
    have lr: "e = l * 128 + r" "r < 128" by (auto simp: l_def r_def)
    have il2: "i < l" using True io lr unfolding e_def by linarith
    have ell: "e \<le> 128 * length es" using v(5) by (simp add: e_def)
    have p1: "int p + (j * 128 - int i * 128 - int off) = j * 128 + ?d" for j
      using io by simp
    have fit: "off + ?n1 \<le> 128" "?n1 + p \<le> length prog" using io(2) v(6) True by linarith+
    from ReadInto_page [OF assms(1,2) il fit] obtain s1 where
      s1: "ReadInto (int (frame es i) * 128 + int off) (int ?n1) (int p) f s = Inr s1" "reading pt es prog f s1" "loads s s1"
        "filled es prog ?d {va..<va + ?n1} (mainMemory s) (mainMemory s1)"
      unfolding io(1) by auto
    have in_file: "0 \<le> int l * 128 + ?d" "int l * 128 + ?d + int r \<le> int (length prog)" "0 \<le> int i * 128 + 128 + ?d"
      using il2 io lr v(6) unfolding e_def by linarith+
    have "word_range (int l * 128 + ?d)" using in_file(1,2) assms(5) by (simp add: word_range_def)
    moreover have l: "r \<noteq> 0 \<longrightarrow> l < length es" "l \<le> length es" using ell lr by linarith+
    ultimately obtain s2 where s2: "(if r \<noteq> 0 then load_page pt (int l) (int r) (int l * 128 + ?d) f s1 else Inr s1) = Inr s2"
        "reading pt es prog f s2" "loads s1 s2" "filled es prog ?d {l * 128..<l * 128 + r} (mainMemory s1) (mainMemory s2)"
      using load_last_ok [OF s1(2) assms(2) lr(2) _ in_file(1,2)] by blast
    have "int l * 128 + ?d \<le> int (length prog)" using in_file(2) by simp
    then obtain s3 where s3: "for_each (\<lambda>j. load_page pt j 128 (j * 128 + ?d) f) [int i + 1..int l - 1] s2 = Inr s3" "reading pt es prog f s3"
        "loads s2 s3" "filled es prog ?d {(i + 1) * 128..<l * 128} (mainMemory s2) (mainMemory s3)"
      using load_between_ok [OF s2(2) assms(2) l(2) in_file(3) _ assms(5)] by blast
    have ediv: "(int va + int z) sdiv 128 = int l" "(int va + int z) smod 128 = int r" "word_range (int va + int z)"
      using v(5) assms(4) by (simp_all add: l_def r_def e_def zdiv_int zmod_int word_range_def)
    have n1: "128 - int off = int ?n1" using io(2) by simp
    have "load_segment pt sg f s = Inr s3"
      using True v(4) fr s1(1) s2(1) s3(1) ediv
      unfolding load_segment_def Let_def v ps va_div by (simp add: addr p1 n1 [symmetric] del: of_nat_diff split: if_splits)
    moreover have "{va..<va + ?n1} \<union> {l * 128..<l * 128 + r} \<union> {(i + 1) * 128..<l * 128} = seg_addrs sg"
    proof -
      have "seg_addrs sg = {va..<e}" using v by (simp add: seg_addrs_def e_def nat_int_add)
      moreover define A B where "A = (i + 1) * 128" and "B = l * 128"
      moreover have "va + ?n1 = A" "l * 128 + r = e" "va \<le> A" "A \<le> B" "B \<le> e" using io lr il2 by (auto simp: A_def B_def)
      then have "{va..<va + ?n1} \<union> {B..<l * 128 + r} \<union> {A..<B} = {va..<e}" by auto
      ultimately show ?thesis by simp
    qed
    ultimately show ?thesis
      using s3(2) filled_trans [OF filled_trans [OF s1(4) s2(4)] s3(4)] loads_trans [OF loads_trans [OF s1(3) s2(3)] s3(3)] v by auto
  qed
qed

subsection \<open>Frames for the pages\<close>

text \<open>The first \<open>k\<close> pages have got frames that were free in \<open>bm\<close>, and these are cleared.\<close>

definition mapped :: "nat \<Rightarrow> bitmap \<Rightarrow> (nat \<Rightarrow> byte) \<Rightarrow> TranslationEntry list \<Rightarrow> bitmap \<Rightarrow> (nat \<Rightarrow> byte) \<Rightarrow> bool" where
  "mapped k bm m es bm' m' \<longleftrightarrow>
     (\<forall>i < k. frame es i < 128 \<and> valid (es ! i) \<and> \<not> readOnly (es ! i) \<and> virtualPage (es ! i) = of_nat i) \<and> inj_on (frame es) {..<k} \<and>
     bm_wf bm' \<and> numBits bm' = 128 \<and> int ` frame es ` {..<k} \<inter> marked bm = {} \<and> marked bm' = marked bm \<union> int ` frame es ` {..<k} \<and>
     m' = (\<lambda>j. if j div 128 \<in> frame es ` {..<k} then 0 else m j)"

lemma map_page_ok:
  fixes s :: "'a os_scheme"
  assumes "tables s pt = Some es" "k < length es" "length es \<le> card ({0..<128} - marked bm)" "marked bm \<subseteq> {0..<128}"
    and "mapped k bm m es (gPhysPageBitmap s) (mainMemory s)"
  shows "\<exists>es' bm' m'. map_page pt k s = Inr (s\<lparr>gPhysPageBitmap := bm', tables := (tables s)(pt \<mapsto> es'), mainMemory := m'\<rparr>) \<and>
    length es' = length es \<and> mapped (Suc k) bm m es' bm' m'"
proof -
  let ?b = "gPhysPageBitmap s" and ?F = "frame es ` {..<k}"
  from assms(5) have M: "inj_on (frame es) {..<k}" "bm_wf ?b" "numBits ?b = 128" "int ` ?F \<inter> marked bm = {}" "marked ?b = marked bm \<union> int ` ?F"
      "mainMemory s = (\<lambda>j. if j div 128 \<in> ?F then 0 else m j)"
    by (simp_all add: mapped_def)
  have "card (int ` ?F) = k" using M(1) by (simp add: card_image inj_on_def)
  then have "card (marked ?b) = card (marked bm) + k"
    unfolding M(5) using M(4) by (subst card_Un_disjoint) auto
  moreover have "card ({0..<128} - marked bm) = 128 - card (marked bm)" using assms(4) by (simp add: card_Diff_subset)
  ultimately have "card (marked ?b) < card {0..<128 :: int}" using assms(2,3) by simp
  then have "marked ?b \<noteq> {0..<numBits ?b}" using M(3) by auto
  from BitMap_Find_ok [OF M(2) this] M(3) obtain pp bm' where
    f: "BitMap_Find ?b = Inr (pp, bm')" "bm_wf bm'" "numBits bm' = 128" "0 \<le> pp" "pp < 128" "pp \<notin> marked ?b" "marked bm' = insert pp (marked ?b)"
    by auto
  define q where "q = nat pp"
  have q: "pp = int q" "q < 128" using f(4,5) by (simp_all add: q_def)
  define t where "t = \<lparr>virtualPage = of_nat k, physicalPage = word_of_int pp, valid = True, readOnly = False, te_use = False, dirty = False\<rparr>"
  define es' where "es' = es[k := t]"
  define m' where "m' = (\<lambda>j. if nat (pp * PageSize) \<le> j \<and> j < nat (pp * PageSize) + 128 then 0 else mainMemory s j)"
  have put: "mem_put (pp * PageSize) (replicate (nat PageSize) 0) (mainMemory s) = Inr m'"
    unfolding mem_put_def m'_def using q by (auto simp: const_defs intro!: ext)
  have "map_page pt k s = Inr (s\<lparr>gPhysPageBitmap := bm', tables := (tables s)(pt \<mapsto> es'), mainMemory := m'\<rparr>)"
    using assms(1,2) f(1) put by (simp add: map_page_def table_at_def es'_def t_def)
  moreover have uq: "unat (word_of_nat q :: int32) = q" by (rule unat_of_nat_small) (use q in simp)
  have fr: "frame es' k = q" "frame es' i = frame es i" if "i \<noteq> k" for i
    using assms(2) q(1) uq that by (simp_all add: frame_def es'_def t_def)
  have F': "frame es' ` {..<Suc k} = insert q ?F"
    using fr(1) [of "Suc k"] by (auto simp: lessThan_Suc fr(2) image_iff)
  have new: "q \<notin> ?F" "int q \<notin> marked bm" using f(6) q(1) M(5) by auto
  have "m' = (\<lambda>j. if j div 128 \<in> frame es' ` {..<Suc k} then 0 else m j)"
  proof
    fix j
    have "nat (pp * PageSize) \<le> j \<and> j < nat (pp * PageSize) + 128 \<longleftrightarrow> j div 128 = q"
      using q by (auto simp: const_defs nat_mult_distrib)
    then show "m' j = (if j div 128 \<in> frame es' ` {..<Suc k} then 0 else m j)" by (simp add: m'_def F' M(6))
  qed
  moreover have "inj_on (frame es') {..<Suc k}"
    using M(1) new(1) fr(1) [of "Suc k"] by (auto simp: lessThan_Suc inj_on_def fr(2)) (metis lessThan_iff image_eqI)+
  moreover have "\<forall>i < Suc k. frame es' i < 128 \<and> valid (es' ! i) \<and> \<not> readOnly (es' ! i) \<and> virtualPage (es' ! i) = of_nat i"
    using assms(2,5) fr(1) [of "Suc k"] q(2) by (auto simp: less_Suc_eq mapped_def fr(2)) (auto simp: es'_def t_def)
  ultimately have "mapped (Suc k) bm m es' bm' m'"
    using f(2,3,7) M(4,5) new q(1) unfolding mapped_def F' by auto
  moreover have "length es' = length es" by (simp add: es'_def)
  ultimately show ?thesis using \<open>map_page pt k s = _\<close> by blast
qed

lemma map_pages_ok:
  fixes s :: "'a os_scheme"
  assumes "tables s pt = Some es" "length es \<le> card ({0..<128} - marked (gPhysPageBitmap s))" "bm_wf (gPhysPageBitmap s)"
      "numBits (gPhysPageBitmap s) = 128"
  shows "\<exists>es' bm' m'. for_each (map_page pt) [0..<length es] s =
      Inr (s\<lparr>gPhysPageBitmap := bm', tables := (tables s)(pt \<mapsto> es'), mainMemory := m'\<rparr>) \<and>
    length es' = length es \<and> mapped (length es) (gPhysPageBitmap s) (mainMemory s) es' bm' m'"
proof -
  let ?I = "\<lambda>k u. \<exists>es' bm' m'. u = s\<lparr>gPhysPageBitmap := bm', tables := (tables s)(pt \<mapsto> es'), mainMemory := m'\<rparr> \<and>
    length es' = length es \<and> mapped k (gPhysPageBitmap s) (mainMemory s) es' bm' m'"
  have sub: "marked (gPhysPageBitmap s) \<subseteq> {0..<128}" using marked_range [of "gPhysPageBitmap s"] assms(4) by simp
  have "\<exists>s'. for_each (map_page pt) [0..<length es] s = Inr s' \<and> ?I (length es) s'"
  proof (rule for_each_upt_inv [where I = ?I])
    show "?I 0 s"
      using assms by (intro exI [of _ es] exI [of _ "gPhysPageBitmap s"] exI [of _ "mainMemory s"]) (simp add: mapped_def fun_upd_idem)
  next
    fix k u
    assume k: "k < length es" and "?I k u"
    then obtain es1 bm1 m1 where u: "u = s\<lparr>gPhysPageBitmap := bm1, tables := (tables s)(pt \<mapsto> es1), mainMemory := m1\<rparr>"
      "length es1 = length es" "mapped k (gPhysPageBitmap s) (mainMemory s) es1 bm1 m1" by blast
    have "\<exists>es' bm' m'. map_page pt k u = Inr (u\<lparr>gPhysPageBitmap := bm', tables := (tables u)(pt \<mapsto> es'), mainMemory := m'\<rparr>) \<and>
        length es' = length es1 \<and> mapped (Suc k) (gPhysPageBitmap s) (mainMemory s) es' bm' m'"
      by (rule map_page_ok) (use k u assms(2) sub in auto)
    then show "\<exists>u'. map_page pt k u = Inr u' \<and> ?I (Suc k) u'" using u(1,2) by auto
  qed
  then show ?thesis by auto
qed

lemma mapped_frames:
  assumes "mapped (length es) bm m es bm' m'"
  shows "frames_ok es" "x < 128 * length es \<Longrightarrow> vmem es m' x = 0" "j \<notin> own_bytes es \<Longrightarrow> m' j = m j"
proof -
  show "frames_ok es" using assms by (simp add: mapped_def frames_ok_def)
  have m': "m' = (\<lambda>j. if j div 128 \<in> frame es ` {..<length es} then 0 else m j)" using assms by (simp add: mapped_def)
  show "vmem es m' x = 0" if "x < 128 * length es"
    using page_bound [OF that] by (simp add: vmem_def paddr_def m')
  show "m' j = m j" if "j \<notin> own_bytes es"
  proof -
    have "j div 128 \<noteq> frame es i" if i: "i < length es" for i
    proof
      assume "j div 128 = frame es i"
      then have "j = paddr es (i * 128 + j mod 128)" by (simp add: paddr_def) (metis div_mult_mod_eq)
      moreover have "i * 128 + j mod 128 < 128 * length es"
      proof -
        have "j mod 128 < 128" by simp
        then show ?thesis using i by linarith
      qed
      ultimately show False using \<open>j \<notin> own_bytes es\<close> by (auto simp: own_bytes_def)
    qed
    then show ?thesis by (auto simp: m')
  qed
qed

subsection \<open>The constructor\<close>

text \<open>The memory image the header describes: initialised data over code over zeros.\<close>

definition noff_image :: "NoffHeader \<Rightarrow> byte list \<Rightarrow> nat \<Rightarrow> byte" where
  "noff_image h prog x =
     (if x \<in> seg_addrs (nf_initData h) then prog ! nat (int x + (seg_pos (nf_initData h) - seg_va (nf_initData h)))
      else if x \<in> seg_addrs (nf_code h) then prog ! nat (int x + (seg_pos (nf_code h) - seg_va (nf_code h)))
      else 0)"

text \<open>The file is open on an executable that fits: magic number, segments inside the file and the space,
  enough free frames.\<close>

definition loadable :: "NoffHeader \<Rightarrow> byte list \<Rightarrow> StubFile \<Rightarrow> 'a os_scheme \<Rightarrow> bool" where
  "loadable h prog f s \<longleftrightarrow>
     opened prog f (hostfs s) \<and> 40 \<le> length prog \<and> int (length prog) < 2 ^ 31 \<and> h = noff_header (take 40 prog) \<and> noffMagic h = NOFFMAGIC \<and>
     bm_wf (gPhysPageBitmap s) \<and> numBits (gPhysPageBitmap s) = NumPhysPages \<and>
     unat (noff_pages h) \<le> card ({0..<NumPhysPages} - marked (gPhysPageBitmap s)) \<and>
     seg_ok (unat (noff_pages h)) prog (nf_code h) \<and> seg_ok (unat (noff_pages h)) prog (nf_initData h)"

text \<open>Addresses that \<^verbatim>\<open>new\<close> has not given out.\<close>

definition unused_above :: "'a os_scheme \<Rightarrow> bool" where
  "unused_above s \<longleftrightarrow> (\<forall>a \<ge> next_addr s. spaces s a = None \<and> tables s a = None)"

lemma load_segments_ok:
  fixes s :: "'a os_scheme"
  assumes r: "reading pt es prog f s" and es: "frames_ok es" "length es \<le> 128"
    and seg: "seg_ok (length es) prog (nf_code h)" "seg_ok (length es) prog (nf_initData h)" and l: "int (length prog) < 2 ^ 31"
    and z: "\<And>x. x < 128 * length es \<Longrightarrow> vmem es (mainMemory s) x = 0"
  shows "\<exists>s1 s2. load_segment pt (nf_code h) f s = Inr s1 \<and> load_segment pt (nf_initData h) f s1 = Inr s2 \<and> loads s s2 \<and>
    reading pt es prog f s2 \<and> (\<forall>x < 128 * length es. vmem es (mainMemory s2) x = noff_image h prog x) \<and>
    (\<forall>j. j \<notin> own_bytes es \<longrightarrow> mainMemory s2 j = mainMemory s j)"
proof -
  from load_segment_ok [OF r es(1) seg(1) es(2) l] obtain s1 where
    s1: "load_segment pt (nf_code h) f s = Inr s1" "reading pt es prog f s1" "loads s s1"
      "filled es prog (seg_pos (nf_code h) - seg_va (nf_code h)) (seg_addrs (nf_code h)) (mainMemory s) (mainMemory s1)" by blast
  from load_segment_ok [OF s1(2) es(1) seg(2) es(2) l] obtain s2 where
    s2: "load_segment pt (nf_initData h) f s1 = Inr s2" "reading pt es prog f s2" "loads s1 s2"
      "filled es prog (seg_pos (nf_initData h) - seg_va (nf_initData h)) (seg_addrs (nf_initData h)) (mainMemory s1) (mainMemory s2)" by blast
  show ?thesis
    using s1 s2 z loads_trans [OF s1(3) s2(3)] by (intro exI [of _ s1] exI [of _ s2]) (auto simp: filled_def noff_image_def)
qed

definition new_space :: "NoffHeader \<Rightarrow> byte list \<Rightarrow> TranslationEntry list \<Rightarrow> 'a os_scheme \<Rightarrow> 'a os_scheme \<Rightarrow> bool" where
  "new_space h prog es s s' \<longleftrightarrow>
     spaces s' = (spaces s)(Suc (next_addr s) \<mapsto> \<lparr>as_pageTable = next_addr s, as_numPages = noff_pages h\<rparr>) \<and>
     tables s' = (tables s)(next_addr s \<mapsto> es) \<and> length es = unat (noff_pages h) \<and> frames_ok es \<and>
     (\<forall>i < length es. valid (es ! i) \<and> \<not> readOnly (es ! i) \<and> virtualPage (es ! i) = of_nat i) \<and>
     bm_wf (gPhysPageBitmap s') \<and> numBits (gPhysPageBitmap s') = NumPhysPages \<and>
     int ` frame es ` {..<length es} \<inter> marked (gPhysPageBitmap s) = {} \<and>
     marked (gPhysPageBitmap s') = marked (gPhysPageBitmap s) \<union> int ` frame es ` {..<length es} \<and>
     (\<forall>x < 128 * length es. vmem es (mainMemory s') x = noff_image h prog x) \<and>
     (\<forall>j. j \<notin> own_bytes es \<longrightarrow> mainMemory s' j = mainMemory s j)"

text \<open>The tables of the kernel and the threads, which loading a program leaves alone.\<close>

definition kept :: "'a os_scheme \<Rightarrow> 'a os_scheme \<Rightarrow> bool" where
  "kept s s' \<longleftrightarrow> pcbs s' = pcbs s \<and> pt_bm s' = pt_bm s \<and> bmsem s' = bmsem s \<and> semtab s' = semtab s \<and> st_bm s' = st_bm s \<and>
     open_files s' = open_files s \<and> addrLock s' = addrLock s \<and> currentThread s' = currentThread s \<and> readyList s' = readyList s \<and>
     threads s' = threads s"

lemma only_io_kept: "only_io s s' \<Longrightarrow> threads s' = threads s \<Longrightarrow> kept s s'"
  by (auto simp: only_io_def kept_def)

lemma kept_trans: "kept s t \<Longrightarrow> kept t u \<Longrightarrow> kept s u"
  by (simp add: kept_def)

context lone_kernel
begin

lemma AddrSpace_new_ok:
  assumes "ok s" "semaphores s (addrLock s) = Some y" "sem_value y = 1" "sem_queue y = []"
    and "loadable h prog f s" "unused_above s"
  shows "\<exists>es s' :: 'a os_scheme. AddrSpace_new e f s = Inr (Suc (next_addr s), s') \<and> ok s' \<and> new_space h prog es s s' \<and>
    semaphores s' = semaphores s \<and> registers s' = registers s \<and> pageTable s' = pageTable s \<and> pageTableSize s' = pageTableSize s \<and>
    u_inodes (hostfs s') = u_inodes (hostfs s) \<and> tlb s' = tlb s \<and> kept s s' \<and> opened prog f (hostfs s') \<and>
    next_addr s' = Suc (Suc (next_addr s))"
proof -
  let ?pt = "next_addr s" and ?n = "unat (noff_pages h)"
  have "sem_value y \<noteq> 0" using assms(3) by simp
  from P_law [OF assms(1,2) this] obtain s1 :: "'a os_scheme" where
    s1: "opP e (addrLock s) s = Inr s1" "ok s1" "only_io s s1" "semaphores s1 = (semaphores s)(addrLock s \<mapsto> y\<lparr>sem_value := sem_value y - 1\<rparr>)"
      "threads s1 = threads s" by blast
  note k1 = only_io_keeps [OF s1(3)]
  from assms(5) have L: "opened prog f (hostfs s)" "40 \<le> length prog" "int (length prog) < 2 ^ 31" "h = noff_header (take 40 prog)"
      "noffMagic h = NOFFMAGIC" "bm_wf (gPhysPageBitmap s)" "numBits (gPhysPageBitmap s) = 128"
      "?n \<le> card ({0..<128} - marked (gPhysPageBitmap s))" "seg_ok ?n prog (nf_code h)" "seg_ok ?n prog (nf_initData h)"
    by (auto simp: loadable_def NumPhysPages_def)
  from stub_ReadAt_ok [of prog f s1 40 0] L(1,2) k1 obtain fds where
    rd: "StubFile_ReadAt 40 0 f s1 = Inr ((40, take 40 prog), s1\<lparr>hostfs := (hostfs s1)\<lparr>u_fds := fds\<rparr>\<rparr>)" "opened prog f ((hostfs s1)\<lparr>u_fds := fds\<rparr>)"
    by auto
  define s2 where "s2 = s1\<lparr>hostfs := (hostfs s1)\<lparr>u_fds := fds\<rparr>\<rparr>"
  let ?C = "{0..<128} - marked (gPhysPageBitmap s)"
  have hd: "take 40 prog @ drop (length (take 40 prog)) (map (fresh_byte e) [0..<40]) = take 40 prog" using L(2) by simp
  have nc: "BitMap_NumClear (gPhysPageBitmap s2) = Inr (int (card ?C))"
    using BitMap_NumClear_ok [OF L(6)] L(7) k1 by (simp add: s2_def)
  have "card ?C \<le> 128" by (rule order_trans [OF card_mono [of "{0..<128 :: int}"]]) auto
  then have le: "noff_pages h \<le> word_of_int (int (card ?C))" and n128: "?n \<le> 128"
    using L(8) by (simp_all add: word_le_nat_alt unat_of_nat_small)
  define s3 where "s3 = s2\<lparr>tables := (tables s2)(?pt \<mapsto> replicate ?n \<lparr>virtualPage = fresh_word e 0, physicalPage = fresh_word e (Suc 0),
      valid = False, readOnly = False, te_use = False, dirty = False\<rparr>), next_addr := Suc ?pt\<rparr>"
  from map_pages_ok [of s3 ?pt, OF _ _ _ _] L(6-8) k1 obtain es bm m where
    s4: "for_each (map_page ?pt) [0..<?n] s3 = Inr (s3\<lparr>gPhysPageBitmap := bm, tables := (tables s3)(?pt \<mapsto> es), mainMemory := m\<rparr>)"
      "length es = ?n" "mapped (length es) (gPhysPageBitmap s) (mainMemory s) es bm m"
    by (auto simp: s3_def s2_def)
  define s4' where "s4' = s3\<lparr>gPhysPageBitmap := bm, tables := (tables s3)(?pt \<mapsto> es), mainMemory := m\<rparr>"
  note mf = mapped_frames [OF s4(3)]
  have "\<exists>s5 s6. load_segment ?pt (nf_code h) f s4' = Inr s5 \<and> load_segment ?pt (nf_initData h) f s5 = Inr s6 \<and> loads s4' s6 \<and>
      reading ?pt es prog f s6 \<and> (\<forall>x < 128 * length es. vmem es (mainMemory s6) x = noff_image h prog x) \<and>
      (\<forall>j. j \<notin> own_bytes es \<longrightarrow> mainMemory s6 j = mainMemory s4' j)"
  proof (rule load_segments_ok)
    show "reading ?pt es prog f s4'" using rd(2) by (simp add: reading_def s4'_def s3_def s2_def)
    show "vmem es (mainMemory s4') x = 0" if "x < 128 * length es" for x using mf(2) [OF that] by (simp add: s4'_def)
  qed (use mf(1) s4(2) n128 L(3,9,10) in simp_all)
  then obtain s5 s6 where
    s6: "load_segment ?pt (nf_code h) f s4' = Inr s5" "load_segment ?pt (nf_initData h) f s5 = Inr s6" "loads s4' s6"
      "\<forall>x < 128 * length es. vmem es (mainMemory s6) x = noff_image h prog x" "\<forall>j. j \<notin> own_bytes es \<longrightarrow> mainMemory s6 j = mainMemory s4' j"
      "opened prog f (hostfs s6)"
    by (auto simp: reading_def)
  from s6(3) obtain m6 fds6 where m6: "s6 = s4'\<lparr>mainMemory := m6, hostfs := (hostfs s4')\<lparr>u_fds := fds6\<rparr>\<rparr>" by (auto simp: loads_def)
  have "same_processor s1 s6" by (simp add: same_processor_def m6 s4'_def s3_def s2_def)
  with s1(2) ok_same have ok6: "ok s6" by blast
  have y6: "semaphores s6 (addrLock s6) = Some (y\<lparr>sem_value := sem_value y - 1\<rparr>)"
    using s1(4) k1 by (simp add: m6 s4'_def s3_def s2_def)
  have "word_range (sem_value y)" using assms(3) by simp
  with V_law [OF ok6 y6] assms(4) obtain s7 :: "'a os_scheme" where
    s7: "opV e (addrLock s6) s6 = Inr s7" "ok s7" "only_io s6 s7" "semaphores s7 = (semaphores s6)(addrLock s6 \<mapsto> y)"
      "threads s7 = threads s6" by auto
  note k7 = only_io_keeps [OF s7(3)]
  define s8 where "s8 = s7\<lparr>spaces := (spaces s7)(Suc ?pt \<mapsto> \<lparr>as_pageTable = ?pt, as_numPages = noff_pages h\<rparr>), next_addr := Suc (Suc ?pt)\<rparr>"
  have na: "next_addr s7 = Suc ?pt" "next_addr s2 = ?pt" using k7(7) k1 by (simp_all add: m6 s4'_def s3_def s2_def)
  have free: "spaces s7 (Suc ?pt) = None" using assms(6) k7(3) k1 by (simp add: m6 s4'_def s3_def s2_def unused_above_def)
  have "same_processor s7 s8" using free by (simp add: same_processor_def s8_def map_le_def dom_def)
  with s7(2) ok_same have ok8: "ok s8" by blast
  have "AddrSpace_new e f s = Inr (Suc ?pt, s8)"
    using s1(1) rd(1) L(2,5) L(4) [symmetric] nc le s4(1) s6(1,2) s7(1) na
    by (simp add: AddrSpace_new_def native_header_def Let_def s8_def flip: s2_def s3_def s4'_def)
  moreover have "semaphores s8 = semaphores s" using s7(4) s1(4) assms(2) k1 by (simp add: s8_def m6 s4'_def s3_def s2_def fun_upd_idem)
  moreover have "new_space h prog es s s8"
    using mf s4(2,3) s6(4,5) k7 k1 by (auto simp: new_space_def s8_def m6 s4'_def s3_def s2_def mapped_def NumPhysPages_def)
  moreover have "registers s8 = registers s" "pageTable s8 = pageTable s" "pageTableSize s8 = pageTableSize s" "u_inodes (hostfs s8) = u_inodes (hostfs s)" "tlb s8 = tlb s"
    using k7 k1 by (simp_all add: s8_def m6 s4'_def s3_def s2_def)
  moreover have "kept s1 s6" "kept s7 s8" by (simp_all add: kept_def m6 s4'_def s3_def s2_def s8_def)
  then have "kept s s8" using only_io_kept [OF s1(3,5)] only_io_kept [OF s7(3,5)] kept_trans by blast
  moreover have "opened prog f (hostfs s8)" "next_addr s8 = Suc (Suc (next_addr s))" using s6(6) k7 by (simp_all add: s8_def)
  ultimately show ?thesis using ok8 by blast
qed

end

subsection \<open>The destructor\<close>

lemma AddrSpace_delete_ok:
  fixes s :: "'a os_scheme"
  assumes "spaces s sp = Some \<lparr>as_pageTable = pt, as_numPages = n\<rparr>" "tables s pt = Some es" "length es = unat n" "frames_ok es"
    and "bm_wf (gPhysPageBitmap s)" "numBits (gPhysPageBitmap s) = 128"
  shows "\<exists>bm. AddrSpace_delete sp s = Inr (s\<lparr>gPhysPageBitmap := bm, tables := (tables s)(pt := None), spaces := (spaces s)(sp := None)\<rparr>) \<and>
    bm_wf bm \<and> numBits bm = 128 \<and> marked bm = marked (gPhysPageBitmap s) - int ` frame es ` {..<length es}"
proof -
  let ?body = "\<lambda>i u. rbind (frame_of pt (int i) u) (\<lambda>pp. rbind (BitMap_Clear pp (gPhysPageBitmap u)) (\<lambda>bm. Inr (u\<lparr>gPhysPageBitmap := bm\<rparr>)))"
  let ?I = "\<lambda>k u. \<exists>bm. u = s\<lparr>gPhysPageBitmap := bm\<rparr> \<and> bm_wf bm \<and> numBits bm = 128 \<and>
    marked bm = marked (gPhysPageBitmap s) - int ` frame es ` {..<k}"
  have "\<exists>s'. for_each ?body [0..<length es] s = Inr s' \<and> ?I (length es) s'"
  proof (rule for_each_upt_inv [where I = ?I])
    show "?I 0 s" using assms(5,6) by (intro exI [of _ "gPhysPageBitmap s"]) simp
  next
    fix k u
    assume k: "k < length es" and "?I k u"
    then obtain bm where u: "u = s\<lparr>gPhysPageBitmap := bm\<rparr>" "bm_wf bm" "numBits bm = 128"
      "marked bm = marked (gPhysPageBitmap s) - int ` frame es ` {..<k}" by blast
    have fr: "frame_of pt (int k) u = Inr (int (frame es k))" by (rule frame_of_ok) (use u k assms in auto)
    have "frame es k < 128" using assms(4) k by (simp add: frames_ok_def)
    then obtain bm' where "BitMap_Clear (int (frame es k)) bm = Inr bm'" "bm_wf bm'" "numBits bm' = 128" "marked bm' = marked bm - {int (frame es k)}"
      using BitMap_Clear_ok [OF u(2), of "int (frame es k)"] u(3) by auto
    then show "\<exists>u'. ?body k u = Inr u' \<and> ?I (Suc k) u'" using fr u by (auto simp: lessThan_Suc)
  qed
  then show ?thesis using assms(1-3) by (auto simp: AddrSpace_delete_def)
qed

lemma new_space_delete:
  fixes s s' :: "'a os_scheme"
  assumes "new_space h prog es s s'" "unused_above s"
  shows "\<exists>bm. AddrSpace_delete (Suc (next_addr s)) s' = Inr (s'\<lparr>gPhysPageBitmap := bm, tables := tables s, spaces := spaces s\<rparr>) \<and>
    bm_wf bm \<and> numBits bm = NumPhysPages \<and> marked bm = marked (gPhysPageBitmap s)"
proof -
  have n: "spaces s' (Suc (next_addr s)) = Some \<lparr>as_pageTable = next_addr s, as_numPages = noff_pages h\<rparr>" "tables s' (next_addr s) = Some es"
      "length es = unat (noff_pages h)" "frames_ok es" "bm_wf (gPhysPageBitmap s')" "numBits (gPhysPageBitmap s') = 128"
    using assms(1) by (simp_all add: new_space_def NumPhysPages_def)
  have "spaces s (Suc (next_addr s)) = None" "tables s (next_addr s) = None" using assms(2) by (auto simp: unused_above_def)
  then have "(spaces s')(Suc (next_addr s) := None) = spaces s" "(tables s')(next_addr s := None) = tables s"
    using assms(1) by (simp_all add: new_space_def fun_upd_idem)
  moreover have "int ` frame es ` {..<length es} \<inter> marked (gPhysPageBitmap s) = {}"
      "marked (gPhysPageBitmap s') = marked (gPhysPageBitmap s) \<union> int ` frame es ` {..<length es}"
    using assms(1) unfolding new_space_def by blast+
  then have "marked (gPhysPageBitmap s') - int ` frame es ` {..<length es} = marked (gPhysPageBitmap s)" by blast
  ultimately show ?thesis using AddrSpace_delete_ok [OF n] by (auto simp: NumPhysPages_def)
qed

subsection \<open>What a program sees\<close>

lemma vbyte_new_space:
  fixes s s' :: "'a os_scheme"
  assumes "new_space h prog es s s'" "tlb s' = None" "x < 128 * length es"
  shows "\<exists>s''. RestoreState (Suc (next_addr s)) s' = Inr s'' \<and> vbyte s'' x = Some (noff_image h prog x)"
proof -
  have n: "length es = unat (noff_pages h)" "tables s' (next_addr s) = Some es" "frames_ok es" "\<forall>i < length es. valid (es ! i)"
      "vmem es (mainMemory s') x = noff_image h prog x"
    using assms(1,3) by (auto simp: new_space_def)
  let ?s = "s'\<lparr>pageTable := Some (next_addr s), pageTableSize := noff_pages h\<rparr>"
  have "RestoreState (Suc (next_addr s)) s' = Inr ?s" using assms(1) by (simp add: RestoreState_def new_space_def)
  moreover have "phys_of ?s x = Some (paddr es x)"
    using n page_bound [OF assms(3)] assms(2) by (simp add: phys_of_def page_entry_def paddr_def frame_def frames_ok_def)
  then have "vbyte ?s x = Some (noff_image h prog x)" using n(5) by (simp add: vbyte_def vmem_def)
  ultimately show ?thesis by blast
qed

lemma other_space_kept:
  fixes s s' :: "'a os_scheme"
  assumes "new_space h prog es s s'" "\<forall>i < length es2. int (frame es2 i) \<in> marked (gPhysPageBitmap s)" "x < 128 * length es2"
  shows "vmem es2 (mainMemory s') x = vmem es2 (mainMemory s) x"
proof -
  have "int (frame es2 (x div 128)) \<in> marked (gPhysPageBitmap s)" using assms(2) page_bound [OF assms(3)] by blast
  moreover have "int ` frame es ` {..<length es} \<inter> marked (gPhysPageBitmap s) = {}" using assms(1) unfolding new_space_def by blast
  ultimately have f: "int (frame es2 (x div 128)) \<notin> int ` frame es ` {..<length es}" by blast
  have "paddr es2 x div 128 = frame es2 (x div 128)" by (simp add: paddr_def)
  moreover have "paddr es y div 128 = frame es (y div 128)" for y by (simp add: paddr_def)
  ultimately have "paddr es2 x \<notin> own_bytes es" using f page_bound unfolding own_bytes_def by (force simp: image_iff)
  then show ?thesis using assms(1) by (simp add: new_space_def vmem_def)
qed

subsection \<open>Properties\<close>

text \<open>C10. The constructor of \<^verbatim>\<open>AddrSpace\<close> loads the program. For an executable whose segments lie inside the file and
  inside the address space, with enough free frames, it returns a space whose pages have distinct
  frames, all of them free before and now marked, and when its page table is restored into the machine every virtual
  address holds the byte of the image: initialised data and code from the file, in whatever way the segments
  begin and end inside pages, zeros everywhere else. Any other space whose frames are marked keeps all its memory.\<close>

theorem AddrSpace_new_loads:
  fixes s :: "'a os_scheme"
  assumes "resting ux s" and "semaphores s (addrLock s) = Some y" "sem_value y = 1" "sem_queue y = []"
    and "loadable h prog f s" "unused_above s" "tlb s = None"
  shows "\<exists>es s' :: 'a os_scheme. AddrSpace_new (real_env self_switch ux yield al jb jw) f s = Inr (Suc (next_addr s), s') \<and>
    resting ux s' \<and> semaphores s' = semaphores s \<and> registers s' = registers s \<and> new_space h prog es s s' \<and>
    (\<forall>x < 128 * unat (noff_pages h).
       \<exists>s''. RestoreState (Suc (next_addr s)) s' = Inr s'' \<and> vbyte s'' x = Some (noff_image h prog x)) \<and>
    (\<forall>es2 x. (\<forall>i < length es2. int (frame es2 i) \<in> marked (gPhysPageBitmap s)) \<longrightarrow> x < 128 * length es2 \<longrightarrow>
       vmem es2 (mainMemory s') x = vmem es2 (mainMemory s) x)"
proof -
  from lone.AddrSpace_new_ok [OF assms(1,2) _ assms(4-6), of yield al jb jw] assms(3) obtain es and s' :: "'a os_scheme" where
    n: "AddrSpace_new (real_env self_switch ux yield al jb jw) f s = Inr (Suc (next_addr s), s')" "resting ux s'" "new_space h prog es s s'"
      "semaphores s' = semaphores s" "registers s' = registers s" "tlb s' = tlb s" by auto
  moreover have "length es = unat (noff_pages h)" using n(3) by (simp add: new_space_def)
  ultimately show ?thesis
    using vbyte_new_space [OF n(3)] other_space_kept [OF n(3)] assms(7) by (intro exI [of _ es] exI [of _ s']) auto
qed

text \<open>C31. An address space gives back exactly what it took. Loading an executable and deleting the space again leaves the
  bitmap of frames, the page tables and the spaces as they were before.\<close>

theorem AddrSpace_new_delete:
  fixes s :: "'a os_scheme"
  assumes "resting ux s" and "semaphores s (addrLock s) = Some y" "sem_value y = 1" "sem_queue y = []"
    and "loadable h prog f s" "unused_above s"
  shows "\<exists>sp s1 s2 :: 'a os_scheme. AddrSpace_new (real_env self_switch ux yield al jb jw) f s = Inr (sp, s1) \<and>
    AddrSpace_delete sp s1 = Inr s2 \<and> marked (gPhysPageBitmap s2) = marked (gPhysPageBitmap s) \<and> bm_wf (gPhysPageBitmap s2) \<and>
    tables s2 = tables s \<and> spaces s2 = spaces s"
proof -
  from lone.AddrSpace_new_ok [OF assms(1,2) _ assms(4-6), of yield al jb jw] assms(3) obtain es and s1 :: "'a os_scheme" where
    n: "AddrSpace_new (real_env self_switch ux yield al jb jw) f s = Inr (Suc (next_addr s), s1)" "new_space h prog es s s1" by auto
  from new_space_delete [OF n(2) assms(6)] n(1) show ?thesis by auto
qed

text \<open>An executable with one instruction, and a machine that can load it.\<close>

definition tiny_program :: "byte list" where
  "tiny_program = concat (map (host_store32 False) [0xbadfad, 0, 40, 4, 0, 0, 0, 0, 0, 0, 0x24020007])"

definition loader_machine :: os where
  "loader_machine = os_machine\<lparr>pending := [poll_at 100], semaphores := [0 \<mapsto> Semaphore_new ''addrLock'' 1],
     the_console := Some \<lparr>keyboard = [], display = [], cs_writeHandler = Signal 3, cs_readHandler = Signal 2, putBusy = False, incoming = EOF\<rparr>,
     hostfs := \<lparr>u_names = [[112] \<mapsto> 0], u_inodes = (\<lambda>_. tiny_program), u_fds = [Some (0, 0)], u_next = 1\<rparr>,
     gPhysPageBitmap := \<lparr>numBits = 128, numWords = 4, bmap = [5, 0, 0, 0]\<rparr>\<rparr>"

lemma loader_machine_ok:
  "resting silence loader_machine" "semaphores loader_machine (addrLock loader_machine) = Some (Semaphore_new ''addrLock'' 1)"
  "unused_above loader_machine" "tlb loader_machine = None"
  by (auto simp: resting_def at_rest_def loader_machine_def os_machine_def quiet_def own_context_def Thread_new_def no_input_def silence_def
      poll_soon_def Statistics_new_def unused_above_def const_defs)

lemma tiny_header:
  "noff_header (take 40 tiny_program) = \<lparr>noffMagic = 0xbadfad, nf_code = \<lparr>sg_virtualAddr = 0, sg_inFileAddr = 40, sg_size = 4\<rparr>,
     nf_initData = \<lparr>sg_virtualAddr = 0, sg_inFileAddr = 0, sg_size = 0\<rparr>, nf_uninitData = \<lparr>sg_virtualAddr = 0, sg_inFileAddr = 0, sg_size = 0\<rparr>\<rparr>"
  by (simp add: tiny_program_def host_store32_def noff_header_def noff_segment_def noff_word_def host_load32_def const_defs Let_def)

lemma loader_machine_loadable: "loadable (noff_header (take 40 tiny_program)) tiny_program \<lparr>sf_file = 3, sf_currentOffset = 0, sf_type = 0\<rparr> loader_machine"
proof -
  let ?b = "\<lparr>numBits = 128, numWords = 4, bmap = [5, 0, 0, 0]\<rparr>"
  have l: "length tiny_program = 44" by (simp add: tiny_program_def host_store32_def Let_def)
  have p: "noff_pages (noff_header (take 40 tiny_program)) = 9" by (simp add: noff_pages_def tiny_header const_defs Let_def)
  have wf: "bm_wf ?b" by (simp add: bm_wf_def const_defs divRoundUp_def)
  have lo: "bit_at ?b i \<Longrightarrow> i < 32" if "0 \<le> i" "i < 128" for i
  proof (rule ccontr)
    assume b: "bit_at ?b i" and "\<not> i < 32"
    with that have "i div 32 = 1 \<or> i div 32 = 2 \<or> i div 32 = 3" by linarith
    with b show False by (auto simp: bit_at_def)
  qed
  have "{32..<128} \<subseteq> {0..<128} - marked ?b"
  proof
    fix i :: int assume i: "i \<in> {32..<128}"
    then show "i \<in> {0..<128} - marked ?b" using lo [of i] by (auto simp: marked_def)
  qed
  then have "card {32..<128 :: int} \<le> card ({0..<128} - marked ?b)" by (intro card_mono) auto
  then show ?thesis using l p wf
    by (simp add: loadable_def opened_def loader_machine_def os_machine_def fd_at_def NumPhysPages_def NOFFMAGIC_def seg_ok_def tiny_header)
qed

theorem AddrSpace_new_loads_witness:
  "\<exists>es s' s''. AddrSpace_new (real_env self_switch silence Inr (\<lambda>_. True) (\<lambda>_. 0) (\<lambda>_. 0)) \<lparr>sf_file = 3, sf_currentOffset = 0, sf_type = 0\<rparr> loader_machine =
       Inr (Suc (next_addr loader_machine), s') \<and> new_space (noff_header (take 40 tiny_program)) tiny_program es loader_machine s' \<and>
     RestoreState (Suc (next_addr loader_machine)) s' = Inr s'' \<and> vbyte s'' 2 = Some 2"
proof -
  have p: "noff_pages (noff_header (take 40 tiny_program)) = 9" by (simp add: noff_pages_def tiny_header const_defs Let_def)
  have i: "noff_image (noff_header (take 40 tiny_program)) tiny_program 2 = 2"
    by (simp add: noff_image_def seg_addrs_def tiny_header) (simp add: tiny_program_def host_store32_def Let_def)
  from AddrSpace_new_loads [OF loader_machine_ok(1,2) _ _ loader_machine_loadable loader_machine_ok(3,4), of Inr "\<lambda>_. True" "\<lambda>_. 0" "\<lambda>_. 0"]
  obtain es and s' :: os where
    n: "AddrSpace_new (real_env self_switch silence Inr (\<lambda>_. True) (\<lambda>_. 0) (\<lambda>_. 0)) \<lparr>sf_file = 3, sf_currentOffset = 0, sf_type = 0\<rparr> loader_machine =
       Inr (Suc (next_addr loader_machine), s')" "new_space (noff_header (take 40 tiny_program)) tiny_program es loader_machine s'"
    and v: "\<forall>x < 128 * unat (noff_pages (noff_header (take 40 tiny_program))).
       \<exists>s''. RestoreState (Suc (next_addr loader_machine)) s' = Inr s'' \<and> vbyte s'' x = Some (noff_image (noff_header (take 40 tiny_program)) tiny_program x)"
    by (auto simp: Semaphore_new_def)
  from v [rule_format, of 2] p i n show ?thesis by auto
qed

theorem AddrSpace_new_delete_witness:
  "\<exists>sp s1 s2. AddrSpace_new (real_env self_switch silence Inr (\<lambda>_. True) (\<lambda>_. 0) (\<lambda>_. 0)) \<lparr>sf_file = 3, sf_currentOffset = 0, sf_type = 0\<rparr> loader_machine =
       Inr (sp, s1) \<and> AddrSpace_delete sp s1 = Inr s2 \<and> marked (gPhysPageBitmap s2) = marked (gPhysPageBitmap loader_machine)"
  using AddrSpace_new_delete [OF loader_machine_ok(1,2) _ _ loader_machine_loadable loader_machine_ok(3), of Inr "\<lambda>_. True" "\<lambda>_. 0" "\<lambda>_. 0"]
  by (auto simp: Semaphore_new_def)

end
