(* ===== verification/Named_Semaphores.thy ===== *)
theory Named_Semaphores
  imports Semaphore_Table Synch_Console
begin

text \<open>
  What the table of user semaphores (threads/stable.cc) promises: it is a finite map from names to counters. Names are
  compared as the code does, on their first 49 characters. The lemmas are proved in the locale \<open>lone_kernel\<close>, so
  that they rest on the laws of \<^verbatim>\<open>P\<close> and \<^verbatim>\<open>V\<close> only.
\<close>

subsection \<open>The map\<close>

definition key :: "byte list \<Rightarrow> byte list" where
  "key nm = take 49 (c_string nm)"

definition labelled :: "byte list \<Rightarrow> Sem option \<Rightarrow> bool" where
  "labelled nm x \<longleftrightarrow> (case x of None \<Rightarrow> False | Some y \<Rightarrow> key (sem_label y) = key nm)"

definition slot_of :: "Sem option list \<Rightarrow> byte list \<Rightarrow> nat option" where
  "slot_of tbl nm = find (\<lambda>i. labelled nm (tbl ! i)) [0..<length tbl]"

definition counter :: "'a os_scheme \<Rightarrow> byte list \<Rightarrow> int option" where
  "counter s nm = Option.bind (slot_of (semtab s) nm) (\<lambda>i. Option.bind (semtab s ! i) (\<lambda>x. map_option sem_value (semaphores s (sem_ptr x))))"

definition stab_ok :: "'a os_scheme \<Rightarrow> bool" where
  "stab_ok s \<longleftrightarrow> length (semtab s) = MAX_SEMAPHORE \<and> bm_wf (st_bm s) \<and> numBits (st_bm s) = int MAX_SEMAPHORE \<and>
     (\<forall>i < MAX_SEMAPHORE. int i \<in> marked (st_bm s) \<longleftrightarrow> semtab s ! i \<noteq> None) \<and>
     (\<forall>i < MAX_SEMAPHORE. \<forall>x. semtab s ! i = Some x \<longrightarrow> sem_ptr x < next_addr s \<and> (\<exists>y. semaphores s (sem_ptr x) = Some y \<and> sem_queue y = [])) \<and>
     (\<forall>i < MAX_SEMAPHORE. \<forall>j < MAX_SEMAPHORE. \<forall>x y. semtab s ! i = Some x \<longrightarrow> semtab s ! j = Some y \<longrightarrow> sem_ptr x = sem_ptr y \<longrightarrow> i = j)"

lemma stab_okD:
  assumes "stab_ok s"
  shows "length (semtab s) = MAX_SEMAPHORE" "bm_wf (st_bm s)" "numBits (st_bm s) = int MAX_SEMAPHORE"
    "i < MAX_SEMAPHORE \<Longrightarrow> int i \<in> marked (st_bm s) \<longleftrightarrow> semtab s ! i \<noteq> None"
    "i < MAX_SEMAPHORE \<Longrightarrow> semtab s ! i = Some x \<Longrightarrow> sem_ptr x < next_addr s"
    "i < MAX_SEMAPHORE \<Longrightarrow> semtab s ! i = Some x \<Longrightarrow> \<exists>y. semaphores s (sem_ptr x) = Some y \<and> sem_queue y = []"
    "i < MAX_SEMAPHORE \<Longrightarrow> j < MAX_SEMAPHORE \<Longrightarrow> semtab s ! i = Some x \<Longrightarrow> semtab s ! j = Some z \<Longrightarrow> sem_ptr x = sem_ptr z \<Longrightarrow> i = j"
  using assms by (simp_all add: stab_ok_def)

lemma key_strncpy: "length junk = 50 \<Longrightarrow> key (strncpy junk nm 50) = key nm"
proof -
  assume "length junk = 50"
  then have "strncmp_eq (strncpy junk nm 50) nm 50" using strncmp_eq_strncpy [of 50 junk nm nm] by (simp add: strncmp_eq_def)
  then have "take 49 (take 50 (c_string (strncpy junk nm 50))) = take 49 (take 50 (c_string nm))" by (simp add: strncmp_eq_def)
  then show ?thesis by (simp add: key_def min_def)
qed

lemma sem_search_find:
  assumes "\<forall>i \<in> set is. i < length tbl"
  shows "sem_search nm tbl is = Inr (find (\<lambda>i. labelled nm (tbl ! i)) is)"
  using assms by (induction "is") (auto simp: labelled_def key_def strncmp_eq_def split: option.splits)

lemma sem_search_slot: "stab_ok s \<Longrightarrow> sem_search nm (semtab s) [0..<MAX_SEMAPHORE] = Inr (slot_of (semtab s) nm)"
  unfolding slot_of_def by (subst sem_search_find) (auto simp: stab_ok_def)

lemma slot_ofD:
  assumes "slot_of tbl nm = Some i"
  obtains x where "i < length tbl" "tbl ! i = Some x" "key (sem_label x) = key nm"
  using assms by (auto simp: slot_of_def find_Some_iff labelled_def split: option.splits)

lemma slot_of_cong: "key a = key b \<Longrightarrow> slot_of tbl a = slot_of tbl b"
  by (simp add: slot_of_def labelled_def cong: option.case_cong)

text \<open>A name that is in the table, with its semaphore.\<close>

lemma counterE:
  assumes "stab_ok s" "slot_of (semtab s) nm = Some i"
  obtains x y where "i < MAX_SEMAPHORE" "semtab s ! i = Some x" "key (sem_label x) = key nm" "semaphores s (sem_ptr x) = Some y"
    "sem_queue y = []" "counter s nm = Some (sem_value y)"
proof -
  from slot_ofD [OF assms(2)] obtain x where x: "i < length (semtab s)" "semtab s ! i = Some x" "key (sem_label x) = key nm" .
  note i = x(1) [unfolded stab_okD(1) [OF assms(1)]]
  from stab_okD(6) [OF assms(1) i x(2)] obtain y where "semaphores s (sem_ptr x) = Some y" "sem_queue y = []" by blast
  with x i assms(2) that show thesis by (auto simp: counter_def)
qed

lemma counter_None: "stab_ok s \<Longrightarrow> counter s nm = None \<longleftrightarrow> slot_of (semtab s) nm = None"
  by (cases "slot_of (semtab s) nm") (auto elim: counterE simp: counter_def)

subsection \<open>Changes\<close>

text \<open>One semaphore of the table gets another value.\<close>

lemma counter_step:
  assumes "stab_ok s" "semtab s ! i = Some x" "i < MAX_SEMAPHORE" "slot_of (semtab s) nm = Some i"
    and s': "semtab s' = semtab s" "st_bm s' = st_bm s" "next_addr s' = next_addr s" "semaphores s' = (semaphores s)(sem_ptr x \<mapsto> y)" "sem_queue y = []"
  shows "stab_ok s'" "counter s' = (\<lambda>b. if key b = key nm then Some (sem_value y) else counter s b)"
proof -
  show "stab_ok s'" using assms(1,2) s' unfolding stab_ok_def by auto
  show "counter s' = (\<lambda>b. if key b = key nm then Some (sem_value y) else counter s b)"
  proof
    fix b
    show "counter s' b = (if key b = key nm then Some (sem_value y) else counter s b)"
    proof (cases "slot_of (semtab s) b")
      case None
      then show ?thesis using slot_of_cong [of b nm "semtab s"] assms(4) by (auto simp: counter_def s'(1))
    next
      case (Some j)
      from slot_ofD [OF Some] obtain z where z: "j < MAX_SEMAPHORE" "semtab s ! j = Some z" "key (sem_label z) = key b"
        using assms(1) by (auto simp: stab_ok_def)
      show ?thesis
      proof (cases "key b = key nm")
        case True
        with slot_of_cong [OF True, of "semtab s"] Some assms(2,4) show ?thesis by (simp add: counter_def s'(1,4))
      next
        case False
        from slot_ofD [OF assms(4)] assms(2) have "key (sem_label x) = key nm" by auto
        with False z(2,3) assms(2) have "j \<noteq> i" by auto
        with assms(1,2,3) z have "sem_ptr z \<noteq> sem_ptr x" unfolding stab_ok_def by blast
        with False Some z show ?thesis by (simp add: counter_def s'(1,4))
      qed
    qed
  qed
qed

text \<open>A new semaphore in a free slot.\<close>

lemma counter_new:
  assumes "stab_ok s" "slot_of (semtab s) nm = None" "j < MAX_SEMAPHORE" "semtab s ! j = None" "key (sem_label x) = key nm"
    and s': "semtab s' = (semtab s)[j := Some x]" "bm_wf (st_bm s')" "numBits (st_bm s') = int MAX_SEMAPHORE" "marked (st_bm s') = insert (int j) (marked (st_bm s))"
      "next_addr s' = Suc (next_addr s)" "semaphores s' = (semaphores s)(next_addr s \<mapsto> y)" "sem_ptr x = next_addr s" "sem_queue y = []"
  shows "stab_ok s'" "counter s' = (\<lambda>b. if key b = key nm then Some (sem_value y) else counter s b)"
proof -
  note D = stab_okD [OF assms(1)]
  have nth: "semtab s' ! i = (if i = j then Some x else semtab s ! i)" if "i < MAX_SEMAPHORE" for i
    using that D(1) by (simp add: s'(1) nth_list_update)
  have new: "semtab s ! i = Some z \<Longrightarrow> sem_ptr z \<noteq> next_addr s" if "i < MAX_SEMAPHORE" for i z using D(5) [OF that] by fastforce
  show "stab_ok s'" unfolding stab_ok_def
  proof (intro conjI allI impI)
    show "length (semtab s') = MAX_SEMAPHORE" using D(1) by (simp add: s'(1))
    show "bm_wf (st_bm s')" "numBits (st_bm s') = int MAX_SEMAPHORE" by (fact s')+
  next
    fix i assume i: "i < MAX_SEMAPHORE"
    then show "int i \<in> marked (st_bm s') \<longleftrightarrow> semtab s' ! i \<noteq> None" using D(4) [OF i] by (simp add: nth s'(4))
  next
    fix i z assume i: "i < MAX_SEMAPHORE" and z: "semtab s' ! i = Some z"
    show "sem_ptr z < next_addr s'" using D(5) [OF i, of z] z s'(7) by (auto simp: nth [OF i] s'(5) split: if_splits)
    show "\<exists>y. semaphores s' (sem_ptr z) = Some y \<and> sem_queue y = []"
      using D(6) [OF i, of z] new [OF i, of z] z s'(7,8) by (auto simp: nth [OF i] s'(6) split: if_splits)
  next
    fix i k z w
    assume i: "i < MAX_SEMAPHORE" "k < MAX_SEMAPHORE" "semtab s' ! i = Some z" "semtab s' ! k = Some w" "sem_ptr z = sem_ptr w"
    show "i = k"
    proof (cases "i = j \<or> k = j")
      case True
      with i new [OF i(1), of z] new [OF i(2), of w] s'(7) show ?thesis by (cases "i = j"; cases "k = j") (auto simp: nth)
    next
      case False
      with i have "semtab s ! i = Some z" "semtab s ! k = Some w" by (auto simp: nth)
      from D(7) [OF i(1,2) this i(5)] show ?thesis .
    qed
  qed
  have other: "labelled b (semtab s ! i) = False" if "key b = key nm" "i < MAX_SEMAPHORE" for b i
    using that assms(2) D(1) by (auto simp: slot_of_def find_None_iff labelled_def split: option.splits)
  show "counter s' = (\<lambda>b. if key b = key nm then Some (sem_value y) else counter s b)"
  proof
    fix b
    show "counter s' b = (if key b = key nm then Some (sem_value y) else counter s b)"
    proof (cases "key b = key nm")
      case True
      have "labelled b (semtab s' ! i) \<longleftrightarrow> i = j" if "i < MAX_SEMAPHORE" for i
        using that other [OF True that] assms(5) True by (simp add: nth) (simp add: labelled_def)
      then have "find (\<lambda>i. labelled b (semtab s' ! i)) [0..<MAX_SEMAPHORE] = find (\<lambda>i. i = j) [0..<MAX_SEMAPHORE]"
        by (intro find_cong) auto
      also have "\<dots> = Some j" using assms(3) unfolding find_Some_iff by (intro exI [of _ j]) auto
      finally have "slot_of (semtab s') b = Some j" using D(1) by (simp add: slot_of_def s'(1))
      with True show ?thesis using assms(3) by (simp add: counter_def nth s'(6,7))
    next
      case False
      have "labelled b (semtab s' ! i) = labelled b (semtab s ! i)" if "i < MAX_SEMAPHORE" for i
        using that False assms(4,5) by (auto simp: nth labelled_def)
      then have "slot_of (semtab s') b = slot_of (semtab s) b"
        unfolding slot_of_def using D(1) by (intro find_cong) (auto simp: s'(1))
      moreover have "semtab s' ! i = semtab s ! i \<and> semaphores s' (sem_ptr z) = semaphores s (sem_ptr z)"
        if i: "slot_of (semtab s) b = Some i" "semtab s ! i = Some z" for i z
      proof -
        from slot_ofD [OF i(1)] have "i < MAX_SEMAPHORE" using D(1) by auto
        with i(2) new assms(4) show ?thesis by (auto simp: nth s'(6))
      qed
      ultimately show ?thesis using False
        by (cases "slot_of (semtab s) b") (auto simp: counter_def elim!: slot_ofD)
    qed
  qed
qed

subsection \<open>The operations\<close>

definition full :: "'a os_scheme \<Rightarrow> bool" where
  "full s \<longleftrightarrow> None \<notin> set (semtab s)"

lemma full_marked: "stab_ok s \<Longrightarrow> full s \<longleftrightarrow> marked (st_bm s) = {0..<int MAX_SEMAPHORE}"
proof -
  assume ok: "stab_ok s"
  note D = stab_okD [OF ok]
  have "full s \<longleftrightarrow> (\<forall>i < MAX_SEMAPHORE. int i \<in> marked (st_bm s))"
    using D(1,4) unfolding full_def by (metis in_set_conv_nth)
  also have "\<dots> \<longleftrightarrow> {0..<int MAX_SEMAPHORE} \<subseteq> marked (st_bm s)"
    unfolding image_int_atLeastLessThan [of 0 MAX_SEMAPHORE, simplified, symmetric] by auto
  finally show ?thesis using marked_range [of "st_bm s"] D(3) by auto
qed

context lone_kernel
begin

lemma Stable_Create_ok:
  assumes "ok s" "stab_ok s"
  shows "\<exists>r s' :: 'a os_scheme. Stable_Create e (Some nm) iv s = Inr (r, s') \<and> ok s' \<and> stab_ok s' \<and>
    (if 0 \<le> iv \<and> counter s nm = None \<and> \<not> full s
     then r = 0 \<and> counter s' = (\<lambda>b. if key b = key nm then Some iv else counter s b)
     else r = - 1 \<and> s' = s)"
proof (cases "0 \<le> iv \<and> counter s nm = None \<and> \<not> full s")
  case False
  note D = stab_okD [OF assms(2)]
  show ?thesis
  proof (cases "slot_of (semtab s) nm")
    case None
    with False counter_None [OF assms(2)] full_marked [OF assms(2)] D(3) have "iv < 0 \<or> marked (st_bm s) = {0..<numBits (st_bm s)}" by auto
    with BitMap_Find_full [OF D(2)] None assms sem_search_slot [OF assms(2), of nm] False show ?thesis
      by (auto simp: Stable_Create_def Stable_FindFreeSlot_def)
  next
    case (Some i)
    with assms sem_search_slot [OF assms(2), of nm] False show ?thesis by (auto simp: Stable_Create_def)
  qed
next
  case True
  note D = stab_okD [OF assms(2)]
  have none: "slot_of (semtab s) nm = None" using True counter_None [OF assms(2)] by simp
  have "marked (st_bm s) \<noteq> {0..<numBits (st_bm s)}" using True full_marked [OF assms(2)] D(3) by simp
  from BitMap_Find_ok [OF D(2) this] obtain j bm where
    f: "BitMap_Find (st_bm s) = Inr (int j, bm)" "bm_wf bm" "numBits bm = int MAX_SEMAPHORE" "j < MAX_SEMAPHORE" "int j \<notin> marked (st_bm s)"
      "marked bm = insert (int j) (marked (st_bm s))"
    using D(3) by (auto simp: zero_le_imp_eq_int elim!: nonneg_int_cases)
  let ?x = "\<lparr>sem_label = strncpy (map (fresh_byte e) [0..<50]) nm 50, sem_ptr = next_addr s\<rparr>" and ?y = "Semaphore_new (chars nm) iv"
  let ?s = "s\<lparr>st_bm := bm, semaphores := (semaphores s)(next_addr s \<mapsto> ?y), next_addr := Suc (next_addr s), semtab := (semtab s)[j := Some ?x]\<rparr>"
  have free: "semtab s ! j = None" using D(4) [OF f(4)] f(5) by simp
  have c: "Stable_Create e (Some nm) iv s = Inr (0, ?s)"
    using True sem_search_slot [OF assms(2), of nm] none f(1,4) D(1)
    by (simp add: Stable_Create_def Stable_FindFreeSlot_def Sem_new_def new_semaphore_def put_sem_def Let_def)
  have "key (sem_label ?x) = key nm" by (simp add: key_strncpy)
  note new = counter_new [OF assms(2) none f(4) free this, of ?s ?y]
  have y: "sem_value ?y = iv" "sem_queue ?y = []" by (simp_all add: Semaphore_new_def)
  have "stab_ok ?s" "counter ?s = (\<lambda>b. if key b = key nm then Some iv else counter s b)"
    using new f(2,3,6) y(2) unfolding y(1) by simp_all
  moreover have "ok ?s" by (rule ok_same [OF assms(1)]) (simp add: same_processor_def)
  ultimately show ?thesis using c True by auto
qed

lemma Stable_Wait_ok:
  assumes "ok s" "stab_ok s"
  shows "case counter s nm of
      None \<Rightarrow> Stable_Wait e (Some nm) s = Inr (- 1, s)
    | Some v \<Rightarrow>
        if v \<noteq> 0
        then \<exists>s' :: 'a os_scheme. Stable_Wait e (Some nm) s = Inr (0, s') \<and> ok s' \<and> stab_ok s' \<and> only_io s s' \<and>
          counter s' = (\<lambda>b. if key b = key nm then Some (v - 1) else counter s b)
        else readyList s = [] \<longrightarrow> Stable_Wait e (Some nm) s = Inl Diverged"
proof (cases "slot_of (semtab s) nm")
  case None
  with counter_None [OF assms(2), of nm] sem_search_slot [OF assms(2), of nm] show ?thesis by (simp add: Stable_Wait_def)
next
  case (Some i)
  from counterE [OF assms(2) Some] obtain x y where
    x: "i < MAX_SEMAPHORE" "semtab s ! i = Some x" "semaphores s (sem_ptr x) = Some y" "sem_queue y = []" "counter s nm = Some (sem_value y)" .
  have "\<exists>s'. Stable_Wait e (Some nm) s = Inr (0, s') \<and> ok s' \<and> stab_ok s' \<and> only_io s s' \<and>
        counter s' = (\<lambda>b. if key b = key nm then Some (sem_value y - 1) else counter s b)" if v: "sem_value y \<noteq> 0"
  proof -
    from P_law [OF assms(1) x(3) v] obtain s' where s': "opP e (sem_ptr x) s = Inr s'" "ok s'" "only_io s s'"
      "semaphores s' = (semaphores s)(sem_ptr x \<mapsto> y\<lparr>sem_value := sem_value y - 1\<rparr>)" by blast
    note k = only_io_keeps [OF s'(3)]
    from counter_step [OF assms(2) x(2,1) Some k(17,16,7) s'(4)] x(4)
    have "stab_ok s'" "counter s' = (\<lambda>b. if key b = key nm then Some (sem_value y - 1) else counter s b)" by auto
    with s' Some x(2) sem_search_slot [OF assms(2), of nm] show ?thesis by (auto simp: Stable_Wait_def Sem_Wait_def)
  qed
  moreover have "Stable_Wait e (Some nm) s = Inl Diverged" if "sem_value y = 0" "readyList s = []"
    using P_starve_law [OF assms(1) x(3) that] Some x(2) sem_search_slot [OF assms(2), of nm] by (simp add: Stable_Wait_def Sem_Wait_def)
  ultimately show ?thesis using x(5) by simp
qed

lemma Stable_Signal_ok:
  assumes "ok s" "stab_ok s"
  shows "case counter s nm of
      None \<Rightarrow> Stable_Signal e (Some nm) s = Inr (- 1, s)
    | Some v \<Rightarrow>
        if word_range (v + 1)
        then \<exists>s' :: 'a os_scheme. Stable_Signal e (Some nm) s = Inr (0, s') \<and> ok s' \<and> stab_ok s' \<and> only_io s s' \<and>
          counter s' = (\<lambda>b. if key b = key nm then Some (v + 1) else counter s b)
        else Stable_Signal e (Some nm) s = Inl Undefined"
proof (cases "slot_of (semtab s) nm")
  case None
  with counter_None [OF assms(2), of nm] sem_search_slot [OF assms(2), of nm] show ?thesis by (simp add: Stable_Signal_def)
next
  case (Some i)
  from counterE [OF assms(2) Some] obtain x y where
    x: "i < MAX_SEMAPHORE" "semtab s ! i = Some x" "semaphores s (sem_ptr x) = Some y" "sem_queue y = []" "counter s nm = Some (sem_value y)" .
  note search = sem_search_slot [OF assms(2), of nm]
  show ?thesis
  proof (cases "word_range (sem_value y + 1)")
    case True
    from V_law [OF assms(1) x(3,4) True] obtain s' where s': "opV e (sem_ptr x) s = Inr s'" "ok s'" "only_io s s'"
      "semaphores s' = (semaphores s)(sem_ptr x \<mapsto> y\<lparr>sem_value := sem_value y + 1\<rparr>)" by blast
    note k = only_io_keeps [OF s'(3)]
    from counter_step [OF assms(2) x(2,1) Some k(17,16,7) s'(4)] x(4)
    have "stab_ok s'" "counter s' = (\<lambda>b. if key b = key nm then Some (sem_value y + 1) else counter s b)" by auto
    with s' Some x(2,5) search True show ?thesis by (auto simp: Stable_Signal_def Sem_Signal_def)
  next
    case False
    with V_overflow_law [OF assms(1) x(3,4)] Some x(2,5) search show ?thesis by (simp add: Stable_Signal_def Sem_Signal_def)
  qed
qed

end

subsection \<open>Properties\<close>

text \<open>C16. The table of user semaphores is a finite map from names to counters, as the only process sees it. A missing name (a NULL
  pointer) makes \<^verbatim>\<open>Create\<close>, \<^verbatim>\<open>Wait\<close> and \<^verbatim>\<open>Signal\<close> return -1 and change nothing. \<^verbatim>\<open>Create\<close> adds the name when the initial value is not negative,
  the name is new and one of the ten slots is free, and otherwise returns -1 and changes nothing. \<^verbatim>\<open>Wait\<close> on a counter that is not 0
  returns and has decremented it; at 0, with no other thread ready, it never returns. \<^verbatim>\<open>Signal\<close> increments the counter, unless the
  result is no \<^verbatim>\<open>int\<close>: then it is undefined. Both return -1 for an unknown name. No other counter changes, the bitmap and the slots
  stay in agreement, and names are told apart by their first 49 characters.\<close>

theorem Semaphore_table_is_map:
  fixes s :: "'a os_scheme"
  assumes "resting ux s" and "stab_ok s"
  shows "let e = real_env self_switch ux yield al jb jw in
    (case name of
      None \<Rightarrow> Stable_Create e name iv s = Inr (- 1, s) \<and> Stable_Wait e name s = Inr (- 1, s) \<and> Stable_Signal e name s = Inr (- 1, s)
    | Some nm \<Rightarrow>
       (\<exists>r s' :: 'a os_scheme. Stable_Create e name iv s = Inr (r, s') \<and> resting ux s' \<and> stab_ok s' \<and>
         (if 0 \<le> iv \<and> counter s nm = None \<and> \<not> full s
          then r = 0 \<and> counter s' = (\<lambda>b. if key b = key nm then Some iv else counter s b)
          else r = - 1 \<and> s' = s)) \<and>
       (case counter s nm of
          None \<Rightarrow> Stable_Wait e name s = Inr (- 1, s) \<and> Stable_Signal e name s = Inr (- 1, s)
        | Some v \<Rightarrow>
            (if v \<noteq> 0
             then \<exists>s' :: 'a os_scheme. Stable_Wait e name s = Inr (0, s') \<and> resting ux s' \<and> stab_ok s' \<and> only_io s s' \<and>
               counter s' = (\<lambda>b. if key b = key nm then Some (v - 1) else counter s b)
             else readyList s = [] \<longrightarrow> Stable_Wait e name s = Inl Diverged) \<and>
            (if word_range (v + 1)
             then \<exists>s' :: 'a os_scheme. Stable_Signal e name s = Inr (0, s') \<and> resting ux s' \<and> stab_ok s' \<and> only_io s s' \<and>
               counter s' = (\<lambda>b. if key b = key nm then Some (v + 1) else counter s b)
             else Stable_Signal e name s = Inl Undefined)))"
proof (cases name)
  case None
  then show ?thesis by (simp add: Stable_Create_def Stable_Wait_def Stable_Signal_def)
next
  case (Some nm)
  note C = lone.Stable_Create_ok [OF assms, of yield al jb jw nm iv] and W = lone.Stable_Wait_ok [OF assms, of yield al jb jw nm]
    and S = lone.Stable_Signal_ok [OF assms, of yield al jb jw nm]
  show ?thesis unfolding Let_def Some option.case(2)
    by (rule conjI [OF C]) (use W S in \<open>cases "counter s nm"; simp\<close>)
qed

definition table_machine :: os where
  "table_machine = os_machine\<lparr>pending := [poll_at 100], the_console := Some \<lparr>keyboard = [], display = [], cs_writeHandler = Signal 2, cs_readHandler = Signal 1, putBusy = False, incoming = EOF\<rparr>,
     st_bm := \<lparr>numBits = 10, numWords = 1, bmap = [0]\<rparr>, semtab := replicate 10 None\<rparr>"

theorem Semaphore_table_is_map_witness:
  "\<exists>s1 s2. let e = real_env self_switch silence Inr (\<lambda>_. True) (\<lambda>_. 0) (\<lambda>_. 0) in
     Stable_Create e (Some [97, 0]) (2 ^ 31 - 1) table_machine = Inr (0, s1) \<and> Stable_Create e (Some [98, 0]) (- 1) table_machine = Inr (- 1, table_machine) \<and>
     Stable_Create e None 3 table_machine = Inr (- 1, table_machine) \<and>
     Stable_Signal e (Some [97, 0]) s1 = Inl Undefined \<and>
     Stable_Wait e (Some [97, 0]) s1 = Inr (0, s2) \<and> counter s2 [97, 0] = Some (2 ^ 31 - 2)"
proof -
  let ?e = "real_env self_switch silence Inr (\<lambda>_. True) (\<lambda>_. 0) (\<lambda>_. 0) :: os env" and ?nm = "[97, 0] :: byte list" and ?b = "[98, 0] :: byte list"
  have "marked \<lparr>numBits = 10, numWords = 1, bmap = [0]\<rparr> = {}" by (auto simp: marked_def bit_at_def div_pos_pos_trivial)
  then have ok: "resting silence table_machine" "stab_ok table_machine"
    by (auto simp: resting_def at_rest_def table_machine_def os_machine_def quiet_def own_context_def Thread_new_def no_input_def silence_def
      poll_soon_def Statistics_new_def const_defs stab_ok_def bm_wf_def divRoundUp_def)
  have c: "counter table_machine b = None" "\<not> full table_machine" for b
  proof -
    have "slot_of (semtab table_machine) b = None" by (auto simp: slot_of_def table_machine_def labelled_def find_None_iff)
    then show "counter table_machine b = None" by (simp add: counter_def)
  qed (simp add: full_def table_machine_def)
  note map = Semaphore_table_is_map [of silence _ Inr "\<lambda>_. True" "\<lambda>_. 0" "\<lambda>_. 0", unfolded Let_def]
  from map [OF ok, of "Some ?nm" "2 ^ 31 - 1"] c obtain s1 where
    s1: "Stable_Create ?e (Some ?nm) (2 ^ 31 - 1) table_machine = Inr (0, s1)" "resting silence s1" "stab_ok s1" "counter s1 ?nm = Some (2 ^ 31 - 1)" by auto
  from map [OF s1(2,3), of "Some ?nm" 0] s1(4) obtain s2 where
    s2: "Stable_Wait ?e (Some ?nm) s1 = Inr (0, s2)" "counter s2 ?nm = Some (2 ^ 31 - 2)" "Stable_Signal ?e (Some ?nm) s1 = Inl Undefined"
    by (auto simp: word_range_def)
  from map [OF ok, of "Some ?b" "- 1"] map [OF ok, of None 3] have
    "Stable_Create ?e (Some ?b) (- 1) table_machine = Inr (- 1, table_machine)" "Stable_Create ?e None 3 table_machine = Inr (- 1, table_machine)" by auto
  with s1(1) s2 show ?thesis unfolding Let_def by blast
qed

end
