(* ===== verification/Boot.thy ===== *)
theory Boot
  imports Loading Named_Semaphores Syscalls
begin

text \<open>
  Start and end of the kernel: \<^verbatim>\<open>Initialize\<close> and \<^verbatim>\<open>Cleanup\<close> of threads/system.cc and \<^verbatim>\<open>StartProcess\<close> of
  userprog/progtest.cc, in the configuration of userprog/Makefile (\<^verbatim>\<open>USER_PROGRAM\<close>, \<^verbatim>\<open>FILESYS_NEEDED\<close>, \<^verbatim>\<open>FILESYS_STUB\<close>).

  The arguments of the command line are strings. Before \<^verbatim>\<open>machine\<close> exists the interrupt code skips \<^verbatim>\<open>DelayedLoad\<close>; in the model the
  registers are zero then, on which \<^verbatim>\<open>DelayedLoad(0, 0)\<close> changes nothing. \<^verbatim>\<open>DebugInit\<close>, \<^verbatim>\<open>RandomInit\<close> and \<^verbatim>\<open>CallOnUserAbort\<close> act on the
  host only. \<^verbatim>\<open>Exit(0)\<close> ends the process: \<open>Halted\<close>.
\<close>

subsection \<open>The command line\<close>

record options =
  debugArgs :: string
  randomYield :: bool
  debugUserProg :: bool
  format :: bool

definition default_options :: options where
  "default_options = \<lparr>debugArgs = '''', randomYield = False, debugUserProg = False, format = False\<rparr>"

fun parse_args :: "string list \<Rightarrow> options \<Rightarrow> options res" where
  "parse_args [] o1 = Inr o1"
| "parse_args (a # argv) o1 =
     (if a = ''-d''
      then (case argv of
              [] \<Rightarrow> parse_args [] (o1\<lparr>debugArgs := ''+''\<rparr>)
            | b # argv' \<Rightarrow> parse_args argv' (o1\<lparr>debugArgs := b\<rparr>))
      else if a = ''-rs''
      then (case argv of
              [] \<Rightarrow> Inl Aborted
            | b # argv' \<Rightarrow> parse_args argv' (o1\<lparr>randomYield := True\<rparr>))
      else
        let o2 = (if a = ''-s'' then o1\<lparr>debugUserProg := True\<rparr> else o1);
            o3 = (if a = ''-f'' then o2\<lparr>format := True\<rparr> else o2) in
        parse_args argv o3)"

subsection \<open>Initialize and Cleanup\<close>

definition Scheduler_new :: "'a kernel_scheme \<Rightarrow> 'a kernel_scheme" where
  "Scheduler_new s = s\<lparr>readyList := []\<rparr>"

text \<open>\<^verbatim>\<open>machine = new Machine(debug)\<close>: the new object becomes the machine part of the state. \<open>pts\<close> and \<open>rut\<close> are the fields that
  the constructor does not set.\<close>

definition new_machine :: "int32 \<Rightarrow> int \<Rightarrow> bool \<Rightarrow> 'a os_scheme \<Rightarrow> 'a os_scheme res" where
  "new_machine pts rut debug s =
     rbind (Machine_new False 0 (\<lambda>_. \<lparr>virtualPage = 0, physicalPage = 0, valid = False, readOnly = False, te_use = False, dirty = False\<rparr>) pts rut debug) (\<lambda>m.
     Inr (s\<lparr>registers := registers m, mainMemory := mainMemory m, tables := tables m, tlb := tlb m, pageTable := pageTable m,
            pageTableSize := pageTableSize m, singleStep := singleStep m, runUntilTime := runUntilTime m\<rparr>))"

definition Initialize ::
    "'a os_scheme env \<Rightarrow> unix \<Rightarrow> ('a os_scheme \<Rightarrow> 'a os_scheme res) \<Rightarrow> int32 \<Rightarrow> int \<Rightarrow> byte list \<Rightarrow> string list \<Rightarrow> 'a os_scheme \<Rightarrow> 'a os_scheme res" where
  "Initialize e ux oneTick pts rut input argv s =
     rbind (parse_args argv default_options) (\<lambda>opts.
     let s1 = Scheduler_new (Interrupt_new (s\<lparr>stats := Statistics_new\<rparr>)) in
     rbind (if randomYield opts then Timer_new ux TimerInterruptHandler (randomYield opts) s1 else Inr s1) (\<lambda>s2.
     let (t, s3) = new_thread (map (fresh_word e) [0..<NumTotalRegs]) ''main'' (s2\<lparr>threadToBeDestroyed := None\<rparr>) in
     rbind (setStatus RUNNING t (s3\<lparr>currentThread := t\<rparr>)) (\<lambda>s4.
     rbind (Enable oneTick s4) (\<lambda>s5.
     rbind (new_machine pts rut (debugUserProg opts) s5) (\<lambda>s6.
     rbind (SynchConsole_new input s6) (\<lambda>s7.
     rbind (BitMap_new (fresh_word e) NumPhysPages) (\<lambda>bm.
     let (a, s8) = new_semaphore ''addrLock'' 1 (s7\<lparr>gPhysPageBitmap := bm\<rparr>) in
     rbind (Ptable_new e (s8\<lparr>addrLock := a\<rparr>)) (\<lambda>s9.
     rbind (Stable_new e s9) (\<lambda>s10.
     StubFS_new e s10))))))))) "

definition Cleanup :: "'a os_scheme \<Rightarrow> 'a os_scheme res" where
  "Cleanup s =
     rbind (SynchConsole_delete s) (\<lambda>s1.
     rbind (StubFS_delete s1) (\<lambda>_. Inl Halted))"

subsection \<open>The programs that main starts\<close>

text \<open>\<^verbatim>\<open>machine->Run()\<close> never returns: the result is the state after \<open>n\<close> of its iterations.\<close>

definition StartProcess ::
    "'a os_scheme env \<Rightarrow> ('a os_scheme \<Rightarrow> 'a os_scheme res) \<Rightarrow> ('a os_scheme \<Rightarrow> 'a os_scheme) \<Rightarrow> nat \<Rightarrow> byte list \<Rightarrow> 'a os_scheme \<Rightarrow> 'a os_scheme res" where
  "StartProcess e oneTick dbg n filename s =
     rbind (ExecUpdate e (Some filename) s) (\<lambda>(_, s1).
     Machine_Run (ExceptionHandler e) oneTick dbg n s1)"

subsection \<open>The files of the console\<close>

text \<open>Descriptors: the first ones are open, the others are free.\<close>

definition fds_open :: "(nat \<times> int) list \<Rightarrow> unixfs \<Rightarrow> bool" where
  "fds_open xs u \<longleftrightarrow> (\<exists>k. u_fds u = map Some xs @ replicate k None)"

lemma new_fd_ok:
  assumes "fds_open xs u"
  shows "\<exists>u'. new_fd i u = (int (length xs) + 3, u') \<and> fds_open (xs @ [(i, 0)]) u' \<and> u_names u' = u_names u"
proof -
  from assms obtain k where k: "u_fds u = map Some xs @ replicate k None" by (auto simp: fds_open_def)
  have "takeWhile (\<lambda>x. x \<noteq> None) (map Some xs @ replicate k None) = map Some xs" by (induction xs) (cases k, auto)
  with k have l: "length (takeWhile (\<lambda>x. x \<noteq> None) (u_fds u)) = length xs" by (simp only: length_map)
  show ?thesis
  proof (cases k)
    case 0
    with k l show ?thesis by (auto simp: new_fd_def Let_def fds_open_def intro: exI [of _ 0])
  next
    case (Suc m)
    with k l show ?thesis by (auto simp: new_fd_def Let_def fds_open_def list_update_append intro: exI [of _ m])
  qed
qed

lemma StubFS_Create_ok:
  fixes s :: "'a os_scheme"
  assumes "fds_open [] (hostfs s)" "may_open e nm"
  shows "\<exists>u. StubFS_Create e nm sz s = Inr (True, s\<lparr>hostfs := u\<rparr>) \<and> fds_open [] u \<and> dom (u_names u) = insert nm (dom (u_names (hostfs s)))"
proof -
  have "\<exists>i v. u_open True True nm (hostfs s) = new_fd i v \<and> fds_open [] v \<and> dom (u_names v) = insert nm (dom (u_names (hostfs s)))"
  proof (cases "u_names (hostfs s) nm")
    case None
    let ?v = "hostfs s\<lparr>u_names := (u_names (hostfs s))(nm \<mapsto> u_next (hostfs s)), u_inodes := (u_inodes (hostfs s))(u_next (hostfs s) := []),
      u_next := Suc (u_next (hostfs s))\<rparr>"
    show ?thesis using assms(1) None by (intro exI [of _ "u_next (hostfs s)"] exI [of _ ?v]) (simp add: u_open_def fds_open_def)
  next
    case (Some a)
    show ?thesis using assms(1) Some
      by (intro exI [of _ a] exI [of _ "hostfs s\<lparr>u_inodes := (u_inodes (hostfs s))(a := [])\<rparr>"]) (auto simp: u_open_def fds_open_def)
  qed
  then obtain i v where v: "u_open True True nm (hostfs s) = new_fd i v" "fds_open [] v" "dom (u_names v) = insert nm (dom (u_names (hostfs s)))" by blast
  from new_fd_ok [OF v(2), of i] obtain u where u: "new_fd i v = (3, u)" "fds_open [(i, 0)] u" "u_names u = u_names v" by auto
  from u(2) obtain k where k: "u_fds u = Some (i, 0) # replicate k None" by (auto simp: fds_open_def)
  have "fds_open [] (u\<lparr>u_fds := replicate (Suc k) None\<rparr>)" unfolding fds_open_def by (intro exI [of _ "Suc k"]) simp
  then show ?thesis using v u k assms(2)
    by (intro exI [of _ "u\<lparr>u_fds := replicate (Suc k) None\<rparr>"])
      (simp add: StubFS_Create_def OpenForWrite_def sys_Close_def u_close_def fd_at_def set_fd_def)
qed

lemma StubFS_Open_ok:
  fixes s :: "'a os_scheme"
  assumes "fds_open xs (hostfs s)" "may_open e nm" "nm \<in> dom (u_names (hostfs s))"
  shows "\<exists>u i. StubFS_Open e nm t s = Inr (Some \<lparr>sf_file = int (length xs) + 3, sf_currentOffset = 0, sf_type = t\<rparr>, s\<lparr>hostfs := u\<rparr>) \<and>
    fds_open (xs @ [(i, 0)]) u \<and> u_names u = u_names (hostfs s)"
proof -
  from assms(3) obtain i where i: "u_names (hostfs s) nm = Some i" by blast
  from new_fd_ok [OF assms(1), of i] i assms(2) show ?thesis
    by (auto simp: StubFS_Open_def OpenForReadWrite_def u_open_def StubFile_new_def)
qed

lemma StubFS_new_ok:
  fixes s :: "'a os_scheme"
  assumes "fds_open [] (hostfs s)" "may_open e name_stdin" "may_open e name_stdout"
  shows "\<exists>u. StubFS_new e s = Inr (s\<lparr>hostfs := u, open_files :=
      [Some \<lparr>sf_file = 3, sf_currentOffset = 0, sf_type = 2\<rparr>, Some \<lparr>sf_file = 4, sf_currentOffset = 0, sf_type = 3\<rparr>] @ replicate 8 None\<rparr>)"
proof -
  let ?s0 = "s\<lparr>open_files := replicate 10 None\<rparr>"
  from StubFS_Create_ok [of ?s0 e name_stdin 0] assms obtain u1 where
    u1: "StubFS_Create e name_stdin 0 ?s0 = Inr (True, ?s0\<lparr>hostfs := u1\<rparr>)" "fds_open [] u1" "name_stdin \<in> dom (u_names u1)" by auto
  from StubFS_Create_ok [of "?s0\<lparr>hostfs := u1\<rparr>" e name_stdout 0] assms(3) u1(2) obtain u2 where
    u2: "StubFS_Create e name_stdout 0 (?s0\<lparr>hostfs := u1\<rparr>) = Inr (True, ?s0\<lparr>hostfs := u2\<rparr>)" "fds_open [] u2"
      "dom (u_names u2) = insert name_stdout (dom (u_names u1))" by auto
  then have d: "name_stdin \<in> dom (u_names u2)" "name_stdout \<in> dom (u_names u2)" using u1(3) by auto
  from StubFS_Open_ok [of "[]" "?s0\<lparr>hostfs := u2\<rparr>" e name_stdin 2] assms(2) u2(2) d(1) obtain u3 i where
    u3: "StubFS_Open e name_stdin 2 (?s0\<lparr>hostfs := u2\<rparr>) = Inr (Some \<lparr>sf_file = 3, sf_currentOffset = 0, sf_type = 2\<rparr>, ?s0\<lparr>hostfs := u3\<rparr>)"
      "fds_open [(i, 0)] u3" "u_names u3 = u_names u2" by auto
  let ?s3 = "s\<lparr>hostfs := u3, open_files := (replicate 10 None)[0 := Some \<lparr>sf_file = 3, sf_currentOffset = 0, sf_type = 2\<rparr>]\<rparr>"
  from StubFS_Open_ok [of "[(i, 0)]" ?s3 e name_stdout 3] assms(3) d(2) u3(2,3) obtain u4 where
    u4: "StubFS_Open e name_stdout 3 ?s3 = Inr (Some \<lparr>sf_file = 4, sf_currentOffset = 0, sf_type = 3\<rparr>, ?s3\<lparr>hostfs := u4\<rparr>)" by auto
  show ?thesis using u1(1) u2(1) u3(1) u4
    by (intro exI [of _ u4]) (simp add: StubFS_new_def Let_def arr_set_def numeral_eq_Suc)
qed

subsection \<open>The booted kernel\<close>

text \<open>A kernel that is ready for the first process: nothing runs but the thread of \<^verbatim>\<open>main\<close>, the process table is empty and the locks are open.\<close>

definition idle_kernel :: "unix \<Rightarrow> 'a os_scheme \<Rightarrow> bool" where
  "idle_kernel ux s \<longleftrightarrow> resting ux s \<and> readyList s = [] \<and> currentThread s < next_addr s \<and> unused_above s \<and> tlb s = None \<and>
     pcbs s = replicate 10 None \<and> bm_wf (pt_bm s) \<and> numBits (pt_bm s) = 10 \<and> marked (pt_bm s) = {} \<and>
     semaphores s (addrLock s) = Some (Semaphore_new ''addrLock'' 1) \<and> semaphores s (bmsem s) = Some (Semaphore_new ''bmsem'' 1) \<and>
     addrLock s < next_addr s \<and> bmsem s < next_addr s \<and> addrLock s \<noteq> bmsem s"

lemma Enable_nothing_pending:
  fixes s :: "'a devices_scheme"
  assumes "level s = IntOff" "pending s = []" "inHandler s = False" "yieldOnReturn s = False" "status s = SystemMode"
  shows "Enable (OneTick (call_handler ux) yield) s =
    Inr (s\<lparr>level := IntOn, stats := (stats s)\<lparr>totalTicks := totalTicks (stats s) + SystemTick, systemTicks := systemTicks (stats s) + SystemTick\<rparr>\<rparr>)"
proof -
  have "due_loop (call_handler ux) u = Some (Inr u)" if "level u = IntOff" "pending u = []" for u :: "'a devices_scheme"
    using that by (subst due_loop.simps) (simp add: CheckIfDue_def Let_def)
  then show ?thesis using assms
    by (simp add: Enable_def SetLevel_def Let_def ChangeLevel_def OneTick_def tick_clock_def)
qed

lemma console_fields:
  fixes s :: "'a os_scheme"
  assumes "SynchConsole_new input s = Inr s'"
  shows "registers s' = registers s" "tables s' = tables s" "tlb s' = tlb s" "spaces s' = spaces s" "hostfs s' = hostfs s" "singleStep s' = singleStep s"
    "currentThread s' = currentThread s" "threads s' = threads s" "next_addr s' = next_addr s + 4"
    "synchWriteAvail s' < next_addr s'" "WLineBlock s' < next_addr s'"
  using assms by (auto simp: SynchConsole_new_def Console_new_def Schedule_def Let_def new_semaphore_def put_sem_def rbind_eq_Inr)

lemma console_ok_same:
  fixes s :: "'a os_scheme"
  assumes "console_ok ux s" "same_processor s s'" "synchWriteAvail s' = synchWriteAvail s" "WLineBlock s' = WLineBlock s" "readyList s' = readyList s"
    "semaphores s' (synchWriteAvail s) = semaphores s (synchWriteAvail s)" "semaphores s' (WLineBlock s) = semaphores s (WLineBlock s)"
  shows "console_ok ux s'"
  using assms at_rest_same [OF _ assms(2)] unfolding console_ok_def by (metis (no_types, lifting) assms(3-7))

text \<open>The processor and the console after the first half of \<^verbatim>\<open>Initialize\<close>.\<close>

definition before_console :: "'a os_scheme env \<Rightarrow> int32 \<Rightarrow> int \<Rightarrow> bool \<Rightarrow> 'a os_scheme \<Rightarrow> 'a os_scheme" where
  "before_console e pts rut debug s =
     s\<lparr>stats := Statistics_new\<lparr>totalTicks := SystemTick, systemTicks := SystemTick\<rparr>, level := IntOn, pending := [], inHandler := False,
       yieldOnReturn := False, status := SystemMode, readyList := [], threadToBeDestroyed := None, currentThread := next_addr s,
       threads := (threads s)(next_addr s \<mapsto> (Thread_new ''main'' (map (fresh_word e) [0..<NumTotalRegs]))\<lparr>th_status := RUNNING\<rparr>),
       next_addr := Suc (next_addr s), registers := replicate NumTotalRegs 0, mainMemory := (\<lambda>_. 0), tables := Map.empty, tlb := None,
       pageTable := None, pageTableSize := pts, singleStep := debug, runUntilTime := rut\<rparr>"

lemma Initialize_eq:
  fixes s :: "'a os_scheme"
  assumes "parse_args argv default_options = Inr opts" "\<not> randomYield opts"
  shows "Initialize e ux (OneTick (call_handler ux) yield) pts rut input argv s =
     rbind (SynchConsole_new input (before_console e pts rut (debugUserProg opts) s)) (\<lambda>s7.
     rbind (BitMap_new (fresh_word e) NumPhysPages) (\<lambda>bm.
     let (a, s8) = new_semaphore ''addrLock'' 1 (s7\<lparr>gPhysPageBitmap := bm\<rparr>) in
     rbind (Ptable_new e (s8\<lparr>addrLock := a\<rparr>)) (\<lambda>s9.
     rbind (Stable_new e s9) (StubFS_new e))))"
proof -
  let ?th = "Thread_new ''main'' (map (fresh_word e) [0..<NumTotalRegs])"
  let ?s4 = "s\<lparr>stats := Statistics_new, level := IntOff, pending := [], inHandler := False, yieldOnReturn := False, status := SystemMode, readyList := [],
     threadToBeDestroyed := None, next_addr := Suc (next_addr s), currentThread := next_addr s, threads := (threads s)(next_addr s \<mapsto> ?th\<lparr>th_status := RUNNING\<rparr>)\<rparr>"
  let ?s5 = "?s4\<lparr>level := IntOn, stats := Statistics_new\<lparr>totalTicks := SystemTick, systemTicks := SystemTick\<rparr>\<rparr>"
  have e: "Enable (OneTick (call_handler ux) yield) ?s4 =
      Inr ?s5"
    by (subst Enable_nothing_pending) (simp_all add: Statistics_new_def)
  have "CheckEndian HOST_IS_BIG_ENDIAN host_big_endian = Inr ()" by (simp add: CheckEndian_def const_defs host_load32_def)
  then have m: "new_machine pts rut debug u = Inr (u\<lparr>registers := replicate NumTotalRegs 0, mainMemory := (\<lambda>_. 0), tables := Map.empty, tlb := None,
       pageTable := None, pageTableSize := pts, singleStep := debug, runUntilTime := rut\<rparr>)" for debug and u :: "'a os_scheme"
    by (simp add: new_machine_def Machine_new_def)
  have b: "new_machine pts rut debug ?s5 = Inr (before_console e pts rut debug s)" for debug
    unfolding m by (rule arg_cong [where f = Inr], rule os.equality) (simp_all add: before_console_def)
  have "Initialize e ux (OneTick (call_handler ux) yield) pts rut input argv s =
     rbind (Enable (OneTick (call_handler ux) yield) ?s4) (\<lambda>s5. rbind (new_machine pts rut (debugUserProg opts) s5) (\<lambda>s6.
     rbind (SynchConsole_new input s6) (\<lambda>s7.
     rbind (BitMap_new (fresh_word e) NumPhysPages) (\<lambda>bm.
     let (a, s8) = new_semaphore ''addrLock'' 1 (s7\<lparr>gPhysPageBitmap := bm\<rparr>) in
     rbind (Ptable_new e (s8\<lparr>addrLock := a\<rparr>)) (\<lambda>s9.
     rbind (Stable_new e s9) (StubFS_new e))))))"
    using assms by (simp add: Initialize_def Let_def Scheduler_new_def Interrupt_new_def new_thread_def put_thread_def setStatus_def thread_at_def)
  then show ?thesis unfolding e by (simp only: rbind_Inr b)
qed

subsection \<open>Properties\<close>

text \<open>C19. The kernel boots. From whatever the memory of the process holds, \<^verbatim>\<open>Initialize\<close> (with a command line that it accepts and
  without the random timer, on a host that lets it create the two files of the console) returns, and every component is in the state
  that the other theorems start from: the main thread runs with interrupts enabled, the console is idle and nothing has been displayed,
  all 128 frames are free, the lock of the loader and the lock of the process table are open, no process and no user semaphore exists,
  the two standard files are in the first slots of the file table and the other eight are free, and single stepping is on
  exactly when the command line asks for it.\<close>

theorem Initialize_boots:
  fixes s :: "'a os_scheme"
  assumes "parse_args argv default_options = Inr opts" and "\<not> randomYield opts" and "\<forall>t. \<not> poll_file ux t"
    and "fds_open [] (hostfs s)" "al name_stdin" "al name_stdout" and "\<forall>a \<ge> next_addr s. spaces s a = None"
  shows "\<exists>s' :: 'a os_scheme. Initialize (real_env self_switch ux yield al jb jw) ux (OneTick (call_handler ux) yield) pts rut input argv s = Inr s' \<and>
    console_ok ux s' \<and> display_of s' = [] \<and> idle_kernel ux s' \<and> map_option th_name (threads s' (currentThread s')) = Some ''main'' \<and>
    bm_wf (gPhysPageBitmap s') \<and> numBits (gPhysPageBitmap s') = 128 \<and> marked (gPhysPageBitmap s') = {} \<and>
    stab_ok s' \<and> (\<forall>nm. counter s' nm = None) \<and>
    open_files s' = [Some \<lparr>sf_file = 3, sf_currentOffset = 0, sf_type = 2\<rparr>, Some \<lparr>sf_file = 4, sf_currentOffset = 0, sf_type = 3\<rparr>] @ replicate 8 None \<and>
    singleStep s' = debugUserProg opts"
proof -
  let ?e = "real_env self_switch ux yield al jb jw :: 'a os_scheme env"
  let ?s6 = "before_console ?e pts rut (debugUserProg opts) s"
  have "booting ?s6"
    by (auto simp: booting_def before_console_def quiet_def own_context_def Thread_new_def const_defs)
  from SynchConsole_new_ok [OF this assms(3), of input] obtain s7 where
    s7: "SynchConsole_new input ?s6 = Inr s7" "console_ok ux s7" "display_of s7 = []" by blast
  note f = console_fields [OF s7(1)]
  obtain bm where bm: "BitMap_new jw NumPhysPages = Inr bm" "bm_wf bm" "numBits bm = 128" "marked bm = {}"
    using BitMap_new_ok [of NumPhysPages jw] by (auto simp: NumPhysPages_def)
  obtain pb where pb: "BitMap_new jw 10 = Inr pb" "bm_wf pb" "numBits pb = 10" "marked pb = {}" using BitMap_new_ok [of 10 jw] by auto
  define a where "a = next_addr s7"
  define s10 where "s10 = s7\<lparr>gPhysPageBitmap := bm, addrLock := a, semaphores := (semaphores s7)(a \<mapsto> Semaphore_new ''addrLock'' 1, Suc a \<mapsto> Semaphore_new ''bmsem'' 1),
     next_addr := Suc (Suc a), pt_bm := pb, bmsem := Suc a, pcbs := replicate 10 None, st_bm := pb, semtab := replicate 10 None\<rparr>"
  have "fds_open [] (hostfs s10)" using assms(4) f(5) by (simp add: s10_def before_console_def)
  from StubFS_new_ok [OF this, of ?e] assms(5,6) obtain u where
    u: "StubFS_new ?e s10 = Inr (s10\<lparr>hostfs := u, open_files :=
      [Some \<lparr>sf_file = 3, sf_currentOffset = 0, sf_type = 2\<rparr>, Some \<lparr>sf_file = 4, sf_currentOffset = 0, sf_type = 3\<rparr>] @ replicate 8 None\<rparr>)"
    by (auto simp: real_env_def Let_def)
  define s' where "s' = s10\<lparr>hostfs := u, open_files :=
      [Some \<lparr>sf_file = 3, sf_currentOffset = 0, sf_type = 2\<rparr>, Some \<lparr>sf_file = 4, sf_currentOffset = 0, sf_type = 3\<rparr>] @ replicate 8 None\<rparr>"
  have I: "Initialize ?e ux (OneTick (call_handler ux) yield) pts rut input argv s = Inr s'"
    unfolding Initialize_eq [OF assms(1,2)] s'_def u [symmetric]
    using s7(1) bm(1) pb(1) by (simp add: new_semaphore_def put_sem_def Ptable_new_def Stable_new_def MAX_PROCESS_def MAX_SEMAPHORE_def Let_def s10_def a_def)
  have "console_ok ux s'"
    by (rule console_ok_same [OF s7(2)]) (use f(10,11) in \<open>auto simp: s'_def s10_def a_def same_processor_def\<close>)
  moreover have "display_of s' = []" using s7(3) by (simp add: display_of_def s'_def s10_def)
  moreover have "map_option th_name (threads s' (currentThread s')) = Some ''main''"
    using f(7,8) by (simp add: s'_def s10_def before_console_def Thread_new_def)
  moreover have "stab_ok s'" using pb by (simp add: stab_ok_def s'_def s10_def MAX_SEMAPHORE_def)
  moreover have "counter s' nm = None" for nm
  proof -
    have "slot_of (semtab s') nm = None" by (auto simp: slot_of_def s'_def s10_def labelled_def find_None_iff)
    then show ?thesis by (simp add: counter_def)
  qed
  moreover have "idle_kernel ux s'"
  proof -
    have "resting ux s'" "readyList s' = []" using \<open>console_ok ux s'\<close> by (auto simp: console_ok_def resting_def)
    moreover have "unused_above s'" using assms(7) f(2,4,9) by (auto simp: unused_above_def s'_def s10_def a_def before_console_def)
    moreover have "currentThread s' < next_addr s'" using f(7,9) by (simp add: s'_def s10_def a_def before_console_def)
    ultimately show ?thesis using pb f(3) by (simp add: idle_kernel_def s'_def s10_def before_console_def)
  qed
  moreover have "singleStep s' = debugUserProg opts" using f(6) by (simp add: s'_def s10_def before_console_def)
  ultimately show ?thesis using I bm pb by (intro exI [of _ s']) (simp add: s'_def s10_def)
qed

theorem Initialize_boots_witness:
  "\<exists>s'. Initialize (real_env self_switch silence Inr (\<lambda>_. True) (\<lambda>_. 0) (\<lambda>_. 0)) silence (OneTick (call_handler silence) Inr) 0 0 [] [''-s'', ''-x'', ''prog'']
      os_machine = Inr s' \<and> console_ok silence s' \<and> stab_ok s' \<and> marked (gPhysPageBitmap s') = {} \<and> singleStep s'"
proof -
  have "parse_args [''-s'', ''-x'', ''prog''] default_options = Inr (default_options\<lparr>debugUserProg := True\<rparr>)" by simp
  moreover have "fds_open [] (hostfs os_machine)" by (simp add: fds_open_def os_machine_def)
  ultimately show ?thesis
    using Initialize_boots [of "[''-s'', ''-x'', ''prog'']" "default_options\<lparr>debugUserProg := True\<rparr>" silence os_machine "\<lambda>_. True" Inr "\<lambda>_. 0" "\<lambda>_. 0" 0 0 "[]"]
    by (auto simp: default_options_def silence_def os_machine_def)
qed

end
