(* ===== verification/First_Process.thy ===== *)
theory First_Process
  imports Boot
begin

text \<open>
  The first process: \<^verbatim>\<open>Ptable::ExecUpdate\<close> in a kernel that has just booted. The proof runs through every component: the locks of the
  process table and of the loader, the process control block, the file system of the host, the frames, the page table, the
  thread that takes over from the thread of \<^verbatim>\<open>main\<close>, and the registers. It is carried out in the locale \<open>process_kernel\<close>, which adds
  to \<open>lone_kernel\<close> that another thread with a context of its own may become the running one.
\<close>

subsection \<open>A kernel in which the running thread is replaced\<close>

definition same_devices :: "'a devices_scheme \<Rightarrow> 'a devices_scheme \<Rightarrow> bool" where
  "same_devices s s' \<longleftrightarrow> level s' = level s \<and> status s' = status s \<and> inHandler s' = inHandler s \<and> yieldOnReturn s' = yieldOnReturn s \<and>
     threadToBeDestroyed s' = threadToBeDestroyed s \<and> the_console s' = the_console s \<and>
     pending s' = pending s \<and> stats s' = stats s"

locale process_kernel = lone_kernel e ok for e :: "'a os_scheme env" and ok +
  assumes alive: "ok s \<Longrightarrow> threads s (currentThread s) \<noteq> None"
    and adopt: "ok s \<Longrightarrow> same_devices s s' \<Longrightarrow> quiet s' \<Longrightarrow> threads s' (currentThread s') = Some th \<Longrightarrow> own_context th s' \<Longrightarrow> ok s'"

interpretation proc: process_kernel "real_env self_switch ux yield al jb jw" "resting ux" for ux yield al jb jw
proof
  fix s :: "'a os_scheme"
  assume "resting ux s"
  then show "threads s (currentThread s) \<noteq> None" by (auto simp: resting_def at_rest_def)
next
  fix s s' :: "'a os_scheme" and th
  assume "resting ux s" "same_devices s s'" "quiet s'" "threads s' (currentThread s') = Some th" "own_context th s'"
  then show "resting ux s'" by (auto simp: resting_def at_rest_def same_devices_def)
qed

subsection \<open>The parts of Exec\<close>

text \<open>The registers that a program starts with.\<close>

definition start_registers :: "int32 \<Rightarrow> int32 list" where
  "start_registers pages = (replicate NumTotalRegs 0)[35 := 4, 29 := pages * 128 - 16]"

lemma InitRegisters_ok:
  assumes "spaces s sp = Some as" "length (registers s) = NumTotalRegs"
  shows "InitRegisters sp s = Inr (s\<lparr>registers := start_registers (as_numPages as)\<rparr>)"
proof -
  let ?I = "\<lambda>k u. u = s\<lparr>registers := replicate k 0 @ drop k (registers s)\<rparr>"
  have "\<exists>s'. for_each (\<lambda>i. WriteRegister (int i) 0) [0..<NumTotalRegs] s = Inr s' \<and> ?I NumTotalRegs s'"
  proof (rule for_each_upt_inv [where I = ?I])
    fix k u
    assume k: "k < NumTotalRegs" and u: "?I k u"
    have "(replicate k 0 @ drop k (registers s))[k := 0] = replicate (Suc k) 0 @ drop (Suc k) (registers s)"
      using k assms(2) by (simp add: list_update_append replicate_append_same [symmetric] Cons_nth_drop_Suc [symmetric] del: replicate_Suc)
        (simp add: replicate_append_same)
    then show "\<exists>u'. WriteRegister (int k) 0 u = Inr u' \<and> ?I (Suc k) u'"
      using k u assms(2) by (simp add: WriteRegister_def)
  qed simp
  moreover have "(replicate 40 (0 :: int32))[34 := 0] = replicate 40 0" by (simp add: list_update_same_conv)
  ultimately show ?thesis using assms
    by (simp add: InitRegisters_def WriteRegister_def start_registers_def NumTotalRegs_def PageSize_def SectorSize_def)
qed

text \<open>An executable that fits into the free frames, whatever file it is in.\<close>

definition fits :: "NoffHeader \<Rightarrow> byte list \<Rightarrow> bitmap \<Rightarrow> bool" where
  "fits h prog bm \<longleftrightarrow>
     40 \<le> length prog \<and> int (length prog) < 2 ^ 31 \<and> h = noff_header (take 40 prog) \<and> noffMagic h = NOFFMAGIC \<and>
     bm_wf bm \<and> numBits bm = NumPhysPages \<and> unat (noff_pages h) \<le> card ({0..<NumPhysPages} - marked bm) \<and>
     seg_ok (unat (noff_pages h)) prog (nf_code h) \<and> seg_ok (unat (noff_pages h)) prog (nf_initData h)"

lemma loadable_fits: "loadable h prog f s \<longleftrightarrow> opened prog f (hostfs s) \<and> fits h prog (gPhysPageBitmap s)"
  by (auto simp: loadable_def fits_def)

lemma fd_at_new_fd: "new_fd i u = (fd, u') \<Longrightarrow> fd_at fd u' = Some (i, 0) \<and> u_inodes u' = u_inodes u \<and> fd \<ge> 0"
proof -
  assume n: "new_fd i u = (fd, u')"
  let ?k = "length (takeWhile (\<lambda>x. x \<noteq> None) (u_fds u))"
  have "?k \<le> length (u_fds u)" by (rule length_takeWhile_le)
  with n show ?thesis by (auto simp: new_fd_def Let_def fd_at_def nth_append split: if_splits)
qed

lemma open_executable:
  fixes s :: "'a os_scheme"
  assumes "may_open e nm" "u_names (hostfs s) nm = Some i" "u_inodes (hostfs s) i = prog"
  shows "\<exists>f u. StubFS_Open e nm t s = Inr (Some f, s\<lparr>hostfs := u\<rparr>) \<and> opened prog f u"
proof -
  obtain fd u where "new_fd i (hostfs s) = (fd, u)" by (cases "new_fd i (hostfs s)")
  moreover from fd_at_new_fd [OF this] have "fd_at fd u = Some (i, 0)" "u_inodes u = u_inodes (hostfs s)" "fd \<noteq> - 1" by auto
  ultimately show ?thesis using assms
    by (auto simp: StubFS_Open_def OpenForReadWrite_def u_open_def StubFile_new_def opened_def)
qed

lemma close_opened:
  fixes s :: "'a os_scheme"
  assumes "opened prog f (hostfs s)"
  shows "\<exists>u. StubFile_delete f s = Inr (s\<lparr>hostfs := u\<rparr>)"
  using assms by (auto simp: StubFile_delete_def sys_Close_def u_close_def opened_def)

text \<open>The thread of the first process takes over: the old thread object is deleted, the registers and the page table are the program's.\<close>

lemma start_first:
  fixes s :: "'a os_scheme"
  assumes "threads s t = Some th" "threads s (currentThread s) \<noteq> None" "currentThread s \<noteq> t" "spaces s sp = Some as" "length (registers s) = NumTotalRegs"
  shows "start_process e (- 1) t sp s = Inr (s\<lparr>currentThread := t, threads := (threads s)(t \<mapsto> th\<lparr>th_status := RUNNING\<rparr>, currentThread s := None),
     registers := start_registers (as_numPages as), pageTable := Some (as_pageTable as), pageTableSize := as_numPages as\<rparr>)"
  using assms
  by (auto simp: start_process_def setStatus_def thread_at_def put_thread_def Thread_delete_def Let_def InitRegisters_ok RestoreState_def fun_upd_twist)

subsection \<open>Exec\<close>

text \<open>What the table and the processor hold when the process has started.\<close>

definition started :: "NoffHeader \<Rightarrow> byte list \<Rightarrow> nat \<Rightarrow> nat \<Rightarrow> TranslationEntry list \<Rightarrow> bitmap \<Rightarrow> 'a os_scheme \<Rightarrow> bool" where
  "started h prog t pt es bm s \<longleftrightarrow>
     currentThread s = t \<and> (\<exists>th sp. threads s t = Some th \<and> th_status th = RUNNING \<and> th_space th = Some sp \<and>
       spaces s sp = Some \<lparr>as_pageTable = pt, as_numPages = noff_pages h\<rparr>) \<and>
     registers s = start_registers (noff_pages h) \<and> pageTable s = Some pt \<and> pageTableSize s = noff_pages h \<and> tlb s = None \<and>
     tables s pt = Some es \<and> length es = unat (noff_pages h) \<and> frames_ok es \<and> (\<forall>i < length es. valid (es ! i)) \<and>
     (\<forall>x < 128 * length es. vmem es (mainMemory s) x = noff_image h prog x) \<and>
     marked (gPhysPageBitmap s) = marked bm \<union> int ` frame es ` {..<length es}"

lemma started_only_io:
  assumes "started h prog t pt es bm s" "only_io s s'" "threads s' = threads s"
  shows "started h prog t pt es bm s'"
  using assms(1,3) only_io_keeps [OF assms(2)] by (simp add: started_def)

lemma start_registers_quiet: "registers s = start_registers n \<Longrightarrow> quiet s"
  by (simp add: quiet_def start_registers_def NumTotalRegs_def nth_list_update)

lemma new_space_cong:
  assumes "spaces s = spaces t" "tables s = tables t" "next_addr s = next_addr t" "gPhysPageBitmap s = gPhysPageBitmap t" "mainMemory s = mainMemory t"
    and "spaces s' = spaces t'" "tables s' = tables t'" "gPhysPageBitmap s' = gPhysPageBitmap t'" "mainMemory s' = mainMemory t'"
  shows "new_space h prog es s s' = new_space h prog es t t'"
  using assms by (simp add: new_space_def)

text \<open>The block of a new process, in a slot of the table, with its three semaphores.\<close>

definition fresh_pcb :: "'a os_scheme env \<Rightarrow> nat \<Rightarrow> PCB" where
  "fresh_pcb e n = \<lparr>process_name = (map (fresh_byte e) [0..<50])[0 := 0], process_id = - 1, parent_id = - 1, numwait = 0,
     exitcode = 0, pcb_thread = None, joinsem = n, exitsem = Suc n, multex = Suc (Suc n)\<rparr>"

definition with_block :: "'a os_scheme env \<Rightarrow> int \<Rightarrow> bitmap \<Rightarrow> 'a os_scheme \<Rightarrow> 'a os_scheme" where
  "with_block e pid bm s = s\<lparr>pt_bm := bm, semaphores := (semaphores s)(next_addr s \<mapsto> Semaphore_new ''joinsem'' 0,
       Suc (next_addr s) \<mapsto> Semaphore_new ''exitsem'' 0, Suc (Suc (next_addr s)) \<mapsto> Semaphore_new ''multex'' 1),
     next_addr := Suc (Suc (Suc (next_addr s))), pcbs := (pcbs s)[nat pid := Some (fresh_pcb e (next_addr s))]\<rparr>"

lemma new_block:
  assumes "0 \<le> pid" "pid < int (length (pcbs s))"
  shows "PCB_new e (s\<lparr>pt_bm := bm\<rparr>) = (fresh_pcb e (next_addr s), (with_block e pid bm s)\<lparr>pcbs := pcbs s\<rparr>)"
    and "set_pcb pid (Some (fresh_pcb e (next_addr s))) ((with_block e pid bm s)\<lparr>pcbs := pcbs s\<rparr>) = Inr (with_block e pid bm s)"
    and "pcb_at pid (with_block e pid bm s) = Inr (fresh_pcb e (next_addr s))"
  using assms by (simp_all add: PCB_new_def new_semaphore_def put_sem_def Let_def fresh_pcb_def set_pcb_def pcb_at_def with_block_def)

lemma with_block_sems:
  "semaphores (with_block e pid bm s) (multex (fresh_pcb e (next_addr s))) = Some (Semaphore_new ''multex'' 1)"
  "a < next_addr s \<Longrightarrow> semaphores (with_block e pid bm s) a = semaphores s a"
  "a < next_addr s \<Longrightarrow> multex (fresh_pcb e (next_addr s)) \<noteq> a"
  by (auto simp: with_block_def fresh_pcb_def)

lemma with_block_same: "same_processor s (with_block e pid bm s)"
  by (simp add: same_processor_def with_block_def)

lemma Semaphore_new_open: "sem_value (Semaphore_new l v) = v" "sem_queue (Semaphore_new l v) = []"
  by (simp_all add: Semaphore_new_def)

text \<open>What \<^verbatim>\<open>Exec\<close> has done before the new thread gets the processor or a place in the ready list: a thread object with a loaded address space.\<close>

definition ready_to_start ::
    "NoffHeader \<Rightarrow> byte list \<Rightarrow> TranslationEntry list \<Rightarrow> thread \<Rightarrow> 'a os_scheme \<Rightarrow> 'a os_scheme \<Rightarrow> bool" where
  "ready_to_start h prog es th s s' \<longleftrightarrow>
     new_space h prog es (s\<lparr>next_addr := Suc (next_addr s)\<rparr>) s' \<and> next_addr s' = next_addr s + 3 \<and>
     threads s' = (threads s)(next_addr s \<mapsto> th) \<and> th_space th = Some (Suc (Suc (next_addr s))) \<and> th_stack th = None \<and>
     length (userRegisters th) = NumTotalRegs \<and> currentThread s' = currentThread s \<and> readyList s' = readyList s \<and> registers s' = registers s \<and>
     pageTable s' = pageTable s \<and> pageTableSize s' = pageTableSize s \<and> tlb s' = tlb s \<and> pt_bm s' = pt_bm s \<and> bmsem s' = bmsem s \<and>
     addrLock s' = addrLock s"

context process_kernel
begin

lemma PCB_Exec_loads:
  assumes ok: "ok s" and p: "pcb_at i s = Inr p" "pcb_thread p = None" and pid: "0 \<le> pid"
    and m: "semaphores s (multex p) = Some x" "sem_value x = 1" "multex p \<noteq> addrLock s"
    and y: "semaphores s (addrLock s) = Some y" "sem_value y = 1" "sem_queue y = []"
    and f: "may_open e (c_string nm)" "u_names (hostfs s) (c_string nm) = Some ino" "u_inodes (hostfs s) ino = prog" "fits h prog (gPhysPageBitmap s)"
    and u: "unused_above s" "currentThread s < next_addr s"
  shows "\<exists>es th g s' :: 'a os_scheme.
    PCB_Exec e (Some nm) pid ppid i s =
      rbind (start_process e ppid (next_addr s) (Suc (Suc (next_addr s))) s') (\<lambda>s8. rbind (StubFile_delete g s8) (\<lambda>s9.
      rbind (pcb_at i s9) (\<lambda>p. rbind (opV e (multex p) s9) (\<lambda>s10. Inr (0, s10))))) \<and>
    ok s' \<and> opened prog g (hostfs s') \<and> ready_to_start h prog es th s s' \<and> semaphores s' = (semaphores s)(multex p \<mapsto> x\<lparr>sem_value := 0\<rparr>) \<and>
    pcbs s' = (pcbs s)[nat i := Some (p\<lparr>process_id := pid, parent_id := ppid, process_name := strncpy (process_name p) nm 50, pcb_thread := Some (next_addr s)\<rparr>)]"
proof -
  let ?t = "next_addr s" and ?p2 = "p\<lparr>process_id := pid, parent_id := ppid, process_name := strncpy (process_name p) nm 50\<rparr>"
  from p(1) have r: "0 \<le> i" "i < int (length (pcbs s))" by (auto simp: pcb_at_def rbind_eq_Inr arr_get_eq_Inr)
  from P_law [OF ok m(1)] m(2) obtain s1 :: "'a os_scheme" where
    s1: "opP e (multex p) s = Inr s1" "ok s1" "only_io s s1" "semaphores s1 = (semaphores s)(multex p \<mapsto> x\<lparr>sem_value := 0\<rparr>)" "threads s1 = threads s" by auto
  note k1 = only_io_keeps [OF s1(3)]
  have p1: "pcb_at i s1 = Inr p" using p(1) k1 by (simp add: pcb_at_def)
  define s2 where "s2 = s1\<lparr>pcbs := (pcbs s)[nat i := Some ?p2]\<rparr>"
  from open_executable [OF f(1), of s2 ino prog 0] f(2,3) k1 obtain g v where
    g: "StubFS_Open e (c_string nm) 0 s2 = Inr (Some g, s2\<lparr>hostfs := v\<rparr>)" "opened prog g v" by (auto simp: s2_def)
  let ?th = "Thread_new (chars (process_name ?p2)) (map (fresh_word e) [0..<NumTotalRegs])"
  define s3 where "s3 = s2\<lparr>hostfs := v, threads := (threads s)(?t \<mapsto> ?th), next_addr := Suc ?t, pcbs := (pcbs s)[nat i := Some (?p2\<lparr>pcb_thread := Some ?t\<rparr>)]\<rparr>"
  have cur: "currentThread s1 \<noteq> ?t" using u(2) k1 by simp
  have "same_processor s1 s3" using cur s1(5) by (simp add: same_processor_def s3_def s2_def)
  with s1(2) ok_same have ok3: "ok s3" by blast
  have y3: "semaphores s3 (addrLock s3) = Some y" using y(1) m(3) s1(4) k1 by (simp add: s3_def s2_def)
  have "loadable h prog g s3" using g(2) f(4) k1 by (simp add: loadable_fits s3_def s2_def)
  moreover have "unused_above s3" using u(1) k1 by (simp add: unused_above_def s3_def s2_def)
  ultimately obtain es and s4 :: "'a os_scheme" where
    s4: "AddrSpace_new e g s3 = Inr (Suc (Suc ?t), s4)" "ok s4" "new_space h prog es s3 s4" "semaphores s4 = semaphores s3" "registers s4 = registers s3"
      "tlb s4 = tlb s3" "kept s3 s4" "opened prog g (hostfs s4)" "next_addr s4 = Suc (Suc (Suc ?t))" "pageTable s4 = pageTable s3" "pageTableSize s4 = pageTableSize s3"
    using AddrSpace_new_ok [OF ok3 y3, of h prog g] y(2,3) by (auto simp: s3_def)
  have t4: "threads s4 = (threads s)(?t \<mapsto> ?th)" "currentThread s4 = currentThread s1" using s4(7) by (simp_all add: kept_def s3_def s2_def)
  define th where "th = ?th\<lparr>th_space := Some (Suc (Suc ?t))\<rparr>"
  define s5 where "s5 = s4\<lparr>threads := (threads s)(?t \<mapsto> th)\<rparr>"
  have a: "set_pcb i (Some ?p2) s1 = Inr s2" using r k1 by (simp add: set_pcb_def s2_def)
  have b: "new_thread (map (fresh_word e) [0..<NumTotalRegs]) (chars (process_name ?p2)) (s2\<lparr>hostfs := v\<rparr>) =
      (?t, s2\<lparr>hostfs := v, threads := (threads s)(?t \<mapsto> ?th), next_addr := Suc ?t\<rparr>)"
    using k1 s1(5) by (simp add: new_thread_def put_thread_def s2_def)
  have c: "set_pcb i (Some (?p2\<lparr>pcb_thread := Some ?t\<rparr>)) (s2\<lparr>hostfs := v, threads := (threads s)(?t \<mapsto> ?th), next_addr := Suc ?t\<rparr>) = Inr s3"
    using r by (simp add: set_pcb_def s3_def s2_def)
  have d: "set_space ?t (Some (Suc (Suc ?t))) s4 = Inr s5" using t4(1) by (simp add: set_space_def thread_at_def put_thread_def s5_def th_def)
  have "PCB_Exec e (Some nm) pid ppid i s =
      rbind (start_process e ppid ?t (Suc (Suc ?t)) s5) (\<lambda>s8. rbind (StubFile_delete g s8) (\<lambda>s9.
      rbind (pcb_at i s9) (\<lambda>p. rbind (opV e (multex p) s9) (\<lambda>s10. Inr (0, s10)))))"
    using p(1,2) s1(1) p1 pid a g(1) b c s4(1) d by (simp add: PCB_Exec_def Let_def)
  moreover have "ok s5" by (rule ok_same [OF s4(2)]) (use cur t4 in \<open>simp add: same_processor_def s5_def\<close>)
  moreover have "new_space h prog es (s\<lparr>next_addr := Suc ?t\<rparr>) s5"
    using s4(3) new_space_cong [of s3 "s\<lparr>next_addr := Suc ?t\<rparr>" s4 s5] k1 by (simp add: s5_def s3_def s2_def)
  then have "ready_to_start h prog es th s s5"
    using s4(5-7,9-11) k1 by (simp add: ready_to_start_def kept_def th_def Thread_new_def s5_def s3_def s2_def)
  moreover have "semaphores s5 = (semaphores s)(multex p \<mapsto> x\<lparr>sem_value := 0\<rparr>)" using s4(4) s1(4) by (simp add: s5_def s3_def s2_def)
  moreover have "pcbs s5 = (pcbs s)[nat i := Some (?p2\<lparr>pcb_thread := Some ?t\<rparr>)]" using s4(7) by (simp add: kept_def s5_def s3_def)
  moreover have "opened prog g (hostfs s5)" using s4(8) by (simp add: s5_def)
  ultimately show ?thesis by blast
qed

text \<open>The end of \<^verbatim>\<open>Exec\<close>: the file is closed and the block is released.\<close>

lemma PCB_Exec_ends:
  assumes "ok s" "pcb_at i (s\<lparr>hostfs := w\<rparr>) = Inr p" "StubFile_delete g s = Inr (s\<lparr>hostfs := w\<rparr>)"
    and "semaphores s (multex p) = Some (x\<lparr>sem_value := 0\<rparr>)" "sem_value x = 1" "sem_queue x = []"
  shows "\<exists>s' :: 'a os_scheme. rbind (StubFile_delete g s) (\<lambda>s9. rbind (pcb_at i s9) (\<lambda>p. rbind (opV e (multex p) s9) (\<lambda>s10. Inr (0 :: int, s10)))) = Inr (0, s') \<and>
    ok s' \<and> only_io (s\<lparr>hostfs := w\<rparr>) s' \<and> semaphores s' = (semaphores s)(multex p \<mapsto> x) \<and> threads s' = threads s"
proof -
  let ?s = "s\<lparr>hostfs := w\<rparr>"
  have "ok ?s" by (rule ok_same [OF assms(1)]) (simp add: same_processor_def)
  from V_law [OF this, of "multex p" "x\<lparr>sem_value := 0\<rparr>"] assms(4-6) obtain s' :: "'a os_scheme" where
    "opV e (multex p) ?s = Inr s'" "ok s'" "only_io ?s s'" "semaphores s' = (semaphores s)(multex p \<mapsto> x\<lparr>sem_value := 1\<rparr>)" "threads s' = threads s" by auto
  moreover have "x\<lparr>sem_value := 1\<rparr> = x" using assms(5) by simp
  ultimately show ?thesis using assms(2,3) by (intro exI [of _ s']) simp
qed

lemma PCB_Exec_first:
  assumes ok: "ok s" and p: "length (pcbs s) = MAX_PROCESS" "pcbs s ! 0 = Some p" "pcb_thread p = None"
    and m: "semaphores s (multex p) = Some x" "sem_value x = 1" "sem_queue x = []" "multex p \<noteq> addrLock s"
    and y: "semaphores s (addrLock s) = Some y" "sem_value y = 1" "sem_queue y = []"
    and f: "may_open e (c_string nm)" "u_names (hostfs s) (c_string nm) = Some i" "u_inodes (hostfs s) i = prog" "fits h prog (gPhysPageBitmap s)"
    and u: "unused_above s" "tlb s = None" "currentThread s < next_addr s" "length (registers s) = NumTotalRegs"
  shows "\<exists>es s' :: 'a os_scheme. PCB_Exec e (Some nm) 0 (- 1) 0 s = Inr (0, s') \<and> ok s' \<and> semaphores s' = semaphores s \<and> bmsem s' = bmsem s \<and> addrLock s' = addrLock s \<and>
    pt_bm s' = pt_bm s \<and> started h prog (next_addr s) (Suc (next_addr s)) es (gPhysPageBitmap s) s' \<and> threads s' (currentThread s) = None \<and>
    readyList s' = readyList s \<and> pcbs s' = (pcbs s)[0 := Some (p\<lparr>process_id := 0, parent_id := - 1, process_name := strncpy (process_name p) nm 50, pcb_thread := Some (next_addr s)\<rparr>)]"
proof -
  let ?t = "next_addr s" and ?sp = "Suc (Suc (next_addr s))"
  let ?q = "p\<lparr>process_id := 0, parent_id := - 1, process_name := strncpy (process_name p) nm 50, pcb_thread := Some ?t\<rparr>"
  have p0: "pcb_at 0 s = Inr p" using p by (simp add: pcb_at_def MAX_PROCESS_def)
  from PCB_Exec_loads [OF ok p0 p(3) order_refl m(1,2,4) y f u(1,3), of "- 1"] obtain es th g and s5 :: "'a os_scheme" where
    s5: "PCB_Exec e (Some nm) 0 (- 1) 0 s = rbind (start_process e (- 1) ?t ?sp s5) (\<lambda>s8. rbind (StubFile_delete g s8) (\<lambda>s9.
      rbind (pcb_at 0 s9) (\<lambda>p. rbind (opV e (multex p) s9) (\<lambda>s10. Inr (0, s10)))))"
      "ok s5" "opened prog g (hostfs s5)" "ready_to_start h prog es th s s5" "semaphores s5 = (semaphores s)(multex p \<mapsto> x\<lparr>sem_value := 0\<rparr>)"
      "pcbs s5 = (pcbs s)[nat 0 := Some ?q]" by blast
  have n: "spaces s5 ?sp = Some \<lparr>as_pageTable = Suc ?t, as_numPages = noff_pages h\<rparr>" "threads s5 = (threads s)(?t \<mapsto> th)"
      "th_space th = Some ?sp" "th_stack th = None" "length (userRegisters th) = NumTotalRegs" "currentThread s5 = currentThread s" "registers s5 = registers s"
    using s5(4) by (simp_all add: ready_to_start_def new_space_def)
  have cur: "currentThread s \<noteq> ?t" using u(3) by simp
  define s6 where "s6 = s5\<lparr>currentThread := ?t, threads := (threads s5)(?t \<mapsto> th\<lparr>th_status := RUNNING\<rparr>, currentThread s5 := None),
     registers := start_registers (noff_pages h), pageTable := Some (Suc ?t), pageTableSize := noff_pages h\<rparr>"
  have st: "start_process e (- 1) ?t ?sp s5 = Inr s6"
    using start_first [of s5 ?t th ?sp _ e] alive [OF s5(2)] n cur u(4) by (simp add: s6_def)
  have "ok s6"
  proof (rule adopt [OF s5(2)])
    show "same_devices s5 s6" by (simp add: same_devices_def s6_def)
    show "quiet s6" by (rule start_registers_quiet [where n = "noff_pages h"]) (simp add: s6_def)
    show "threads s6 (currentThread s6) = Some (th\<lparr>th_status := RUNNING\<rparr>)" using cur n(6) by (simp add: s6_def)
    show "own_context (th\<lparr>th_status := RUNNING\<rparr>) s6" using n by (simp add: own_context_def s6_def)
  qed
  moreover obtain w where w: "StubFile_delete g s6 = Inr (s6\<lparr>hostfs := w\<rparr>)" using close_opened [of prog g s6] s5(3) by (auto simp: s6_def)
  moreover have "pcb_at 0 (s6\<lparr>hostfs := w\<rparr>) = Inr ?q" using p(1) s5(6) by (simp add: pcb_at_def s6_def MAX_PROCESS_def)
  moreover have "semaphores s6 (multex ?q) = Some (x\<lparr>sem_value := 0\<rparr>)" using s5(5) by (simp add: s6_def)
  ultimately obtain s8 :: "'a os_scheme" where
    s8: "rbind (StubFile_delete g s6) (\<lambda>s9. rbind (pcb_at 0 s9) (\<lambda>p. rbind (opV e (multex p) s9) (\<lambda>s10. Inr (0 :: int, s10)))) = Inr (0, s8)"
      "ok s8" "only_io (s6\<lparr>hostfs := w\<rparr>) s8" "semaphores s8 = (semaphores s6)(multex p \<mapsto> x)" "threads s8 = threads s6"
    using PCB_Exec_ends [of s6 0 w ?q g x] m(2,3) by auto
  note k8 = only_io_keeps [OF s8(3)]
  have "PCB_Exec e (Some nm) 0 (- 1) 0 s = Inr (0, s8)" using s5(1) st s8(1) by simp
  moreover have "started h prog ?t (Suc ?t) es (gPhysPageBitmap s) s8"
    using k8 s8(5) s5(4) n cur u(2) by (auto simp: started_def ready_to_start_def new_space_def s6_def)
  moreover have "semaphores s8 = semaphores s" using s8(4) s5(5) m(1) by (simp add: s6_def fun_upd_idem)
  moreover have "bmsem s8 = bmsem s" "addrLock s8 = addrLock s" "pt_bm s8 = pt_bm s" "readyList s8 = readyList s"
    using k8 s5(4) by (simp_all add: ready_to_start_def s6_def)
  moreover have "threads s8 (currentThread s) = None" using s8(5) n(6) by (simp add: s6_def)
  moreover have "pcbs s8 = (pcbs s)[0 := Some ?q]" using k8 s5(6) by (simp add: s6_def)
  ultimately show ?thesis using s8(2) by (intro exI [of _ es] exI [of _ s8]) simp
qed

lemma ExecUpdate_first:
  assumes ok: "ok s" and p: "pcbs s = replicate 10 None" "bm_wf (pt_bm s)" "numBits (pt_bm s) = 10" "marked (pt_bm s) = {}"
    and l: "semaphores s (addrLock s) = Some y" "sem_value y = 1" "sem_queue y = []" "semaphores s (bmsem s) = Some b" "sem_value b = 1" "sem_queue b = []"
      "addrLock s < next_addr s" "bmsem s < next_addr s" "addrLock s \<noteq> bmsem s"
    and f: "may_open e (c_string nm)" "u_names (hostfs s) (c_string nm) = Some i" "u_inodes (hostfs s) i = prog" "fits h prog (gPhysPageBitmap s)"
    and u: "unused_above s" "tlb s = None" "currentThread s < next_addr s" "length (registers s) = NumTotalRegs"
  shows "\<exists>es t pt pcb s' :: 'a os_scheme. ExecUpdate e (Some nm) s = Inr (0, s') \<and> ok s' \<and> started h prog t pt es (gPhysPageBitmap s) s' \<and>
    threads s' (currentThread s) = None \<and> readyList s' = readyList s \<and> pcbs s' = (replicate 10 None)[0 := Some pcb] \<and> marked (pt_bm s') = {0} \<and>
    process_id pcb = 0 \<and> parent_id pcb = - 1 \<and> pcb_thread pcb = Some t \<and> numwait pcb = 0 \<and>
    semaphores s' (addrLock s') = Some y \<and> semaphores s' (bmsem s') = Some b"
proof -
  let ?n = "next_addr s"
  from P_law [OF ok l(4)] l(5) obtain s1 :: "'a os_scheme" where
    s1: "opP e (bmsem s) s = Inr s1" "ok s1" "only_io s s1" "semaphores s1 = (semaphores s)(bmsem s \<mapsto> b\<lparr>sem_value := 0\<rparr>)" "threads s1 = threads s" by auto
  note k1 = only_io_keeps [OF s1(3)]
  have nc: "BitMap_NumClear (pt_bm s1) = Inr 10" using BitMap_NumClear_ok [OF p(2)] p(3,4) k1 by simp
  obtain bm where bm: "BitMap_Mark 0 (pt_bm s1) = Inr bm" "marked bm = {0}" using BitMap_Mark_ok [OF p(2), of 0] p(3,4) k1 by auto
  have ch: "choose_slot nm s1 = Inr (Some (0, - 1), s1\<lparr>pt_bm := bm\<rparr>)" using nc bm(1) by (simp add: choose_slot_def MAX_PROCESS_def)
  define pc where "pc = fresh_pcb e ?n"
  define s2 where "s2 = with_block e 0 bm s1"
  have "length (pcbs s1) = 10" using p(1) k1 by simp
  then have new: "PCB_new e (s1\<lparr>pt_bm := bm\<rparr>) = (pc, s2\<lparr>pcbs := pcbs s1\<rparr>)" "set_pcb 0 (Some pc) (s2\<lparr>pcbs := pcbs s1\<rparr>) = Inr s2"
    using new_block [of 0 s1 e bm] k1 by (simp_all add: pc_def s2_def)
  have ok2: "ok s2" unfolding s2_def by (rule ok_same [OF s1(2) with_block_same])
  have sem2: "semaphores s2 (multex pc) = Some (Semaphore_new ''multex'' 1)" "semaphores s2 (addrLock s2) = Some y" "multex pc \<noteq> addrLock s2"
    "semaphores s2 (bmsem s2) = Some (b\<lparr>sem_value := 0\<rparr>)"
    using l k1 s1(4) by (auto simp: s2_def pc_def with_block_def fresh_pcb_def)
  have "\<exists>es s' :: 'a os_scheme. PCB_Exec e (Some nm) 0 (- 1) 0 s2 = Inr (0, s') \<and> ok s' \<and> semaphores s' = semaphores s2 \<and> bmsem s' = bmsem s2 \<and> addrLock s' = addrLock s2 \<and>
    pt_bm s' = pt_bm s2 \<and> started h prog (next_addr s2) (Suc (next_addr s2)) es (gPhysPageBitmap s2) s' \<and> threads s' (currentThread s2) = None \<and>
    readyList s' = readyList s2 \<and> pcbs s' = (pcbs s2)[0 := Some (pc\<lparr>process_id := 0, parent_id := - 1, process_name := strncpy (process_name pc) nm 50, pcb_thread := Some (next_addr s2)\<rparr>)]"
    by (rule PCB_Exec_first [OF ok2 _ _ _ sem2(1) Semaphore_new_open sem2(3,2) l(2,3) f(1)])
      (use f u p(1) k1 in \<open>auto simp: s2_def pc_def with_block_def fresh_pcb_def MAX_PROCESS_def unused_above_def\<close>)
  then obtain es and s3 :: "'a os_scheme" where
    s3: "PCB_Exec e (Some nm) 0 (- 1) 0 s2 = Inr (0, s3)" "ok s3" "semaphores s3 = semaphores s2" "bmsem s3 = bmsem s2" "addrLock s3 = addrLock s2"
      "pt_bm s3 = pt_bm s2" "started h prog (next_addr s2) (Suc (next_addr s2)) es (gPhysPageBitmap s2) s3" "threads s3 (currentThread s2) = None" "readyList s3 = readyList s2"
      "pcbs s3 = (pcbs s2)[0 := Some (pc\<lparr>process_id := 0, parent_id := - 1, process_name := strncpy (process_name pc) nm 50, pcb_thread := Some (next_addr s2)\<rparr>)]"
    by blast
  from V_law [OF s3(2), of "bmsem s3" "b\<lparr>sem_value := 0\<rparr>"] s3(3,4) sem2(4) l(6) obtain s4 :: "'a os_scheme" where
    s4: "opV e (bmsem s3) s3 = Inr s4" "ok s4" "only_io s3 s4" "semaphores s4 = (semaphores s3)(bmsem s3 \<mapsto> b\<lparr>sem_value := 1\<rparr>)" "threads s4 = threads s3" by auto
  note k4 = only_io_keeps [OF s4(3)]
  have b: "b\<lparr>sem_value := 1\<rparr> = b" using l(5) by simp
  have "ExecUpdate e (Some nm) s = Inr (0, s4)"
    using s1(1) ch new s3(1) s4(1) by (simp add: ExecUpdate_def)
  moreover have "started h prog (next_addr s2) (Suc (next_addr s2)) es (gPhysPageBitmap s) s4"
    using started_only_io [OF s3(7) s4(3,5)] k1 by (simp add: s2_def with_block_def)
  moreover have "readyList s4 = readyList s" using k4 s3(9) k1 by (simp add: s2_def with_block_def)
  moreover have "threads s4 (currentThread s) = None" using s4(5) s3(8) k1 by (simp add: s2_def with_block_def)
  moreover have "marked (pt_bm s4) = {0}" using k4 s3(6) bm(2) by (simp add: s2_def with_block_def)
  moreover have "semaphores s4 (addrLock s4) = Some y" "semaphores s4 (bmsem s4) = Some b"
    using s4(4) k4 s3(3,4,5) sem2(2) l(9) k1 b by (simp_all add: s2_def with_block_def)
  ultimately show ?thesis
    using s4(2) k4 s3(10) p(1) k1
    by (intro exI [of _ es] exI [of _ "next_addr s2"] exI [of _ "Suc (next_addr s2)"]
        exI [of _ "pc\<lparr>process_id := 0, parent_id := - 1, process_name := strncpy (process_name pc) nm 50, pcb_thread := Some (next_addr s2)\<rparr>"] exI [of _ s4])
      (simp add: s2_def pc_def with_block_def fresh_pcb_def)
qed

end

subsection \<open>Properties\<close>

lemma vbyte_table:
  assumes "tlb s = None" "pageTable s = Some pt" "length es = unat (pageTableSize s)" "tables s pt = Some es"
    and "frames_ok es" "\<forall>i < length es. valid (es ! i)" "x < 128 * length es"
  shows "vbyte s x = Some (vmem es (mainMemory s) x)"
proof -
  have "phys_of s x = Some (paddr es x)"
    using assms page_bound [of x "length es"] by (simp add: phys_of_def page_entry_def paddr_def frame_def frames_ok_def)
  then show ?thesis by (simp add: vbyte_def vmem_def)
qed

lemma started_sees:
  assumes "started h prog t pt es bm s" "x < 128 * unat (noff_pages h)"
  shows "vbyte s x = Some (noff_image h prog x)"
  using vbyte_table [of s pt es x] assms by (auto simp: started_def)

lemma first_process_starts:
  fixes s :: "'a os_scheme"
  assumes "idle_kernel ux s" and "al (c_string nm)" "u_names (hostfs s) (c_string nm) = Some i" "u_inodes (hostfs s) i = prog"
    and "fits h prog (gPhysPageBitmap s)"
  shows "\<exists>t pcb s' :: 'a os_scheme. ExecUpdate (real_env self_switch ux yield al jb jw) (Some nm) s = Inr (0, s') \<and> resting ux s' \<and>
    registers s' = (replicate 40 0)[35 := 4, 29 := noff_pages h * 128 - 16] \<and> pageTableSize s' = noff_pages h \<and>
    (\<forall>x < 128 * unat (noff_pages h). vbyte s' x = Some (noff_image h prog x)) \<and>
    currentThread s' = t \<and> map_option th_status (threads s' t) = Some RUNNING \<and> threads s' (currentThread s) = None \<and>
    readyList s' = [] \<and> pcbs s' = Some pcb # replicate 9 None \<and> marked (pt_bm s') = {0} \<and>
    process_id pcb = 0 \<and> parent_id pcb = - 1 \<and> pcb_thread pcb = Some t \<and> numwait pcb = 0 \<and>
    (\<exists>F. marked (gPhysPageBitmap s') = marked (gPhysPageBitmap s) \<union> F \<and> card F = unat (noff_pages h)) \<and>
    semaphores s' (addrLock s') = Some (Semaphore_new ''addrLock'' 1) \<and> semaphores s' (bmsem s') = Some (Semaphore_new ''bmsem'' 1)"
proof -
  let ?e = "real_env self_switch ux yield al jb jw :: 'a os_scheme env"
  have k: "resting ux s" "currentThread s < next_addr s" "unused_above s" "tlb s = None" "pcbs s = replicate 10 None" "bm_wf (pt_bm s)"
      "numBits (pt_bm s) = 10" "marked (pt_bm s) = {}" "semaphores s (addrLock s) = Some (Semaphore_new ''addrLock'' 1)"
      "semaphores s (bmsem s) = Some (Semaphore_new ''bmsem'' 1)" "addrLock s < next_addr s" "bmsem s < next_addr s" "addrLock s \<noteq> bmsem s"
    using assms(1) by (simp_all add: idle_kernel_def)
  have rl: "readyList s = []" using assms(1) by (simp add: idle_kernel_def)
  have v: "sem_value (Semaphore_new l 1) = 1" "sem_queue (Semaphore_new l 1) = []" for l by (simp_all add: Semaphore_new_def)
  have a: "may_open ?e (c_string nm)" using assms(2) by (simp add: real_env_def Let_def)
  have r: "length (registers s) = NumTotalRegs" using k(1) by (auto simp: resting_def at_rest_def quiet_def)
  from proc.ExecUpdate_first [OF k(1,5-9) v k(10) v k(11-13) a assms(3-5) k(3,4,2) r]
  obtain es t pt pcb and s' :: "'a os_scheme" where
    s': "ExecUpdate ?e (Some nm) s = Inr (0, s')" "resting ux s'" "started h prog t pt es (gPhysPageBitmap s) s'" "threads s' (currentThread s) = None" "readyList s' = readyList s"
      "pcbs s' = (replicate 10 None)[0 := Some pcb]" "marked (pt_bm s') = {0}" "process_id pcb = 0" "parent_id pcb = - 1" "pcb_thread pcb = Some t"
      "numwait pcb = 0" "semaphores s' (addrLock s') = Some (Semaphore_new ''addrLock'' 1)" "semaphores s' (bmsem s') = Some (Semaphore_new ''bmsem'' 1)"
    by blast
  have "card (int ` frame es ` {..<length es}) = unat (noff_pages h)"
    using s'(3) by (auto simp: started_def frames_ok_def card_image)
  moreover have "pcbs s' = Some pcb # replicate 9 None" using s'(6) by (simp add: numeral_eq_Suc)
  ultimately show ?thesis using s' rl started_sees [OF s'(3)]
    by (intro exI [of _ t] exI [of _ pcb] exI [of _ s']) (auto simp: started_def start_registers_def NumTotalRegs_def)
qed

text \<open>C3. The first process is started. In a kernel that has booted, \<^verbatim>\<open>ExecUpdate\<close> of a file of the host that holds an executable which
  fits into the free frames returns process 0, and the machine is about to run the program: the program counters are 0 and 4, the stack
  pointer is 16 bytes below the end of the address space, every other register is 0, and every virtual address of the space
  holds the byte of the memory image that the file describes. The process has a thread of its own, which is the running one, and the
  thread of \<^verbatim>\<open>main\<close> has been deleted; slot 0 of the process table is the only one in use, with the thread, no parent and nobody
  waiting; the frames in use are those of before and as many more as the program has pages; the locks of the process table and of
  the loader are open again.\<close>

theorem exec_first_process:
  fixes s :: "'a os_scheme"
  assumes "idle_kernel ux s" and "al (c_string nm)" "u_names (hostfs s) (c_string nm) = Some i" "u_inodes (hostfs s) i = prog"
    and "fits h prog (gPhysPageBitmap s)"
  shows "\<exists>t pcb s' :: 'a os_scheme. ExecUpdate (real_env self_switch ux yield al jb jw) (Some nm) s = Inr (0, s') \<and> resting ux s' \<and>
    registers s' = (replicate 40 0)[35 := 4, 29 := noff_pages h * 128 - 16] \<and> pageTableSize s' = noff_pages h \<and>
    (\<forall>x < 128 * unat (noff_pages h). vbyte s' x = Some (noff_image h prog x)) \<and>
    currentThread s' = t \<and> map_option th_status (threads s' t) = Some RUNNING \<and> threads s' (currentThread s) = None \<and>
    readyList s' = [] \<and> pcbs s' = Some pcb # replicate 9 None \<and> marked (pt_bm s') = {0} \<and>
    process_id pcb = 0 \<and> parent_id pcb = - 1 \<and> pcb_thread pcb = Some t \<and> numwait pcb = 0 \<and>
    (\<exists>F. marked (gPhysPageBitmap s') = marked (gPhysPageBitmap s) \<union> F \<and> card F = unat (noff_pages h)) \<and>
    semaphores s' (addrLock s') = Some (Semaphore_new ''addrLock'' 1) \<and> semaphores s' (bmsem s') = Some (Semaphore_new ''bmsem'' 1)"
  by (rule first_process_starts [of ux s al nm i prog h, OF assms])

definition exec_machine :: os where
  "exec_machine = loader_machine\<lparr>semaphores := [0 \<mapsto> Semaphore_new ''addrLock'' 1, 1 \<mapsto> Semaphore_new ''bmsem'' 1], bmsem := 1, next_addr := 2,
     pcbs := replicate 10 None, pt_bm := \<lparr>numBits = 10, numWords = 1, bmap = [0]\<rparr>\<rparr>"

lemma exec_machine_idle: "idle_kernel silence exec_machine"
proof -
  have "resting silence exec_machine" by (rule lone.ok_same [OF loader_machine_ok(1)]) (simp add: same_processor_def exec_machine_def)
  moreover have "marked \<lparr>numBits = 10, numWords = 1, bmap = [0]\<rparr> = {}" by (auto simp: marked_def bit_at_def div_pos_pos_trivial)
  ultimately show ?thesis
    by (auto simp: idle_kernel_def exec_machine_def loader_machine_def os_machine_def unused_above_def bm_wf_def const_defs divRoundUp_def)
qed

theorem exec_first_process_witness:
  "\<exists>s'. ExecUpdate (real_env self_switch silence Inr (\<lambda>_. True) (\<lambda>_. 0) (\<lambda>_. 0)) (Some [112, 0]) exec_machine = Inr (0, s') \<and>
     registers s' ! 29 = 1136 \<and> vbyte s' 2 = Some 2 \<and> marked (pt_bm s') = {0}"
proof -
  let ?h = "noff_header (take 40 tiny_program)"
  have p: "noff_pages ?h = 9" by (simp add: noff_pages_def tiny_header const_defs Let_def)
  have i: "noff_image ?h tiny_program 2 = 2"
    by (simp add: noff_image_def seg_addrs_def tiny_header) (simp add: tiny_program_def host_store32_def Let_def)
  have "fits ?h tiny_program (gPhysPageBitmap exec_machine)" using loader_machine_loadable by (simp add: loadable_fits exec_machine_def)
  with exec_first_process [OF exec_machine_idle, of "\<lambda>_. True" "[112, 0]" 0 tiny_program ?h Inr "\<lambda>_. 0" "\<lambda>_. 0"]
  obtain s' :: os where
    s': "ExecUpdate (real_env self_switch silence Inr (\<lambda>_. True) (\<lambda>_. 0) (\<lambda>_. 0)) (Some [112, 0]) exec_machine = Inr (0, s')"
      "registers s' = (replicate 40 0)[35 := 4, 29 := noff_pages ?h * 128 - 16]"
      "\<forall>x < 128 * unat (noff_pages ?h). vbyte s' x = Some (noff_image ?h tiny_program x)" "marked (pt_bm s') = {0}"
    by (auto simp: c_string_def exec_machine_def loader_machine_def)
  from s'(3) [rule_format, of 2] s'(1,2,4) p i show ?thesis by (auto simp: nth_list_update)
qed

end
