(* ===== verification/Exec_Failure.thy ===== *)
theory Exec_Failure
  imports First_Process
begin

text \<open>
  The calls of \<^verbatim>\<open>Ptable::ExecUpdate\<close> that start nothing: no name, a program that names the caller itself, a caller that is not a
  process, a full table, a file that cannot be opened. The process table, as a map from slots to blocks in agreement with its bitmap,
  is the same afterwards.
\<close>

subsection \<open>The process table\<close>

definition proc_table :: "'a os_scheme \<Rightarrow> bool" where
  "proc_table s \<longleftrightarrow> length (pcbs s) = 10 \<and> bm_wf (pt_bm s) \<and> numBits (pt_bm s) = 10 \<and>
     marked (pt_bm s) = {i. 0 \<le> i \<and> i < 10 \<and> pcbs s ! nat i \<noteq> None}"

definition holds_at :: "(PCB \<Rightarrow> bool) \<Rightarrow> PCB option \<Rightarrow> bool" where
  "holds_at test p = (case p of None \<Rightarrow> False | Some x \<Rightarrow> test x)"

lemma pcb_search_find:
  assumes "\<forall>i \<in> set is. i < length tbl"
  shows "pcb_search test tbl is = Inr (find (\<lambda>i. holds_at test (tbl ! i)) is)"
  using assms by (induction "is") (auto simp: holds_at_def split: option.splits)

definition own_slot :: "'a os_scheme \<Rightarrow> nat option" where
  "own_slot s = find (\<lambda>i. holds_at (\<lambda>p. pcb_thread p = Some (currentThread s)) (pcbs s ! i)) [0..<10]"

lemma find_current_eq: "length (pcbs s) = 10 \<Longrightarrow> find_current s = Inr (own_slot s)"
  unfolding find_current_def own_slot_def MAX_PROCESS_def by (rule pcb_search_find) simp

text \<open>The calls that are refused, from the state in which they are made.\<close>

definition no_slot_for :: "byte list \<Rightarrow> 'a os_scheme \<Rightarrow> bool" where
  "no_slot_for nm s \<longleftrightarrow> marked (pt_bm s) \<noteq> {} \<and>
     ((case threads s (currentThread s) of None \<Rightarrow> False | Some th \<Rightarrow> strncmp_eq (char_bytes (th_name th)) nm 49) \<or>
      own_slot s = None \<or> marked (pt_bm s) = {0..<10})"

definition exec_refused :: "(byte list \<Rightarrow> bool) \<Rightarrow> byte list option \<Rightarrow> 'a os_scheme \<Rightarrow> bool" where
  "exec_refused al name s = (case name of None \<Rightarrow> True
     | Some nm \<Rightarrow> no_slot_for nm s \<or> \<not> al (c_string nm) \<or> u_names (hostfs s) (c_string nm) = None)"

lemma all_clear_iff:
  assumes "bm_wf bm" "numBits bm = 10"
  shows "card ({0..<10} - marked bm) = 10 \<longleftrightarrow> marked bm = {}"
proof
  assume c: "card ({0..<10} - marked bm) = 10"
  have "{0..<10} - marked bm = {0..<10 :: int}" by (rule card_subset_eq) (use c in auto)
  then show "marked bm = {}" using marked_range [of bm] assms(2) by auto
qed simp

lemma choose_slot_cases:
  assumes "proc_table s" "threads s (currentThread s) = Some th"
  shows "if no_slot_for nm s then choose_slot nm s = Inr (None, s)
    else \<exists>pid ppid bm. choose_slot nm s = Inr (Some (pid, ppid), s\<lparr>pt_bm := bm\<rparr>) \<and> 0 \<le> pid \<and> pid < 10 \<and> pid \<notin> marked (pt_bm s) \<and>
      bm_wf bm \<and> numBits bm = 10 \<and> marked bm = insert pid (marked (pt_bm s))"
proof -
  let ?b = "pt_bm s"
  have w: "bm_wf ?b" "numBits ?b = 10" "length (pcbs s) = 10" using assms(1) by (auto simp: proc_table_def)
  have n: "BitMap_NumClear ?b = Inr (int (card ({0..<10} - marked ?b)))" using BitMap_NumClear_ok [OF w(1)] w(2) by simp
  show ?thesis
  proof (cases "marked ?b = {}")
    case True
    then have "BitMap_NumClear ?b = Inr 10" using n by simp
    moreover obtain bm where "BitMap_Mark 0 ?b = Inr bm" "bm_wf bm" "numBits bm = 10" "marked bm = {0}"
      using BitMap_Mark_ok [OF w(1), of 0] w(2) True by auto
    ultimately show ?thesis using True
      by (simp add: choose_slot_def no_slot_for_def MAX_PROCESS_def) (intro exI [of _ bm], simp)
  next
    case False
    then obtain k where k: "BitMap_NumClear ?b = Inr k" "k \<noteq> 10" using n all_clear_iff [OF w(1,2)] by auto
    have c: "choose_slot nm s = (if strncmp_eq (char_bytes (th_name th)) nm 49 then Inr (None, s) else case own_slot s of None \<Rightarrow> Inr (None, s)
      | Some ppid \<Rightarrow> rbind (Ptable_GetFreeSlot s) (\<lambda>(pid, s1). if pid = - 1 then Inr (None, s1) else Inr (Some (pid, int ppid), s1)))"
      using k assms(2) w(3) by (simp add: choose_slot_def find_current_eq MAX_PROCESS_def thread_at_def)
    show ?thesis
    proof (cases "marked ?b = {0..<10}")
      case True
      then show ?thesis using c False w BitMap_Find_full [of ?b] assms(2)
        by (auto simp: no_slot_for_def Ptable_GetFreeSlot_def split: option.splits)
    next
      case slot: False
      then obtain i bm where "BitMap_Find ?b = Inr (i, bm)" "bm_wf bm" "numBits bm = 10" "i \<in> {0..<10} - marked ?b" "marked bm = insert i (marked ?b)"
        using BitMap_Find_ok [OF w(1)] w(2) by auto
      then have g: "Ptable_GetFreeSlot s = Inr (i, s\<lparr>pt_bm := bm\<rparr>)" "0 \<le> i" "i < 10" "i \<notin> marked ?b" "bm_wf bm" "numBits bm = 10"
          "marked bm = insert i (marked ?b)" by (simp_all add: Ptable_GetFreeSlot_def)
      have "no_slot_for nm s \<longleftrightarrow> strncmp_eq (char_bytes (th_name th)) nm 49 \<or> own_slot s = None"
        using False slot assms(2) unfolding no_slot_for_def by simp
      then show ?thesis using c g by (cases "own_slot s") auto
    qed
  qed
qed

lemma proc_table_keep: "proc_table s \<Longrightarrow> pcbs s' = pcbs s \<Longrightarrow> bm_wf (pt_bm s') \<Longrightarrow> numBits (pt_bm s') = 10 \<Longrightarrow>
    marked (pt_bm s') = marked (pt_bm s) \<Longrightarrow> proc_table s'"
  by (simp add: proc_table_def)

lemma open_missing:
  "\<not> may_open e nm \<or> u_names (hostfs s) nm = None \<Longrightarrow> StubFS_Open e nm t s = Inr (None, s)"
  by (auto simp: StubFS_Open_def OpenForReadWrite_def u_open_def Let_def)

subsection \<open>Exec without a file\<close>

text \<open>Everything but the clock, the devices, the semaphores and the process table.\<close>

definition same_store :: "'a os_scheme \<Rightarrow> 'a os_scheme \<Rightarrow> bool" where
  "same_store s s' \<longleftrightarrow> threads s' = threads s \<and> currentThread s' = currentThread s \<and> registers s' = registers s \<and> mainMemory s' = mainMemory s \<and>
     tables s' = tables s \<and> pageTable s' = pageTable s \<and> spaces s' = spaces s \<and> gPhysPageBitmap s' = gPhysPageBitmap s \<and> hostfs s' = hostfs s \<and>
     open_files s' = open_files s \<and> semtab s' = semtab s \<and> st_bm s' = st_bm s \<and> bmsem s' = bmsem s \<and> addrLock s' = addrLock s"

lemma same_store_trans: "same_store s t \<Longrightarrow> same_store t u \<Longrightarrow> same_store s u"
  by (simp add: same_store_def)

lemma only_io_store: "only_io s s' \<Longrightarrow> threads s' = threads s \<Longrightarrow> same_store s s'"
  using only_io_keeps [of s s'] by (simp add: same_store_def)

context process_kernel
begin

lemma PCB_Exec_missing:
  assumes ok: "ok s" and p: "pcb_at i s = Inr p" "pcb_thread p = None" and pid: "0 \<le> pid"
    and m: "semaphores s (multex p) = Some x" "sem_value x = 1" "sem_queue x = []"
    and f: "\<not> may_open e (c_string nm) \<or> u_names (hostfs s) (c_string nm) = None"
  shows "\<exists>p' s' :: 'a os_scheme. PCB_Exec e (Some nm) pid ppid i s = Inr (- 1, s') \<and> ok s' \<and> semaphores s' = semaphores s \<and> same_store s s' \<and>
    pcbs s' = (pcbs s)[nat i := Some p'] \<and> pt_bm s' = pt_bm s \<and> next_addr s' = next_addr s \<and> pcb_thread p' = None \<and> joinsem p' = joinsem p \<and> exitsem p' = exitsem p \<and> multex p' = multex p"
proof -
  let ?p = "p\<lparr>process_id := pid, parent_id := ppid, process_name := strncpy (process_name p) nm 50\<rparr>"
  from p(1) have r: "0 \<le> i" "i < int (length (pcbs s))" by (auto simp: pcb_at_def rbind_eq_Inr arr_get_eq_Inr)
  from P_law [OF ok m(1)] m(2) obtain s1 :: "'a os_scheme" where
    s1: "opP e (multex p) s = Inr s1" "ok s1" "only_io s s1" "semaphores s1 = (semaphores s)(multex p \<mapsto> x\<lparr>sem_value := 0\<rparr>)" "threads s1 = threads s" by auto
  note k1 = only_io_keeps [OF s1(3)]
  define s2 where "s2 = s1\<lparr>pcbs := (pcbs s)[nat i := Some ?p]\<rparr>"
  have p1: "pcb_at i s1 = Inr p" using p(1) k1 by (simp add: pcb_at_def)
  have a: "set_pcb i (Some ?p) s1 = Inr s2" using r k1 by (simp add: set_pcb_def s2_def)
  have p2: "pcb_at i s2 = Inr ?p" using r by (simp add: pcb_at_def s2_def)
  have o: "StubFS_Open e (c_string nm) 0 s2 = Inr (None, s2)" by (rule open_missing) (use f k1 in \<open>simp add: s2_def\<close>)
  have ok2: "ok s2" by (rule ok_same [OF s1(2)]) (simp add: same_processor_def s2_def)
  from V_law [OF ok2, of "multex p" "x\<lparr>sem_value := 0\<rparr>"] s1(4) m(3) obtain s3 :: "'a os_scheme" where
    s3: "opV e (multex p) s2 = Inr s3" "ok s3" "only_io s2 s3" "semaphores s3 = (semaphores s)(multex p \<mapsto> x\<lparr>sem_value := 1\<rparr>)" "threads s3 = threads s2"
    by (auto simp: s2_def)
  have "PCB_Exec e (Some nm) pid ppid i s = Inr (- 1, s3)"
    using p(1,2) p1 s1(1) pid a o p2 s3(1) by (simp add: PCB_Exec_def Let_def)
  moreover have "same_store s2 s3" by (rule only_io_store [OF s3(3,5)])
  then have "same_store s s3" by (rule same_store_trans [rotated]) (use only_io_store [OF s1(3,5)] in \<open>simp add: same_store_def s2_def\<close>)
  moreover have "semaphores s3 = semaphores s" using s3(4) m(1,2) by (simp add: fun_upd_idem_iff)
  ultimately show ?thesis using s3(2) p(2) only_io_keeps [OF s3(3)] k1 by (intro exI [of _ ?p] exI [of _ s3]) (simp add: s2_def)
qed

text \<open>The lock of the table is taken and given back around a body that returns.\<close>

lemma release_bmsem:
  assumes "ok s2" "semaphores s2 (bmsem s2) = Some (b\<lparr>sem_value := 0\<rparr>)" "sem_value b = 1" "sem_queue b = []"
  shows "\<exists>s' :: 'a os_scheme. rbind (opV e (bmsem s2) s2) (\<lambda>v. Inr (- 1 :: int, v)) = Inr (- 1, s') \<and> ok s' \<and> same_store s2 s' \<and>
    pcbs s' = pcbs s2 \<and> pt_bm s' = pt_bm s2 \<and> next_addr s' = next_addr s2 \<and> semaphores s' = (semaphores s2)(bmsem s2 \<mapsto> b)"
proof -
  from V_law [OF assms(1,2)] assms(3,4) obtain s' :: "'a os_scheme" where
    s': "opV e (bmsem s2) s2 = Inr s'" "ok s'" "only_io s2 s'" "semaphores s' = (semaphores s2)(bmsem s2 \<mapsto> b\<lparr>sem_value := 1\<rparr>)" "threads s' = threads s2" by auto
  moreover have "b\<lparr>sem_value := 1\<rparr> = b" using assms(3) by simp
  ultimately show ?thesis using only_io_keeps [OF s'(3)] only_io_store [OF s'(3,5)] by (intro exI [of _ s']) simp
qed

text \<open>A block is made for the new process, the file is not there, the block is deleted again.\<close>

lemma Exec_missing_undone:
  assumes ok: "ok s" and t: "length (pcbs s) = 10" "0 \<le> pid" "pid < 10" "pcbs s ! nat pid = None" and bm: "bm_wf bm" "numBits bm = 10"
    and f: "\<not> may_open e (c_string nm) \<or> u_names (hostfs s) (c_string nm) = None"
  shows "\<exists>p s4 p' s5 bm' s6 s7 :: 'a os_scheme. PCB_new e (s\<lparr>pt_bm := bm\<rparr>) = (p, s4\<lparr>pcbs := pcbs s\<rparr>) \<and> set_pcb pid (Some p) (s4\<lparr>pcbs := pcbs s\<rparr>) = Inr s4 \<and>
    PCB_Exec e (Some nm) pid ppid pid s4 = Inr (- 1, s5) \<and> BitMap_Clear pid (pt_bm s5) = Inr bm' \<and> pcb_at pid s5 = Inr p' \<and>
    PCB_delete p' (s5\<lparr>pt_bm := bm'\<rparr>) = Inr s6 \<and> set_pcb pid None s6 = Inr s7 \<and>
    ok s7 \<and> same_store s s7 \<and> pcbs s7 = pcbs s \<and> pt_bm s7 = bm' \<and> bm_wf bm' \<and> numBits bm' = 10 \<and> marked bm' = marked bm - {pid} \<and>
    (\<forall>a < next_addr s. semaphores s7 a = semaphores s a)"
proof -
  let ?n = "next_addr s"
  define p where "p = fresh_pcb e ?n"
  define s4 where "s4 = with_block e pid bm s"
  have "pid < int (length (pcbs s))" using t by simp
  note new = new_block [OF t(2) this, of e bm, folded p_def s4_def]
  have ok4: "ok s4" unfolding s4_def by (rule ok_same [OF ok with_block_same])
  note p4 = new(3)
  have m4: "semaphores s4 (multex p) = Some (Semaphore_new ''multex'' 1)" unfolding s4_def p_def by (rule with_block_sems)
  from PCB_Exec_missing [OF ok4 p4 _ t(2) m4, of nm ppid] f obtain p' and s5 :: "'a os_scheme" where
    s5: "PCB_Exec e (Some nm) pid ppid pid s4 = Inr (- 1, s5)" "ok s5" "semaphores s5 = semaphores s4" "same_store s4 s5"
      "pcbs s5 = (pcbs s4)[nat pid := Some p']" "pt_bm s5 = bm" "pcb_thread p' = None" "joinsem p' = ?n" "exitsem p' = Suc ?n" "multex p' = Suc (Suc ?n)"
    by (auto simp: p_def fresh_pcb_def s4_def with_block_def Semaphore_new_def)
  obtain bm' where bm': "BitMap_Clear pid bm = Inr bm'" "bm_wf bm'" "numBits bm' = 10" "marked bm' = marked bm - {pid}"
    using BitMap_Clear_ok [OF bm(1), of pid] bm(2) t(2,3) by auto
  define s6 where "s6 = s5\<lparr>pt_bm := bm', semaphores := (semaphores s4)(?n := None, Suc ?n := None, Suc (Suc ?n) := None)\<rparr>"
  define s7 where "s7 = s6\<lparr>pcbs := pcbs s\<rparr>"
  have p5: "pcb_at pid s5 = Inr p'" using t s5(5) by (simp add: pcb_at_def s4_def with_block_def)
  have d: "PCB_delete p' (s5\<lparr>pt_bm := bm'\<rparr>) = Inr s6"
    using s5(3,7-10) by (simp add: PCB_delete_def Semaphore_delete_def sem_at_def s6_def s4_def with_block_def)
  have "(pcbs s)[nat pid := None] = pcbs s" using t(4) by (metis list_update_id)
  then have "set_pcb pid None s6 = Inr s7" using t s5(5) by (simp add: set_pcb_def s7_def s6_def s4_def with_block_def)
  moreover have "ok s7" by (rule ok_same [OF s5(2)]) (simp add: same_processor_def s7_def s6_def)
  moreover have "same_store s s7" using s5(4) by (simp add: same_store_def s7_def s6_def s4_def with_block_def)
  moreover have "pcbs s7 = pcbs s" "pt_bm s7 = bm'" "\<forall>a < ?n. semaphores s7 a = semaphores s a" by (simp_all add: s7_def s6_def s4_def with_block_def)
  moreover have "BitMap_Clear pid (pt_bm s5) = Inr bm'" using bm'(1) s5(6) by simp
  ultimately show ?thesis using new(1,2) s5(1) bm'(2-4) p5 d
    by (intro exI [of _ p] exI [of _ s4] exI [of _ p'] exI [of _ s5] exI [of _ bm'] exI [of _ s6] exI [of _ s7] conjI)
qed

lemma ExecUpdate_refused:
  assumes ok: "ok s" and pt: "proc_table s" and b: "semaphores s (bmsem s) = Some b" "sem_value b = 1" "sem_queue b = []" "bmsem s < next_addr s"
    and r: "exec_refused (may_open e) name s"
  shows "\<exists>s' :: 'a os_scheme. ExecUpdate e name s = Inr (- 1, s') \<and> ok s' \<and> same_store s s' \<and> proc_table s' \<and> pcbs s' = pcbs s \<and>
    (\<forall>a < next_addr s. semaphores s' a = semaphores s a)"
proof -
  from P_law [OF ok b(1)] b(2) obtain s1 :: "'a os_scheme" where
    s1: "opP e (bmsem s) s = Inr s1" "ok s1" "only_io s s1" "semaphores s1 = (semaphores s)(bmsem s \<mapsto> b\<lparr>sem_value := 0\<rparr>)" "threads s1 = threads s" by auto
  note k1 = only_io_keeps [OF s1(3)] and st1 = only_io_store [OF s1(3,5)]
  have pt1: "proc_table s1" using pt k1 by (simp add: proc_table_def)
  obtain th where th: "threads s1 (currentThread s1) = Some th" using alive [OF s1(2)] by blast
  have early: ?thesis if "ExecUpdate e name s = rbind (opV e (bmsem s1) s1) (\<lambda>v. Inr (- 1, v))"
  proof -
    from release_bmsem [OF s1(2) _ b(2,3)] s1(4) k1 obtain s' :: "'a os_scheme" where
      s': "rbind (opV e (bmsem s1) s1) (\<lambda>v. Inr (- 1 :: int, v)) = Inr (- 1, s')" "ok s'" "same_store s1 s'" "pcbs s' = pcbs s1" "pt_bm s' = pt_bm s1"
        "semaphores s' = (semaphores s1)(bmsem s1 \<mapsto> b)" by auto
    then have "semaphores s' = semaphores s" using s1(4) k1 b(1) by (simp add: fun_upd_idem_iff)
    with that s' same_store_trans [OF st1 s'(3)] pt k1 show ?thesis by (intro exI [of _ s']) (simp add: proc_table_def)
  qed
  show ?thesis
  proof (cases name)
    case None
    then show ?thesis using s1(1) by (intro early) (simp add: ExecUpdate_def)
  next
    case (Some nm)
    have "no_slot_for nm s1 = no_slot_for nm s" using k1 s1(5) by (simp add: no_slot_for_def own_slot_def)
    note cs = choose_slot_cases [OF pt1 th, of nm]
    show ?thesis
    proof (cases "no_slot_for nm s1")
      case True
      then show ?thesis using cs s1(1) Some by (intro early) (simp add: ExecUpdate_def)
    next
      case False
      with cs obtain pid ppid bm where
        ch: "choose_slot nm s1 = Inr (Some (pid, ppid), s1\<lparr>pt_bm := bm\<rparr>)" "0 \<le> pid" "pid < 10" "pid \<notin> marked (pt_bm s)"
          "bm_wf bm" "numBits bm = 10" "marked bm = insert pid (marked (pt_bm s))" using k1 by auto
      have f: "\<not> may_open e (c_string nm) \<or> u_names (hostfs s) (c_string nm) = None"
        using r Some False \<open>no_slot_for nm s1 = _\<close> by (simp add: exec_refused_def)
      have "length (pcbs s1) = 10" "pcbs s1 ! nat pid = None" using pt1 ch(2-4) k1 by (auto simp: proc_table_def)
      from Exec_missing_undone [OF s1(2) this(1) ch(2,3) this(2) ch(5,6), of nm ppid] f k1 obtain p p' bm' and s4 s5 s6 s7 :: "'a os_scheme" where
        m: "PCB_new e (s1\<lparr>pt_bm := bm\<rparr>) = (p, s4\<lparr>pcbs := pcbs s1\<rparr>)" "set_pcb pid (Some p) (s4\<lparr>pcbs := pcbs s1\<rparr>) = Inr s4"
          "PCB_Exec e (Some nm) pid ppid pid s4 = Inr (- 1, s5)" "BitMap_Clear pid (pt_bm s5) = Inr bm'" "pcb_at pid s5 = Inr p'"
          "PCB_delete p' (s5\<lparr>pt_bm := bm'\<rparr>) = Inr s6" "set_pcb pid None s6 = Inr s7"
        and s7: "ok s7" "same_store s1 s7" "pcbs s7 = pcbs s1" "pt_bm s7 = bm'" "bm_wf bm'" "numBits bm' = 10" "marked bm' = marked bm - {pid}"
          "\<forall>a < next_addr s1. semaphores s7 a = semaphores s1 a" by auto
      have b7: "bmsem s7 = bmsem s" "semaphores s7 (bmsem s7) = Some (b\<lparr>sem_value := 0\<rparr>)"
        using s7(2,8) b(4) s1(4) k1 by (simp_all add: same_store_def)
      from release_bmsem [OF s7(1) b7(2) b(2,3)] obtain s' :: "'a os_scheme" where
        s': "rbind (opV e (bmsem s7) s7) (\<lambda>v. Inr (- 1 :: int, v)) = Inr (- 1, s')" "ok s'" "same_store s7 s'" "pcbs s' = pcbs s7" "pt_bm s' = pt_bm s7"
          "semaphores s' = (semaphores s7)(bmsem s7 \<mapsto> b)" by auto
      have "ExecUpdate e name s = Inr (- 1, s')" using s1(1) Some ch(1) m s'(1) by (simp add: ExecUpdate_def)
      moreover have "proc_table s'"
        by (rule proc_table_keep [OF pt]) (use s'(4,5) s7(3-7) ch(4,7) k1 in auto)
      moreover have "\<forall>a < next_addr s. semaphores s' a = semaphores s a" using s'(6) s7(8) s1(4) b7(1) b(1) k1 by simp
      ultimately show ?thesis using s' same_store_trans [OF same_store_trans [OF st1 s7(2)] s'(3)] s7(3) k1 by (intro exI [of _ s']) simp
    qed
  qed
qed

end

subsection \<open>Properties\<close>

text \<open>C14. An \<^verbatim>\<open>Exec\<close> that cannot be carried out has no effect. With the lock of the process table open and the table in agreement with its
  bitmap, \<^verbatim>\<open>ExecUpdate\<close> returns -1 when it is given no name, when a process runs already and the program has the name of the caller
  in its first 49 bytes, the caller is not in the table or all ten slots are taken, and when the file cannot be opened. In each case the
  slots of the table and the bitmap hold what they held before, the lock is open again, every semaphore that existed has its old
  value and queue, and threads, registers, memory, frames, spaces, files and user semaphores are unchanged.\<close>

theorem exec_failure_undone:
  fixes s :: "'a os_scheme"
  assumes "resting ux s" "proc_table s" and "semaphores s (bmsem s) = Some b" "sem_value b = 1" "sem_queue b = []" "bmsem s < next_addr s"
    and "exec_refused al name s"
  shows "\<exists>s' :: 'a os_scheme. ExecUpdate (real_env self_switch ux yield al jb jw) name s = Inr (- 1, s') \<and> resting ux s' \<and> same_store s s' \<and>
    proc_table s' \<and> pcbs s' = pcbs s \<and> (\<forall>a < next_addr s. semaphores s' a = semaphores s a)"
  by (rule proc.ExecUpdate_refused [OF assms(1-6)]) (use assms(7) in simp)

theorem exec_failure_undone_witness:
  "\<exists>s'. ExecUpdate (real_env self_switch silence Inr (\<lambda>_. True) (\<lambda>_. 0) (\<lambda>_. 0)) (Some [113, 0]) exec_machine = Inr (- 1, s') \<and>
     pcbs s' = replicate 10 None \<and> proc_table s'"
proof -
  have i: "resting silence exec_machine" "pcbs exec_machine = replicate 10 None" "bm_wf (pt_bm exec_machine)" "numBits (pt_bm exec_machine) = 10"
      "marked (pt_bm exec_machine) = {}" "semaphores exec_machine (bmsem exec_machine) = Some (Semaphore_new ''bmsem'' 1)" "bmsem exec_machine < next_addr exec_machine"
    using exec_machine_idle by (simp_all add: idle_kernel_def)
  have "proc_table exec_machine" using i by (auto simp: proc_table_def nth_Cons')
  moreover have "exec_refused (\<lambda>_. True) (Some [113, 0]) exec_machine"
    by (simp add: exec_refused_def c_string_def exec_machine_def loader_machine_def)
  ultimately show ?thesis
    using exec_failure_undone [OF i(1) _ i(6) _ _ i(7), of "\<lambda>_. True" "Some [113, 0]" Inr "\<lambda>_. 0" "\<lambda>_. 0"] i(2) by (auto simp: Semaphore_new_def)
qed

end
