(* ===== verification/Child_Process.thy ===== *)
theory Child_Process
  imports Exec_Failure
begin

text \<open>
  Processes beyond the first: \<^verbatim>\<open>Ptable::ExecUpdate\<close> called by a process. The program is loaded as for the first process, but its thread is
  forked: it waits behind the ready threads with \<^verbatim>\<open>init_func\<close> as the function to run, and the caller goes on. The proof is
  carried out in the locale \<open>forking_kernel\<close>, which adds to \<open>process_kernel\<close> what \<^verbatim>\<open>Thread::Fork\<close> promises.
\<close>

subsection \<open>A kernel that forks\<close>

locale forking_kernel = process_kernel e ok for e :: "'a os_scheme env" and ok +
  assumes Fork_law: "ok s \<Longrightarrow> threads s t = Some th \<Longrightarrow> t \<noteq> currentThread s \<Longrightarrow>
      \<exists>s' :: 'a os_scheme. opFork e f a t s = Inr s' \<and> ok s' \<and> only_io (forked f a t th s) s' \<and> semaphores s' = semaphores s \<and>
        threads s' = threads (forked f a t th s)"

interpretation forking: forking_kernel "real_env self_switch ux yield al jb jw" "resting ux" for ux yield al jb jw
proof
  fix s :: "'a os_scheme" and t th f a
  assume "resting ux s" "threads s t = Some th" "t \<noteq> currentThread s"
  then show "\<exists>s'. opFork (real_env self_switch ux yield al jb jw) f a t s = Inr s' \<and> resting ux s' \<and> only_io (forked f a t th s) s' \<and>
      semaphores s' = semaphores s \<and> threads s' = threads (forked f a t th s)"
    using Fork_free [of ux _ s t th yield f a] by (fastforce simp: resting_def real_env_def Let_def)
qed

subsection \<open>Exec by a process\<close>

text \<open>A new process next to the old ones: its program is in memory, in frames that were free, and its thread is the last of the ready ones.
  The processor and the threads of the others are as before.\<close>

definition spawned :: "NoffHeader \<Rightarrow> byte list \<Rightarrow> TranslationEntry list \<Rightarrow> 'a os_scheme \<Rightarrow> 'a os_scheme \<Rightarrow> bool" where
  "spawned h prog es s s' \<longleftrightarrow>
     new_space h prog es (s\<lparr>next_addr := Suc (next_addr s)\<rparr>) s' \<and> readyList s' = readyList s @ [next_addr s] \<and>
     (\<exists>th. threads s' = (threads s)(next_addr s \<mapsto> th) \<and> th_status th = READY \<and> th_point th = Fresh init_func 0 \<and>
       th_space th = Some (Suc (Suc (next_addr s)))) \<and>
     currentThread s' = currentThread s \<and> registers s' = registers s \<and> pageTable s' = pageTable s \<and> pageTableSize s' = pageTableSize s \<and> tlb s' = tlb s"

lemma spawned_only_io:
  assumes "spawned h prog es s u" "only_io u s'" "threads s' = threads u"
  shows "spawned h prog es s s'"
proof -
  note k = only_io_keeps [OF assms(2)]
  have "new_space h prog es (s\<lparr>next_addr := Suc (next_addr s)\<rparr>) s'"
    using assms(1) new_space_cong [of "s\<lparr>next_addr := Suc (next_addr s)\<rparr>" "s\<lparr>next_addr := Suc (next_addr s)\<rparr>" u s'] k by (simp add: spawned_def)
  then show ?thesis using assms(1,3) k by (simp add: spawned_def)
qed

lemma ready_forked:
  assumes r: "ready_to_start h prog es th s s'" and u: "only_io (forked init_func 0 (next_addr s) th s') u"
    and t: "threads u = threads (forked init_func 0 (next_addr s) th s')"
  shows "spawned h prog es s u"
proof -
  define v where "v = forked init_func 0 (next_addr s) th s'"
  let ?s = "s\<lparr>next_addr := Suc (next_addr s)\<rparr>"
  have "new_space h prog es ?s v = new_space h prog es ?s s'" by (rule new_space_cong) (simp_all add: forked_def v_def)
  then have "new_space h prog es ?s v" using r by (simp add: ready_to_start_def)
  moreover have "threads v = (threads s)(next_addr s \<mapsto> th\<lparr>th_stack := Some STACK_FENCEPOST, th_point := Fresh init_func 0, th_status := READY\<rparr>)"
    using r by (simp add: ready_to_start_def forked_def v_def)
  moreover have "readyList v = readyList s @ [next_addr s]" "currentThread v = currentThread s" "registers v = registers s" "pageTable v = pageTable s"
      "pageTableSize v = pageTableSize s" "tlb v = tlb s" "th_space th = Some (Suc (Suc (next_addr s)))"
    using r by (simp_all add: ready_to_start_def forked_def v_def)
  ultimately have "spawned h prog es s v" unfolding spawned_def
    by (intro conjI exI [of _ "th\<lparr>th_stack := Some STACK_FENCEPOST, th_point := Fresh init_func 0, th_status := READY\<rparr>"]) simp_all
  then show ?thesis using spawned_only_io u t unfolding v_def by blast
qed

lemma spawned_hostfs: "spawned h prog es s (u\<lparr>hostfs := w\<rparr>) = spawned h prog es s u"
  by (simp add: spawned_def new_space_def)

lemma spawned_from:
  assumes "spawned h prog es s u"
    and "next_addr s = next_addr t" "spaces s = spaces t" "tables s = tables t" "gPhysPageBitmap s = gPhysPageBitmap t" "mainMemory s = mainMemory t"
      "readyList s = readyList t" "threads s = threads t" "currentThread s = currentThread t" "registers s = registers t" "pageTable s = pageTable t"
      "pageTableSize s = pageTableSize t" "tlb s = tlb t"
  shows "spawned h prog es t u"
proof -
  have "new_space h prog es (s\<lparr>next_addr := Suc (next_addr s)\<rparr>) u = new_space h prog es (t\<lparr>next_addr := Suc (next_addr t)\<rparr>) u"
    by (rule new_space_cong) (simp_all add: assms(2-))
  then show ?thesis using assms unfolding spawned_def by simp
qed

lemma own_slot_marked:
  assumes "proc_table s" "own_slot s = Some pp"
  shows "int pp \<in> marked (pt_bm s)"
  using assms by (auto simp: own_slot_def proc_table_def find_Some_iff holds_at_def split: option.splits)

text \<open>The slot of the new process: the first free one, with the slot of the caller as the parent.\<close>

lemma choose_child_slot:
  assumes "proc_table s" "threads s (currentThread s) \<noteq> None" "own_slot s = Some pp" "\<not> no_slot_for nm s"
  shows "\<exists>pid bm. choose_slot nm s = Inr (Some (pid, int pp), s\<lparr>pt_bm := bm\<rparr>) \<and> 0 \<le> pid \<and> pid < 10 \<and> pid \<notin> marked (pt_bm s) \<and>
    {0..<pid} \<subseteq> marked (pt_bm s) \<and> bm_wf bm \<and> numBits bm = 10 \<and> marked bm = insert pid (marked (pt_bm s))"
proof -
  let ?b = "pt_bm s"
  have w: "bm_wf ?b" "numBits ?b = 10" "length (pcbs s) = 10" using assms(1) by (auto simp: proc_table_def)
  from assms(2) obtain th where th: "threads s (currentThread s) = Some th" by blast
  have used: "marked ?b \<noteq> {}" using own_slot_marked [OF assms(1,3)] by blast
  then obtain k where k: "BitMap_NumClear ?b = Inr k" "k \<noteq> 10" using BitMap_NumClear_ok [OF w(1)] w(2) all_clear_iff [OF w(1,2)] by auto
  have free: "marked ?b \<noteq> {0..<10}" "\<not> strncmp_eq (char_bytes (th_name th)) nm 49" using assms(4) used th by (auto simp: no_slot_for_def)
  from BitMap_Find_ok [OF w(1)] w(2) free(1) obtain i bm where
    "BitMap_Find ?b = Inr (i, bm)" "bm_wf bm" "numBits bm = 10" "i \<in> {0..<10} - marked ?b" "{0..<i} \<subseteq> marked ?b" "marked bm = insert i (marked ?b)" by auto
  then show ?thesis
    using k free(2) th assms(3) find_current_eq [OF w(3)] by (intro exI [of _ i] exI [of _ bm]) (simp add: choose_slot_def Ptable_GetFreeSlot_def MAX_PROCESS_def thread_at_def)
qed

lemma proc_table_add:
  assumes "proc_table s" "0 \<le> pid" "pid < 10" "bm_wf (pt_bm s')" "numBits (pt_bm s') = 10" "marked (pt_bm s') = insert pid (marked (pt_bm s))"
    and "pcbs s' = (pcbs s)[nat pid := Some q]"
  shows "proc_table s'"
  using assms by (auto simp: proc_table_def nth_list_update)

context forking_kernel
begin

lemma PCB_Exec_child:
  assumes ok: "ok s" and p: "pcb_at i s = Inr p" "pcb_thread p = None" and pid: "0 \<le> pid" and ppid: "ppid \<noteq> - 1"
    and m: "semaphores s (multex p) = Some x" "sem_value x = 1" "sem_queue x = []" "multex p \<noteq> addrLock s"
    and y: "semaphores s (addrLock s) = Some y" "sem_value y = 1" "sem_queue y = []"
    and f: "may_open e (c_string nm)" "u_names (hostfs s) (c_string nm) = Some ino" "u_inodes (hostfs s) ino = prog" "fits h prog (gPhysPageBitmap s)"
    and u: "unused_above s" "currentThread s < next_addr s"
  shows "\<exists>es s' :: 'a os_scheme. PCB_Exec e (Some nm) pid ppid i s = Inr (0, s') \<and> ok s' \<and> spawned h prog es s s' \<and> semaphores s' = semaphores s \<and>
    bmsem s' = bmsem s \<and> addrLock s' = addrLock s \<and> pt_bm s' = pt_bm s \<and>
    pcbs s' = (pcbs s)[nat i := Some (p\<lparr>process_id := pid, parent_id := ppid, process_name := strncpy (process_name p) nm 50, pcb_thread := Some (next_addr s)\<rparr>)]"
proof -
  let ?t = "next_addr s" and ?sp = "Suc (Suc (next_addr s))"
  let ?q = "p\<lparr>process_id := pid, parent_id := ppid, process_name := strncpy (process_name p) nm 50, pcb_thread := Some ?t\<rparr>"
  from p(1) have r: "0 \<le> i" "i < int (length (pcbs s))" by (auto simp: pcb_at_def rbind_eq_Inr arr_get_eq_Inr)
  from PCB_Exec_loads [OF ok p pid m(1,2,4) y f u, of ppid] obtain es th g and s5 :: "'a os_scheme" where
    s5: "PCB_Exec e (Some nm) pid ppid i s = rbind (start_process e ppid ?t ?sp s5) (\<lambda>s8. rbind (StubFile_delete g s8) (\<lambda>s9.
      rbind (pcb_at i s9) (\<lambda>p. rbind (opV e (multex p) s9) (\<lambda>s10. Inr (0, s10)))))"
      "ok s5" "opened prog g (hostfs s5)" "ready_to_start h prog es th s s5" "semaphores s5 = (semaphores s)(multex p \<mapsto> x\<lparr>sem_value := 0\<rparr>)"
      "pcbs s5 = (pcbs s)[nat i := Some ?q]" by blast
  have n: "threads s5 ?t = Some th" "?t \<noteq> currentThread s5" using s5(4) u(2) by (auto simp: ready_to_start_def)
  from Fork_law [OF s5(2) n, of init_func 0] obtain s6 :: "'a os_scheme" where
    s6: "opFork e init_func 0 ?t s5 = Inr s6" "ok s6" "only_io (forked init_func 0 ?t th s5) s6" "semaphores s6 = semaphores s5"
      "threads s6 = threads (forked init_func 0 ?t th s5)" by blast
  note k6 = only_io_keeps [OF s6(3)]
  obtain w where w: "StubFile_delete g s6 = Inr (s6\<lparr>hostfs := w\<rparr>)" using close_opened [of prog g s6] s5(3) k6 by (auto simp: forked_def)
  have q: "pcb_at i (s6\<lparr>hostfs := w\<rparr>) = Inr ?q" using r s5(6) k6 by (simp add: pcb_at_def forked_def)
  from PCB_Exec_ends [OF s6(2) q w, of x] s6(4) s5(5) m(2,3) obtain s8 :: "'a os_scheme" where
    s8: "rbind (StubFile_delete g s6) (\<lambda>s9. rbind (pcb_at i s9) (\<lambda>p. rbind (opV e (multex p) s9) (\<lambda>s10. Inr (0 :: int, s10)))) = Inr (0, s8)"
      "ok s8" "only_io (s6\<lparr>hostfs := w\<rparr>) s8" "semaphores s8 = (semaphores s6)(multex p \<mapsto> x)" "threads s8 = threads s6" by auto
  note k8 = only_io_keeps [OF s8(3)]
  have "PCB_Exec e (Some nm) pid ppid i s = Inr (0, s8)" using s5(1) ppid s6(1) s8(1) by (simp add: start_process_def)
  moreover have "spawned h prog es s s6" by (rule ready_forked [OF s5(4) s6(3,5)])
  then have "spawned h prog es s (s6\<lparr>hostfs := w\<rparr>)" by (simp add: spawned_hostfs)
  then have "spawned h prog es s s8" by (rule spawned_only_io [OF _ s8(3)]) (simp add: s8(5))
  moreover have "semaphores s8 = semaphores s" using s8(4) s6(4) s5(5) m(1) by (simp add: fun_upd_idem)
  moreover have "bmsem s8 = bmsem s" "addrLock s8 = addrLock s" "pt_bm s8 = pt_bm s"
    using k8 k6 s5(4) by (simp_all add: ready_to_start_def forked_def)
  moreover have "pcbs s8 = (pcbs s)[nat i := Some ?q]" using k8 k6 s5(6) by (simp add: forked_def)
  ultimately show ?thesis using s8(2) by blast
qed

text \<open>\<^verbatim>\<open>ExecUpdate\<close>: the slot, the block, the program, the thread.\<close>

lemma ExecUpdate_child:
  assumes ok: "ok s" and pt: "proc_table s" "own_slot s = Some pp" "\<not> no_slot_for nm s"
    and l: "semaphores s (addrLock s) = Some y" "sem_value y = 1" "sem_queue y = []" "semaphores s (bmsem s) = Some b" "sem_value b = 1" "sem_queue b = []"
      "addrLock s < next_addr s" "bmsem s < next_addr s" "addrLock s \<noteq> bmsem s"
    and f: "may_open e (c_string nm)" "u_names (hostfs s) (c_string nm) = Some ino" "u_inodes (hostfs s) ino = prog" "fits h prog (gPhysPageBitmap s)"
    and u: "unused_above s" "currentThread s < next_addr s"
  shows "\<exists>es pid pcb s' :: 'a os_scheme. ExecUpdate e (Some nm) s = Inr (pid, s') \<and> ok s' \<and>
    0 \<le> pid \<and> pid < 10 \<and> pid \<notin> marked (pt_bm s) \<and> {0..<pid} \<subseteq> marked (pt_bm s) \<and>
    spawned h prog es (s\<lparr>next_addr := Suc (Suc (Suc (next_addr s)))\<rparr>) s' \<and> proc_table s' \<and> pcbs s' = (pcbs s)[nat pid := Some pcb] \<and>
    process_id pcb = pid \<and> parent_id pcb = int pp \<and> pcb_thread pcb = Some (next_addr s + 3) \<and> numwait pcb = 0 \<and>
    (\<forall>a < next_addr s. semaphores s' a = semaphores s a)"
proof -
  from P_law [OF ok l(4)] l(5) obtain s1 :: "'a os_scheme" where
    s1: "opP e (bmsem s) s = Inr s1" "ok s1" "only_io s s1" "semaphores s1 = (semaphores s)(bmsem s \<mapsto> b\<lparr>sem_value := 0\<rparr>)" "threads s1 = threads s" by auto
  note k1 = only_io_keeps [OF s1(3)]
  have pt1: "proc_table s1" "own_slot s1 = Some pp" "\<not> no_slot_for nm s1"
    using pt k1 s1(5) by (simp_all add: proc_table_def no_slot_for_def own_slot_def)
  from choose_child_slot [OF pt1(1) alive [OF s1(2)] pt1(2,3)] k1 obtain pid bm where
    ch: "choose_slot nm s1 = Inr (Some (pid, int pp), s1\<lparr>pt_bm := bm\<rparr>)" "0 \<le> pid" "pid < 10" "pid \<notin> marked (pt_bm s)" "{0..<pid} \<subseteq> marked (pt_bm s)"
      "bm_wf bm" "numBits bm = 10" "marked bm = insert pid (marked (pt_bm s))" by auto
  define p where "p = fresh_pcb e (next_addr s)"
  define s2 where "s2 = with_block e pid bm s1"
  have len: "length (pcbs s) = 10" using pt(1) by (simp add: proc_table_def)
  then have new: "PCB_new e (s1\<lparr>pt_bm := bm\<rparr>) = (p, s2\<lparr>pcbs := pcbs s1\<rparr>)" "set_pcb pid (Some p) (s2\<lparr>pcbs := pcbs s1\<rparr>) = Inr s2" "pcb_at pid s2 = Inr p"
    using new_block [of pid s1 e bm] ch(2,3) k1 by (simp_all add: p_def s2_def)
  have ok2: "ok s2" unfolding s2_def by (rule ok_same [OF s1(2) with_block_same])
  have sem2: "semaphores s2 (multex p) = Some (Semaphore_new ''multex'' 1)" "semaphores s2 (addrLock s2) = Some y" "multex p \<noteq> addrLock s2"
      "semaphores s2 (bmsem s2) = Some (b\<lparr>sem_value := 0\<rparr>)"
    using l k1 s1(4) by (auto simp: s2_def p_def with_block_def fresh_pcb_def)
  let ?q = "p\<lparr>process_id := pid, parent_id := int pp, process_name := strncpy (process_name p) nm 50, pcb_thread := Some (next_addr s2)\<rparr>"
  have "\<exists>es s' :: 'a os_scheme. PCB_Exec e (Some nm) pid (int pp) pid s2 = Inr (0, s') \<and> ok s' \<and> spawned h prog es s2 s' \<and> semaphores s' = semaphores s2 \<and>
    bmsem s' = bmsem s2 \<and> addrLock s' = addrLock s2 \<and> pt_bm s' = pt_bm s2 \<and> pcbs s' = (pcbs s2)[nat pid := Some ?q]"
    by (rule PCB_Exec_child [OF ok2 new(3) _ ch(2) _ sem2(1) Semaphore_new_open sem2(3,2) l(2,3) f(1)])
      (use f u k1 in \<open>auto simp: s2_def p_def with_block_def fresh_pcb_def unused_above_def\<close>)
  then obtain es and s3 :: "'a os_scheme" where
    s3: "PCB_Exec e (Some nm) pid (int pp) pid s2 = Inr (0, s3)" "ok s3" "spawned h prog es s2 s3" "semaphores s3 = semaphores s2" "bmsem s3 = bmsem s2"
      "pt_bm s3 = pt_bm s2" "pcbs s3 = (pcbs s2)[nat pid := Some ?q]" by blast
  from V_law [OF s3(2), of "bmsem s3" "b\<lparr>sem_value := 0\<rparr>"] s3(4,5) sem2(4) l(6) obtain s4 :: "'a os_scheme" where
    s4: "opV e (bmsem s3) s3 = Inr s4" "ok s4" "only_io s3 s4" "semaphores s4 = (semaphores s3)(bmsem s3 \<mapsto> b\<lparr>sem_value := 1\<rparr>)" "threads s4 = threads s3" by auto
  note k4 = only_io_keeps [OF s4(3)]
  have b: "b\<lparr>sem_value := 1\<rparr> = b" using l(5) by simp
  have "ExecUpdate e (Some nm) s = Inr (pid, s4)" using s1(1) ch(1) new s3(1) s4(1) by (simp add: ExecUpdate_def)
  moreover have "spawned h prog es s2 s4" by (rule spawned_only_io [OF s3(3) s4(3,5)])
  then have "spawned h prog es (s\<lparr>next_addr := Suc (Suc (Suc (next_addr s)))\<rparr>) s4"
    by (rule spawned_from) (use k1 s1(5) in \<open>simp_all add: s2_def with_block_def\<close>)
  moreover have pcbs: "pcbs s4 = (pcbs s)[nat pid := Some ?q]" using k4 s3(7) k1 by (simp add: s2_def with_block_def)
  moreover have "proc_table s4"
    by (rule proc_table_add [OF pt(1) ch(2,3) _ _ _ pcbs]) (use ch(6-8) k4 s3(6) in \<open>simp_all add: s2_def with_block_def\<close>)
  moreover have "\<forall>a < next_addr s. semaphores s4 a = semaphores s a"
    using s4(4) s3(4,5) s1(4) k1 l(4) b by (simp add: s2_def with_block_def)
  ultimately show ?thesis using s4(2) ch(2-5)
    by (intro exI [of _ es] exI [of _ pid] exI [of _ ?q] exI [of _ s4]) (simp add: p_def fresh_pcb_def s2_def with_block_def k1)
qed

end

subsection \<open>Properties\<close>

text \<open>A process runs, in slot \<open>pp\<close> of a process table in agreement with its bitmap, and the locks of the table and of the loader are open.\<close>

definition process_runs :: "unix \<Rightarrow> nat \<Rightarrow> 'a os_scheme \<Rightarrow> bool" where
  "process_runs ux pp s \<longleftrightarrow> resting ux s \<and> proc_table s \<and> own_slot s = Some pp \<and> currentThread s < next_addr s \<and> unused_above s \<and> tlb s = None \<and>
     semaphores s (addrLock s) = Some (Semaphore_new ''addrLock'' 1) \<and> semaphores s (bmsem s) = Some (Semaphore_new ''bmsem'' 1) \<and>
     addrLock s < next_addr s \<and> bmsem s < next_addr s \<and> addrLock s \<noteq> bmsem s"

text \<open>What \<^verbatim>\<open>init_func\<close> does for the new process when its turn comes: it sets the registers and the page table and runs the program.\<close>

lemma spawned_runs:
  assumes "spawned h prog es s s'" "tlb s = None"
  shows "\<exists>c. (\<forall>run r. length r = NumTotalRegs \<longrightarrow> init_func_body run (s'\<lparr>registers := r, currentThread := next_addr s\<rparr>) = run c) \<and> registers c = start_registers (noff_pages h) \<and>
    currentThread c = next_addr s \<and> (\<forall>x < 128 * unat (noff_pages h). vbyte c x = Some (noff_image h prog x))"
proof -
  let ?t = "next_addr s"
  define c where "c = s'\<lparr>currentThread := ?t, registers := start_registers (noff_pages h), pageTable := Some (Suc ?t), pageTableSize := noff_pages h\<rparr>"
  from assms(1) obtain th where th: "threads s' ?t = Some th" "th_space th = Some (Suc (Suc ?t))" by (auto simp: spawned_def)
  have n: "spaces s' (Suc (Suc ?t)) = Some \<lparr>as_pageTable = Suc ?t, as_numPages = noff_pages h\<rparr>" "tables s' (Suc ?t) = Some es" "length es = unat (noff_pages h)"
      "frames_ok es" "\<forall>i < length es. valid (es ! i)" "\<forall>x < 128 * length es. vmem es (mainMemory s') x = noff_image h prog x" "registers s' = registers s" "tlb s' = tlb s"
    using assms(1) by (auto simp: spawned_def new_space_def)
  have "init_func_body run (s'\<lparr>registers := r, currentThread := ?t\<rparr>) = run c" if "length r = NumTotalRegs" for run r
    using th n(1) that by (simp add: init_func_body_def thread_at_def InitRegisters_ok RestoreState_def c_def)
  moreover have "vbyte c x = Some (noff_image h prog x)" if "x < 128 * unat (noff_pages h)" for x
    using vbyte_table [of c "Suc ?t" es x] n assms(2) that by (simp add: c_def)
  ultimately show ?thesis by (intro exI [of _ c]) (simp add: c_def)
qed

lemma spawned_apart:
  assumes "spawned h prog es s s'" "int (j div 128) \<in> marked (gPhysPageBitmap s)"
  shows "mainMemory s' j = mainMemory s j"
proof -
  let ?s = "s\<lparr>next_addr := Suc (next_addr s)\<rparr>"
  have "int ` frame es ` {..<length es} \<inter> marked (gPhysPageBitmap ?s) = {}" "\<forall>j. j \<notin> own_bytes es \<longrightarrow> mainMemory s' j = mainMemory ?s j"
    using assms(1) unfolding spawned_def new_space_def by blast+
  then have d: "int ` frame es ` {..<length es} \<inter> marked (gPhysPageBitmap s) = {}" "\<forall>j. j \<notin> own_bytes es \<longrightarrow> mainMemory s' j = mainMemory s j" by simp_all
  have "j \<notin> own_bytes es"
  proof
    assume "j \<in> own_bytes es"
    then obtain x where "x < 128 * length es" "j = frame es (x div 128) * 128 + x mod 128" by (auto simp: own_bytes_def paddr_def)
    then have "j div 128 = frame es (x div 128)" "x div 128 < length es" by auto
    with d(1) assms(2) show False by blast
  qed
  with d(2) show ?thesis by blast
qed

text \<open>The laws of the kernel, put together for a running process.\<close>

lemma child_process_runs:
  fixes s :: "'a os_scheme"
  assumes "process_runs ux pp s" "\<not> no_slot_for nm s" and "al (c_string nm)" "u_names (hostfs s) (c_string nm) = Some i" "u_inodes (hostfs s) i = prog"
    and "fits h prog (gPhysPageBitmap s)"
  shows "\<exists>es pid pcb s' :: 'a os_scheme. ExecUpdate (real_env self_switch ux yield al jb jw) (Some nm) s = Inr (pid, s') \<and> resting ux s' \<and>
    pid \<in> {0..<10} - marked (pt_bm s) \<and> {0..<pid} \<subseteq> marked (pt_bm s) \<and>
    spawned h prog es (s\<lparr>next_addr := Suc (Suc (Suc (next_addr s)))\<rparr>) s' \<and> proc_table s' \<and> pcbs s' = (pcbs s)[nat pid := Some pcb] \<and>
    process_id pcb = pid \<and> parent_id pcb = int pp \<and> pcb_thread pcb = Some (Suc (Suc (Suc (next_addr s)))) \<and> numwait pcb = 0 \<and>
    (\<forall>a < next_addr s. semaphores s' a = semaphores s a)"
proof -
  let ?e = "real_env self_switch ux yield al jb jw :: 'a os_scheme env"
  have k: "resting ux s" "proc_table s" "own_slot s = Some pp" "currentThread s < next_addr s" "unused_above s"
      "semaphores s (addrLock s) = Some (Semaphore_new ''addrLock'' 1)" "semaphores s (bmsem s) = Some (Semaphore_new ''bmsem'' 1)"
      "addrLock s < next_addr s" "bmsem s < next_addr s" "addrLock s \<noteq> bmsem s"
    using assms(1) by (simp_all add: process_runs_def)
  have a: "may_open ?e (c_string nm)" using assms(3) by (simp add: real_env_def Let_def)
  show ?thesis
    using forking.ExecUpdate_child [OF k(1-3) assms(2) k(6) Semaphore_new_open k(7) Semaphore_new_open k(8-10) a assms(4-6) k(5,4)]
    by (simp add: eval_nat_numeral conj_assoc)
qed

text \<open>C4. A process starts another one. When a process calls \<^verbatim>\<open>ExecUpdate\<close> with the name of a host file that holds an executable which fits
  into the free frames, and the call is not refused for the name or for want of a slot, it returns the first free slot of the process
  table. That slot has a block with the caller as parent, whose thread is READY at the end of the ready list, and when the thread
  gets the processor \<^verbatim>\<open>init_func\<close> runs the program from its start: program counters 0 and 4, the stack pointer 16
  bytes below the end of the space, every virtual address with the byte of the image the file describes. The caller goes on as
  it was: running thread, registers, page table, every older table, address space and semaphore, and every byte of a frame that was in
  use are unchanged, and the process table agrees with its bitmap.\<close>

theorem exec_child_process:
  fixes s :: "'a os_scheme"
  assumes "process_runs ux pp s" "\<not> no_slot_for nm s" and "al (c_string nm)" "u_names (hostfs s) (c_string nm) = Some i" "u_inodes (hostfs s) i = prog"
    and "fits h prog (gPhysPageBitmap s)"
  shows "\<exists>pid t th pcb c s' :: 'a os_scheme. ExecUpdate (real_env self_switch ux yield al jb jw) (Some nm) s = Inr (pid, s') \<and> resting ux s' \<and>
    proc_table s' \<and> pid \<in> {0..<10} - marked (pt_bm s) \<and> {0..<pid} \<subseteq> marked (pt_bm s) \<and> pcbs s' = (pcbs s)[nat pid := Some pcb] \<and>
    process_id pcb = pid \<and> parent_id pcb = int pp \<and> pcb_thread pcb = Some t \<and> numwait pcb = 0 \<and>
    t \<noteq> currentThread s \<and> threads s' = (threads s)(t \<mapsto> th) \<and> th_status th = READY \<and> th_point th = Fresh init_func 0 \<and> readyList s' = readyList s @ [t] \<and>
    (\<forall>run. init_func_body run (s'\<lparr>currentThread := t\<rparr>) = run c) \<and> currentThread c = t \<and>
    registers c = (replicate 40 0)[35 := 4, 29 := noff_pages h * 128 - 16] \<and>
    (\<forall>x < 128 * unat (noff_pages h). vbyte c x = Some (noff_image h prog x)) \<and>
    currentThread s' = currentThread s \<and> registers s' = registers s \<and> pageTable s' = pageTable s \<and> pageTableSize s' = pageTableSize s \<and>
    (\<forall>a < next_addr s. tables s' a = tables s a \<and> spaces s' a = spaces s a \<and> semaphores s' a = semaphores s a) \<and>
    (\<forall>j. int (j div 128) \<in> marked (gPhysPageBitmap s) \<longrightarrow> mainMemory s' j = mainMemory s j)"
proof -
  let ?e = "real_env self_switch ux yield al jb jw :: 'a os_scheme env" and ?s = "s\<lparr>next_addr := Suc (Suc (Suc (next_addr s)))\<rparr>"
  have k: "currentThread s < next_addr s" "tlb s = None" "length (registers s) = NumTotalRegs"
    using assms(1) by (auto simp: process_runs_def resting_def at_rest_def quiet_def)
  from child_process_runs [of ux pp s nm al i prog h, OF assms, of yield jb jw] obtain es pid pcb and s' :: "'a os_scheme" where
    s': "ExecUpdate ?e (Some nm) s = Inr (pid, s')" "resting ux s'" "pid \<in> {0..<10} - marked (pt_bm s)" "{0..<pid} \<subseteq> marked (pt_bm s)"
      "spawned h prog es ?s s'" "proc_table s'" "pcbs s' = (pcbs s)[nat pid := Some pcb]" "process_id pcb = pid" "parent_id pcb = int pp"
      "pcb_thread pcb = Some (next_addr ?s)" "numwait pcb = 0" "\<forall>a < next_addr s. semaphores s' a = semaphores s a" by auto
  from spawned_runs [OF s'(5)] k(2) obtain c where
    c0: "\<forall>run r. length r = NumTotalRegs \<longrightarrow> init_func_body run (s'\<lparr>registers := r, currentThread := next_addr ?s\<rparr>) = run c"
    and c: "registers c = start_registers (noff_pages h)" "currentThread c = next_addr ?s" "\<forall>x < 128 * unat (noff_pages h). vbyte c x = Some (noff_image h prog x)"
    by auto
  from s'(5) obtain th where th: "threads s' = (threads s)(next_addr ?s \<mapsto> th)" "th_status th = READY" "th_point th = Fresh init_func 0"
      "readyList s' = readyList s @ [next_addr ?s]" by (auto simp: spawned_def)
  have "currentThread s' = currentThread s" "registers s' = registers s" "pageTable s' = pageTable s" "pageTableSize s' = pageTableSize s"
      "\<forall>a < next_addr s. tables s' a = tables s a \<and> spaces s' a = spaces s a"
    using s'(5) by (simp_all add: spawned_def new_space_def)
  moreover have "\<forall>j. int (j div 128) \<in> marked (gPhysPageBitmap s) \<longrightarrow> mainMemory s' j = mainMemory s j" using spawned_apart [OF s'(5)] by simp
  moreover have "\<forall>run. init_func_body run (s'\<lparr>currentThread := next_addr ?s\<rparr>) = run c"
    using c0 [rule_format, of "registers s'"] k(3) s'(5) by (simp add: spawned_def)
  ultimately show ?thesis using s' c th k(1)
    by (intro exI [of _ pid] exI [of _ "next_addr ?s"] exI [of _ th] exI [of _ pcb] exI [of _ c] exI [of _ s'])
      (simp add: start_registers_def NumTotalRegs_def)
qed

definition parent_machine :: os where
  "parent_machine = exec_machine\<lparr>pt_bm := \<lparr>numBits = 10, numWords = 1, bmap = [1]\<rparr>,
     pcbs := Some ((fresh_pcb (real_env self_switch silence Inr (\<lambda>_. True) (\<lambda>_. 0) (\<lambda>_. 0) :: os env) 2)\<lparr>process_id := 0, pcb_thread := Some 0\<rparr>) # replicate 9 None,
     next_addr := 5\<rparr>"

lemma parent_machine_runs: "process_runs silence 0 parent_machine" "marked (pt_bm parent_machine) = {0}"
proof -
  have "resting silence parent_machine"
    by (rule lone.ok_same [of silence exec_machine]) (use exec_machine_idle in \<open>simp_all add: idle_kernel_def same_processor_def parent_machine_def\<close>)
  moreover show m: "marked (pt_bm parent_machine) = {0}" by (auto simp: marked_def bit_at_def parent_machine_def div_pos_pos_trivial bit_1_iff)
  moreover have "(Some x # replicate 9 None) ! nat i \<noteq> None \<longleftrightarrow> i = 0" if "0 \<le> i" "i < 10" for i and x :: PCB
    using that by (cases "nat i") auto
  then have "proc_table parent_machine"
    using m by (auto simp: proc_table_def parent_machine_def bm_wf_def const_defs divRoundUp_def)
  moreover have "own_slot parent_machine = Some 0"
    by (simp add: own_slot_def upt_conv_Cons holds_at_def parent_machine_def exec_machine_def loader_machine_def os_machine_def)
  ultimately show "process_runs silence 0 parent_machine"
    by (auto simp: process_runs_def parent_machine_def exec_machine_def loader_machine_def os_machine_def unused_above_def)
qed

lemma slot_one:
  assumes "(pid :: int) \<in> {0..<10} - {0}" "{0..<pid} \<subseteq> {0}"
  shows "pid = 1"
proof (rule ccontr)
  assume "pid \<noteq> 1"
  with assms(1) have "1 \<in> {0..<pid}" by auto
  then have "(1 :: int) \<in> {0}" by (rule subsetD [OF assms(2)])
  then show False by simp
qed

lemma parent_machine_slot: "c_string nm = [112] \<Longrightarrow> \<not> no_slot_for nm parent_machine"
proof -
  assume nm: "c_string nm = [112]"
  obtain th where th: "threads parent_machine (currentThread parent_machine) = Some th" "th_name th = ''main''"
    by (simp add: parent_machine_def exec_machine_def loader_machine_def os_machine_def Thread_new_def)
  have "\<not> strncmp_eq (char_bytes ''main'') [112, 0] 49" by code_simp
  then have n: "\<not> strncmp_eq (char_bytes ''main'') nm 49" using nm by (simp add: strncmp_eq_def c_string_def)
  have "(1 :: int) \<in> {0..<10}" "(1 :: int) \<notin> {0}" by simp_all
  then have "{0 :: int} \<noteq> {0..<10}" by blast
  moreover have "own_slot parent_machine = Some 0" using parent_machine_runs(1) by (simp add: process_runs_def)
  ultimately show ?thesis
    unfolding no_slot_for_def th(1) parent_machine_runs(2) option.case th(2) using n by simp
qed

theorem exec_child_process_witness:
  "\<exists>s'. ExecUpdate (real_env self_switch silence Inr (\<lambda>_. True) (\<lambda>_. 0) (\<lambda>_. 0)) (Some [112, 0]) parent_machine = Inr (1, s') \<and>
     currentThread s' = 0 \<and> (\<exists>t. t \<noteq> 0 \<and> readyList s' = [t])"
proof -
  let ?h = "noff_header (take 40 tiny_program)"
  have p: "readyList parent_machine = []" "currentThread parent_machine = 0" "u_names (hostfs parent_machine) [112] = Some 0"
      "u_inodes (hostfs parent_machine) 0 = tiny_program" "gPhysPageBitmap parent_machine = gPhysPageBitmap exec_machine"
    by (simp_all add: parent_machine_def exec_machine_def loader_machine_def os_machine_def)
  have f: "fits ?h tiny_program (gPhysPageBitmap parent_machine)"
    using loader_machine_loadable p(5) by (simp add: loadable_fits exec_machine_def)
  have "\<not> no_slot_for [112, 0] parent_machine" by (rule parent_machine_slot) (simp add: c_string_def)
  moreover have "c_string [112, 0] = [112]" by (simp add: c_string_def)
  ultimately show ?thesis
    using exec_child_process [OF parent_machine_runs(1) _ _ _ p(4) f, of "[112, 0]" "\<lambda>_. True" Inr "\<lambda>_. 0" "\<lambda>_. 0"] p parent_machine_runs(2) slot_one by fastforce
qed

end
