(* ===== verification/Process_Join.thy ===== *)
theory Process_Join
  imports Child_Process
begin

text \<open>
  The end of a process: \<^verbatim>\<open>Ptable::ExitUpdate\<close> up to the point where the exiting thread gives up the processor, and what \<^verbatim>\<open>Ptable::JoinUpdate\<close> of
  the parent does when it finds a unit in its semaphore, or refuses. The locale \<open>waking_kernel\<close> adds to \<open>forking_kernel\<close> what \<^verbatim>\<open>Semaphore::V\<close> promises when a thread waits.
\<close>

subsection \<open>A kernel that wakes threads up\<close>

definition woken :: "nat \<Rightarrow> thread \<Rightarrow> 'a kernel_scheme \<Rightarrow> 'a kernel_scheme" where
  "woken t th s = s\<lparr>threads := (threads s)(t \<mapsto> th\<lparr>th_status := READY\<rparr>), readyList := readyList s @ [t]\<rparr>"

lemma V_wakes:
  fixes s :: "'a devices_scheme"
  assumes "at_rest ux cs s" "semaphores s m = Some y" "sem_queue y = t # ts" "threads s t = Some th" "t \<noteq> currentThread s"
    and "word_range (sem_value y + 1)"
  shows "\<exists>s' :: 'a devices_scheme. Semaphore_V (OneTick (call_handler ux) yield) m s = Inr s' \<and> at_rest ux cs s' \<and> only_io (woken t th s) s' \<and>
    semaphores s' = (semaphores s)(m \<mapsto> y\<lparr>sem_queue := ts, sem_value := sem_value y + 1\<rparr>) \<and> threads s' = threads (woken t th s)"
proof -
  let ?sm = "(semaphores s)(m \<mapsto> y\<lparr>sem_queue := ts, sem_value := sem_value y + 1\<rparr>)" and ?d = "woken t th s"
  have l: "level s = IntOn" "inHandler s = False" using assms(1) by (simp_all add: at_rest_def)
  have "Semaphore_V (OneTick (call_handler ux) yield) m s = OneTick (call_handler ux) yield (?d\<lparr>semaphores := ?sm, level := IntOn\<rparr>)"
    using assms(2-4,6) l
    by (simp add: Semaphore_V_def SetLevel_def ChangeLevel_def Let_def V_section_def sem_at_def put_sem_def ReadyToRun_def setStatus_def thread_at_def
        put_thread_def rbind_assoc woken_def)
      (simp add: rbind_def split: sum.split)
  also have "?d\<lparr>semaphores := ?sm, level := IntOn\<rparr> = ?d\<lparr>semaphores := ?sm\<rparr>" using l(1) by (simp add: woken_def)
  finally have v: "Semaphore_V (OneTick (call_handler ux) yield) m s = OneTick (call_handler ux) yield (?d\<lparr>semaphores := ?sm\<rparr>)" .
  have "at_rest ux cs ?d" using assms(1,5) by (auto simp: at_rest_def woken_def quiet_def)
  from tick_at_rest [OF this, of yield ?sm] v show ?thesis by auto
qed

locale waking_kernel = forking_kernel e ok for e :: "'a os_scheme env" and ok +
  assumes wake_law: "ok s \<Longrightarrow> semaphores s m = Some y \<Longrightarrow> sem_queue y = t # ts \<Longrightarrow> threads s t = Some th \<Longrightarrow> t \<noteq> currentThread s \<Longrightarrow>
      word_range (sem_value y + 1) \<Longrightarrow>
      \<exists>s' :: 'a os_scheme. opV e m s = Inr s' \<and> ok s' \<and> only_io (woken t th s) s' \<and>
        semaphores s' = (semaphores s)(m \<mapsto> y\<lparr>sem_queue := ts, sem_value := sem_value y + 1\<rparr>) \<and> threads s' = threads (woken t th s)"

interpretation waking: waking_kernel "real_env self_switch ux yield al jb jw" "resting ux" for ux yield al jb jw
proof
  fix s :: "'a os_scheme" and m y t ts th
  assume "resting ux s" and v: "semaphores s m = Some y" "sem_queue y = t # ts" "threads s t = Some th" "t \<noteq> currentThread s" "word_range (sem_value y + 1)"
  then show "\<exists>s'. opV (real_env self_switch ux yield al jb jw) m s = Inr s' \<and> resting ux s' \<and> only_io (woken t th s) s' \<and>
      semaphores s' = (semaphores s)(m \<mapsto> y\<lparr>sem_queue := ts, sem_value := sem_value y + 1\<rparr>) \<and> threads s' = threads (woken t th s)"
    using V_wakes [OF _ v, of ux _ yield] by (fastforce simp: resting_def)
qed

subsection \<open>Exit\<close>

text \<open>What is left of \<^verbatim>\<open>ExitUpdate\<close> when the parent has been told: the address space is deleted and the thread finishes.\<close>

definition process_end :: "'a os_scheme env \<Rightarrow> int \<Rightarrow> 'a os_scheme \<Rightarrow> (int \<times> 'a os_scheme) res" where
  "process_end e which s =
     rbind (thread_at (currentThread s) s) (\<lambda>th.
     rbind (case th_space th of None \<Rightarrow> Inr s | Some sp \<Rightarrow> AddrSpace_delete sp s) (\<lambda>s3.
     rbind (opFinish e (currentThread s3) s3) (\<lambda>s4.
     rbind (drop_pcb which s4) (\<lambda>s5. Inr (0, s5)))))"

text \<open>The first thread that waits at a semaphore, if there is one, is not the running one.\<close>

definition waiter_ok :: "semaphore \<Rightarrow> 'a os_scheme \<Rightarrow> bool" where
  "waiter_ok x s = (case sem_queue x of [] \<Rightarrow> True | t # _ \<Rightarrow> threads s t \<noteq> None \<and> t \<noteq> currentThread s)"

text \<open>The first waiting thread is made ready.\<close>

definition readied :: "nat list \<Rightarrow> (nat \<rightharpoonup> thread) \<Rightarrow> (nat \<rightharpoonup> thread)" where
  "readied q ths = (case q of [] \<Rightarrow> ths | t # _ \<Rightarrow> ths(t := map_option (\<lambda>th. th\<lparr>th_status := READY\<rparr>) (ths t)))"

text \<open>The parent has been told: its block has the code, its semaphore one unit more, and if it waited there it is ready.\<close>

definition told :: "nat \<Rightarrow> PCB \<Rightarrow> int \<Rightarrow> semaphore \<Rightarrow> 'a os_scheme \<Rightarrow> 'a os_scheme \<Rightarrow> bool" where
  "told pp p ec x s s' \<longleftrightarrow>
     pcbs s' = (pcbs s)[pp := Some (p\<lparr>exitcode := ec, numwait := numwait p - 1\<rparr>)] \<and> pt_bm s' = pt_bm s \<and>
     semaphores s' = (semaphores s)(joinsem p \<mapsto> x\<lparr>sem_queue := tl (sem_queue x), sem_value := sem_value x + 1\<rparr>) \<and>
     readyList s' = readyList s @ take 1 (sem_queue x) \<and>
     threads s' = readied (sem_queue x) (threads s) \<and>
     currentThread s' = currentThread s \<and> registers s' = registers s \<and> mainMemory s' = mainMemory s \<and> tables s' = tables s \<and> spaces s' = spaces s \<and>
     gPhysPageBitmap s' = gPhysPageBitmap s \<and> hostfs s' = hostfs s \<and> next_addr s' = next_addr s \<and> semtab s' = semtab s \<and> st_bm s' = st_bm s \<and>
     open_files s' = open_files s"

text \<open>The process in slot \<open>pid\<close> has the one in slot \<open>w\<close> as its parent.\<close>

definition is_child :: "nat \<Rightarrow> int \<Rightarrow> 'a os_scheme \<Rightarrow> bool" where
  "is_child w pid s \<longleftrightarrow> 0 \<le> pid \<and> pid < 10 \<and> (case pcbs s ! nat pid of None \<Rightarrow> False | Some b \<Rightarrow> parent_id b = int w)"

lemma own_slot_bound: "own_slot s = Some c \<Longrightarrow> c < 10"
  by (auto simp: own_slot_def find_Some_iff)

lemma pcb_at_nth: "length (pcbs s) = 10 \<Longrightarrow> i < 10 \<Longrightarrow> pcbs s ! i = Some p \<Longrightarrow> pcb_at (int i) s = Inr p"
  by (simp add: pcb_at_def)

lemma set_pcb_nth: "length (pcbs s) = 10 \<Longrightarrow> i < 10 \<Longrightarrow> set_pcb (int i) p s = Inr (s\<lparr>pcbs := (pcbs s)[i := p]\<rparr>)"
  by (simp add: set_pcb_def)

context waking_kernel
begin

lemma V_cases:
  assumes ok: "ok s" and x: "semaphores s m = Some x" "waiter_ok x s" "word_range (sem_value x + 1)"
  shows "\<exists>s' u :: 'a os_scheme. opV e m s = Inr s' \<and> ok s' \<and> only_io u s' \<and> threads s' = threads u \<and>
    u = s\<lparr>threads := readied (sem_queue x) (threads s), readyList := readyList s @ take 1 (sem_queue x)\<rparr> \<and>
    semaphores s' = (semaphores s)(m \<mapsto> x\<lparr>sem_queue := tl (sem_queue x), sem_value := sem_value x + 1\<rparr>)"
proof (cases "sem_queue x")
  case Nil
  then have eq: "x\<lparr>sem_queue := [], sem_value := v\<rparr> = x\<lparr>sem_value := v\<rparr>" for v by simp
  from V_law [OF ok x(1) Nil x(3)] Nil show ?thesis by (auto simp: readied_def eq)
next
  case (Cons t ts)
  with x(2) obtain th where th: "threads s t = Some th" "t \<noteq> currentThread s" by (auto simp: waiter_ok_def)
  from wake_law [OF ok x(1) Cons th x(3)] Cons th(1) show ?thesis by (auto simp: woken_def readied_def)
qed

lemma ExitUpdate_tells:
  assumes ok: "ok s" and t: "length (pcbs s) = 10" "own_slot s = Some c" "pcbs s ! c = Some q" "parent_id q = int pp" "pp < 10" "pcbs s ! pp = Some p"
    and x: "semaphores s (joinsem p) = Some x" "waiter_ok x s" "word_range (sem_value x + 1)"
  shows "\<exists>s' :: 'a os_scheme. (\<forall>fin. ExitUpdate (e\<lparr>opFinish := fin\<rparr>) ec s = process_end (e\<lparr>opFinish := fin\<rparr>) (int c) s') \<and> ok s' \<and> told pp p ec x s s'"
proof -
  let ?p = "p\<lparr>exitcode := ec, numwait := numwait p - 1\<rparr>"
  define s1 where "s1 = s\<lparr>pcbs := (pcbs s)[pp := Some (p\<lparr>exitcode := ec\<rparr>)]\<rparr>"
  define s2 where "s2 = s\<lparr>pcbs := (pcbs s)[pp := Some ?p]\<rparr>"
  have a: "SetExitCode ec (int pp) s = Inr s1" using t by (simp add: SetExitCode_def pcb_at_nth set_pcb_nth s1_def)
  have b: "JoinRelease (e\<lparr>opFinish := fin\<rparr>) (int pp) s1 = opV e (joinsem p) s2" for fin
    using t pcb_at_nth [of s1 pp "p\<lparr>exitcode := ec\<rparr>"] by (simp add: JoinRelease_def set_pcb_nth s1_def s2_def)
  have "ok s2" by (rule ok_same [OF ok]) (simp add: same_processor_def s2_def)
  moreover have "waiter_ok x s2" using x(2) by (simp add: waiter_ok_def s2_def split: list.splits)
  ultimately obtain s' u :: "'a os_scheme" where
    s': "opV e (joinsem p) s2 = Inr s'" "ok s'" "only_io u s'" "threads s' = threads u"
      "u = s2\<lparr>threads := readied (sem_queue x) (threads s2), readyList := readyList s2 @ take 1 (sem_queue x)\<rparr>"
      "semaphores s' = (semaphores s2)(joinsem p \<mapsto> x\<lparr>sem_queue := tl (sem_queue x), sem_value := sem_value x + 1\<rparr>)"
    using V_cases [of s2 "joinsem p" x] x(1,3) by (auto simp: s2_def)
  have "ExitUpdate (e\<lparr>opFinish := fin\<rparr>) ec s = process_end (e\<lparr>opFinish := fin\<rparr>) (int c) s'" for fin
    using t a b s'(1) own_slot_bound [OF t(2)] by (simp add: ExitUpdate_def find_current_eq pcb_at_nth process_end_def)
  moreover have "told pp p ec x s s'" using s'(4,6) only_io_keeps [OF s'(3)] by (simp add: told_def s'(5) s2_def)
  ultimately show ?thesis using s'(2) by blast
qed

text \<open>\<^verbatim>\<open>Join\<close> of a child when one has exited already: the parent does not wait.\<close>

lemma JoinUpdate_told:
  assumes ok: "ok s" and t: "length (pcbs s) = 10" "own_slot s = Some w" "pcbs s ! w = Some p" "is_child w pid s"
    and x: "semaphores s (joinsem p) = Some x" "sem_value x \<noteq> 0"
  shows "\<exists>s' :: 'a os_scheme. JoinUpdate e pid s = Inr (exitcode p, s') \<and> ok s' \<and> same_store s s' \<and> readyList s' = readyList s \<and>
    pcbs s' = (pcbs s)[w := Some (p\<lparr>numwait := numwait p + 1\<rparr>)] \<and> semaphores s' = (semaphores s)(joinsem p \<mapsto> x\<lparr>sem_value := sem_value x - 1\<rparr>)"
proof -
  define s1 where "s1 = s\<lparr>pcbs := (pcbs s)[w := Some (p\<lparr>numwait := numwait p + 1\<rparr>)]\<rparr>"
  note w = own_slot_bound [OF t(2)]
  have "ok s1" by (rule ok_same [OF ok]) (simp add: same_processor_def s1_def)
  from P_law [OF this, of "joinsem p" x] x obtain s' :: "'a os_scheme" where
    s': "opP e (joinsem p) s1 = Inr s'" "ok s'" "only_io s1 s'" "semaphores s' = (semaphores s)(joinsem p \<mapsto> x\<lparr>sem_value := sem_value x - 1\<rparr>)" "threads s' = threads s1"
    by (auto simp: s1_def)
  note k = only_io_keeps [OF s'(3)]
  have "JoinWait e (int w) s = Inr s'" using t(1,3) w s'(1) by (simp add: JoinWait_def pcb_at_nth set_pcb_nth s1_def)
  moreover have "pcb_at (int w) s' = Inr (p\<lparr>numwait := numwait p + 1\<rparr>)" by (rule pcb_at_nth) (use t(1) w k in \<open>simp_all add: s1_def\<close>)
  ultimately have "JoinUpdate e pid s = Inr (exitcode p, s')"
    using t by (auto simp: JoinUpdate_def find_current_eq is_child_def split: option.splits)
  moreover have "same_store s s'" using only_io_store [OF s'(3,5)] by (simp add: same_store_def s1_def)
  ultimately show ?thesis using s'(2,4) k by (intro exI [of _ s']) (simp add: s1_def)
qed

end

lemma JoinUpdate_refused:
  assumes "length (pcbs s) = 10" "\<forall>w. own_slot s = Some w \<longrightarrow> \<not> is_child w pid s"
  shows "JoinUpdate e pid s = Inr (- 1, s)"
  using assms by (cases "own_slot s") (auto simp: JoinUpdate_def find_current_eq is_child_def split: option.splits)

subsection \<open>Properties\<close>

text \<open>The process in slot \<open>c\<close> runs, the one in slot \<open>pp\<close> is its parent, with the join semaphore \<open>x\<close>; its address space is \<open>sp\<close>, with the page table
  \<open>es\<close> at \<open>pt\<close>.\<close>

definition child_runs :: "nat \<Rightarrow> nat \<Rightarrow> PCB \<Rightarrow> semaphore \<Rightarrow> nat \<Rightarrow> nat \<Rightarrow> TranslationEntry list \<Rightarrow> 'a os_scheme \<Rightarrow> bool" where
  "child_runs c pp p x sp pt es s \<longleftrightarrow>
     own_slot s = Some c \<and> (case pcbs s ! c of None \<Rightarrow> False | Some q \<Rightarrow> parent_id q = int pp) \<and> pp < 10 \<and> pcbs s ! pp = Some p \<and>
     semaphores s (joinsem p) = Some x \<and> waiter_ok x s \<and> word_range (sem_value x + 1) \<and>
     (case threads s (currentThread s) of None \<Rightarrow> False | Some th \<Rightarrow> th_space th = Some sp) \<and>
     spaces s sp = Some \<lparr>as_pageTable = pt, as_numPages = of_nat (length es)\<rparr> \<and> length es < 2 ^ 32 \<and> tables s pt = Some es \<and> frames_ok es \<and>
     bm_wf (gPhysPageBitmap s) \<and> numBits (gPhysPageBitmap s) = 128"

lemma readied_space:
  "threads s t = Some th \<Longrightarrow> \<exists>th'. readied q (threads s) t = Some th' \<and> th_space th' = th_space th"
  by (auto simp: readied_def split: list.split)

lemma process_end_child:
  fixes s s1 :: "'a os_scheme"
  assumes "child_runs c pp p x sp pt es s" "told pp p ec x s s1"
  shows "\<exists>bm. (\<forall>e. process_end e w s1 =
      rbind (opFinish e (currentThread s) (s1\<lparr>gPhysPageBitmap := bm, tables := (tables s)(pt := None), spaces := (spaces s)(sp := None)\<rparr>)) (\<lambda>s4.
      rbind (drop_pcb w s4) (\<lambda>s5. Inr (0, s5)))) \<and>
    bm_wf bm \<and> numBits bm = 128 \<and> marked bm = marked (gPhysPageBitmap s) - int ` frame es ` {..<length es}"
proof -
  from assms(1) obtain th where "threads s (currentThread s) = Some th" "th_space th = Some sp"
    by (auto simp: child_runs_def split: option.splits)
  with assms(2) readied_space [of s "currentThread s" th "sem_queue x"] obtain th' where
    th': "thread_at (currentThread s1) s1 = Inr th'" "th_space th' = Some sp" by (auto simp: told_def thread_at_def)
  have "spaces s1 sp = Some \<lparr>as_pageTable = pt, as_numPages = of_nat (length es)\<rparr>" "tables s1 pt = Some es" "length es = unat (of_nat (length es) :: int32)"
      "frames_ok es" "bm_wf (gPhysPageBitmap s1)" "numBits (gPhysPageBitmap s1) = 128"
    using assms by (simp_all add: child_runs_def told_def unat_of_nat)
  from AddrSpace_delete_ok [OF this] th' assms(2) show ?thesis by (auto simp: process_end_def told_def)
qed

text \<open>C5. What \<^verbatim>\<open>Ptable::ExitUpdate\<close> does, whatever \<^verbatim>\<open>Thread::Finish\<close> does after it (\<open>fin\<close>). A thread that is no process gets -1 and nothing changes. The exit
  of the first process halts the machine. When a process with a parent and an address space exits, the parent's block gets the exit code, its join
  semaphore one unit and its count of waits one less, and the first thread that waits at the semaphore becomes READY, behind the other ready threads; then exactly the frames of the
  exiting process are free again and its page table and its space are gone; no other block, semaphore, thread, space, memory or register has changed. In
  this state its thread finishes, and only if \<^verbatim>\<open>Finish\<close> returned would the process's own block be dropped.\<close>

theorem exit_tells_parent:
  fixes s :: "'a os_scheme" and ux :: unix and yield :: "'a os_scheme \<Rightarrow> 'a os_scheme res" and al jb jw
  assumes "resting ux s" and "length (pcbs s) = 10"
  defines "env \<equiv> \<lambda>fin. (real_env self_switch ux yield al jb jw)\<lparr>opFinish := fin\<rparr>"
  shows "(own_slot s = None \<longrightarrow> ExitUpdate (env fin) ec s = Inr (- 1, s)) \<and>
    (\<forall>c q. own_slot s = Some c \<and> pcbs s ! c = Some q \<and> parent_id q = - 1 \<longrightarrow> ExitUpdate (env fin) ec s = Inl Halted) \<and>
    (\<forall>c pp p x sp pt es. child_runs c pp p x sp pt es s \<longrightarrow>
      (\<exists>(s1 :: 'a os_scheme) bm s3. told pp p ec x s s1 \<and> resting ux s1 \<and>
        bm_wf bm \<and> numBits bm = 128 \<and> marked bm = marked (gPhysPageBitmap s) - int ` frame es ` {..<length es} \<and>
        s3 = s1\<lparr>gPhysPageBitmap := bm, tables := (tables s)(pt := None), spaces := (spaces s)(sp := None)\<rparr> \<and>
        (\<forall>fin. ExitUpdate (env fin) ec s = rbind (fin (currentThread s) s3) (\<lambda>s4. rbind (drop_pcb (int c) s4) (\<lambda>s5. Inr (0, s5))))))"
proof (intro conjI impI allI)
  fix c pp p x sp pt es
  assume run: "child_runs c pp p x sp pt es s"
  then obtain q where q: "own_slot s = Some c" "pcbs s ! c = Some q" "parent_id q = int pp" "pp < 10" "pcbs s ! pp = Some p"
      "semaphores s (joinsem p) = Some x" "waiter_ok x s" "word_range (sem_value x + 1)"
    by (auto simp: child_runs_def split: option.splits)
  from waking.ExitUpdate_tells [OF assms(1,2) q, of yield al jb jw ec] obtain s1 :: "'a os_scheme" where
    s1: "\<And>fin. ExitUpdate (env fin) ec s = process_end (env fin) (int c) s1" "resting ux s1" "told pp p ec x s s1"
    unfolding env_def by blast
  from process_end_child [OF run s1(3), of "int c"] obtain bm where
    bm: "\<And>e. process_end e (int c) s1 =
      rbind (opFinish e (currentThread s) (s1\<lparr>gPhysPageBitmap := bm, tables := (tables s)(pt := None), spaces := (spaces s)(sp := None)\<rparr>)) (\<lambda>s4.
      rbind (drop_pcb (int c) s4) (\<lambda>s5. Inr (0, s5)))"
      "bm_wf bm" "numBits bm = 128" "marked bm = marked (gPhysPageBitmap s) - int ` frame es ` {..<length es}" by blast
  have fin: "opFinish (env fin) = fin" for fin by (simp add: env_def)
  show "\<exists>(s1 :: 'a os_scheme) bm s3. told pp p ec x s s1 \<and> resting ux s1 \<and>
        bm_wf bm \<and> numBits bm = 128 \<and> marked bm = marked (gPhysPageBitmap s) - int ` frame es ` {..<length es} \<and>
        s3 = s1\<lparr>gPhysPageBitmap := bm, tables := (tables s)(pt := None), spaces := (spaces s)(sp := None)\<rparr> \<and>
        (\<forall>fin. ExitUpdate (env fin) ec s = rbind (fin (currentThread s) s3) (\<lambda>s4. rbind (drop_pcb (int c) s4) (\<lambda>s5. Inr (0, s5))))"
    using s1 bm by (auto simp: fin)
next
  fix c q
  assume "own_slot s = Some c \<and> pcbs s ! c = Some q \<and> parent_id q = - 1"
  with own_slot_bound [of s c] assms(2) show "ExitUpdate (env fin) ec s = Inl Halted"
    by (simp add: ExitUpdate_def find_current_eq pcb_at_nth Halt_def)
qed (use assms(2) in \<open>simp add: ExitUpdate_def find_current_eq\<close>)

text \<open>The first process, whose thread is 5, and its child, which runs in one page in frame 2.\<close>

definition child_machine :: os where
  "child_machine = parent_machine\<lparr>pt_bm := \<lparr>numBits = 10, numWords = 1, bmap = [3]\<rparr>,
     semaphores := (semaphores parent_machine)(2 \<mapsto> (Semaphore_new ''joinsem'' 0)\<lparr>sem_queue := [5]\<rparr>),
     threads := [0 \<mapsto> (Thread_new ''child'' [])\<lparr>th_status := RUNNING, th_space := Some 20, userRegisters := replicate NumTotalRegs 0\<rparr>,
       5 \<mapsto> (Thread_new ''init'' [])\<lparr>th_status := BLOCKED\<rparr>],
     spaces := [20 \<mapsto> \<lparr>as_pageTable = 21, as_numPages = 1\<rparr>],
     tables := [21 \<mapsto> [\<lparr>virtualPage = 0, physicalPage = 2, valid = True, readOnly = False, te_use = False, dirty = False\<rparr>]],
     pageTable := Some 21, pageTableSize := 1,
     pcbs := Some ((fresh_pcb (real_env self_switch silence Inr (\<lambda>_. True) (\<lambda>_. 0) (\<lambda>_. 0) :: os env) 2)\<lparr>process_id := 0, pcb_thread := Some 5\<rparr>) #
       Some ((fresh_pcb (real_env self_switch silence Inr (\<lambda>_. True) (\<lambda>_. 0) (\<lambda>_. 0) :: os env) 6)\<lparr>process_id := 1, parent_id := 0, pcb_thread := Some 0\<rparr>) #
       replicate 8 None, next_addr := 22\<rparr>"

lemma child_machine_ok:
  "resting silence child_machine" "length (pcbs child_machine) = 10" "own_slot child_machine = Some 1"
proof -
  let ?cs = "\<lparr>keyboard = [], display = [], cs_writeHandler = Signal 3, cs_readHandler = Signal 2, putBusy = False, incoming = EOF\<rparr>"
  have "at_rest silence ?cs child_machine"
    by (auto simp: at_rest_def child_machine_def parent_machine_def exec_machine_def loader_machine_def os_machine_def quiet_def own_context_def Thread_new_def
        no_input_def silence_def poll_soon_def Statistics_new_def const_defs)
  then show "resting silence child_machine" unfolding resting_def by blast
  show "length (pcbs child_machine) = 10" by (simp add: child_machine_def)
  show "own_slot child_machine = Some 1"
    by (simp add: own_slot_def upt_conv_Cons holds_at_def child_machine_def parent_machine_def exec_machine_def loader_machine_def os_machine_def)
qed

lemma child_machine_runs:
  "\<exists>p es. child_runs 1 0 p ((Semaphore_new ''joinsem'' 0)\<lparr>sem_queue := [5]\<rparr>) 20 21 es child_machine \<and> joinsem p = 2 \<and> frame es ` {..<length es} = {2}"
proof -
  let ?m = child_machine and ?x = "(Semaphore_new ''joinsem'' 0)\<lparr>sem_queue := [5]\<rparr>"
  let ?p = "(fresh_pcb (real_env self_switch silence Inr (\<lambda>_. True) (\<lambda>_. 0) (\<lambda>_. 0) :: os env) 2)\<lparr>process_id := 0, pcb_thread := Some 5\<rparr>"
  let ?es = "[\<lparr>virtualPage = 0, physicalPage = 2, valid = True, readOnly = False, te_use = False, dirty = False\<rparr>] :: TranslationEntry list"
  have t: "currentThread ?m = 0" "threads ?m 5 \<noteq> None" "\<exists>th. threads ?m 0 = Some th \<and> th_space th = Some 20"
    by (simp_all add: child_machine_def parent_machine_def exec_machine_def loader_machine_def os_machine_def)
  have p: "pcbs ?m ! 0 = Some ?p" "\<exists>q. pcbs ?m ! 1 = Some q \<and> parent_id q = int 0" "joinsem ?p = 2" by (simp_all add: child_machine_def fresh_pcb_def)
  have x: "semaphores ?m 2 = Some ?x" "sem_value ?x = 0" "sem_queue ?x = [5]" by (simp_all add: child_machine_def Semaphore_new_def)
  have sp: "spaces ?m 20 = Some \<lparr>as_pageTable = 21, as_numPages = of_nat (length ?es)\<rparr>" "tables ?m 21 = Some ?es" by (simp_all add: child_machine_def)
  have bm: "bm_wf (gPhysPageBitmap ?m)" "numBits (gPhysPageBitmap ?m) = 128"
    by (simp_all add: bm_wf_def divRoundUp_def const_defs child_machine_def parent_machine_def exec_machine_def loader_machine_def)
  have fr: "frames_ok ?es" "frame ?es ` {..<length ?es} = {2}" by (auto simp: frames_ok_def frame_def inj_on_def)
  have "waiter_ok ?x ?m" using t by (simp add: waiter_ok_def x(3))
  with t p x sp bm fr(1) child_machine_ok(3) have "child_runs 1 0 ?p ?x 20 21 ?es ?m" by (auto simp: child_runs_def)
  with p(3) fr(2) show ?thesis by blast
qed

theorem exit_tells_parent_witness:
  "\<exists>s3 p. (\<forall>fin. ExitUpdate ((real_env self_switch silence Inr (\<lambda>_. True) (\<lambda>_. 0) (\<lambda>_. 0))\<lparr>opFinish := fin\<rparr>) 7 child_machine =
       rbind (fin 0 s3) (\<lambda>s4. rbind (drop_pcb 1 s4) (\<lambda>s5. Inr (0, s5)))) \<and>
     pcbs s3 ! 0 = Some p \<and> exitcode p = 7 \<and> joinsem p = 2 \<and> semaphores s3 2 = Some (Semaphore_new ''joinsem'' 1) \<and> readyList s3 = [5] \<and>
     2 \<notin> marked (gPhysPageBitmap s3) \<and> spaces s3 20 = None"
proof -
  let ?x = "(Semaphore_new ''joinsem'' 0)\<lparr>sem_queue := [5]\<rparr>"
  from child_machine_runs obtain p es where r: "child_runs 1 0 p ?x 20 21 es child_machine" "joinsem p = 2" "frame es ` {..<length es} = {2}" by blast
  from exit_tells_parent [OF child_machine_ok(1,2), where yield = Inr and al = "\<lambda>_. True" and jb = "\<lambda>_. 0" and jw = "\<lambda>_. 0" and ec = 7,
      THEN conjunct2, THEN conjunct2, rule_format, OF r(1)]
  obtain s1 bm s3 where t: "told 0 p 7 ?x child_machine s1" "marked bm = marked (gPhysPageBitmap child_machine) - {2}"
    and s3: "s3 = s1\<lparr>gPhysPageBitmap := bm, tables := (tables child_machine)(21 := None), spaces := (spaces child_machine)(20 := None)\<rparr>"
      "\<forall>fin. ExitUpdate ((real_env self_switch silence Inr (\<lambda>_. True) (\<lambda>_. 0) (\<lambda>_. 0))\<lparr>opFinish := fin\<rparr>) 7 child_machine =
         rbind (fin (currentThread child_machine) s3) (\<lambda>s4. rbind (drop_pcb (int 1) s4) (\<lambda>s5. Inr (0, s5)))"
    unfolding r(3) by auto
  have c: "currentThread child_machine = 0" "readyList child_machine = []"
    by (simp_all add: child_machine_def parent_machine_def exec_machine_def loader_machine_def os_machine_def)
  show ?thesis
    using s3 t c r(2) child_machine_ok(2) by (intro exI [of _ s3] exI [of _ "p\<lparr>exitcode := 7, numwait := numwait p - 1\<rparr>"]) (simp add: told_def Semaphore_new_def)
qed

end
