(* ===== verification/User_Copy.thy ===== *)
theory User_Copy
  imports Syscalls
begin

text \<open>
  The copies between a user program and the kernel (\<^verbatim>\<open>User2System\<close> and \<^verbatim>\<open>System2User\<close> of userprog/exception.cc), in
  terms of the virtual memory of the program: what they copy, that they stop at the first zero byte, that they change no
  other byte, and that a page fault in the middle of a copy halts the machine.
\<close>

subsection \<open>Accesses of one byte\<close>

text \<open>A byte is sign-extended into a register and cut off again.\<close>

lemma ucast_scast_byte [simp]: "(ucast (scast (b :: byte) :: int32) :: byte) = b"
  by (rule bit_word_eqI) (simp add: bit_simps)

lemma scast_byte_0 [simp]: "(scast (b :: byte) :: int32) = 0 \<longleftrightarrow> b = 0"
  using ucast_scast_byte [of b] by (metis scast_0 ucast_0)

lemma accessible_touch:
  assumes "mmu_ok s" and "page_entry s vpn = Some (a, i, e)"
  shows "accessible (touch a i w s) = accessible s"
proof (intro ext)
  fix va sz wr
  show "accessible (touch a i w s) va sz wr = accessible s va sz wr"
    by (cases "page_entry s (unat va div 128)") (auto simp: accessible_def page_entry_touch [OF assms] split: if_splits)
qed

lemma accessible_memory [simp]: "accessible (s\<lparr>mainMemory := m\<rparr>) = accessible s"
  by (simp add: accessible_def page_entry_def fun_eq_iff cong: option.case_cong)

text \<open>The parts of a machine that a copy keeps.\<close>

definition same_mapping :: "'a hardware_scheme \<Rightarrow> 'a hardware_scheme \<Rightarrow> bool" where
  "same_mapping s s' \<longleftrightarrow> mmu_ok s' \<and> registers s' = registers s \<and> accessible s' = accessible s \<and>
     phys_of s' = phys_of s \<and> dom (tables s') = dom (tables s) \<and> (\<exists>t m. s' = s\<lparr>tables := t, mainMemory := m\<rparr>)"

lemma same_mapping_refl: "mmu_ok s \<Longrightarrow> same_mapping s s"
  unfolding same_mapping_def by (auto intro!: exI [of _ "tables s"] exI [of _ "mainMemory s"])

lemma same_mapping_trans: "same_mapping s t \<Longrightarrow> same_mapping t u \<Longrightarrow> same_mapping s u"
  unfolding same_mapping_def
proof (elim conjE exE, intro conjI)
  fix t1 m1 t2 m2
  assume "t = s\<lparr>tables := t1, mainMemory := m1\<rparr>" "u = t\<lparr>tables := t2, mainMemory := m2\<rparr>"
  then have "u = s\<lparr>tables := t2, mainMemory := m2\<rparr>" by simp
  then show "\<exists>t m. u = s\<lparr>tables := t, mainMemory := m\<rparr>" by blast
qed simp_all

lemma same_mapping_touch:
  assumes "mmu_ok s" "page_entry s vpn = Some (a, i, e)" "mmu_ok (touch a i w s)"
  shows "same_mapping s ((touch a i w s)\<lparr>mainMemory := m\<rparr>)"
proof -
  let ?t = "touch a i w s"
  have "phys_of (?t\<lparr>mainMemory := m\<rparr>) x = phys_of ?t x" for x by (rule phys_of_cong) simp_all
  then have "phys_of (?t\<lparr>mainMemory := m\<rparr>) = phys_of s" using phys_of_touch [OF assms(1,2)] by (simp add: fun_eq_iff)
  moreover have "dom (tables ?t) = dom (tables s)"
    using assms(1,2) by (cases s rule: mmu_ok_cases) (auto simp: touch_def page_entry_def Let_def split: if_splits)
  moreover have "\<exists>t m'. ?t\<lparr>mainMemory := m\<rparr> = s\<lparr>tables := t, mainMemory := m'\<rparr>" by (auto simp: touch_def)
  ultimately show ?thesis using assms(3) accessible_touch [OF assms(1,2)] by (simp add: same_mapping_def)
qed

lemma read_byte:
  fixes s :: "'a hardware_scheme"
  assumes ok: "mmu_ok s" and acc: "accessible s va 1 False"
  shows "\<exists>b. \<exists>s' :: 'a hardware_scheme. vbyte s (unat va) = Some b \<and> ReadMem eh va 1 s = Inr (Some (scast b), s') \<and>
    vbyte s' = vbyte s \<and> same_mapping s s'"
proof -
  from ok obtain a i e pa where
    t: "Translate va 1 False s = Inr (Inr pa, touch a i False s)" "mmu_ok (touch a i False s)" "unat pa + nat 1 \<le> 128 * 128"
      "page_entry s (unat va div 128) = Some (a, i, e)" "unat pa = unat (physicalPage e) * 128 + unat va mod 128"
      "unat (physicalPage e) < 128"
    by (cases rule: Translate_cases [where va = va and w = False and sz = 1]) (use acc in auto)
  have b: "vbyte s (unat va) = Some (mainMemory s (unat pa))" using t(4-6) by (simp add: vbyte_def phys_of_def)
  have l: "load_phys HOST_IS_BIG_ENDIAN (mainMemory s) pa 1 = Inr (scast (mainMemory s (unat pa)))"
    using load_phys_eq [OF _ t(3)] by (simp add: le_value_def)
  have "vbyte (touch a i False s) = vbyte s" by (simp add: vbyte_def phys_of_touch [OF ok t(4)] fun_eq_iff)
  moreover have "same_mapping s (touch a i False s)"
    using same_mapping_touch [OF ok t(4,2), of "mainMemory s"] by (simp add: touch_def)
  ultimately show ?thesis using t(1) b l by (auto simp: ReadMem_def)
qed

lemma write_byte:
  fixes s :: "'a hardware_scheme"
  assumes ok: "mmu_ok s" and acc: "accessible s va 1 True" and inj: "no_alias s"
  shows "\<exists>s' :: 'a hardware_scheme. WriteMem eh va 1 (scast (b :: byte)) s = Inr (True, s') \<and> no_alias s' \<and>
    vbyte s' = (vbyte s)(unat va \<mapsto> b) \<and> same_mapping s s'"
proof -
  from WriteMem_access [OF ok _ acc inj, of eh "scast b"] obtain s' where
    w: "WriteMem eh va 1 (scast b) s = Inr (True, s')" "no_alias s'" "mmu_ok s'"
      "vbyte s' = (\<lambda>x. if unat va \<le> x \<and> x < unat va + nat 1 then Some (le_bytes (nat 1) (scast b) ! (x - unat va)) else vbyte s x)"
    by auto
  have "vbyte s' = (vbyte s)(unat va \<mapsto> b)" unfolding w(4) by (auto simp: fun_eq_iff le_bytes_def)
  moreover have sz: "(1 :: int) \<in> {1, 2, 4}" by simp
  from ok sz have "same_mapping s s'"
  proof (cases rule: Translate_cases [where va = va and w = True])
    case (access a i e pa)
    with w(1) obtain m where "s' = (touch a i True s)\<lparr>mainMemory := m\<rparr>" by (auto simp: WriteMem_def rbind_eq_Inr)
    with same_mapping_touch [OF ok access(4,2)] show ?thesis by simp
  qed (use acc in auto)
  ultimately show ?thesis using w(1,2) by blast
qed

text \<open>A fault in the kernel's own access ends the simulation.\<close>

lemma fault_in_kernel:
  fixes s :: "'a hardware_scheme"
  assumes "core_ok s"
  shows "\<not> accessible s va 1 False \<Longrightarrow> ReadMem fault_handler va 1 s = Inl Halted"
    and "\<not> accessible s va 1 True \<Longrightarrow> WriteMem fault_handler va 1 v s = Inl Halted"
proof -
  have r: "RaiseException fault_handler exn va s = Inl Halted"
    if "exn \<in> {AddressErrorException, PageFaultException, ReadOnlyException, BusErrorException}" for exn
  proof -
    let ?s = "s\<lparr>registers := (registers s)[39 := va]\<rparr>"
    have "core_ok ?s" by (rule core_ok_update [OF assms]) simp
    from DelayedLoad_ok [OF this, of 0 0] obtain s2 where "DelayedLoad 0 0 ?s = Inr s2" by auto
    moreover have "fault_handler exn u = Inl Halted" for u :: "'a hardware_scheme" using that by (intro fault_halts) auto
    ultimately show ?thesis using set_reg_ok [OF assms, of 39 va] by (simp add: RaiseException_def)
  qed
  note m = core_okD(2) [OF assms]
  show "\<not> accessible s va 1 False \<Longrightarrow> ReadMem fault_handler va 1 s = Inl Halted"
    using memory_fault(1) [OF m, of 1 va fault_handler] r by force
  show "\<not> accessible s va 1 True \<Longrightarrow> WriteMem fault_handler va 1 v s = Inl Halted"
    using memory_fault(2) [OF m, of 1 va fault_handler v] r by force
qed

lemma same_mapping_core_ok: "core_ok s \<Longrightarrow> same_mapping s s' \<Longrightarrow> core_ok s'"
  by (simp add: core_ok_def same_mapping_def)

subsection \<open>From the user program\<close>

text \<open>The string at a virtual address, cut off after \<open>n\<close> bytes, and whether it can be read.\<close>

fun user_string :: "'a machine_scheme \<Rightarrow> int32 \<Rightarrow> nat \<Rightarrow> byte list" where
  "user_string s a 0 = []"
| "user_string s a (Suc n) = (let b = the (vbyte s (unat a)) in if b = 0 then [] else b # user_string s (a + 1) n)"

fun readable :: "'a machine_scheme \<Rightarrow> int32 \<Rightarrow> nat \<Rightarrow> bool" where
  "readable s a 0 \<longleftrightarrow> True"
| "readable s a (Suc n) \<longleftrightarrow> accessible s a 1 False \<and> (the (vbyte s (unat a)) = 0 \<or> readable s (a + 1) n)"

lemma length_user_string: "length (user_string s a n) \<le> n"
  by (induction n arbitrary: a) (auto simp: Let_def)

lemma user_string_cong: "vbyte s' = vbyte s \<Longrightarrow> user_string s' a n = user_string s a n"
  by (induction n arbitrary: a) (auto simp: Let_def)

lemma readable_cong: "vbyte s' = vbyte s \<Longrightarrow> accessible s' = accessible s \<Longrightarrow> readable s' a n = readable s a n"
  by (induction n arbitrary: a) auto

lemma u2s_loop_ok:
  fixes s :: "'a hardware_scheme"
  assumes "core_ok s" and "length pre = i" and "k < m"
  shows "let a = va + of_nat i in
    if readable s a k
    then \<exists>s' :: 'a hardware_scheme. u2s_loop va i k (pre @ replicate m 0) s = Inr (pre @ user_string s a k @ replicate (m - length (user_string s a k)) 0, s') \<and>
      vbyte s' = vbyte s \<and> same_mapping s s'
    else u2s_loop va i k (pre @ replicate m 0) s = Inl Halted"
  using assms
proof (induction k arbitrary: i pre m s)
  case 0
  then show ?case using core_okD(2) [of s] by (auto simp: same_mapping_refl)
next
  case (Suc k)
  let ?a = "va + of_nat i"
  note ok = Suc.prems(1)
  obtain m' where m: "m = Suc m'" "k < m'" using Suc.prems(3) by (cases m) auto
  show ?case
  proof (cases "accessible s ?a 1 False")
    case False
    with fault_in_kernel(1) [OF ok] show ?thesis by (simp add: Let_def)
  next
    case True
    from read_byte [OF core_okD(2) [OF ok] True, of fault_handler] obtain b and s1 :: "'a hardware_scheme" where
      b: "vbyte s (unat ?a) = Some b" "ReadMem fault_handler ?a 1 s = Inr (Some (scast b), s1)" "vbyte s1 = vbyte s" "same_mapping s s1"
      by blast
    have upd: "(pre @ replicate m 0)[i := b] = (pre @ [b]) @ replicate m' 0"
      using Suc.prems(2) by (simp add: m list_update_append)
    have i: "va + of_nat (Suc i) = ?a + 1" by (simp add: algebra_simps)
    show ?thesis
    proof (cases "b = 0")
      case True
      then show ?thesis using b upd Suc.prems(2) \<open>accessible s ?a 1 False\<close>
        by (auto simp: Let_def m)
    next
      case False
      have c: "core_ok s1" using ok b(4) by (rule same_mapping_core_ok)
      have l: "length (pre @ [b]) = Suc i" using Suc.prems(2) by simp
      have acc: "accessible s1 = accessible s" using b(4) by (simp add: same_mapping_def)
      note ih = Suc.IH [OF c l m(2), unfolded Let_def i user_string_cong [OF b(3)] readable_cong [OF b(3) acc]]
      have step: "u2s_loop va i (Suc k) (pre @ replicate m 0) s = u2s_loop va (Suc i) k ((pre @ [b]) @ replicate m' 0) s1"
        using b(2) False Suc.prems(2) upd by (simp add: m)
      show ?thesis
        unfolding step Let_def using ih b False \<open>accessible s ?a 1 False\<close>
        by (auto simp: m Let_def same_mapping_trans [OF b(4)])
    qed
  qed
qed

lemma User2System_eq:
  "n < 2 ^ 31 - 1 \<Longrightarrow> User2System va (int n) s = u2s_loop va 0 n ([] @ replicate (Suc n) 0) s"
  by (simp add: User2System_def word_range_def nat_add_distrib)

subsection \<open>To the user program\<close>

text \<open>What is copied: everything up to and including the first zero.\<close>

fun upto_zero :: "byte list \<Rightarrow> byte list" where
  "upto_zero [] = []"
| "upto_zero (b # bs) = b # (if b = 0 then [] else upto_zero bs)"

fun writable :: "'a machine_scheme \<Rightarrow> int32 \<Rightarrow> byte list \<Rightarrow> bool" where
  "writable s a [] \<longleftrightarrow> True"
| "writable s a (b # bs) \<longleftrightarrow> accessible s a 1 True \<and> (b = 0 \<or> writable s (a + 1) bs)"

lemma length_upto_zero: "length (upto_zero bs) \<le> length bs"
  by (induction bs) auto

lemma upto_zero_string: "0 \<in> set bs \<Longrightarrow> upto_zero bs = takeWhile (\<lambda>b. b \<noteq> 0) bs @ [0]"
  by (induction bs) auto

lemma writable_cong: "accessible s' = accessible s \<Longrightarrow> writable s' a bs = writable s a bs"
  by (induction bs arbitrary: a) auto

text \<open>Bytes of the virtual memory replaced by a list.\<close>

definition overlay :: "nat \<Rightarrow> byte list \<Rightarrow> (nat \<Rightarrow> byte option) \<Rightarrow> nat \<Rightarrow> byte option" where
  "overlay a bs f x = (if a \<le> x \<and> x < a + length bs then Some (bs ! (x - a)) else f x)"

lemma overlay_Nil [simp]: "overlay a [] f = f"
  by (auto simp: overlay_def fun_eq_iff)

lemma overlay_Cons: "overlay (Suc a) bs (f(a \<mapsto> b)) = overlay a (b # bs) f"
proof
  fix x
  show "overlay (Suc a) bs (f(a \<mapsto> b)) x = overlay a (b # bs) f x"
  proof (cases "Suc a \<le> x")
    case True
    then obtain d where "x = Suc (a + d)" by (metis add_Suc le_Suc_ex)
    then show ?thesis by (simp add: overlay_def)
  qed (auto simp: overlay_def)
qed

lemma unat_Suc_word: "Suc (unat (a :: int32)) < 2 ^ 32 \<Longrightarrow> unat (a + 1) = Suc (unat a)"
  by (subst unat_plus_if') simp

lemma s2u_loop_ok:
  fixes s :: "'a hardware_scheme"
  assumes "core_ok s" and "no_alias s" and "take k (drop i buffer) = bs" and "i + k \<le> length buffer"
    and "unat (va + of_nat i) + k < 2 ^ 32"
  shows "if writable s (va + of_nat i) bs
    then \<exists>s' :: 'a hardware_scheme. s2u_loop va i k buffer s = Inr (int (i + length (upto_zero bs)), s') \<and>
      vbyte s' = overlay (unat (va + of_nat i)) (upto_zero bs) (vbyte s) \<and> same_mapping s s' \<and> no_alias s'
    else s2u_loop va i k buffer s = Inl Halted"
  using assms
proof (induction k arbitrary: i bs s)
  case 0
  then show ?case using core_okD(2) [of s] by (auto simp: same_mapping_refl)
next
  case (Suc k)
  let ?a = "va + of_nat i" and ?b = "buffer ! i"
  note ok = Suc.prems(1)
  have bs: "bs = ?b # take k (drop (Suc i) buffer)"
    using Suc.prems(3,4) by (simp add: Cons_nth_drop_Suc [symmetric])
  show ?case
  proof (cases "accessible s ?a 1 True")
    case False
    with fault_in_kernel(2) [OF ok] Suc.prems(4) show ?thesis by (simp add: bs)
  next
    case True
    from write_byte [OF core_okD(2) [OF ok] True Suc.prems(2), of fault_handler ?b] obtain s1 :: "'a hardware_scheme" where
      w: "WriteMem fault_handler ?a 1 (scast ?b) s = Inr (True, s1)" "no_alias s1" "vbyte s1 = (vbyte s)(unat ?a \<mapsto> ?b)" "same_mapping s s1"
      by blast
    show ?thesis
    proof (cases "?b = 0")
      case True
      have "(vbyte s)(unat ?a \<mapsto> ?b) = overlay (unat ?a) [?b] (vbyte s)" using overlay_Cons [of "unat ?a" "[]" "vbyte s" ?b] by simp
      with True w Suc.prems(4) \<open>accessible s ?a 1 True\<close> show ?thesis by (auto simp: bs)
    next
      case False
      have i: "va + of_nat (Suc i) = ?a + 1" by (simp add: algebra_simps)
      have u: "unat (?a + 1) = Suc (unat ?a)" using Suc.prems(5) by (intro unat_Suc_word) simp
      have c: "core_ok s1" using ok w(4) by (rule same_mapping_core_ok)
      have acc: "accessible s1 = accessible s" using w(4) by (simp add: same_mapping_def)
      have "if writable s (?a + 1) (take k (drop (Suc i) buffer))
        then \<exists>s' :: 'a hardware_scheme. s2u_loop va (Suc i) k buffer s1 = Inr (int (Suc i + length (upto_zero (take k (drop (Suc i) buffer)))), s') \<and>
          vbyte s' = overlay (unat ?a) (upto_zero bs) (vbyte s) \<and> same_mapping s1 s' \<and> no_alias s'
        else s2u_loop va (Suc i) k buffer s1 = Inl Halted"
        using Suc.IH [OF c w(2), of "Suc i" "take k (drop (Suc i) buffer)"] Suc.prems(4,5) False
        unfolding i writable_cong [OF acc] w(3) u bs overlay_Cons by (cases "writable s (?a + 1) (take k (drop (Suc i) buffer))") simp_all
      moreover have "s2u_loop va i (Suc k) buffer s = s2u_loop va (Suc i) k buffer s1"
        using w(1) False Suc.prems(4) by simp
      ultimately show ?thesis
        using False \<open>accessible s ?a 1 True\<close> by (auto simp: bs same_mapping_trans [OF w(4)])
    qed
  qed
qed

subsection \<open>Properties\<close>

text \<open>A string written to consecutive addresses is read back.\<close>

lemma user_string_overlay:
  assumes "vbyte s = overlay a (str @ 0 # rest) f" "0 \<notin> set str" "length str < n" "a + n < 2 ^ 32" "unat w = a"
  shows "user_string s w n = str"
  using assms
proof (induction str arbitrary: a w n f)
  case Nil
  then show ?case by (cases n) (auto simp: overlay_def)
next
  case (Cons b str)
  then obtain m where n: "n = Suc m" "length str < m" by (cases n) auto
  have b: "vbyte s (unat w) = Some b" using Cons.prems(1,5) by (simp add: overlay_def)
  have w: "unat (w + 1) = Suc a" using Cons.prems(4,5) n by (subst unat_Suc_word) auto
  have "vbyte s = overlay (Suc a) (str @ 0 # rest) (f(a \<mapsto> b))" using Cons.prems(1) by (simp add: overlay_Cons)
  from Cons.IH [OF this _ n(2) _ w] Cons.prems(2,4) n(1) have "user_string s (w + 1) m = str" by simp
  with b Cons.prems(2) n show ?case by auto
qed

lemma accessible_read: "accessible s va sz True \<Longrightarrow> accessible s va sz False"
  by (auto simp: accessible_def split: option.splits)

lemma readable_overlay:
  assumes "vbyte s = overlay a (str @ 0 # rest) f" "writable s w (str @ 0 # rest)" "a + n < 2 ^ 32" "unat w = a" "length str < n" "0 \<notin> set str"
  shows "readable s w n"
  using assms
proof (induction str arbitrary: a w n f)
  case Nil
  then show ?case by (cases n) (auto simp: overlay_def accessible_read)
next
  case (Cons b str)
  then obtain m where n: "n = Suc m" "length str < m" by (cases n) auto
  have w: "unat (w + 1) = Suc a" using Cons.prems(3,4) n by (subst unat_Suc_word) auto
  have "vbyte s = overlay (Suc a) (str @ 0 # rest) (f(a \<mapsto> b))" using Cons.prems(1) by (simp add: overlay_Cons)
  from Cons.IH [OF this _ _ w n(2)] Cons.prems(2,3,6) n(1) show ?case by (simp add: accessible_read)
qed

text \<open>A buffer with a zero, cut at it.\<close>

lemma split_string:
  assumes "0 \<in> set (take n buffer)"
  defines "str \<equiv> takeWhile (\<lambda>b. b \<noteq> (0 :: byte)) buffer"
  shows "\<exists>rest. take n buffer = str @ 0 # rest" "length str < n" "0 \<notin> set str" "upto_zero (take n buffer) = str @ [0]"
    "(str @ [0]) ! j = buffer ! j \<or> length str < j"
proof -
  have t: "takeWhile (\<lambda>b. b \<noteq> 0) (take n buffer) = str"
    unfolding str_def using takeWhile_append1 [of 0 "take n buffer" "\<lambda>b. b \<noteq> 0" "drop n buffer"] assms(1) by simp
  have d: "dropWhile (\<lambda>b. b \<noteq> 0) (take n buffer) \<noteq> []" using assms(1) by (auto simp: dropWhile_eq_Nil_conv)
  then obtain z rest where z: "dropWhile (\<lambda>b. b \<noteq> 0) (take n buffer) = z # rest" by (meson neq_Nil_conv)
  with hd_dropWhile [OF d] have "z = 0" by simp
  with t z takeWhile_dropWhile_id [of "\<lambda>b. b \<noteq> 0" "take n buffer"] have e: "take n buffer = str @ 0 # rest" by simp
  then show "\<exists>rest. take n buffer = str @ 0 # rest" ..
  from e have "length (take n buffer) = Suc (length str + length rest)" by simp
  then show l: "length str < n" by simp
  show "0 \<notin> set str" unfolding str_def by (auto dest: set_takeWhileD)
  show "upto_zero (take n buffer) = str @ [0]" using upto_zero_string [OF assms(1)] t by simp
  have "(str @ [0]) ! j = take n buffer ! j" if "j \<le> length str" unfolding e using that by (simp add: nth_append)
  then show "(str @ [0]) ! j = buffer ! j \<or> length str < j" using l by (cases "j \<le> length str") auto
qed

text \<open>C20. Strings cross the boundary between kernel and user program. \<^verbatim>\<open>System2User\<close> copies the bytes of its buffer up to and
  including the first zero to the virtual addresses from \<open>va\<close> on, changes no other byte of the virtual memory and no register,
  and returns the number of bytes copied; \<^verbatim>\<open>User2System\<close> then returns exactly that string, padded with zeros. From any state, and for
  any limit for which \<^verbatim>\<open>limit + 1\<close> is an \<^verbatim>\<open>int\<close>, \<^verbatim>\<open>User2System\<close> returns the bytes in front of the first zero, or as many as the limit allows when there
  is none, padded with zeros, and changes no byte and no register. Each of them halts the machine exactly when one of the bytes
  that it reaches lies on a page that is unmapped, outside main memory or (for the write only) read-only; otherwise it returns, also
  when the string crosses pages.\<close>

theorem user_copy_roundtrip:
  fixes s :: "'a hardware_scheme"
  assumes "core_ok s" and "no_alias s" and "n \<le> length buffer" "0 \<in> set (take n buffer)" and "unat va + n < 2 ^ 32" "n < 2 ^ 31 - 1"
  shows "let str = takeWhile (\<lambda>b. b \<noteq> 0) buffer in
    (if writable s va (take n buffer)
     then \<exists>s1 s2 :: 'a hardware_scheme. System2User va (int n) buffer s = Inr (int (Suc (length str)), s1) \<and> same_mapping s s1 \<and>
       vbyte s1 = (\<lambda>x. if unat va \<le> x \<and> x \<le> unat va + length str then Some (buffer ! (x - unat va)) else vbyte s x) \<and>
       User2System va (int n) s1 = Inr (str @ replicate (Suc n - length str) 0, s2) \<and> same_mapping s1 s2 \<and> vbyte s2 = vbyte s1
     else System2User va (int n) buffer s = Inl Halted) \<and>
    (m < 2 ^ 31 - 1 \<longrightarrow>
     (if readable s ua m
      then \<exists>s2 :: 'a hardware_scheme. User2System ua (int m) s =
          Inr (user_string s ua m @ replicate (Suc m - length (user_string s ua m)) 0, s2) \<and> same_mapping s s2 \<and> vbyte s2 = vbyte s
      else User2System ua (int m) s = Inl Halted))"
proof -
  define str where "str = takeWhile (\<lambda>b. b \<noteq> 0) buffer"
  note z = split_string [OF assms(4), folded str_def]
  from z(1) obtain rest where rest: "take n buffer = str @ 0 # rest" ..
  have n: "0 < n" using z(2) by simp
  have to: "System2User va (int n) buffer s = s2u_loop va 0 n buffer s" using n by (simp add: System2User_def)
  note fro = User2System_eq [OF assms(6), of va]
  have "\<exists>s1 s2 :: 'a hardware_scheme. System2User va (int n) buffer s = Inr (int (Suc (length str)), s1) \<and> same_mapping s s1 \<and>
       vbyte s1 = (\<lambda>x. if unat va \<le> x \<and> x \<le> unat va + length str then Some (buffer ! (x - unat va)) else vbyte s x) \<and>
       User2System va (int n) s1 = Inr (str @ replicate (Suc n - length str) 0, s2) \<and> same_mapping s1 s2 \<and> vbyte s2 = vbyte s1"
    if w: "writable s va (take n buffer)"
  proof -
    from s2u_loop_ok [OF assms(1,2) refl, of 0 n buffer va] assms(3,5) w z(4) obtain s1 :: "'a hardware_scheme" where
      s1: "s2u_loop va 0 n buffer s = Inr (int (Suc (length str)), s1)" "vbyte s1 = overlay (unat va) (str @ [0]) (vbyte s)" "same_mapping s s1"
      by auto
    have v: "vbyte s1 = (\<lambda>x. if unat va \<le> x \<and> x \<le> unat va + length str then Some (buffer ! (x - unat va)) else vbyte s x)"
      unfolding s1(2) overlay_def using z(5) by (fastforce simp: fun_eq_iff)
    have acc: "accessible s1 = accessible s" using s1(3) by (simp add: same_mapping_def)
    have "writable s1 va (str @ 0 # rest)" using w unfolding writable_cong [OF acc] rest .
    then have "writable s1 va (str @ 0 # [])" using z(3) by (induction str arbitrary: va) auto
    then have r: "readable s1 va n" by (rule readable_overlay [OF s1(2) _ assms(5) refl z(2,3)])
    have u: "user_string s1 va n = str" by (rule user_string_overlay [OF s1(2) z(3,2) assms(5) refl])
    have "core_ok s1" using assms(1) s1(3) by (rule same_mapping_core_ok)
    from u2s_loop_ok [OF this, of "[]" 0 n "Suc n" va] r u
    obtain s2 where "u2s_loop va 0 n ([] @ replicate (Suc n) 0) s1 = Inr (str @ replicate (Suc n - length str) 0, s2)" "vbyte s2 = vbyte s1" "same_mapping s1 s2"
      by (auto simp: Let_def)
    with s1(1,3) v show ?thesis unfolding to fro by blast
  qed
  moreover have "System2User va (int n) buffer s = Inl Halted" if "\<not> writable s va (take n buffer)"
    unfolding to using s2u_loop_ok [OF assms(1,2) refl, of 0 n buffer va] assms(3,5) that by simp
  moreover have "if readable s ua m
      then \<exists>s2 :: 'a hardware_scheme. User2System ua (int m) s =
          Inr (user_string s ua m @ replicate (Suc m - length (user_string s ua m)) 0, s2) \<and> same_mapping s s2 \<and> vbyte s2 = vbyte s
      else User2System ua (int m) s = Inl Halted" if "m < 2 ^ 31 - 1"
    using u2s_loop_ok [OF assms(1), of "[]" 0 m "Suc m" ua] unfolding User2System_eq [OF that] by (auto simp: Let_def)
  ultimately show ?thesis unfolding Let_def str_def [symmetric] by simp
qed

theorem user_copy_roundtrip_witness:
  "\<exists>s1 s2 s3. System2User 64 5 [72, 105, 0, 1, 2] user_machine = Inr (3, s1) \<and> User2System 64 5 s1 = Inr ([72, 105, 0, 0, 0, 0], s2) \<and>
     System2User 126 5 [72, 105, 7, 0, 2] user_machine = Inl Halted \<and>
     User2System 2 2 user_machine = Inr ([2, 36, 0], s3) \<and> User2System 256 2 user_machine = Inl Halted"
proof -
  have ok: "core_ok user_machine" using user_machine_ok by (simp add: cpu_ok_def)
  have a: "accessible user_machine x 1 True = (unat x < 128)" "accessible user_machine x 1 False = (unat x < 256)" for x
  proof -
    consider "unat x div 128 = 0" "unat x < 128" | "unat x div 128 = 1" "128 \<le> unat x" "unat x < 256" | "2 \<le> unat x div 128" "256 \<le> unat x" by force
    then show "accessible user_machine x 1 True = (unat x < 128)" "accessible user_machine x 1 False = (unat x < 256)"
      by (cases; auto simp: accessible_def aligned_def page_entry_def user_machine_def)+
  qed
  have w: "writable user_machine 64 (take 5 [72, 105, 0, 1, 2])" "\<not> writable user_machine 126 (take 5 [72, 105, 7, 0, 2])"
    by (simp_all add: a)
  have v: "vbyte user_machine 2 = Some 2" "vbyte user_machine 3 = Some 36"
    by (simp_all add: vbyte_def user_machine_phys) (simp_all add: user_machine_def user_program_def le_bytes_def nth_append drop_bit_eq_div)
  then have r: "readable user_machine 2 (Suc (Suc 0))" "user_string user_machine 2 (Suc (Suc 0)) = [2, 36]" "\<not> readable user_machine 256 (Suc (Suc 0))"
    by (simp_all add: a)
  note rt = user_copy_roundtrip [OF ok user_machine_no_alias, unfolded Let_def]
  have 1: "\<exists>s1 s2. System2User 64 5 [72, 105, 0, 1, 2] user_machine = Inr (3, s1) \<and> User2System 64 5 s1 = Inr ([72, 105, 0, 0, 0, 0], s2)"
    using rt [of 5 "[72, 105, 0, 1, 2]" 64 0 0, THEN conjunct1] w(1)
    by simp (auto simp: numeral_eq_Suc)
  have 2: "System2User 126 5 [72, 105, 7, 0, 2] user_machine = Inl Halted"
    using rt [of 5 "[72, 105, 7, 0, 2]" 126 0 0, THEN conjunct1] w(2) by (simp add: a)
  have 3: "(\<exists>s3. User2System 2 2 user_machine = Inr ([2, 36, 0], s3)) \<and> User2System 256 2 user_machine = Inl Halted"
    using rt [of 1 "[0]" 64 "Suc (Suc 0)" 2, THEN conjunct2] rt [of 1 "[0]" 64 "Suc (Suc 0)" 256, THEN conjunct2] r by auto
  from 1 2 3 show ?thesis by blast
qed

end
