(* ===== verification/Exec_Call.thy ===== *)
theory Exec_Call
  imports Process_Join User_Copy
begin

text \<open>
  The system call \<^verbatim>\<open>Exec\<close> of a user program, from the trap to the next instruction: the handler of userprog/exception.cc copies the name
  out of the program's memory, the process table starts the child, the result goes into register 2 and the program counters move on.
\<close>

subsection \<open>The name\<close>

text \<open>The buffer of 50 bytes that \<^verbatim>\<open>User2System\<close> fills with at most 49 characters.\<close>

definition name_buffer :: "'a machine_scheme \<Rightarrow> int32 \<Rightarrow> byte list" where
  "name_buffer s a = user_string s a 49 @ replicate (50 - length (user_string s a 49)) 0"

lemma user_string_nonzero: "0 \<notin> set (user_string s a n)"
  by (induction n arbitrary: a) (auto simp: Let_def)

lemma c_string_buffer: "c_string (name_buffer s a) = user_string s a 49"
proof -
  have "takeWhile (\<lambda>c. c \<noteq> 0) (us @ replicate k (0 :: byte)) = us" if "0 \<notin> set us" for us k
    using that by (induction us) (auto simp: takeWhile_replicate)
  from this [OF user_string_nonzero] show ?thesis unfolding c_string_def name_buffer_def .
qed

lemma User2System_name:
  fixes s :: "'a hardware_scheme"
  assumes "core_ok s" "readable s a 49"
  shows "\<exists>s' :: 'a hardware_scheme. User2System a 49 s = Inr (name_buffer s a, s') \<and> vbyte s' = vbyte s \<and> same_mapping s s'"
  using u2s_loop_ok [OF assms(1), of "[]" 0 49 50 a] assms(2) by (simp add: User2System_def word_range_def name_buffer_def Let_def)

subsection \<open>The caller\<close>

lemma user_view_updates [simp]:
  fixes s :: "'a os_scheme"
  shows "phys_of (s\<lparr>next_addr := n\<rparr>) = phys_of s" "phys_of (s\<lparr>registers := r\<rparr>) = phys_of s"
    "vbyte (s\<lparr>next_addr := n\<rparr>) = vbyte s" "vbyte (s\<lparr>registers := r\<rparr>) = vbyte s" "mmu_ok (s\<lparr>next_addr := n\<rparr>) = mmu_ok s"
proof -
  show p: "phys_of (s\<lparr>next_addr := n\<rparr>) = phys_of s" "phys_of (s\<lparr>registers := r\<rparr>) = phys_of s"
    by (intro ext, rule phys_of_cong; simp)+
  show "vbyte (s\<lparr>next_addr := n\<rparr>) = vbyte s" "vbyte (s\<lparr>registers := r\<rparr>) = vbyte s" by (simp_all add: vbyte_def p fun_eq_iff)
  show "mmu_ok (s\<lparr>next_addr := n\<rparr>) = mmu_ok s" by (simp add: mmu_ok_def cong: option.case_cong)
qed

text \<open>Every page of the running program is in a frame that is marked as used.\<close>

definition frames_held :: "'a os_scheme \<Rightarrow> bool" where
  "frames_held s \<longleftrightarrow> (\<forall>x p. phys_of s x = Some p \<longrightarrow> int (p div 128) \<in> marked (gPhysPageBitmap s))"

text \<open>Copying the name changes nothing but the use bits of the page table.\<close>

lemma same_mapping_runs:
  fixes s :: "'a os_scheme"
  assumes "process_runs ux pp s" "same_mapping s s'"
  shows "process_runs ux pp s'"
proof -
  from assms(2) obtain t m where s': "s' = s\<lparr>tables := t, mainMemory := m\<rparr>" "dom t = dom (tables s)" by (auto simp: same_mapping_def)
  have "resting ux s'" by (rule lone.ok_same [of ux s]) (use assms(1) s'(1) in \<open>simp_all add: process_runs_def same_processor_def\<close>)
  moreover have "t a = None" if "tables s a = None" for a using that s'(2) by blast
  then have "unused_above s'" using assms(1) s'(1) by (simp add: process_runs_def unused_above_def)
  ultimately show ?thesis using assms(1) s'(1) by (simp add: process_runs_def proc_table_def own_slot_def)
qed

text \<open>The program goes on with its memory as it was.\<close>

lemma spawned_caller:
  fixes s :: "'a os_scheme"
  assumes "spawned h prog es s s'" "mmu_ok s" "tlb s = None" "frames_held s" "\<forall>a \<ge> next_addr s. tables s a = None"
  shows "vbyte s' = vbyte s" "mmu_ok s'"
proof -
  from assms(2,3) obtain pt ps where pt: "pageTable s = Some pt" "tables s pt = Some ps" "unat (pageTableSize s) \<le> length ps"
    by (auto simp: mmu_ok_def split: option.splits)
  have "pt < next_addr s" using assms(5) pt(2) by (metis leI option.distinct(1))
  then have k: "pageTable s' = Some pt" "tables s' pt = Some ps" "pageTableSize s' = pageTableSize s" "tlb s' = None"
    using assms(1,3) pt by (auto simp: spawned_def new_space_def)
  show "mmu_ok s'" using k pt(3) by (simp add: mmu_ok_def)
  have ph: "phys_of s' = phys_of s" using k pt assms(3) by (simp add: phys_of_def page_entry_def fun_eq_iff)
  show "vbyte s' = vbyte s"
  proof (intro ext)
    fix x
    show "vbyte s' x = vbyte s x"
      using ph spawned_apart [OF assms(1)] assms(4) by (cases "phys_of s x") (auto simp: vbyte_def frames_held_def)
  qed
qed

lemma result_ok:
  fixes s :: "'a os_scheme"
  assumes "resting ux s" "mmu_ok s"
  shows "\<exists>s' :: 'a os_scheme. rbind (result v s) advance_counters = Inr s' \<and> resting ux s' \<and>
    s' = s\<lparr>registers := (registers s)[2 := word_of_int v, 36 := registers s ! 34, 34 := registers s ! 35, 35 := registers s ! 35 + 4]\<rparr>"
proof -
  let ?r = "(registers s)[2 := word_of_int v]"
  define s' where "s' = s\<lparr>registers := ?r[36 := registers s ! 34, 34 := registers s ! 35, 35 := registers s ! 35 + 4]\<rparr>"
  from assms(1) obtain th where q: "quiet s" "threads s (currentThread s) = Some th" "own_context th s" by (auto simp: resting_def at_rest_def)
  have "core_ok s" using q(1) assms(2) by (simp add: core_ok_def quiet_def)
  then have "core_ok (s\<lparr>registers := ?r\<rparr>)" by (rule core_ok_update) simp
  from advance_counters_ok [OF this] have "rbind (result v s) advance_counters = Inr s'"
    using q(1) by (simp add: result_def WriteRegister_def s'_def quiet_def NumTotalRegs_def)
  moreover have "resting ux s'"
    by (rule proc.adopt [OF assms(1), where th = th])
      (use q in \<open>simp_all add: s'_def same_devices_def quiet_def own_context_def NumTotalRegs_def split: option.splits\<close>)
  ultimately show ?thesis by (intro exI [of _ s']) (simp add: s'_def)
qed

subsection \<open>Properties\<close>

text \<open>C2. The system call \<^verbatim>\<open>Exec\<close>. A process traps with 23 in register 2 and in register 4 the address of a string of its own memory, which names a host
  file with an executable that fits into the free frames; the name is not the caller's own and a slot is free. The handler returns. Register 2 is the
  first free slot, the program counters are those of the next instruction, every other register and every byte of the caller's
  memory are as before, and the caller is still the running thread. The slot holds a process with the caller as parent; its thread is
  READY, the last of the ready list, and \<^verbatim>\<open>init_func\<close> will run it with the registers and the memory image of the file.\<close>

theorem exec_system_call:
  fixes s :: "'a os_scheme"
  assumes run: "process_runs ux pp s" "mmu_ok s" "frames_held s"
    and call: "registers s ! 2 = 23" "registers s ! 4 = a" "a \<noteq> 0" "readable s a 49"
    and name: "\<not> no_slot_for (name_buffer s a) s" "al (user_string s a 49)" "u_names (hostfs s) (user_string s a 49) = Some i"
    and prog: "u_inodes (hostfs s) i = prog" "fits h prog (gPhysPageBitmap s)"
  shows "\<exists>pid t th pcb c s' :: 'a os_scheme. ExceptionHandler (real_env self_switch ux yield al jb jw) SyscallException s = Inr s' \<and> resting ux s' \<and>
    pid \<in> {0..<10} - marked (pt_bm s) \<and> {0..<pid} \<subseteq> marked (pt_bm s) \<and>
    registers s' = (registers s)[2 := word_of_int pid, 36 := registers s ! 34, 34 := registers s ! 35, 35 := registers s ! 35 + 4] \<and>
    vbyte s' = vbyte s \<and> currentThread s' = currentThread s \<and> proc_table s' \<and> pcbs s' = (pcbs s)[nat pid := Some pcb] \<and>
    process_id pcb = pid \<and> parent_id pcb = int pp \<and> pcb_thread pcb = Some t \<and>
    threads s' = (threads s)(t \<mapsto> th) \<and> th_status th = READY \<and> th_point th = Fresh init_func 0 \<and> readyList s' = readyList s @ [t] \<and>
    (\<forall>run. init_func_body run (s'\<lparr>currentThread := t\<rparr>) = run c) \<and> registers c = (replicate 40 0)[35 := 4, 29 := noff_pages h * 128 - 16] \<and>
    (\<forall>x < 128 * unat (noff_pages h). vbyte c x = Some (noff_image h prog x))"
proof -
  let ?e = "real_env self_switch ux yield al jb jw :: 'a os_scheme env" and ?nm = "name_buffer s a"
  from run have q: "quiet s" by (auto simp: process_runs_def resting_def at_rest_def)
  then have ok: "core_ok s" "length (registers s) = 40" using run(2) by (simp_all add: core_ok_def quiet_def NumTotalRegs_def)
  from User2System_name [OF ok(1) call(4)] obtain s1 :: "'a os_scheme" where
    s1: "User2System a 49 s = Inr (?nm, s1)" "vbyte s1 = vbyte s" "same_mapping s s1" by blast
  from s1(3) obtain tb m where m: "s1 = s\<lparr>tables := tb, mainMemory := m\<rparr>" "mmu_ok s1" "phys_of s1 = phys_of s" by (auto simp: same_mapping_def)
  note r1 = same_mapping_runs [OF run(1) s1(3)]
  define s1' where "s1' = s1\<lparr>next_addr := Suc (Suc (Suc (next_addr s1)))\<rparr>"
  have "\<not> no_slot_for ?nm s1" using name(1) m(1) by (simp add: no_slot_for_def own_slot_def)
  from child_process_runs [OF r1 this, of al i prog h yield jb jw] name(2,3) prog m(1) obtain es pid pcb and s2 :: "'a os_scheme" where
    s2: "ExecUpdate ?e (Some ?nm) s1 = Inr (pid, s2)" "resting ux s2" "pid \<in> {0..<10} - marked (pt_bm s)" "{0..<pid} \<subseteq> marked (pt_bm s)"
      "spawned h prog es s1' s2" "proc_table s2" "pcbs s2 = (pcbs s)[nat pid := Some pcb]" "process_id pcb = pid" "parent_id pcb = int pp"
      "pcb_thread pcb = Some (next_addr s1')"
    by (auto simp: c_string_buffer s1'_def)
  have fh: "frames_held s1'" "mmu_ok s1'" "tlb s1' = None" "\<forall>a \<ge> next_addr s1'. tables s1' a = None" "vbyte s1' = vbyte s"
    using run(3) m(2,3) r1 s1(2) by (simp_all add: frames_held_def s1'_def process_runs_def unused_above_def) (simp add: m(1))
  note v = spawned_caller [OF s2(5) fh(2,3,1,4)]
  from result_ok [OF s2(2) v(2), of pid] obtain s3 :: "'a os_scheme" where
    s3: "rbind (result pid s2) advance_counters = Inr s3" "resting ux s3"
      "s3 = s2\<lparr>registers := (registers s2)[2 := word_of_int pid, 36 := registers s2 ! 34, 34 := registers s2 ! 35, 35 := registers s2 ! 35 + 4]\<rparr>" by blast
  from spawned_runs [OF s2(5) fh(3)] obtain c where
    c: "\<forall>run r. length r = NumTotalRegs \<longrightarrow> init_func_body run (s2\<lparr>registers := r, currentThread := next_addr s1'\<rparr>) = run c"
      "registers c = start_registers (noff_pages h)" "\<forall>x < 128 * unat (noff_pages h). vbyte c x = Some (noff_image h prog x)" by blast
  from s2(5) obtain th where th: "threads s2 = (threads s)(next_addr s1' \<mapsto> th)" "th_status th = READY" "th_point th = Fresh init_func 0"
      "readyList s2 = readyList s @ [next_addr s1']" "registers s2 = registers s" "currentThread s2 = currentThread s"
    using m(1) by (auto simp: spawned_def s1'_def)
  have "syscall ?e 23 s = rbind (result pid s2) (\<lambda>u. Inr (True, u))"
    using s1(1) s2(1) call(2,3) ok(2) by (simp add: syscall_def Let_def do_ExecProcess_def with_name_def ReadRegister_def NumTotalRegs_def rbind_assoc)
  then have "ExceptionHandler ?e SyscallException s = Inr s3"
    using s3(1) arg_int_ok [OF ok(1), of 2] call(1) by (simp add: ExceptionHandler_def rbind_assoc)
  moreover have "vbyte s3 = vbyte s" using v(1) fh(5) by (simp add: s3(3))
  moreover have "init_func_body run (s3\<lparr>currentThread := next_addr s1'\<rparr>) = run c" for run
    using c(1) [rule_format, of "registers s3" run] th(5) ok(2) by (simp add: s3(3) NumTotalRegs_def)
  moreover have "proc_table s3" using s2(6) by (simp add: s3(3) proc_table_def)
  ultimately show ?thesis using s2(3,4,7-10) s3(2) c(2,3) th
    by (intro exI [of _ pid] exI [of _ "next_addr s1'"] exI [of _ th] exI [of _ pcb] exI [of _ c] exI [of _ s3])
      (simp add: s3(3) start_registers_def NumTotalRegs_def)
qed

text \<open>A caller with one page, in frame 0, that has the string at address 4.\<close>

definition caller_machine :: os where
  "caller_machine = parent_machine\<lparr>registers := (replicate 40 0)[2 := 23, 4 := 4, 34 := 64, 35 := 68], mainMemory := (\<lambda>_. 0)(4 := 112),
     tables := [3 \<mapsto> [\<lparr>virtualPage = 0, physicalPage = 0, valid = True, readOnly = False, te_use = False, dirty = False\<rparr>]],
     pageTable := Some 3, pageTableSize := 1\<rparr>"

lemma caller_machine_view:
  "phys_of caller_machine x = (if x < 128 then Some x else None)" "vbyte caller_machine x = (if x < 128 then Some (if x = 4 then 112 else 0) else None)"
  "accessible caller_machine va 1 False = (unat va < 128)"
proof -
  have t: "tlb caller_machine = None" "pageTable caller_machine = Some 3" "pageTableSize caller_machine = 1" "mainMemory caller_machine = (\<lambda>_. 0)(4 := 112)"
      "tables caller_machine 3 = Some [\<lparr>virtualPage = 0, physicalPage = 0, valid = True, readOnly = False, te_use = False, dirty = False\<rparr>]"
    by (simp_all add: caller_machine_def parent_machine_def exec_machine_def loader_machine_def os_machine_def)
  consider "x div 128 = 0" "x < 128" | "1 \<le> x div 128" "128 \<le> x" by force
  then show p: "phys_of caller_machine x = (if x < 128 then Some x else None)"
    by cases (auto simp: phys_of_def page_entry_def t)
  then show "vbyte caller_machine x = (if x < 128 then Some (if x = 4 then 112 else 0) else None)" by (simp add: vbyte_def t)
  consider "unat va div 128 = 0" "unat va < 128" | "1 \<le> unat va div 128" "128 \<le> unat va" by force
  then show "accessible caller_machine va 1 False = (unat va < 128)"
    by cases (auto simp: accessible_def aligned_def page_entry_def t)
qed

lemma caller_machine_runs: "process_runs silence 0 caller_machine" "marked (pt_bm caller_machine) = {0}"
proof -
  have r: "resting silence parent_machine" using parent_machine_runs(1) by (simp add: process_runs_def)
  then obtain th where th: "threads parent_machine (currentThread parent_machine) = Some th" using proc.alive by blast
  have "th_space th = None" "th_stack th = None" using th by (auto simp: parent_machine_def exec_machine_def loader_machine_def os_machine_def Thread_new_def)
  then have "resting silence caller_machine"
    using th by (intro proc.adopt [OF r, where th = th]) (simp_all add: same_devices_def quiet_def own_context_def caller_machine_def NumTotalRegs_def)
  then show "process_runs silence 0 caller_machine"
    using parent_machine_runs(1) by (auto simp: process_runs_def proc_table_def own_slot_def unused_above_def caller_machine_def) (simp_all add: parent_machine_def)
  show "marked (pt_bm caller_machine) = {0}" using parent_machine_runs(2) by (simp add: caller_machine_def)
qed

theorem exec_system_call_witness:
  "\<exists>s'. ExceptionHandler (real_env self_switch silence Inr (\<lambda>_. True) (\<lambda>_. 0) (\<lambda>_. 0)) SyscallException caller_machine = Inr s' \<and>
     registers s' ! 2 = 1 \<and> registers s' ! 34 = 68 \<and> (\<exists>t. readyList s' = [t])"
proof -
  let ?h = "noff_header (take 40 tiny_program)"
  have "user_string caller_machine 4 (Suc (Suc k)) = [112]" "readable caller_machine 4 (Suc (Suc k))" for k
    by (simp_all add: caller_machine_view)
  from this [of 47] have str: "user_string caller_machine 4 49 = [112]" and rd: "readable caller_machine 4 49" by simp_all
  have p: "readyList caller_machine = []" "u_names (hostfs caller_machine) [112] = Some 0" "u_inodes (hostfs caller_machine) 0 = tiny_program"
      "gPhysPageBitmap caller_machine = gPhysPageBitmap exec_machine" "mmu_ok caller_machine"
    by (simp_all add: caller_machine_def parent_machine_def exec_machine_def loader_machine_def os_machine_def mmu_ok_def)
  have f: "fits ?h tiny_program (gPhysPageBitmap caller_machine)"
    using loader_machine_loadable p(4) by (simp add: loadable_fits exec_machine_def)
  have "0 \<in> marked (gPhysPageBitmap caller_machine)"
    by (simp add: caller_machine_def parent_machine_def exec_machine_def loader_machine_def marked_def bit_at_def)
  then have fh: "frames_held caller_machine" by (simp add: frames_held_def caller_machine_view)
  have "no_slot_for nm caller_machine = no_slot_for nm parent_machine" for nm
    by (simp add: no_slot_for_def own_slot_def caller_machine_def)
  then have ns: "\<not> no_slot_for (name_buffer caller_machine 4) caller_machine"
    using parent_machine_slot c_string_buffer [of caller_machine 4] str by simp
  have rg: "registers caller_machine = (replicate 40 0)[2 := 23, 4 := 4, 34 := 64, 35 := 68]" by (simp add: caller_machine_def)
  from exec_system_call [OF caller_machine_runs(1) p(5) fh _ _ _ rd ns, of "\<lambda>_. True" 0 tiny_program ?h Inr "\<lambda>_. 0" "\<lambda>_. 0"] rg str p f
  obtain pid t and s' :: os where
    s': "ExceptionHandler (real_env self_switch silence Inr (\<lambda>_. True) (\<lambda>_. 0) (\<lambda>_. 0)) SyscallException caller_machine = Inr s'"
      "pid \<in> {0..<10} - {0}" "{0..<pid} \<subseteq> {0}" "registers s' = (registers caller_machine)[2 := word_of_int pid, 36 := 64, 34 := 68, 35 := 72]"
      "readyList s' = [t]"
    using caller_machine_runs(2) by auto
  moreover have "pid = 1" by (rule slot_one [OF s'(2,3)])
  ultimately show ?thesis using rg by auto
qed

end
