(* ===== verification/Coff_Noff.thy ===== *)
theory Coff_Noff
  imports First_Process
begin

text \<open>
  The tool that makes executables: bin/coff2noff.c turns the output of the compiler (a COFF file, bin/coff.h) into the file that the
  loader of the kernel reads (bin/noff.h). It runs on the UNIX files of the theory \<open>Os_State\<close>; \<^verbatim>\<open>long\<close> has 32 bits, as
  in the files that the compiler writes, so \<^verbatim>\<open>struct filehdr\<close>, \<^verbatim>\<open>struct aouthdr\<close> and \<^verbatim>\<open>struct scnhdr\<close> have 20, 56 and 40 bytes.

  Every way out of the program is a value: \<open>Exit n\<close> with the files it leaves, \<open>Broken\<close> where the behaviour of C is undefined (a section of
  negative size, an overflow), \<open>Next\<close> otherwise. The fields of the local variable \<^verbatim>\<open>noffH\<close> that are not set come from the argument \<open>junk\<close>.
  \<^verbatim>\<open>malloc\<close> is assumed to succeed, and the messages are left out.
\<close>

subsection \<open>The program\<close>

datatype 'a tool = Exit int unixfs | Broken | Next 'a unixfs

fun tbind :: "'a tool \<Rightarrow> ('a \<Rightarrow> unixfs \<Rightarrow> 'b tool) \<Rightarrow> 'b tool" where
  "tbind (Exit n u) f = Exit n u"
| "tbind Broken f = Broken"
| "tbind (Next x u) f = f x u"

definition MIPSELMAGIC :: "16 word" where "MIPSELMAGIC = 0x0162"
definition OMAGIC :: "16 word" where "OMAGIC = 0x107"

record scnhdr =
  s_name :: "byte list"
  s_paddr :: int32
  s_size :: int32
  s_scnptr :: int32

text \<open>A section header as it is after the loop that converts three of its words.\<close>

definition coff_word :: "byte list \<Rightarrow> nat \<Rightarrow> int32" where
  "coff_word bs i = WordToHost HOST_IS_BIG_ENDIAN (host_load32 HOST_IS_BIG_ENDIAN (take 4 (drop i bs)))"

definition coff_short :: "byte list \<Rightarrow> nat \<Rightarrow> 16 word" where
  "coff_short bs i = ShortToHost HOST_IS_BIG_ENDIAN (host_load16 HOST_IS_BIG_ENDIAN (take 2 (drop i bs)))"

definition section_header :: "byte list \<Rightarrow> scnhdr" where
  "section_header bs = \<lparr>s_name = take 8 bs, s_paddr = coff_word bs 8, s_size = coff_word bs 16, s_scnptr = coff_word bs 20\<rparr>"

text \<open>\<^verbatim>\<open>unlink(noffFileName); exit(1);\<close>\<close>

definition give_up :: "byte list option \<Rightarrow> unixfs \<Rightarrow> 'a tool" where
  "give_up noff u = Exit 1 (case noff of None \<Rightarrow> u | Some n \<Rightarrow> snd (u_unlink n u))"

definition tool_Read :: "byte list option \<Rightarrow> int \<Rightarrow> int \<Rightarrow> unixfs \<Rightarrow> byte list tool" where
  "tool_Read noff fd nBytes u =
     (if nBytes < 0 then Broken
      else let ((k, buf), u1) = u_read fd (nat nBytes) u in if k \<noteq> nBytes then give_up noff u1 else Next buf u1)"

definition tool_Write :: "byte list option \<Rightarrow> int \<Rightarrow> byte list \<Rightarrow> unixfs \<Rightarrow> unit tool" where
  "tool_Write noff fd buf u =
     (let (k, u1) = u_write fd buf u in if k \<noteq> int (length buf) then give_up noff u1 else Next () u1)"

text \<open>The bytes of one section: seek, read, write.\<close>

definition copy_bytes :: "byte list option \<Rightarrow> int \<Rightarrow> int \<Rightarrow> scnhdr \<Rightarrow> unixfs \<Rightarrow> unit tool" where
  "copy_bytes noff fdIn fdOut sc u =
     (let u1 = snd (u_lseek fdIn (sint (s_scnptr sc)) 0 u) in
      tbind (tool_Read noff fdIn (sint (s_size sc)) u1) (\<lambda>buffer. tool_Write noff fdOut buffer))"

definition named :: "string \<Rightarrow> scnhdr \<Rightarrow> bool" where
  "named n sc \<longleftrightarrow> c_string (s_name sc) = char_bytes n"

definition in_int :: "int \<Rightarrow> (int \<Rightarrow> 'a tool) \<Rightarrow> 'a tool" where
  "in_int n f = (case cint n of Inl _ \<Rightarrow> Broken | Inr k \<Rightarrow> f k)"

text \<open>The loop over the sections. The names that it compares with are shorter than the field.\<close>

fun copy_sections :: "byte list option \<Rightarrow> int \<Rightarrow> int \<Rightarrow> scnhdr list \<Rightarrow> int \<Rightarrow> NoffHeader \<Rightarrow> unixfs \<Rightarrow> NoffHeader tool" where
  "copy_sections noff fdIn fdOut [] inNoffFile h u = Next h u"
| "copy_sections noff fdIn fdOut (sc # scs) inNoffFile h u =
     (if s_size sc = 0 then copy_sections noff fdIn fdOut scs inNoffFile h u
      else if named ''.text'' sc
      then tbind (copy_bytes noff fdIn fdOut sc u) (\<lambda>_ u1.
           in_int (inNoffFile + sint (s_size sc)) (\<lambda>n.
           copy_sections noff fdIn fdOut scs n
             (h\<lparr>nf_code := \<lparr>sg_virtualAddr = s_paddr sc, sg_inFileAddr = of_int inNoffFile, sg_size = s_size sc\<rparr>\<rparr>) u1))
      else if named ''.data'' sc \<or> named ''.rdata'' sc
      then if sg_size (nf_initData h) \<noteq> 0 then give_up noff u
           else tbind (copy_bytes noff fdIn fdOut sc u) (\<lambda>_ u1.
                in_int (inNoffFile + sint (s_size sc)) (\<lambda>n.
                copy_sections noff fdIn fdOut scs n
                  (h\<lparr>nf_initData := \<lparr>sg_virtualAddr = s_paddr sc, sg_inFileAddr = of_int inNoffFile, sg_size = s_size sc\<rparr>\<rparr>) u1))
      else if named ''.bss'' sc \<or> named ''.sbss'' sc
      then let b = nf_uninitData h in
           if sg_size b \<noteq> 0
           then in_int (sint (sg_virtualAddr b) + sint (sg_size b)) (\<lambda>a.
                if sint (s_paddr sc) = a then give_up noff u
                else in_int (sint (sg_size b) + sint (s_size sc)) (\<lambda>n.
                  copy_sections noff fdIn fdOut scs inNoffFile (h\<lparr>nf_uninitData := b\<lparr>sg_size := of_int n\<rparr>\<rparr>) u))
           else copy_sections noff fdIn fdOut scs inNoffFile
                  (h\<lparr>nf_uninitData := b\<lparr>sg_virtualAddr := s_paddr sc, sg_size := s_size sc\<rparr>\<rparr>) u
      else give_up noff u)"

definition segment_words :: "Segment \<Rightarrow> int32 list" where
  "segment_words sg = [sg_virtualAddr sg, sg_inFileAddr sg, sg_size sg]"

definition noff_bytes :: "NoffHeader \<Rightarrow> byte list" where
  "noff_bytes h = concat (map (host_store32 HOST_IS_BIG_ENDIAN)
     (noffMagic h # segment_words (nf_code h) @ segment_words (nf_initData h) @ segment_words (nf_uninitData h)))"

text \<open>The header before the loop: no segment has a size yet.\<close>

definition empty_header :: "NoffHeader \<Rightarrow> NoffHeader" where
  "empty_header junk = \<lparr>noffMagic = NOFFMAGIC, nf_code = (nf_code junk)\<lparr>sg_size := 0\<rparr>, nf_initData = (nf_initData junk)\<lparr>sg_size := 0\<rparr>,
     nf_uninitData = (nf_uninitData junk)\<lparr>sg_size := 0\<rparr>\<rparr>"

text \<open>\<^verbatim>\<open>main\<close> from the arguments behind the name of the program; a missing second argument is a null pointer, with which \<^verbatim>\<open>open\<close> fails.\<close>

definition coff2noff ::
    "(byte list \<Rightarrow> bool) \<Rightarrow> (byte list \<Rightarrow> bool) \<Rightarrow> NoffHeader \<Rightarrow> byte list list \<Rightarrow> unixfs \<Rightarrow> unit tool" where
  "coff2noff may_read may_write junk argv u =
     (case argv of
        [] \<Rightarrow> Exit 1 u
      | nm # rest \<Rightarrow>
          let (fdIn, u1) = u_open (may_read nm) False nm u in
          if fdIn = - 1 then Exit 1 u1
          else
            let noff = (case rest of [] \<Rightarrow> None | b # _ \<Rightarrow> Some b);
                (fdOut, u2) = (case noff of None \<Rightarrow> (- 1, u1) | Some b \<Rightarrow> u_open (may_write b) True b u1) in
            tbind (tool_Read noff fdIn 20 u2) (\<lambda>fileh u3.
            if coff_short fileh 0 \<noteq> MIPSELMAGIC then give_up noff u3
            else tbind (tool_Read noff fdIn 56 u3) (\<lambda>systemh u4.
            if coff_short systemh 0 \<noteq> OMAGIC then give_up noff u4
            else
              let numsections = uint (coff_short fileh 2) in
              tbind (tool_Read noff fdIn (numsections * 40) u4) (\<lambda>bs u5.
              let sections = map (\<lambda>i. section_header (take 40 (drop (40 * i) bs))) [0..<nat numsections];
                  u6 = snd (u_lseek fdOut 40 0 u5) in
              tbind (copy_sections noff fdIn fdOut sections 40 (empty_header junk) u6) (\<lambda>h u7.
              let u8 = snd (u_lseek fdOut 0 0 u7) in
              tbind (tool_Write noff fdOut (noff_bytes h) u8) (\<lambda>_ u9.
              Exit 0 (snd (u_close fdOut (snd (u_close fdIn u9))))))))))"

subsection \<open>Two open files\<close>

text \<open>The input is \<open>coff\<close>, at some position; the output holds \<open>out\<close> and is at position \<open>pos\<close>.\<close>

definition two_files :: "int \<Rightarrow> int \<Rightarrow> nat \<Rightarrow> nat \<Rightarrow> byte list \<Rightarrow> byte list \<Rightarrow> int \<Rightarrow> (byte list \<rightharpoonup> nat) \<Rightarrow> unixfs \<Rightarrow> bool" where
  "two_files fi fo ii io coff out pos names u \<longleftrightarrow>
     fi \<noteq> fo \<and> ii \<noteq> io \<and> (\<exists>p. fd_at fi u = Some (ii, p)) \<and> fd_at fo u = Some (io, pos) \<and> u_inodes u ii = coff \<and> u_inodes u io = out \<and> u_names u = names"

lemma fd_at_set_other: "fd_at fd u \<noteq> None \<Longrightarrow> fd \<noteq> fd' \<Longrightarrow> fd_at fd' u \<noteq> None \<Longrightarrow> fd_at fd' (set_fd fd x u) = fd_at fd' u"
  by (auto simp: fd_at_def set_fd_def nth_list_update split: if_splits)

lemma set_fd_fields [simp]: "u_inodes (set_fd fd x u) = u_inodes u" "u_names (set_fd fd x u) = u_names u"
  by (simp_all add: set_fd_def)

lemma fd_at_inodes [simp]: "fd_at fd (u\<lparr>u_inodes := x\<rparr>) = fd_at fd u"
  by (simp add: fd_at_def)

lemma read_input:
  assumes "two_files fi fo ii io coff out pos names u" "fd_at fi u = Some (ii, int p)" "p + n \<le> length coff"
  shows "\<exists>u'. tool_Read noff fi (int n) u = Next (take n (drop p coff)) u' \<and> two_files fi fo ii io coff out pos names u' \<and> fd_at fi u' = Some (ii, int (p + n))"
  using assms by (auto simp: two_files_def tool_Read_def u_read_def fd_at_set fd_at_set_other Let_def)

lemma seek_input:
  assumes "two_files fi fo ii io coff out pos names u" "0 \<le> q"
  shows "two_files fi fo ii io coff out pos names (snd (u_lseek fi q 0 u)) \<and> fd_at fi (snd (u_lseek fi q 0 u)) = Some (ii, q)"
  using assms by (auto simp: two_files_def u_lseek_def fd_at_set fd_at_set_other Let_def)

lemma seek_output:
  assumes "two_files fi fo ii io coff out pos names u" "0 \<le> q"
  shows "two_files fi fo ii io coff out q names (snd (u_lseek fo q 0 u)) \<and> fd_at fi (snd (u_lseek fo q 0 u)) = fd_at fi u"
  using assms by (auto simp: two_files_def u_lseek_def fd_at_set fd_at_set_other Let_def)

lemma write_output:
  assumes "two_files fi fo ii io coff out pos names u" "bs \<noteq> []"
  shows "\<exists>u'. tool_Write noff fo bs u = Next () u' \<and> two_files fi fo ii io coff (file_write out (nat pos) bs) (pos + int (length bs)) names u'"
  using assms by (auto simp: two_files_def tool_Write_def u_write_def fd_at_set fd_at_set_other Let_def)

subsection \<open>The sections of the input\<close>

definition is_text :: "scnhdr \<Rightarrow> bool" where "is_text sc \<longleftrightarrow> s_size sc \<noteq> 0 \<and> named ''.text'' sc"
definition is_data :: "scnhdr \<Rightarrow> bool" where "is_data sc \<longleftrightarrow> s_size sc \<noteq> 0 \<and> (named ''.data'' sc \<or> named ''.rdata'' sc)"
definition is_bss :: "scnhdr \<Rightarrow> bool" where "is_bss sc \<longleftrightarrow> s_size sc \<noteq> 0 \<and> (named ''.bss'' sc \<or> named ''.sbss'' sc)"

lemma kinds_distinct: "\<not> (is_text sc \<and> is_data sc)" "\<not> (is_text sc \<and> is_bss sc)" "\<not> (is_data sc \<and> is_bss sc)"
  by (auto simp: is_text_def is_data_def is_bss_def named_def char_bytes_def)

definition sect_ok :: "byte list \<Rightarrow> scnhdr \<Rightarrow> bool" where
  "sect_ok coff sc \<longleftrightarrow> 0 \<le> sint (s_size sc) \<and> (s_size sc \<noteq> 0 \<longrightarrow> is_text sc \<or> is_data sc \<or> is_bss sc) \<and>
     (is_text sc \<or> is_data sc \<longrightarrow> 0 \<le> sint (s_paddr sc) \<and> 0 \<le> sint (s_scnptr sc) \<and> sint (s_scnptr sc) + sint (s_size sc) \<le> int (length coff))"

definition sect_bytes :: "byte list \<Rightarrow> scnhdr \<Rightarrow> byte list" where
  "sect_bytes coff sc = take (nat (sint (s_size sc))) (drop (nat (sint (s_scnptr sc))) coff)"

text \<open>What is written behind the header.\<close>

definition body_of :: "byte list \<Rightarrow> scnhdr list \<Rightarrow> byte list" where
  "body_of coff ss = concat (map (sect_bytes coff) (filter (\<lambda>sc. is_text sc \<or> is_data sc) ss))"

definition out_file :: "byte list \<Rightarrow> byte list" where
  "out_file body = (if body = [] then [] else replicate 40 0 @ body)"

lemma out_file_append: "bs \<noteq> [] \<Longrightarrow> file_write (out_file body) (40 + length body) bs = out_file (body @ bs)"
  by (auto simp: file_write_def out_file_def)

lemma sect_bytes_length: "sect_ok coff sc \<Longrightarrow> is_text sc \<or> is_data sc \<Longrightarrow> int (length (sect_bytes coff sc)) = sint (s_size sc) \<and> sect_bytes coff sc \<noteq> []"
proof -
  assume a: "sect_ok coff sc" "is_text sc \<or> is_data sc"
  then have "s_size sc \<noteq> 0" "0 \<le> sint (s_size sc)" by (auto simp: is_text_def is_data_def sect_ok_def)
  then have "sint (s_size sc) > 0" using signed_eq_0_iff [of "s_size sc", where 'a = int] by linarith
  then show ?thesis using a by (auto simp: sect_ok_def sect_bytes_def)
qed

lemma copy_bytes_ok:
  assumes "two_files fi fo ii io coff (out_file body) (40 + int (length body)) names u" "sect_ok coff sc" "is_text sc \<or> is_data sc"
  shows "\<exists>u'. copy_bytes noff fi fo sc u = Next () u' \<and>
    two_files fi fo ii io coff (out_file (body @ sect_bytes coff sc)) (40 + int (length (body @ sect_bytes coff sc))) names u'"
proof -
  let ?q = "nat (sint (s_scnptr sc))" and ?n = "nat (sint (s_size sc))"
  have ok: "0 \<le> sint (s_scnptr sc)" "0 \<le> sint (s_size sc)" "?q + ?n \<le> length coff" using assms(2,3) by (auto simp: sect_ok_def)
  note s = seek_input [OF assms(1) ok(1)]
  from read_input [OF s [THEN conjunct1], of ?q ?n noff] s ok obtain u2 where
    u2: "tool_Read noff fi (sint (s_size sc)) (snd (u_lseek fi (sint (s_scnptr sc)) 0 u)) = Next (sect_bytes coff sc) u2"
      "two_files fi fo ii io coff (out_file body) (40 + int (length body)) names u2" by (auto simp: sect_bytes_def)
  from sect_bytes_length [OF assms(2,3)] have ne: "sect_bytes coff sc \<noteq> []" by simp
  have n: "nat (40 + int (length body)) = 40 + length body" by simp
  from write_output [OF u2(2) ne, of noff] u2(1) out_file_append [OF ne, of body] show ?thesis
    unfolding n by (auto simp: copy_bytes_def algebra_simps)
qed

subsection \<open>The loop\<close>

text \<open>A segment of the header describes the only section of its kind, if there is one.\<close>

definition holds_section :: "byte list \<Rightarrow> byte list \<Rightarrow> Segment \<Rightarrow> scnhdr \<Rightarrow> bool" where
  "holds_section coff body sg sc \<longleftrightarrow> sg_virtualAddr sg = s_paddr sc \<and> sg_size sg = s_size sc \<and>
     (\<exists>pre post. body = pre @ sect_bytes coff sc @ post \<and> seg_pos sg = 40 + int (length pre))"

definition placed :: "byte list \<Rightarrow> byte list \<Rightarrow> Segment \<Rightarrow> scnhdr list \<Rightarrow> bool" where
  "placed coff body sg l \<longleftrightarrow> l = [] \<and> sg_size sg = 0 \<or> (\<exists>sc. l = [sc] \<and> holds_section coff body sg sc)"

definition copied :: "byte list \<Rightarrow> scnhdr list \<Rightarrow> NoffHeader \<Rightarrow> bool" where
  "copied coff ss h \<longleftrightarrow> noffMagic h = NOFFMAGIC \<and> placed coff (body_of coff ss) (nf_code h) (filter is_text ss) \<and>
     placed coff (body_of coff ss) (nf_initData h) (filter is_data ss) \<and>
     sg_size (nf_uninitData h) = (case filter is_bss ss of [] \<Rightarrow> 0 | sc # _ \<Rightarrow> s_size sc)"

definition one_each :: "scnhdr list \<Rightarrow> bool" where
  "one_each ss \<longleftrightarrow> length (filter is_text ss) \<le> 1 \<and> length (filter is_data ss) \<le> 1 \<and> length (filter is_bss ss) \<le> 1"

lemma placed_append: "placed coff body sg l \<Longrightarrow> placed coff (body @ bs) sg l"
  by (fastforce simp: placed_def holds_section_def)

lemma sint_of_int32: "0 \<le> n \<Longrightarrow> n < 2 ^ 31 \<Longrightarrow> sint (of_int n :: int32) = n"
  by (simp add: signed_of_int signed_take_bit_int_eq_self)

lemma placed_new:
  assumes "40 + int (length body) < 2 ^ 31"
  shows "placed coff (body @ sect_bytes coff sc) \<lparr>sg_virtualAddr = s_paddr sc, sg_inFileAddr = of_int (40 + int (length body)), sg_size = s_size sc\<rparr> [sc]"
proof -
  have "sint (of_int (40 + int (length body)) :: int32) = 40 + int (length body)" by (rule sint_of_int32) (use assms in simp_all)
  then show ?thesis unfolding placed_def holds_section_def
    by (intro disjI2 exI [of _ sc] exI [of _ body] exI [of _ "[]"] conjI) (simp_all del: of_int_add)
qed

lemma body_of_append [simp]: "body_of coff (xs @ ys) = body_of coff xs @ body_of coff ys"
  by (simp add: body_of_def)

lemma body_of_single [simp]: "body_of coff [sc] = (if is_text sc \<or> is_data sc then sect_bytes coff sc else [])"
  by (simp add: body_of_def)

text \<open>What each kind of section does to the header.\<close>

lemma copied_skip: "copied coff ss h \<Longrightarrow> s_size sc = 0 \<Longrightarrow> copied coff (ss @ [sc]) h"
  by (simp add: copied_def is_text_def is_data_def is_bss_def)

lemma copied_text:
  assumes "copied coff ss h" "is_text sc" "filter is_text ss = []" "40 + int (length (body_of coff ss)) < 2 ^ 31"
  shows "copied coff (ss @ [sc]) (h\<lparr>nf_code := \<lparr>sg_virtualAddr = s_paddr sc, sg_inFileAddr = of_int (40 + int (length (body_of coff ss))), sg_size = s_size sc\<rparr>\<rparr>)"
  using assms placed_new [OF assms(4), of coff sc] kinds_distinct [of sc] by (auto simp: copied_def placed_append)

lemma copied_data:
  assumes "copied coff ss h" "is_data sc" "filter is_data ss = []" "40 + int (length (body_of coff ss)) < 2 ^ 31"
  shows "copied coff (ss @ [sc]) (h\<lparr>nf_initData := \<lparr>sg_virtualAddr = s_paddr sc, sg_inFileAddr = of_int (40 + int (length (body_of coff ss))), sg_size = s_size sc\<rparr>\<rparr>)"
  using assms placed_new [OF assms(4), of coff sc] kinds_distinct [of sc] by (auto simp: copied_def placed_append)

lemma copied_bss:
  assumes "copied coff ss h" "is_bss sc" "filter is_bss ss = []"
  shows "copied coff (ss @ [sc]) (h\<lparr>nf_uninitData := (nf_uninitData h)\<lparr>sg_virtualAddr := s_paddr sc, sg_size := s_size sc\<rparr>\<rparr>)"
  using assms kinds_distinct [of sc] by (auto simp: copied_def)

text \<open>One round of the loop, by the kind of the section.\<close>

lemma copy_sections_text:
  "is_text sc \<Longrightarrow> copy_sections noff fi fo (sc # scs) n h u = tbind (copy_bytes noff fi fo sc u) (\<lambda>_ u1. in_int (n + sint (s_size sc)) (\<lambda>k.
     copy_sections noff fi fo scs k (h\<lparr>nf_code := \<lparr>sg_virtualAddr = s_paddr sc, sg_inFileAddr = of_int n, sg_size = s_size sc\<rparr>\<rparr>) u1))"
  by (simp add: is_text_def)

lemma copy_sections_data:
  "is_data sc \<Longrightarrow> sg_size (nf_initData h) = 0 \<Longrightarrow>
   copy_sections noff fi fo (sc # scs) n h u = tbind (copy_bytes noff fi fo sc u) (\<lambda>_ u1. in_int (n + sint (s_size sc)) (\<lambda>k.
     copy_sections noff fi fo scs k (h\<lparr>nf_initData := \<lparr>sg_virtualAddr = s_paddr sc, sg_inFileAddr = of_int n, sg_size = s_size sc\<rparr>\<rparr>) u1))"
  using kinds_distinct [of sc] by (auto simp: is_data_def is_text_def)

lemma copy_sections_bss:
  "is_bss sc \<Longrightarrow> sg_size (nf_uninitData h) = 0 \<Longrightarrow> copy_sections noff fi fo (sc # scs) n h u =
     copy_sections noff fi fo scs n (h\<lparr>nf_uninitData := (nf_uninitData h)\<lparr>sg_virtualAddr := s_paddr sc, sg_size := s_size sc\<rparr>\<rparr>) u"
  using kinds_distinct [of sc] by (auto simp: is_data_def is_text_def is_bss_def Let_def)

lemma copy_sections_ok:
  assumes "two_files fi fo ii io coff (out_file (body_of coff ss)) (40 + int (length (body_of coff ss))) names u" "copied coff ss h"
    and "one_each (ss @ rest)" "\<forall>sc \<in> set rest. sect_ok coff sc" "40 + int (length (body_of coff (ss @ rest))) < 2 ^ 31"
  shows "\<exists>h' u'. copy_sections noff fi fo rest (40 + int (length (body_of coff ss))) h u = Next h' u' \<and> copied coff (ss @ rest) h' \<and>
    two_files fi fo ii io coff (out_file (body_of coff (ss @ rest))) (40 + int (length (body_of coff (ss @ rest)))) names u'"
  using assms
proof (induction rest arbitrary: ss h u)
  case Nil
  then show ?case by simp
next
  case (Cons sc rest)
  let ?n = "40 + int (length (body_of coff ss))"
  have ok: "sect_ok coff sc" using Cons.prems(4) by simp
  have assoc: "ss @ sc # rest = (ss @ [sc]) @ rest" by simp
  have small: "?n < 2 ^ 31" using Cons.prems(5) by simp
  note IH = Cons.IH [of "ss @ [sc]", OF _ _ Cons.prems(3) [unfolded assoc] _ Cons.prems(5) [unfolded assoc], folded assoc]
  have rest: "\<forall>sc \<in> set rest. sect_ok coff sc" using Cons.prems(4) by simp
  have copy: "\<exists>h' u'. tbind (copy_bytes noff fi fo sc u) (\<lambda>_ u1. in_int (?n + sint (s_size sc)) (\<lambda>k. copy_sections noff fi fo rest k h1 u1)) = Next h' u' \<and>
      copied coff (ss @ sc # rest) h' \<and>
      two_files fi fo ii io coff (out_file (body_of coff (ss @ sc # rest))) (40 + int (length (body_of coff (ss @ sc # rest)))) names u'"
    if k: "is_text sc \<or> is_data sc" "copied coff (ss @ [sc]) h1" for h1
  proof -
    from copy_bytes_ok [OF Cons.prems(1) ok k(1)] obtain u1 where
      u1: "copy_bytes noff fi fo sc u = Next () u1"
        "two_files fi fo ii io coff (out_file (body_of coff (ss @ [sc]))) (40 + int (length (body_of coff (ss @ [sc])))) names u1"
      using k(1) by auto
    have n: "?n + sint (s_size sc) = 40 + int (length (body_of coff (ss @ [sc])))"
      using sect_bytes_length [OF ok k(1)] k(1) by simp
    have "body_of coff (ss @ sc # rest) = body_of coff (ss @ [sc]) @ body_of coff rest" unfolding assoc by (rule body_of_append)
    then have "word_range (?n + sint (s_size sc))" unfolding n using Cons.prems(5) by (simp add: word_range_def del: body_of_append)
    then have "in_int (?n + sint (s_size sc)) f = f (40 + int (length (body_of coff (ss @ [sc]))))" for f :: "int \<Rightarrow> NoffHeader tool"
      unfolding n by (simp only: in_int_def cint_ok sum.case)
    then show ?thesis using IH [OF u1(2) k(2) rest] unfolding u1(1) tbind.simps by (simp only:)
  qed
  consider "s_size sc = 0" | "is_text sc" | "is_data sc" | "is_bss sc" using ok by (auto simp: sect_ok_def)
  then show ?case
  proof cases
    case 1
    then have "body_of coff (ss @ [sc]) = body_of coff ss" by (simp add: is_text_def is_data_def)
    then show ?thesis using IH [OF _ copied_skip [OF Cons.prems(2) 1] rest, of u] Cons.prems(1) 1 by simp
  next
    case 2
    then have "filter is_text ss = []" using Cons.prems(3) by (auto simp: one_each_def)
    with copy [OF _ copied_text [OF Cons.prems(2) 2 _ small]] 2 show ?thesis by (simp add: copy_sections_text del: copy_sections.simps)
  next
    case 3
    then have e: "filter is_data ss = []" using Cons.prems(3) by (auto simp: one_each_def)
    then have "sg_size (nf_initData h) = 0" using Cons.prems(2) by (auto simp: copied_def placed_def)
    with copy [OF _ copied_data [OF Cons.prems(2) 3 e small]] 3 show ?thesis by (simp add: copy_sections_data del: copy_sections.simps)
  next
    case 4
    then have e: "filter is_bss ss = []" "body_of coff (ss @ [sc]) = body_of coff ss" using Cons.prems(3) kinds_distinct [of sc] by (auto simp: one_each_def)
    then have "sg_size (nf_uninitData h) = 0" using Cons.prems(2) by (auto simp: copied_def)
    then show ?thesis using IH [OF _ copied_bss [OF Cons.prems(2) 4 e(1)] rest, of u] Cons.prems(1) e(2) 4
      by (simp add: copy_sections_bss del: copy_sections.simps)
  qed
qed

subsection \<open>The output\<close>

lemma noff_word_concat:
  assumes "i < length ws"
  shows "noff_word (concat (map (host_store32 HOST_IS_BIG_ENDIAN) ws)) i = ws ! i"
proof -
  let ?f = "host_store32 HOST_IS_BIG_ENDIAN"
  have len: "length (?f w) = 4" for w by (simp add: host_store32_def Let_def)
  have "drop (4 * i) (concat (map ?f ws)) = ?f (ws ! i) @ concat (map ?f (drop (Suc i) ws))"
    using assms by (simp add: drop_concat_blocks len Cons_nth_drop_Suc [symmetric])
  then show ?thesis by (simp add: noff_word_def len host_store_load32)
qed

lemma noff_bytes_length [simp]: "length (noff_bytes h) = 40"
  by (simp add: noff_bytes_def segment_words_def host_store32_def Let_def)

lemma noff_header_of_bytes: "noff_header (noff_bytes h) = h"
proof -
  let ?ws = "noffMagic h # segment_words (nf_code h) @ segment_words (nf_initData h) @ segment_words (nf_uninitData h)"
  have "noff_word (noff_bytes h) i = ?ws ! i" if "i < 10" for i
    unfolding noff_bytes_def by (rule noff_word_concat) (use that in \<open>simp add: segment_words_def\<close>)
  then show ?thesis by (simp add: noff_header_def noff_segment_def segment_words_def)
qed

text \<open>What a section puts at an address of the program.\<close>

definition covers :: "nat \<Rightarrow> scnhdr \<Rightarrow> bool" where
  "covers x sc \<longleftrightarrow> sint (s_paddr sc) \<le> int x \<and> int x < sint (s_paddr sc) + sint (s_size sc)"

definition section_byte :: "byte list \<Rightarrow> nat \<Rightarrow> scnhdr \<Rightarrow> byte" where
  "section_byte coff x sc = coff ! nat (int x - sint (s_paddr sc) + sint (s_scnptr sc))"

definition coff_image :: "byte list \<Rightarrow> scnhdr list \<Rightarrow> nat \<Rightarrow> byte" where
  "coff_image coff ss x =
     (case find (covers x) (filter is_data ss) of
        Some sc \<Rightarrow> section_byte coff x sc
      | None \<Rightarrow> (case find (covers x) (filter is_text ss) of Some sc \<Rightarrow> section_byte coff x sc | None \<Rightarrow> 0))"

lemma holds_section_image:
  assumes "holds_section coff body sg sc" "sect_ok coff sc" "is_text sc \<or> is_data sc" "length hdr = 40"
  shows "x \<in> seg_addrs sg \<longleftrightarrow> covers x sc"
    and "covers x sc \<Longrightarrow> (hdr @ body) ! nat (int x + (seg_pos sg - seg_va sg)) = section_byte coff x sc"
    and "seg_pos sg + seg_size sg \<le> int (length (hdr @ body)) \<and> 0 \<le> seg_pos sg"
proof -
  from assms(1) obtain pre post where
    h: "sg_virtualAddr sg = s_paddr sc" "sg_size sg = s_size sc" "body = pre @ sect_bytes coff sc @ post" "seg_pos sg = 40 + int (length pre)"
    by (auto simp: holds_section_def)
  have ok: "0 \<le> sint (s_paddr sc)" "0 \<le> sint (s_scnptr sc)" "sint (s_scnptr sc) + sint (s_size sc) \<le> int (length coff)"
    using assms(2,3) by (simp_all add: sect_ok_def)
  have len: "int (length (sect_bytes coff sc)) = sint (s_size sc)" using sect_bytes_length [OF assms(2,3)] by simp
  show "x \<in> seg_addrs sg \<longleftrightarrow> covers x sc" using h ok(1) by (auto simp: seg_addrs_def covers_def)
  show "seg_pos sg + seg_size sg \<le> int (length (hdr @ body)) \<and> 0 \<le> seg_pos sg" using h len assms(4) by simp
  assume c: "covers x sc"
  define d where "d = nat (int x - sint (s_paddr sc))"
  have d: "int x = sint (s_paddr sc) + int d" "d < length (sect_bytes coff sc)" using c len by (auto simp: d_def covers_def)
  have "nat (int x + (seg_pos sg - seg_va sg)) = 40 + (length pre + d)" using h(1,4) d(1) by simp
  then have "(hdr @ body) ! nat (int x + (seg_pos sg - seg_va sg)) = sect_bytes coff sc ! d"
    using assms(4) h(3) d(2) by (simp add: nth_append)
  also have "\<dots> = coff ! (nat (sint (s_scnptr sc)) + d)" using d(2) by (auto simp: sect_bytes_def intro: nth_drop)
  also have "nat (sint (s_scnptr sc)) + d = nat (int x - sint (s_paddr sc) + sint (s_scnptr sc))" using d(1) ok(2) by simp
  finally show "(hdr @ body) ! nat (int x + (seg_pos sg - seg_va sg)) = section_byte coff x sc" by (simp add: section_byte_def)
qed

lemma placed_image:
  assumes "placed coff body sg (filter P ss)" "\<forall>sc \<in> set ss. sect_ok coff sc" "\<And>sc. P sc \<Longrightarrow> is_text sc \<or> is_data sc" "length hdr = 40"
  shows "(if x \<in> seg_addrs sg then (hdr @ body) ! nat (int x + (seg_pos sg - seg_va sg)) else z) =
    (case find (covers x) (filter P ss) of Some sc \<Rightarrow> section_byte coff x sc | None \<Rightarrow> z)"
  using assms(1) unfolding placed_def
proof (elim disjE exE conjE)
  assume "filter P ss = []" "sg_size sg = 0"
  then show ?thesis by (simp add: seg_addrs_def)
next
  fix sc
  assume l: "filter P ss = [sc]" and h: "holds_section coff body sg sc"
  have "sc \<in> set (filter P ss)" using l by simp
  then have "sc \<in> set ss" "P sc" by simp_all
  with assms(2,3) have "sect_ok coff sc" "is_text sc \<or> is_data sc" by auto
  from holds_section_image(1,2) [OF h this assms(4), of x] l show ?thesis by simp
qed

lemma placed_seg_ok:
  assumes "placed coff body sg (filter P ss)" "\<forall>sc \<in> set ss. sect_ok coff sc" "\<And>sc. P sc \<Longrightarrow> is_text sc \<or> is_data sc" "length hdr = 40"
    and "\<forall>sc \<in> set ss. P sc \<longrightarrow> sint (s_paddr sc) + sint (s_size sc) \<le> int (128 * n)"
  shows "seg_ok n (hdr @ body) sg"
  using assms(1) unfolding placed_def
proof (elim disjE exE conjE)
  assume "sg_size sg = 0"
  then show ?thesis by (simp add: seg_ok_def)
next
  fix sc
  assume l: "filter P ss = [sc]" and h: "holds_section coff body sg sc"
  have "sc \<in> set (filter P ss)" using l by simp
  then have sc: "sc \<in> set ss" "P sc" by simp_all
  with assms(2,3) have k: "sect_ok coff sc" "is_text sc \<or> is_data sc" by auto
  from holds_section_image(3) [OF h k assms(4)] sc assms(5) k h show ?thesis by (auto simp: seg_ok_def holds_section_def sect_ok_def)
qed

lemma copied_image:
  assumes "copied coff ss h" "\<forall>sc \<in> set ss. sect_ok coff sc"
  shows "noff_image h (noff_bytes h @ body_of coff ss) x = coff_image coff ss x"
proof -
  have p: "placed coff (body_of coff ss) (nf_initData h) (filter is_data ss)" "placed coff (body_of coff ss) (nf_code h) (filter is_text ss)"
    using assms(1) by (simp_all add: copied_def)
  have d: "(if x \<in> seg_addrs (nf_initData h) then (noff_bytes h @ body_of coff ss) ! nat (int x + (seg_pos (nf_initData h) - seg_va (nf_initData h))) else z) =
      (case find (covers x) (filter is_data ss) of Some sc \<Rightarrow> section_byte coff x sc | None \<Rightarrow> z)" for z
    by (rule placed_image [OF p(1) assms(2)]) simp_all
  have c: "(if x \<in> seg_addrs (nf_code h) then (noff_bytes h @ body_of coff ss) ! nat (int x + (seg_pos (nf_code h) - seg_va (nf_code h))) else z) =
      (case find (covers x) (filter is_text ss) of Some sc \<Rightarrow> section_byte coff x sc | None \<Rightarrow> z)" for z
    by (rule placed_image [OF p(2) assms(2)]) simp_all
  show ?thesis unfolding noff_image_def coff_image_def c d ..
qed

subsection \<open>The whole run\<close>

text \<open>A COFF file and its sections.\<close>

definition coff_file :: "byte list \<Rightarrow> scnhdr list \<Rightarrow> bool" where
  "coff_file coff ss \<longleftrightarrow> coff_short coff 0 = MIPSELMAGIC \<and> coff_short (drop 20 coff) 0 = OMAGIC \<and> 76 + 40 * unat (coff_short coff 2) \<le> length coff \<and>
     ss = map (\<lambda>i. section_header (take 40 (drop (76 + 40 * i) coff))) [0..<unat (coff_short coff 2)]"

lemma coff_short_take: "i + 2 \<le> n \<Longrightarrow> coff_short (take n bs) i = coff_short bs i"
  by (simp add: coff_short_def drop_take min_def)

lemma new_fd_other: "new_fd i u = (fd, u') \<Longrightarrow> fd_at fd2 u \<noteq> None \<Longrightarrow> fd_at fd2 u' = fd_at fd2 u \<and> fd2 \<noteq> fd"
proof -
  assume n: "new_fd i u = (fd, u')" and o: "fd_at fd2 u \<noteq> None"
  let ?k = "length (takeWhile (\<lambda>x. x \<noteq> None) (u_fds u))"
  have "u_fds u ! ?k = None" if "?k < length (u_fds u)" using nth_length_takeWhile [OF that] by (simp only: not_not)
  with n o show ?thesis by (auto simp: new_fd_def Let_def fd_at_def nth_append nth_list_update split: if_splits)
qed

lemma fd_at_fds: "u_fds v = u_fds u \<Longrightarrow> fd_at fd v = fd_at fd u"
  by (simp add: fd_at_def)

text \<open>Opening the two files.\<close>

lemma open_two:
  assumes "u_names u nm = Some ii" "u_inodes u ii = coff" "u_names u out \<noteq> Some ii" "u_next u \<noteq> ii"
  shows "\<exists>fi fo io u1 u2 names. u_open True False nm u = (fi, u1) \<and> fi \<noteq> - 1 \<and> u_open True True out u1 = (fo, u2) \<and>
    two_files fi fo ii io coff [] 0 names u2 \<and> fd_at fi u2 = Some (ii, 0) \<and> names out = Some io"
proof -
  obtain fi u1 where o1: "new_fd ii u = (fi, u1)" by (cases "new_fd ii u")
  note f1 = fd_at_new_fd [OF o1]
  have u1: "u_names u1 = u_names u" "u_next u1 = u_next u" using o1 by (auto simp: new_fd_def Let_def)
  define io v where "io = (case u_names u out of Some i \<Rightarrow> i | None \<Rightarrow> u_next u)"
    and "v = (case u_names u out of Some i \<Rightarrow> u1\<lparr>u_inodes := (u_inodes u1)(i := [])\<rparr>
      | None \<Rightarrow> u1\<lparr>u_names := (u_names u1)(out \<mapsto> u_next u1), u_inodes := (u_inodes u1)(u_next u1 := []), u_next := Suc (u_next u1)\<rparr>)"
  obtain fo u2 where o2: "new_fd io v = (fo, u2)" by (cases "new_fd io v")
  note f2 = fd_at_new_fd [OF o2]
  have "u_fds v = u_fds u1" by (simp add: v_def split: option.splits)
  then have v: "fd_at fi v = Some (ii, 0)" "u_inodes v = (u_inodes u1)(io := [])" "u_names v out = Some io" "ii \<noteq> io"
    using f1 u1 assms(3,4) fd_at_fds [of v u1] by (auto simp: io_def v_def split: option.splits)
  have "u_open True False nm u = (fi, u1)" "u_open True True out u1 = (fo, u2)"
    using o1 o2 assms(1) u1 by (auto simp: u_open_def io_def v_def split: option.splits)
  moreover have "u_names u2 = u_names v" using o2 by (auto simp: new_fd_def Let_def)
  moreover have "fd_at fi u2 = Some (ii, 0)" "fi \<noteq> fo" using new_fd_other [OF o2, of fi] v(1) by auto
  ultimately show ?thesis using f1 f2 v assms(2)
    by (intro exI [of _ fi] exI [of _ fo] exI [of _ io] exI [of _ u1] exI [of _ u2] exI [of _ "u_names v"]) (auto simp: two_files_def)
qed

lemma coff2noff_run:
  assumes "coff_file coff ss" and "\<forall>sc \<in> set ss. sect_ok coff sc" "one_each ss" "40 + int (length (body_of coff ss)) < 2 ^ 31"
    and "u_names u nm = Some ii" "u_inodes u ii = coff" "u_names u out \<noteq> Some ii" "u_next u \<noteq> ii" "may_read nm" "may_write out"
  shows "\<exists>h io u'. coff2noff may_read may_write junk [nm, out] u = Exit 0 u' \<and> copied coff ss h \<and> u_names u' out = Some io \<and>
    u_inodes u' io = noff_bytes h @ body_of coff ss \<and> u_inodes u' ii = coff"
proof -
  let ?n = "unat (coff_short coff 2)"
  have c: "coff_short coff 0 = MIPSELMAGIC" "coff_short (drop 20 coff) 0 = OMAGIC" "76 + 40 * ?n \<le> length coff"
    "ss = map (\<lambda>i. section_header (take 40 (drop (76 + 40 * i) coff))) [0..<?n]"
    using assms(1) by (auto simp: coff_file_def)
  from open_two [OF assms(5-8)] obtain fi fo io u1 u2 names where
    o: "u_open True False nm u = (fi, u1)" "fi \<noteq> - 1" "u_open True True out u1 = (fo, u2)" "two_files fi fo ii io coff [] 0 names u2"
      "fd_at fi u2 = Some (ii, int 0)" "names out = Some io" by auto
  from read_input [OF o(4,5), of 20 "Some out"] c(3) obtain u3 where
    u3: "tool_Read (Some out) fi 20 u2 = Next (take 20 coff) u3" "two_files fi fo ii io coff [] 0 names u3" "fd_at fi u3 = Some (ii, int 20)" by auto
  from read_input [OF u3(2,3), of 56 "Some out"] c(3) obtain u4 where
    u4: "tool_Read (Some out) fi 56 u3 = Next (take 56 (drop 20 coff)) u4" "two_files fi fo ii io coff [] 0 names u4" "fd_at fi u4 = Some (ii, int 76)" by auto
  from read_input [OF u4(2,3), of "40 * ?n" "Some out"] c(3) obtain u5 where
    u5: "tool_Read (Some out) fi (uint (coff_short coff 2) * 40) u4 = Next (take (40 * ?n) (drop 76 coff)) u5" "two_files fi fo ii io coff [] 0 names u5"
    by (auto simp: mult.commute)
  have sec: "map (\<lambda>i. section_header (take 40 (drop (40 * i) (take (40 * ?n) (drop 76 coff))))) [0..<?n] = ss"
    unfolding c(4) by (auto simp: drop_take min_def add.commute)
  let ?u6 = "snd (u_lseek fo 40 0 u5)"
  have "two_files fi fo ii io coff (out_file (body_of coff [])) (40 + int (length (body_of coff []))) names ?u6"
    using seek_output [OF u5(2), of 40] by (simp add: body_of_def out_file_def)
  moreover have "copied coff [] (empty_header junk)" by (simp add: copied_def empty_header_def placed_def)
  ultimately obtain h u7 where
    u7: "copy_sections (Some out) fi fo ss 40 (empty_header junk) ?u6 = Next h u7" "copied coff ss h"
      "two_files fi fo ii io coff (out_file (body_of coff ss)) (40 + int (length (body_of coff ss))) names u7"
    using copy_sections_ok [of fi fo ii io coff "[]" names ?u6 "empty_header junk" ss "Some out"] assms(2-4) by (auto simp: body_of_def)
  have "noff_bytes h \<noteq> []" using noff_bytes_length [of h] by (metis list.size(3) zero_neq_numeral)
  from write_output [OF seek_output [OF u7(3), of 0, THEN conjunct1] this, of "Some out"] obtain u9 where
    u9: "tool_Write (Some out) fo (noff_bytes h) (snd (u_lseek fo 0 0 u7)) = Next () u9"
      "two_files fi fo ii io coff (file_write (out_file (body_of coff ss)) 0 (noff_bytes h)) 40 names u9" by auto
  have "file_write (out_file (body_of coff ss)) 0 (noff_bytes h) = noff_bytes h @ body_of coff ss" by (simp add: file_write_def out_file_def)
  moreover have "coff2noff may_read may_write junk [nm, out] u = Exit 0 (snd (u_close fo (snd (u_close fi u9))))"
    using o(1-3) assms(9,10) u3(1) u4(1) u5(1) u7(1) u9(1) c(1,2) sec
    by (simp add: coff2noff_def coff_short_take)
  moreover have "u_names (snd (u_close fd w)) = u_names w" "u_inodes (snd (u_close fd w)) = u_inodes w" for fd w
    by (simp_all add: u_close_def split: option.splits)
  ultimately show ?thesis using u7(2) u9(2) o(6)
    by (intro exI [of _ h] exI [of _ io] exI [of _ "snd (u_close fo (snd (u_close fi u9)))"]) (simp add: two_files_def)
qed

subsection \<open>Properties\<close>

definition size_of :: "(scnhdr \<Rightarrow> bool) \<Rightarrow> scnhdr list \<Rightarrow> int32" where
  "size_of kind ss = (case filter kind ss of [] \<Rightarrow> 0 | sc # _ \<Rightarrow> s_size sc)"

lemma copied_sizes:
  assumes "copied coff ss h"
  shows "sg_size (nf_code h) = size_of is_text ss" "sg_size (nf_initData h) = size_of is_data ss" "sg_size (nf_uninitData h) = size_of is_bss ss"
  using assms by (auto simp: copied_def placed_def holds_section_def size_of_def)

lemma coff2noff_correct:
  assumes "coff_file coff ss" and "\<forall>sc \<in> set ss. sect_ok coff sc" "one_each ss" "40 + int (length (body_of coff ss)) < 2 ^ 31"
    and "u_names u nm = Some ii" "u_inodes u ii = coff" "u_names u out \<noteq> Some ii" "u_next u \<noteq> ii" "may_read nm" "may_write out"
  shows "\<exists>h noff io u'. coff2noff may_read may_write junk [nm, out] u = Exit 0 u' \<and>
    u_names u' out = Some io \<and> u_inodes u' io = noff \<and> u_inodes u' ii = coff \<and> noff_header (take 40 noff) = h \<and> noffMagic h = NOFFMAGIC \<and>
    sg_size (nf_code h) = size_of is_text ss \<and> sg_size (nf_initData h) = size_of is_data ss \<and> sg_size (nf_uninitData h) = size_of is_bss ss \<and>
    (\<forall>x. noff_image h noff x = coff_image coff ss x) \<and>
    (\<forall>bm. bm_wf bm \<and> numBits bm = NumPhysPages \<and> unat (noff_pages h) \<le> card ({0..<NumPhysPages} - marked bm) \<and>
       (\<forall>sc \<in> set ss. is_text sc \<or> is_data sc \<longrightarrow> sint (s_paddr sc) + sint (s_size sc) \<le> int (128 * unat (noff_pages h))) \<longrightarrow> fits h noff bm)"
proof -
  from coff2noff_run [OF assms(1-8), of may_read may_write junk] assms(9,10) obtain h io u' where
    r: "coff2noff may_read may_write junk [nm, out] u = Exit 0 u'" "copied coff ss h" "u_names u' out = Some io"
      "u_inodes u' io = noff_bytes h @ body_of coff ss" "u_inodes u' ii = coff" by auto
  let ?noff = "noff_bytes h @ body_of coff ss"
  have hd: "noff_header (take 40 ?noff) = h" by (simp add: noff_header_of_bytes)
  have m: "noffMagic h = NOFFMAGIC" "placed coff (body_of coff ss) (nf_code h) (filter is_text ss)"
      "placed coff (body_of coff ss) (nf_initData h) (filter is_data ss)" using r(2) by (simp_all add: copied_def)
  have "fits h ?noff bm" if bm: "bm_wf bm \<and> numBits bm = NumPhysPages \<and> unat (noff_pages h) \<le> card ({0..<NumPhysPages} - marked bm) \<and>
       (\<forall>sc \<in> set ss. is_text sc \<or> is_data sc \<longrightarrow> sint (s_paddr sc) + sint (s_size sc) \<le> int (128 * unat (noff_pages h)))" for bm
  proof -
    have "seg_ok (unat (noff_pages h)) ?noff (nf_code h)" by (rule placed_seg_ok [OF m(2) assms(2)]) (use bm in simp_all)
    moreover have "seg_ok (unat (noff_pages h)) ?noff (nf_initData h)" by (rule placed_seg_ok [OF m(3) assms(2)]) (use bm in simp_all)
    ultimately show ?thesis using bm m(1) assms(4) hd by (simp add: fits_def)
  qed
  then show ?thesis using r hd m(1) copied_sizes [OF r(2)] copied_image [OF r(2) assms(2)] by blast
qed

text \<open>C15. The executables that the kernel loads are the programs that were compiled. For a COFF file whose sections lie inside the file, with at most
  one section of code, one of data and one of uninitialised data that are not empty, in any order and among any number of empty ones,
  \<^verbatim>\<open>coff2noff\<close> exits with 0 and leaves a file whose header has the magic number and the sizes of the sections, and whose memory
  image, as the loader of the kernel understands the header, holds every byte of the sections at its address and zero elsewhere, whatever the
  uninitialised fields of the header were. The input is unchanged. When the sections lie inside the address space that the header
  asks for and there are enough free frames, the file is one that \<^verbatim>\<open>Exec\<close> can start.\<close>

theorem coff2noff_image:
  assumes "coff_file coff ss" and "\<forall>sc \<in> set ss. sect_ok coff sc" "one_each ss" "40 + int (length (body_of coff ss)) < 2 ^ 31"
    and "u_names u nm = Some ii" "u_inodes u ii = coff" "u_names u out \<noteq> Some ii" "u_next u \<noteq> ii" "may_read nm" "may_write out"
  shows "\<exists>h noff io u'. coff2noff may_read may_write junk [nm, out] u = Exit 0 u' \<and>
    u_names u' out = Some io \<and> u_inodes u' io = noff \<and> u_inodes u' ii = coff \<and> noff_header (take 40 noff) = h \<and> noffMagic h = NOFFMAGIC \<and>
    sg_size (nf_code h) = size_of is_text ss \<and> sg_size (nf_initData h) = size_of is_data ss \<and> sg_size (nf_uninitData h) = size_of is_bss ss \<and>
    (\<forall>x. noff_image h noff x = coff_image coff ss x) \<and>
    (\<forall>bm. bm_wf bm \<and> numBits bm = NumPhysPages \<and> unat (noff_pages h) \<le> card ({0..<NumPhysPages} - marked bm) \<and>
       (\<forall>sc \<in> set ss. is_text sc \<or> is_data sc \<longrightarrow> sint (s_paddr sc) + sint (s_size sc) \<le> int (128 * unat (noff_pages h))) \<longrightarrow> fits h noff bm)"
  using coff2noff_correct [OF assms(1-8), of may_read may_write junk] assms(9,10) by simp

text \<open>The output of the compiler for a program of two instructions, with empty data and eight bytes of uninitialised data.\<close>

definition coff_section :: "string \<Rightarrow> int32 \<Rightarrow> int32 \<Rightarrow> int32 \<Rightarrow> byte list" where
  "coff_section n a sz q = take 8 (char_bytes n @ replicate 8 0) @ concat (map (host_store32 False) [a, a, sz, q, 0, 0, 0, 0])"

definition tiny_coff :: "byte list" where
  "tiny_coff = [0x62, 1, 3, 0] @ replicate 16 0 @ [7, 1] @ replicate 54 0 @
     coff_section ''.text'' 0 8 196 @ coff_section ''.data'' 8 0 0 @ coff_section ''.bss'' 8 8 0 @ concat (map (host_store32 False) [0x24020007, 12])"

definition tiny_sections :: "scnhdr list" where
  "tiny_sections = [\<lparr>s_name = [46, 116, 101, 120, 116, 0, 0, 0], s_paddr = 0, s_size = 8, s_scnptr = 196\<rparr>,
     \<lparr>s_name = [46, 100, 97, 116, 97, 0, 0, 0], s_paddr = 8, s_size = 0, s_scnptr = 0\<rparr>,
     \<lparr>s_name = [46, 98, 115, 115, 0, 0, 0, 0], s_paddr = 8, s_size = 8, s_scnptr = 0\<rparr>]"

definition no_header :: NoffHeader where
  "no_header = (let z = \<lparr>sg_virtualAddr = 99, sg_inFileAddr = 99, sg_size = 99\<rparr> in \<lparr>noffMagic = 0, nf_code = z, nf_initData = z, nf_uninitData = z\<rparr>)"

lemma tiny_coff_file: "coff_file tiny_coff tiny_sections"
  by (simp add: coff_file_def tiny_coff_def tiny_sections_def coff_section_def char_bytes_def host_store32_def coff_short_def coff_word_def
      section_header_def host_load16_def host_load32_def ShortToHost_def WordToHost_def MIPSELMAGIC_def OMAGIC_def const_defs Let_def upt_rec)
    (simp add: numeral_eq_Suc)

lemma tiny_kinds:
  "filter is_text tiny_sections = [hd tiny_sections]" "filter is_data tiny_sections = []" "filter is_bss tiny_sections = [tiny_sections ! 2]"
  by (simp_all add: tiny_sections_def is_text_def is_data_def is_bss_def named_def c_string_def char_bytes_def)

lemma tiny_coff_ok:
  "\<forall>sc \<in> set tiny_sections. sect_ok tiny_coff sc" "one_each tiny_sections" "40 + int (length (body_of tiny_coff tiny_sections)) < 2 ^ 31"
  "coff_image tiny_coff tiny_sections 4 = 12"
proof -
  have len: "length tiny_coff = 204" by (simp add: tiny_coff_def coff_section_def char_bytes_def host_store32_def Let_def)
  show "\<forall>sc \<in> set tiny_sections. sect_ok tiny_coff sc"
    by (simp add: sect_ok_def len tiny_sections_def is_text_def is_data_def is_bss_def named_def c_string_def char_bytes_def)
  show "one_each tiny_sections" by (simp add: one_each_def tiny_kinds)
  have "filter (\<lambda>sc. is_text sc \<or> is_data sc) tiny_sections = [hd tiny_sections]"
    by (simp add: tiny_sections_def is_text_def is_data_def named_def c_string_def char_bytes_def)
  then show "40 + int (length (body_of tiny_coff tiny_sections)) < 2 ^ 31" by (simp add: body_of_def sect_bytes_def len tiny_sections_def)
  show "coff_image tiny_coff tiny_sections 4 = 12"
    by (simp add: coff_image_def tiny_kinds)
      (simp add: covers_def section_byte_def tiny_sections_def tiny_coff_def coff_section_def char_bytes_def host_store32_def Let_def nth_append)
qed

definition tiny_host :: unixfs where
  "tiny_host = \<lparr>u_names = [[97] \<mapsto> 0], u_inodes = (\<lambda>_. tiny_coff), u_fds = [], u_next = 1\<rparr>"

theorem coff2noff_image_witness:
  "\<exists>h noff io u'. coff2noff (\<lambda>_. True) (\<lambda>_. True) no_header [[97], [98]] tiny_host = Exit 0 u' \<and>
     u_names u' [98] = Some io \<and> u_inodes u' io = noff \<and> noff_header (take 40 noff) = h \<and> sg_size (nf_uninitData h) = 8 \<and> noff_image h noff 4 = 12"
proof -
  have bss: "size_of is_bss tiny_sections = 8" by (simp add: size_of_def tiny_kinds) (simp add: tiny_sections_def)
  from coff2noff_image [OF tiny_coff_file tiny_coff_ok(1-3), of tiny_host "[97]" 0 "[98]" "\<lambda>_. True" "\<lambda>_. True" no_header]
  obtain h noff io u' where
    "coff2noff (\<lambda>_. True) (\<lambda>_. True) no_header [[97], [98]] tiny_host = Exit 0 u'" "u_names u' [98] = Some io" "u_inodes u' io = noff"
      "noff_header (take 40 noff) = h" "sg_size (nf_uninitData h) = size_of is_bss tiny_sections" "\<forall>x. noff_image h noff x = coff_image tiny_coff tiny_sections x"
    by (auto simp: tiny_host_def)
  then show ?thesis using tiny_coff_ok(4) bss by auto
qed

end
