(* ===== verification/Spec2Isabelle.thy ===== *)
theory Spec2Isabelle
  imports Thread_Steps Mips_Safety File_System Post_Office Int_Text Exec_Call Coff_Noff
begin

text \<open>
  The Nachos 3.4 kernel with system calls (directory code of the sources; all file names below are relative to it).

  \<^bold>\<open>The program.\<close> Nachos is an operating system kernel that runs, together with the machine it is written for, as one UNIX process. The directory
  machine simulates a MIPS processor with paged memory, a clock with an ordered list of pending interrupts, and a timer, console, disk and
  network device. The directory threads has threads, the scheduler, semaphores, the linked list, and the process and semaphore tables; filesys has
  a file system on the simulated disk and a stub that hands files to UNIX; userprog has address spaces, the bitmap and the handler of exceptions
  and system calls; network has the post office; bin has the converter that makes executables.
  A user instruction ends in a clock tick, a clock tick runs the interrupt handlers that are due, a handler wakes threads up through semaphores, and an
  exception or system call runs kernel code for the current thread.

  \<^bold>\<open>How it is modelled.\<close> A call returns a value or stops the process for a named reason (\<open>'a res\<close>: failed \<^verbatim>\<open>ASSERT\<close>, \<^verbatim>\<open>Halt\<close>, undefined behaviour of C++, a
  loop that never ends). The state is one record that grows with the layers, \<open>machine\<close>, \<open>hardware\<close>, \<open>kernel\<close>, \<open>devices\<close>, and then \<open>os\<close> (user programs) or
  \<open>office\<close> (network); every operation is a function of it, written for all extensions of its own layer. Objects that are shared by pointers (threads, semaphores,
  address spaces, page tables, list cells) live in stores indexed by the pointer. Values of the simulated machine are 32-bit words; C integers are \<open>int\<close>. A sum
  that a caller or a user program can drive out of range goes through \<open>cint\<close> and is undefined there: the value of a semaphore, the end of a request to a file, the
  size of a copied buffer, the number that is printed or read, the positions of the loader and the converter. The counters of the simulation itself have no bound: the ticks of the
  clock and the other statistics (\<open>int\<close> in machine/stats.h, so the theorems hold for runs of less than \<open>2 ^ 31\<close> ticks), and the count of waits of a process.

  \<^bold>\<open>The theories.\<close>
  \<^item> \<open>Nachos_Prelude\<close>: results, checked arrays, loops and the lemma collections.
  \<^item> \<open>Bitmap\<close> (userprog/bitmap.cc): the packed words refine a set of bits (C34), \<open>Find\<close> takes the first clear one (C35). Interface \<open>slot_map\<close>.
  \<^item> \<open>Linked_List\<close> (threads/list.cc): cells in a heap; FIFO queue (C33), stable sorted insertion (C32). Interface \<open>fifo_queue\<close>.
  \<^item> \<open>Machine_Memory\<close> (machine/machine.cc, machine/translate.cc): registers, byte order (C37), address translation (C18).
  \<^item> \<open>Interrupt\<close> (machine/interrupt.cc, machine/stats.cc): clock and pending interrupts. Interface \<open>interrupt_handlers\<close>, interpreted on the device handlers.
  \<^item> \<open>Threads\<close> (threads/thread.cc, scheduler.cc, synch.cc): the methods as one thread sees them; a switch keeps the user state (C28). \<open>Thread_Steps\<close>: all
    threads interleaved, as an inductive step relation; every thread is in one place (C6), no wakeup is lost (C11).
  \<^item> \<open>Devices\<close> (machine/timer.cc, console.cc, disk.cc, network.cc): ticks deliver exactly the due interrupts (C26), \<open>Idle\<close> (C27).
  \<^item> \<open>Mips\<close>, \<open>Mips_Arith\<close>, \<open>Mips_Safety\<close> (machine/mipssim.cc): decoding (C38), every instruction, multiplication (C13), overflow (C29), virtual memory as a byte
    store (C9). Interface \<open>trap_handler\<close>, interpreted on the exception handler of the kernel.
  \<^item> \<open>File_Header\<close>, \<open>Open_File\<close>, \<open>Synch_Disk\<close>, \<open>Directory\<close>, \<open>File_System\<close> (the files of filesys): allocation of sectors (C39), a file as an array of bytes on the
    interrupt-driven disk (C7, C22), a directory as a finite map (C23), formatting, creation and removal of files (C8, C24, C25), and \<open>Open\<close>. Interface \<open>sector_store\<close>.
  \<^item> \<open>Os_State\<close>, \<open>Stub_Files\<close> (threads/system.cc, machine/sysdep.cc, the stub branches of filesys/openfile.h and filesys.h): the kernel that runs user programs, and UNIX files.
  \<^item> \<open>Synch_Console\<close> (threads/synchcons.cc): output appears in order (C21). Interfaces \<open>console_writer\<close> and \<open>lone_kernel\<close>: what kernel code relies on
    when it runs without being interrupted by another thread.
  \<^item> \<open>Addr_Space\<close>, \<open>Loading\<close> (userprog/addrspace.cc): an executable is loaded into frames of its own (C10), which are given back (C31).
  \<^item> \<open>Semaphore_Table\<close>, \<open>Named_Semaphores\<close> (threads/sem.cc, stable.cc): named semaphores as a finite map (C16).
  \<^item> \<open>Process_Table\<close> (threads/pcb.cc, ptable.cc), \<open>First_Process\<close>, \<open>Exec_Failure\<close>, \<open>Child_Process\<close>, \<open>Process_Join\<close>: the first process is started (C3), a
    process starts another one (C4); an \<open>Exec\<close> that fails has no effect (C14); the exit of a process tells its parent and releases its space (C5). Interfaces
    \<open>process_kernel\<close>, \<open>forking_kernel\<close> and \<open>waking_kernel\<close>, each an extension of the one before and the first of \<open>lone_kernel\<close>.
  \<^item> \<open>Syscalls\<close>, \<open>Int_Text\<close>, \<open>User_Copy\<close>, \<open>Exec_Call\<close> (userprog/exception.cc): every system call; user instructions are contained (C12), numbers are read back
    as printed (C36), what is printed (C40), copies between user and kernel space (C20), \<open>Exec\<close> from the trap to the next instruction of the caller (C2).
  \<^item> \<open>Boot\<close> (threads/system.cc, userprog/progtest.cc): the kernel boots into the state that the other theorems start from (C19).
  \<^item> \<open>Post_Office\<close> (network/post.cc, threads/synchlist.cc): mailboxes are queues (C30), mail is delivered (C17). Interface \<open>mailboxes\<close>.
  \<^item> \<open>Coff_Noff\<close> (bin/coff2noff.c): the converted file has the image of the compiled one (C15).
  \<^item> This theory: from the compiled file to the running process (C1).

  Each interface is a locale with the operations and laws that a client uses; the clients are verified in it, and the provider's theory (or the theory of the handlers)
  interprets it on the definitions of the model.

  \<^bold>\<open>Loops.\<close> Loops over a known range are structural recursion. The loops that need not end (waiting for a semaphore or a
  character, the idle loop, due interrupts, walks along pointers, the postal worker) are partial functions with \<open>None\<close> for
  not ending; the theorems about them state that the loop returns, or in which state it does not. \<^verbatim>\<open>Machine::Run\<close> never returns, and \<open>Machine_Run n\<close> is its state after \<open>n\<close> rounds. The sizes are those of the source: 128 frames of 128
  bytes, 1024 sectors, ten processes, semaphores and open files.

  \<^bold>\<open>Parameters.\<close> What UNIX delivers (typed characters, arriving packets, random numbers, which files may be opened), what fresh memory contains, and \<^verbatim>\<open>SWITCH\<close> are
  arguments. Theorems about one process use a \<^verbatim>\<open>SWITCH\<close> that returns at once, because the thread that waits is the one that is woken; the
  interleaving of several threads is the subject of \<open>Thread_Steps\<close>.

  \<^bold>\<open>Not modelled.\<close> The assembly routine \<^verbatim>\<open>SWITCH\<close> (threads/switch.s). The parts of machine/sysdep.cc that call sockets, signals, \<^verbatim>\<open>select\<close> and the random
  number generator of UNIX. The loop of \<^verbatim>\<open>main\<close> over its arguments and the drivers it starts (\<^verbatim>\<open>ConsoleTest\<close> needs a second console device;
  threadtest.cc, fstest.cc and nettest.cc only exercise the components). Messages for the terminal and the printing of statistics. The other
  programs of bin, which the kernel does not use, and the user programs of test. Of the operations of several processes all are modelled (\<open>Process_Table\<close>), but
  the theorem about \<open>Exit\<close> ends where the thread gives up the processor, and \<open>Join\<close>, which does not distinguish the children of its caller, has lemmas only for the cases
  in which it does not wait; threads that wait for each other are the subject of the step relation.
\<close>

subsection \<open>From the compiler to the first instruction\<close>

text \<open>The number of pages that a program with these sections needs, with its stack.\<close>

definition coff_pages :: "scnhdr list \<Rightarrow> int32" where
  "coff_pages ss = (let size = size_of is_text ss + size_of is_data ss + size_of is_bss ss + 1024 in
     size div 128 + (if size mod 128 > 0 then 1 else 0))"

lemma noff_pages_coff:
  assumes "sg_size (nf_code h) = size_of is_text ss" "sg_size (nf_initData h) = size_of is_data ss" "sg_size (nf_uninitData h) = size_of is_bss ss"
  shows "noff_pages h = coff_pages ss"
  using assms by (simp add: noff_pages_def coff_pages_def const_defs)

text \<open>The file that a name leads to.\<close>

definition file_named :: "unixfs \<Rightarrow> byte list \<Rightarrow> byte list option" where
  "file_named u name = map_option (u_inodes u) (u_names u name)"

text \<open>The sections of a program fit: their addresses are inside its space, and enough frames are free.\<close>

definition room_for :: "scnhdr list \<Rightarrow> bitmap \<Rightarrow> bool" where
  "room_for ss bm \<longleftrightarrow> bm_wf bm \<and> numBits bm = NumPhysPages \<and> unat (coff_pages ss) \<le> card ({0..<NumPhysPages} - marked bm) \<and>
     (\<forall>sc \<in> set ss. is_text sc \<or> is_data sc \<longrightarrow> sint (s_paddr sc) + sint (s_size sc) \<le> int (128 * unat (coff_pages ss)))"

text \<open>C1. A compiled program is what the machine runs. Let \<^verbatim>\<open>coff2noff\<close> convert a COFF file (with at most one nonempty section of each kind,
  inside the file). It exits with 0, and in every booted kernel whose host has the file it wrote, \<^verbatim>\<open>ExecUpdate\<close> of that file starts process 0, if the
  sections fit into the address space and the free frames: every virtual address of the new space holds the byte that the sections of the
  COFF file put there, and zero where there is none; the program counter is 0, the next one 4, the stack pointer is 16 bytes below the end of the space.\<close>

theorem compiled_program_starts:
  assumes "coff_file coff ss" and "\<forall>sc \<in> set ss. sect_ok coff sc" "one_each ss" "40 + int (length (body_of coff ss)) < 2 ^ 31"
    and "u_names u source = Some ii" "u_inodes u ii = coff" "u_names u (c_string nm) \<noteq> Some ii" "u_next u \<noteq> ii" "may_read source" "may_write (c_string nm)"
  shows "\<exists>noff u'. coff2noff may_read may_write junk [source, c_string nm] u = Exit 0 u' \<and> file_named u' (c_string nm) = Some noff \<and>
    (\<forall>ux (s :: 'a os_scheme). idle_kernel ux s \<and> al (c_string nm) \<and> file_named (hostfs s) (c_string nm) = Some noff \<and> room_for ss (gPhysPageBitmap s) \<longrightarrow>
       (\<exists>s' :: 'a os_scheme. ExecUpdate (real_env self_switch ux yield al jb jw) (Some nm) s = Inr (0, s') \<and>
          (\<forall>x < 128 * unat (coff_pages ss). vbyte s' x = Some (coff_image coff ss x)) \<and>
          registers s' = (replicate 40 0)[35 := 4, 29 := coff_pages ss * 128 - 16]))"
proof -
  from coff2noff_correct [OF assms(1-8), of may_read may_write junk] assms(9,10) obtain h noff io u' where
    r: "coff2noff may_read may_write junk [source, c_string nm] u = Exit 0 u'" "u_names u' (c_string nm) = Some io" "u_inodes u' io = noff"
      "sg_size (nf_code h) = size_of is_text ss" "sg_size (nf_initData h) = size_of is_data ss" "sg_size (nf_uninitData h) = size_of is_bss ss"
      "\<forall>x. noff_image h noff x = coff_image coff ss x"
      "\<forall>bm. bm_wf bm \<and> numBits bm = NumPhysPages \<and> unat (noff_pages h) \<le> card ({0..<NumPhysPages} - marked bm) \<and>
       (\<forall>sc \<in> set ss. is_text sc \<or> is_data sc \<longrightarrow> sint (s_paddr sc) + sint (s_size sc) \<le> int (128 * unat (noff_pages h))) \<longrightarrow> fits h noff bm"
    by auto
  note pages = noff_pages_coff [OF r(4-6)]
  have "\<exists>s' :: 'a os_scheme. ExecUpdate (real_env self_switch ux yield al jb jw) (Some nm) s = Inr (0, s') \<and>
      (\<forall>x < 128 * unat (coff_pages ss). vbyte s' x = Some (coff_image coff ss x)) \<and>
      registers s' = (replicate 40 0)[35 := 4, 29 := coff_pages ss * 128 - 16]"
    if k: "idle_kernel ux s" "al (c_string nm)" "file_named (hostfs s) (c_string nm) = Some noff" "room_for ss (gPhysPageBitmap s)"
    for ux and s :: "'a os_scheme"
  proof -
    obtain i where i: "u_names (hostfs s) (c_string nm) = Some i" "u_inodes (hostfs s) i = noff"
      using k(3) by (auto simp: file_named_def)
    have "fits h noff (gPhysPageBitmap s)" using r(8) k(4) pages by (simp add: room_for_def)
    from first_process_starts [of ux s al nm i noff h, OF k(1,2) i this, of yield jb jw] r(7) pages show ?thesis by auto
  qed
  moreover have "file_named u' (c_string nm) = Some noff" using r(2,3) by (simp add: file_named_def)
  ultimately show ?thesis using r(1) by blast
qed

lemma idle_kernel_host: "idle_kernel ux s \<Longrightarrow> idle_kernel ux (s\<lparr>hostfs := v\<rparr>)"
proof -
  assume i: "idle_kernel ux s"
  have "resting ux (s\<lparr>hostfs := v\<rparr>)" by (rule lone.ok_same [of ux s]) (use i in \<open>simp_all add: idle_kernel_def same_processor_def\<close>)
  with i show ?thesis by (simp add: idle_kernel_def unused_above_def)
qed

lemma tiny_room: "coff_pages tiny_sections = 9" "room_for tiny_sections (gPhysPageBitmap exec_machine)"
proof -
  show p: "coff_pages tiny_sections = 9" by (simp add: coff_pages_def size_of_def tiny_kinds) (simp add: tiny_sections_def)
  have "noff_pages (noff_header (take 40 tiny_program)) = 9" by (simp add: noff_pages_def tiny_header const_defs Let_def)
  then have "bm_wf (gPhysPageBitmap exec_machine)" "numBits (gPhysPageBitmap exec_machine) = NumPhysPages"
      "9 \<le> card ({0..<NumPhysPages} - marked (gPhysPageBitmap exec_machine))"
    using loader_machine_loadable by (simp_all add: loadable_def exec_machine_def)
  moreover have "\<forall>sc \<in> set tiny_sections. sint (s_paddr sc) + sint (s_size sc) \<le> 1152" by (simp add: tiny_sections_def)
  ultimately show "room_for tiny_sections (gPhysPageBitmap exec_machine)" by (simp add: room_for_def p)
qed

theorem compiled_program_starts_witness:
  "\<exists>noff u' s'. coff2noff (\<lambda>_. True) (\<lambda>_. True) no_header [[97], [98]] tiny_host = Exit 0 u' \<and> file_named u' [98] = Some noff \<and>
     ExecUpdate (real_env self_switch silence Inr (\<lambda>_. True) (\<lambda>_. 0) (\<lambda>_. 0)) (Some [98, 0])
       (exec_machine\<lparr>hostfs := \<lparr>u_names = [[98] \<mapsto> 0], u_inodes = (\<lambda>_. noff), u_fds = [], u_next = 1\<rparr>\<rparr>) = Inr (0, s') \<and>
     vbyte s' 4 = Some 12 \<and> registers s' ! 29 = 1136"
proof -
  have c: "c_string [98, 0] = [98 :: byte]" by (simp add: c_string_def)
  from compiled_program_starts [OF tiny_coff_file tiny_coff_ok(1-3), of tiny_host "[97]" 0 "[98, 0]" "\<lambda>_. True" "\<lambda>_. True" no_header
      "\<lambda>_. True" "Inr :: os \<Rightarrow> os res" "\<lambda>_. 0" "\<lambda>_. 0", unfolded c tiny_room(1)]
  obtain noff u' where
    n: "coff2noff (\<lambda>_. True) (\<lambda>_. True) no_header [[97], [98]] tiny_host = Exit 0 u'" "file_named u' [98] = Some noff"
    and e: "\<forall>ux (s :: os). idle_kernel ux s \<and> file_named (hostfs s) [98] = Some noff \<and> room_for tiny_sections (gPhysPageBitmap s) \<longrightarrow>
      (\<exists>s' :: os. ExecUpdate (real_env self_switch ux Inr (\<lambda>_. True) (\<lambda>_. 0) (\<lambda>_. 0)) (Some [98, 0]) s = Inr (0, s') \<and>
        (\<forall>x < 128 * unat (9 :: int32). vbyte s' x = Some (coff_image tiny_coff tiny_sections x)) \<and> registers s' = (replicate 40 0)[35 := 4, 29 := 9 * 128 - 16])"
    by (auto simp: tiny_host_def)
  let ?s = "exec_machine\<lparr>hostfs := \<lparr>u_names = [[98] \<mapsto> 0], u_inodes = (\<lambda>_. noff), u_fds = [], u_next = 1\<rparr>\<rparr>"
  have "idle_kernel silence ?s" by (rule idle_kernel_host [OF exec_machine_idle])
  moreover have "file_named (hostfs ?s) [98] = Some noff" by (simp add: file_named_def)
  moreover have "room_for tiny_sections (gPhysPageBitmap ?s)" using tiny_room(2) by simp
  ultimately obtain s' :: os where
    s': "ExecUpdate (real_env self_switch silence Inr (\<lambda>_. True) (\<lambda>_. 0) (\<lambda>_. 0)) (Some [98, 0]) ?s = Inr (0, s')"
      "\<forall>x < 128 * unat (9 :: int32). vbyte s' x = Some (coff_image tiny_coff tiny_sections x)" "registers s' = (replicate 40 0)[35 := 4, 29 := 9 * 128 - 16]"
    using e by blast
  from s'(2) [rule_format, of 4] s'(1,3) n tiny_coff_ok(4) show ?thesis by (intro exI [of _ noff] exI [of _ u'] exI [of _ s']) (simp add: nth_list_update)
qed

end
